(* ===== verification/Prelude.thy ===== *)
theory Prelude
  imports Main "HOL-Library.Word" "HOL-Library.Signed_Division" "HOL-Library.Monad_Syntax"
begin

text \<open>
  What every theory of the development shares: the names of the machine integer types, the
  world a kernel routine runs in, the error numbers of \<^verbatim>\<open>include/errno.h\<close>, the constants of
  \<^verbatim>\<open>include/signal.h\<close>, byte-addressed memory, and generic lemmas on lists, words and loops.

  A routine that changes the kernel state \<open>'s\<close> and returns an \<open>'a\<close> is a function
  \<open>'s \<Rightarrow> ('a \<times> 's) option\<close>, written with the \<open>do\<close> blocks of \<^verbatim>\<open>HOL-Library.Monad_Syntax\<close>.
  \<open>None\<close> means that the C routine never returns to its caller: it panicked (\<^verbatim>\<open>panic_exp\<close> ends in
  \<^verbatim>\<open>for(;;);\<close>), it loops forever, or the task ended in \<^verbatim>\<open>do_exit\<close>. So a theorem that the
  result is \<open>Some\<close> says that the routine terminates and does not panic.
\<close>

unbundle bit_operations_syntax

section \<open>Machine integers\<close>

type_synonym u8 = "8 word"
type_synonym u16 = "16 word"
type_synonym u32 = "32 word"

text \<open>
  A C \<^verbatim>\<open>int\<close> is modelled as \<open>int\<close> where it only counts, and as \<open>u32\<close> where it is a mask
  or may wrap. \<open>s32\<close> is the wrap-around of a signed 32-bit result, as gcc computes it.
\<close>

definition s32 :: "int \<Rightarrow> int" where
  "s32 i = (i + 2 ^ 31) mod 2 ^ 32 - 2 ^ 31"

lemma s32_id [simp]: "- (2 ^ 31) \<le> i \<Longrightarrow> i < 2 ^ 31 \<Longrightarrow> s32 i = i"
  by (simp add: s32_def)

lemma s32_range: "- (2 ^ 31) \<le> s32 i" "s32 i < 2 ^ 31"
  by (simp_all add: s32_def)

section \<open>Memory\<close>

text \<open>
  Raw memory is a map from addresses to bytes; 32-bit and 16-bit words are stored low byte
  first, as on the 80386.
\<close>

type_synonym bytes = "u32 \<Rightarrow> u8"

definition ld16 :: "bytes \<Rightarrow> u32 \<Rightarrow> u16" where
  "ld16 m a = ucast (m a) OR push_bit 8 (ucast (m (a + 1)))"

definition st16 :: "u32 \<Rightarrow> u16 \<Rightarrow> bytes \<Rightarrow> bytes" where
  "st16 a v m = m(a := ucast v, a + 1 := ucast (drop_bit 8 v))"

definition ld32 :: "bytes \<Rightarrow> u32 \<Rightarrow> u32" where
  "ld32 m a = ucast (m a) OR push_bit 8 (ucast (m (a + 1)))
     OR push_bit 16 (ucast (m (a + 2))) OR push_bit 24 (ucast (m (a + 3)))"

definition st32 :: "u32 \<Rightarrow> u32 \<Rightarrow> bytes \<Rightarrow> bytes" where
  "st32 a v m = m(a := ucast v, a + 1 := ucast (drop_bit 8 v),
     a + 2 := ucast (drop_bit 16 v), a + 3 := ucast (drop_bit 24 v))"

text \<open>\<open>copy_bytes n src dst\<close> is a forward byte copy (\<^verbatim>\<open>cld; rep; movsb\<close> and its word forms).\<close>

fun copy_bytes :: "nat \<Rightarrow> u32 \<Rightarrow> u32 \<Rightarrow> bytes \<Rightarrow> bytes" where
  "copy_bytes 0 src dst m = m"
| "copy_bytes (Suc n) src dst m = copy_bytes n (src + 1) (dst + 1) (m(dst := m src))"

fun fill_bytes :: "nat \<Rightarrow> u8 \<Rightarrow> u32 \<Rightarrow> bytes \<Rightarrow> bytes" where
  "fill_bytes 0 c dst m = m"
| "fill_bytes (Suc n) c dst m = fill_bytes n c (dst + 1) (m(dst := c))"

section \<open>The world of a routine\<close>

text \<open>
  What a routine reaches through the hardware or through a pointer, bundled in one parameter:
  \<open>w_in w n port\<close> is the byte the \<open>n\<close>-th port read returns when it reads \<open>port\<close>;
  \<open>w_run w n s\<close> is the state in which a task runs again when it gave up the processor in \<open>s\<close>
  as the \<open>n\<close>-th switch, that is, what the other tasks and the interrupt handlers did meanwhile;
  \<open>w_call w f\<close> is the routine a timer's function pointer \<open>f\<close> points to;
  \<open>w_request w major\<close> is the \<^verbatim>\<open>request_fn\<close> of a block device; \<open>w_hd_times_out w\<close> and
  \<open>w_sync_inodes w\<close> are \<^verbatim>\<open>hd_times_out\<close> and \<^verbatim>\<open>sync_inodes\<close>, which the scheduler and the buffer
  cache call and which are built on them.
  Theorems hold for every world unless they say otherwise.
\<close>

record 's world =
  w_in :: "nat \<Rightarrow> u16 \<Rightarrow> u8"
  w_run :: "nat \<Rightarrow> 's \<Rightarrow> 's"
  w_call :: "nat \<Rightarrow> 's \<Rightarrow> 's option"
  w_request :: "nat \<Rightarrow> 's \<Rightarrow> 's option"
  w_hd_times_out :: "'s \<Rightarrow> 's option"
  w_sync_inodes :: "'s \<Rightarrow> 's option"

section \<open>Error numbers\<close>

abbreviation (input) EPERM :: int where "EPERM \<equiv> 1"
abbreviation (input) ENOENT :: int where "ENOENT \<equiv> 2"
abbreviation (input) ESRCH :: int where "ESRCH \<equiv> 3"
abbreviation (input) EINTR :: int where "EINTR \<equiv> 4"
abbreviation (input) EIO :: int where "EIO \<equiv> 5"
abbreviation (input) EBADF :: int where "EBADF \<equiv> 9"
abbreviation (input) ECHILD :: int where "ECHILD \<equiv> 10"
abbreviation (input) EAGAIN :: int where "EAGAIN \<equiv> 11"
abbreviation (input) ENOMEM :: int where "ENOMEM \<equiv> 12"
abbreviation (input) EACCES :: int where "EACCES \<equiv> 13"
abbreviation (input) ENODEV :: int where "ENODEV \<equiv> 19"
abbreviation (input) EINVAL :: int where "EINVAL \<equiv> 22"
abbreviation (input) EMFILE :: int where "EMFILE \<equiv> 24"
abbreviation (input) ENOTTY :: int where "ENOTTY \<equiv> 25"
abbreviation (input) ESPIPE :: int where "ESPIPE \<equiv> 29"
abbreviation (input) ERESTARTSYS :: int where "ERESTARTSYS \<equiv> 512"
abbreviation (input) ERESTARTNOINTR :: int where "ERESTARTNOINTR \<equiv> 513"
abbreviation (input) EERROR :: int where "EERROR \<equiv> 99"

section \<open>Signals\<close>

abbreviation (input) SIGHUP :: nat where "SIGHUP \<equiv> 1"
abbreviation (input) SIGINT :: nat where "SIGINT \<equiv> 2"
abbreviation (input) SIGQUIT :: nat where "SIGQUIT \<equiv> 3"
abbreviation (input) SIGILL :: nat where "SIGILL \<equiv> 4"
abbreviation (input) SIGTRAP :: nat where "SIGTRAP \<equiv> 5"
abbreviation (input) SIGIOT :: nat where "SIGIOT \<equiv> 6"
abbreviation (input) SIGFPE :: nat where "SIGFPE \<equiv> 8"
abbreviation (input) SIGKILL :: nat where "SIGKILL \<equiv> 9"
abbreviation (input) SIGSEGV :: nat where "SIGSEGV \<equiv> 11"
abbreviation (input) SIGALRM :: nat where "SIGALRM \<equiv> 14"
abbreviation (input) SIGCHLD :: nat where "SIGCHLD \<equiv> 17"
abbreviation (input) SIGCONT :: nat where "SIGCONT \<equiv> 18"
abbreviation (input) SIGSTOP :: nat where "SIGSTOP \<equiv> 19"
abbreviation (input) SIGTSTP :: nat where "SIGTSTP \<equiv> 20"
abbreviation (input) SIGTTIN :: nat where "SIGTTIN \<equiv> 21"
abbreviation (input) SIGTTOU :: nat where "SIGTTOU \<equiv> 22"

text \<open>\<^verbatim>\<open>1 << (sig - 1)\<close>, the bit of a signal in a mask.\<close>

definition sigbit :: "nat \<Rightarrow> u32" where
  "sigbit sig = push_bit (sig - 1) 1"

lemma bit_sigbit [simp]: "bit (sigbit sig) n \<longleftrightarrow> n = sig - 1 \<and> n < 32"
  by (auto simp: sigbit_def bit_simps)

section \<open>Lists, words and loops\<close>

named_theorems kdefs \<open>definitions of the routines, to unfold in evaluations\<close>

lemma unat_and_mask_le: "unat ((x :: 'a::len word) AND m) \<le> unat m"
  by (rule word_and_le1 [THEN word_le_nat_alt [THEN iffD1]])

lemma rotate1_snoc_hd: "xs \<noteq> [] \<Longrightarrow> rotate1 xs = tl xs @ [hd xs]"
  by (cases xs) auto

text \<open>A loop \<^verbatim>\<open>for (i = hi; i > 0; --i)\<close> visits \<open>down_to hi\<close>.\<close>

definition down_to :: "nat \<Rightarrow> nat list" where
  "down_to n = rev [1..<Suc n]"

lemma set_down_to [simp]: "set (down_to n) = {1..n}"
  by (auto simp: down_to_def)

lemma distinct_down_to [simp]: "distinct (down_to n)"
  by (simp add: down_to_def)

lemma fold_invariant: "P s \<Longrightarrow> (\<And>x s. x \<in> set xs \<Longrightarrow> P s \<Longrightarrow> P (f x s)) \<Longrightarrow> P (fold f xs s)"
  by (induction xs arbitrary: s) auto

declare bind_eq_Some_conv [simp]

section \<open>Lemmas on memory\<close>

definition aligned4 :: "u32 \<Rightarrow> bool" where
  "aligned4 a \<longleftrightarrow> unat a mod 4 = 0"

lemma unat_aligned4_add:
  assumes "aligned4 a" and "k < 4"
  shows "unat (a + of_nat k) = unat a + k"
proof -
  have "unat a < 4294967296" using unsigned_less [of a, where 'a = nat] by simp
  with assms have "unat a + k < 4294967296" unfolding aligned4_def by presburger
  moreover have "unat (of_nat k :: u32) = k" using assms(2) by (simp add: unat_of_nat)
  ultimately show ?thesis by (simp add: unat_word_ariths)
qed

lemma aligned4_neq:
  assumes "aligned4 a" "aligned4 b" "a \<noteq> b" "j < 4" "k < 4"
  shows "a + of_nat j \<noteq> b + of_nat k"
proof
  assume "a + of_nat j = b + of_nat k"
  then have "unat (a + of_nat j) = unat (b + of_nat k)" by simp
  then have e: "unat a + j = unat b + k"
    unfolding unat_aligned4_add [OF assms(1,4)] unat_aligned4_add [OF assms(2,5)] .
  obtain p q where "unat a = 4 * p" "unat b = 4 * q"
    using assms(1,2) unfolding aligned4_def by (meson mod_0_imp_dvd dvdE)
  with e assms(4,5) have "unat a = unat b" by auto
  with assms(3) show False by (simp add: word_unat_eq_iff)
qed

lemma ld32_st32_other:
  assumes "aligned4 a" "aligned4 b" "a \<noteq> b"
  shows "ld32 (st32 a v m) b = ld32 m b"
proof -
  have "st32 a v m (b + of_nat k) = m (b + of_nat k)" if "k < 4" for k
    using aligned4_neq [OF assms, of 0 k] aligned4_neq [OF assms, of 1 k]
      aligned4_neq [OF assms, of 2 k] aligned4_neq [OF assms, of 3 k] that
    by (auto simp: st32_def)
  from this [of 0] this [of 1] this [of 2] this [of 3] show ?thesis by (simp add: ld32_def)
qed

lemma bytes_of_word:
  "ucast (ucast v :: u8) OR push_bit 8 (ucast (ucast (drop_bit 8 v) :: u8))
     OR push_bit 16 (ucast (ucast (drop_bit 16 v) :: u8))
     OR push_bit 24 (ucast (ucast (drop_bit 24 v) :: u8)) = (v :: u32)"
proof (rule bit_word_eqI)
  fix n assume "n < LENGTH(32)"
  then consider "n < 8" | "8 \<le> n" "n < 16" | "16 \<le> n" "n < 24" | "24 \<le> n" "n < 32"
    by fastforce
  then show "bit (ucast (ucast v :: u8) OR push_bit 8 (ucast (ucast (drop_bit 8 v) :: u8))
     OR push_bit 16 (ucast (ucast (drop_bit 16 v) :: u8))
     OR push_bit 24 (ucast (ucast (drop_bit 24 v) :: u8)) :: u32) n = bit v n"
    by cases (auto simp: bit_simps)
qed

lemma ld32_st32 [simp]: "ld32 (st32 a v m) a = v"
  using bytes_of_word [of v] by (simp add: ld32_def st32_def)

text \<open>A byte is in the range of \<open>n\<close> bytes from \<open>d\<close> on if its distance from \<open>d\<close> is less than \<open>n\<close>.\<close>

lemma unat_distance_Suc:
  fixes x d :: u32
  assumes "x \<noteq> d"
  shows "unat (x - d) = Suc (unat (x - (d + 1)))"
proof -
  have "x - d \<noteq> 0" using assms by simp
  then have "unat (x - d - 1) = unat (x - d) - 1" by (simp add: unat_minus_one)
  moreover have "0 < unat (x - d)" using \<open>x - d \<noteq> 0\<close> by (simp add: unat_gt_0)
  ultimately show ?thesis unfolding diff_diff_eq by simp
qed

lemma fill_bytes_apply:
  "n < 2 ^ 32 \<Longrightarrow> fill_bytes n c d m x = (if unat (x - d) < n then c else m x)"
proof (induction n arbitrary: d m)
  case (Suc n)
  then have IH: "fill_bytes n c (d + 1) (m(d := c)) x
      = (if unat (x - (d + 1)) < n then c else (m(d := c)) x)" by simp
  show ?case
    using IH unat_distance_Suc [of x d] by (cases "x = d") auto
qed simp

lemma copy_bytes_apply:
  assumes "n < 2 ^ 32" and "\<And>k. k < n \<Longrightarrow> \<not> unat (src + of_nat k - dst) < n"
  shows "copy_bytes n src dst m x = (if unat (x - dst) < n then m (src + (x - dst)) else m x)"
  using assms
proof (induction n arbitrary: src dst m)
  case (Suc n)
  have "\<not> unat (src + 1 + of_nat k - (dst + 1)) < n" if "k < n" for k
    using Suc.prems(2) [of k] that by (simp add: algebra_simps)
  with Suc.IH Suc.prems(1) have IH: "copy_bytes n (src + 1) (dst + 1) (m(dst := m src)) x
      = (if unat (x - (dst + 1)) < n then (m(dst := m src)) (src + 1 + (x - (dst + 1)))
         else (m(dst := m src)) x)" by simp
  show ?case
  proof (cases "x = dst")
    case True
    have "unat (- 1 :: u32) = 2 ^ 32 - 1" by (simp add: unsigned_minus_1_eq_mask mask_eq_exp_minus_1)
    with True IH Suc.prems(1) show ?thesis by simp
  next
    case False
    have "src + (x - dst) \<noteq> dst" if "unat (x - dst) < Suc n"
    proof
      assume "src + (x - dst) = dst"
      then have "src + of_nat (unat (x - dst)) - dst = 0" by simp
      with Suc.prems(2) [OF that] show False by simp
    qed
    with False IH unat_distance_Suc [OF False] show ?thesis
      by (auto simp: algebra_simps)
  qed
qed simp

text \<open>A search loop over an interval stops at the first hit.\<close>

lemma find_upt_SomeD:
  "List.find P [a..<b] = Some i \<Longrightarrow> a \<le> i \<and> i < b \<and> P i \<and> (\<forall>j\<in>{a..<i}. \<not> P j)"
proof (induction "b - a" arbitrary: a)
  case (Suc n)
  then have e: "[a..<b] = a # [Suc a..<b]" and n: "n = b - Suc a" by (simp_all add: upt_conv_Cons)
  show ?case
  proof (cases "P a")
    case False
    with Suc.prems e have "List.find P [Suc a..<b] = Some i" by simp
    from Suc.hyps(1) [OF n this] False show ?thesis
      by (metis Suc_leD atLeastLessThan_iff le_neq_implies_less less_eq_Suc_le)
  qed (use Suc e in auto)
qed simp

end
