(* ===== verification/Descriptors.thy ===== *)
theory Descriptors
  imports Prelude
begin

text \<open>
  The segment and gate descriptors of the 80386 as the kernel writes and reads them:
  \<^verbatim>\<open>set_base\<close>, \<^verbatim>\<open>set_limit\<close>, \<^verbatim>\<open>get_base\<close>, \<^verbatim>\<open>get_limit\<close> of \<^verbatim>\<open>kernel/sched.c\<close> and the gate and
  system-descriptor writers of \<^verbatim>\<open>lib/system.c\<close>. A descriptor is the pair of 32-bit words of
  \<^verbatim>\<open>struct desc_struct\<close>; the byte moves of the inline assembly are masks on the two words
  (byte \<open>i < 4\<close> is in \<open>desc_a\<close>, byte \<open>i \<ge> 4\<close> in \<open>desc_b\<close>).
\<close>

record desc =
  desc_a :: u32
  desc_b :: u32

section \<open>Base and limit of a segment descriptor\<close>

text \<open>\<^verbatim>\<open>movw %dx,2(%ebx)\<close>, then bytes 4 and 7 from the rotated base.\<close>

definition set_base :: "desc \<Rightarrow> u32 \<Rightarrow> desc" where
  "set_base d base =
     \<lparr>desc_a = (desc_a d AND 0x0000FFFF) OR push_bit 16 base,
      desc_b = (desc_b d AND 0x00FFFF00)
               OR (drop_bit 16 base AND 0xFF) OR (base AND 0xFF000000)\<rparr>"

text \<open>The limit is stored in pages; byte 6 keeps its upper nibble (the flags).\<close>

definition set_limit :: "desc \<Rightarrow> u32 \<Rightarrow> desc" where
  "set_limit d limit =
     (let l = drop_bit 12 (limit - 1) in
      \<lparr>desc_a = (desc_a d AND 0xFFFF0000) OR (l AND 0xFFFF),
       desc_b = (desc_b d AND 0xFFF0FFFF) OR (l AND 0x00FF0000)\<rparr>)"

definition get_base :: "desc \<Rightarrow> u32" where
  "get_base d =
     (desc_b d AND 0xFF000000) OR push_bit 16 (desc_b d AND 0xFF) OR drop_bit 16 (desc_a d)"

text \<open>
  \<^verbatim>\<open>get_limit\<close> executes \<^verbatim>\<open>lsl\<close> on a selector and adds one. \<open>lsl\<close> is the documented result
  of the instruction for the descriptor the selector names: the 20-bit limit, in pages when
  the granularity bit (bit 23 of the second word) is set.
\<close>

definition lsl :: "desc \<Rightarrow> u32" where
  "lsl d =
     (let l = (desc_a d AND 0xFFFF) OR (desc_b d AND 0x000F0000) in
      if bit (desc_b d) 23 then push_bit 12 l OR 0xFFF else l)"

definition get_limit :: "(u32 \<Rightarrow> desc) \<Rightarrow> u32 \<Rightarrow> u32" where
  "get_limit ldt segment = lsl (ldt segment) + 1"

section \<open>Gates\<close>

type_synonym idt = "nat \<Rightarrow> desc"

definition gate :: "u32 \<Rightarrow> u32 \<Rightarrow> desc" where
  "gate tmp addr =
     \<lparr>desc_a = 0x00080000 OR (addr AND 0xFFFF),
      desc_b = (addr AND 0xFFFF0000) OR tmp\<rparr>"

definition set_intr_gate :: "nat \<Rightarrow> u32 \<Rightarrow> idt \<Rightarrow> idt" where
  "set_intr_gate n addr t = t(n := gate (0x8000 + push_bit 13 0 + push_bit 8 14) addr)"

definition set_trap_gate :: "nat \<Rightarrow> u32 \<Rightarrow> idt \<Rightarrow> idt" where
  "set_trap_gate n addr t = t(n := gate (0x8000 + push_bit 13 0 + push_bit 8 15) addr)"

definition set_system_gate :: "nat \<Rightarrow> u32 \<Rightarrow> idt \<Rightarrow> idt" where
  "set_system_gate n addr t = t(n := gate (0x8000 + push_bit 13 3 + push_bit 8 15) addr)"

text \<open>How the processor reads a gate: the target, its code selector, the privilege level
  that may call it, and the type.\<close>

definition gate_offset :: "desc \<Rightarrow> u32" where
  "gate_offset d = (desc_b d AND 0xFFFF0000) OR (desc_a d AND 0xFFFF)"

definition gate_selector :: "desc \<Rightarrow> u32" where
  "gate_selector d = drop_bit 16 (desc_a d)"

definition gate_dpl :: "desc \<Rightarrow> u32" where
  "gate_dpl d = drop_bit 13 (desc_b d) AND 3"

definition gate_present :: "desc \<Rightarrow> bool" where
  "gate_present d = bit (desc_b d) 15"

definition gate_type :: "desc \<Rightarrow> u32" where
  "gate_type d = drop_bit 8 (desc_b d) AND 0x1F"

section \<open>TSS and LDT descriptors\<close>

definition sys_desc :: "u32 \<Rightarrow> u32 \<Rightarrow> u32 \<Rightarrow> desc" where
  "sys_desc lim ty addr =
     \<lparr>desc_a = lim OR push_bit 16 addr,
      desc_b = (drop_bit 16 addr AND 0xFF) OR push_bit 8 ty OR (addr AND 0xFF000000)\<rparr>"

definition set_tss_desc :: "nat \<Rightarrow> u32 \<Rightarrow> idt \<Rightarrow> idt" where
  "set_tss_desc n addr g = g(n := sys_desc 103 0x89 addr)"

definition set_ldt_desc :: "nat \<Rightarrow> u32 \<Rightarrow> idt \<Rightarrow> idt" where
  "set_ldt_desc n addr g = g(n := sys_desc 23 0x82 addr)"

section \<open>The interrupt flag\<close>

text \<open>\<^verbatim>\<open>save_intr_flag\<close>, \<^verbatim>\<open>cli\<close> and \<^verbatim>\<open>restore_intr_flag\<close> on the flags register.\<close>

definition save_intr_flag :: "u32 \<Rightarrow> u32" where
  "save_intr_flag eflags = eflags AND 0x0200"

definition cli :: "u32 \<Rightarrow> u32" where
  "cli eflags = eflags AND NOT 0x0200"

definition restore_intr_flag :: "u32 \<Rightarrow> u32 \<Rightarrow> u32" where
  "restore_intr_flag intr_flag eflags = eflags OR intr_flag"

section \<open>Lemmas\<close>

lemma u32_masks:
  "(0xFF::u32) = mask 8" "(0xFFF::u32) = mask 12" "(0xFFFF::u32) = mask 16"
  "(0xFF000000::u32) = push_bit 24 (mask 8)" "(0xFFFF0000::u32) = push_bit 16 (mask 16)"
  "(0x00FFFF00::u32) = push_bit 8 (mask 16)" "(0xFFF0FFFF::u32) = NOT (push_bit 16 (mask 4))"
  "(0x00FF0000::u32) = push_bit 16 (mask 8)" "(0x000F0000::u32) = push_bit 16 (mask 4)"
  by (simp_all add: mask_eq_exp_minus_1 push_bit_eq_mult)

text \<open>The three pieces of a base, put together again.\<close>

lemma base_pieces:
  "((b :: u32) AND push_bit 24 (mask 8)) OR push_bit 16 (drop_bit 16 b AND mask 8)
     OR take_bit 16 b = b"
  by (rule bit_word_eqI) (auto simp: bit_simps)

lemma get_set_base [simp]: "get_base (set_base d b) = b"
proof -
  have "desc_b (set_base d b) AND push_bit 24 (mask 8) = b AND push_bit 24 (mask 8)"
    and "desc_b (set_base d b) AND mask 8 = drop_bit 16 b AND mask 8"
    and "drop_bit 16 (desc_a (set_base d b)) = take_bit 16 b"
    unfolding set_base_def u32_masks by (auto intro!: bit_word_eqI simp: bit_simps)
  then show ?thesis
    unfolding get_base_def u32_masks by (simp only: base_pieces)
qed

lemma get_base_set_limit [simp]: "get_base (set_limit d l) = get_base d"
  unfolding get_base_def set_limit_def Let_def u32_masks
  by (rule bit_word_eqI) (auto simp: bit_simps dest: bit_imp_le_length)

lemma granularity_set_base [simp]: "bit (desc_b (set_base d b)) 23 = bit (desc_b d) 23"
  unfolding set_base_def u32_masks by (simp add: bit_simps)

lemma granularity_set_limit [simp]: "bit (desc_b (set_limit d l)) 23 = bit (desc_b d) 23"
  unfolding set_limit_def Let_def u32_masks
  by (auto simp: bit_simps dest: bit_imp_le_length)

lemma lsl_set_base [simp]: "lsl (set_base d b) = lsl d"
proof -
  have "(desc_a (set_base d b) AND mask 16) = desc_a d AND mask 16"
    and "(desc_b (set_base d b) AND push_bit 16 (mask 4)) = desc_b d AND push_bit 16 (mask 4)"
    unfolding set_base_def u32_masks by (auto intro!: bit_word_eqI simp: bit_simps)
  then show ?thesis
    unfolding lsl_def u32_masks Let_def by simp
qed

lemma lsl_set_limit:
  "lsl (set_limit d l)
     = (if bit (desc_b d) 23 then (l - 1) OR 0xFFF else drop_bit 12 (l - 1))"
proof -
  have "(desc_a (set_limit d l) AND mask 16) OR (desc_b (set_limit d l) AND push_bit 16 (mask 4))
          = drop_bit 12 (l - 1)"
    unfolding set_limit_def Let_def u32_masks
    by (rule bit_word_eqI) (auto simp: bit_simps dest: bit_imp_le_length)
  moreover have "push_bit 12 (drop_bit 12 (l - 1)) OR 0xFFF = (l - 1) OR 0xFFF"
    unfolding u32_masks by (rule bit_word_eqI) (auto simp: bit_simps)
  ultimately show ?thesis
    unfolding lsl_def Let_def granularity_set_limit by (simp add: u32_masks)
qed

lemma and_not_fff: "(x :: u32) AND NOT 0xFFF = x - take_bit 12 x"
proof -
  have "(x AND NOT 0xFFF) + take_bit 12 x = x"
    unfolding u32_masks by (subst disjunctive_add) (auto intro!: bit_word_eqI simp: bit_simps)
  then show ?thesis by (simp add: eq_diff_eq)
qed

lemma or_fff: "(x :: u32) OR 0xFFF = x + 0xFFF - take_bit 12 x"
  using word_plus_and_or [of x "0xFFF"]
  by (simp add: take_bit_eq_mask u32_masks algebra_simps)

lemma take_bit_12_page: "take_bit 12 ((x :: u32) + 0x1000) = take_bit 12 x"
  by (simp add: word_unat_eq_iff unsigned_take_bit_eq take_bit_eq_mod unat_word_ariths
      mod_mod_cancel)

lemma page_round_up: "((l - 1) OR 0xFFF) + 1 = (l + 0xFFF) AND NOT (0xFFF :: u32)"
  using take_bit_12_page [of "l - 1"] unfolding and_not_fff or_fff
  by (simp add: algebra_simps)

lemma bits_above_16: "(x :: u32) AND 0xFFFF0000 = 0 \<Longrightarrow> 16 \<le> n \<Longrightarrow> \<not> bit x n"
proof
  assume a: "x AND 0xFFFF0000 = 0" "16 \<le> n" and b: "bit x n"
  from b have "n < 32" by (auto dest: bit_imp_le_length)
  with a b have "bit (x AND push_bit 16 (mask 16)) n" by (auto simp: bit_simps)
  with a(1) show False by (simp add: u32_masks)
qed

lemma bits_above_8: "(x :: u32) AND 0xFFFFFF00 = 0 \<Longrightarrow> 8 \<le> n \<Longrightarrow> \<not> bit x n"
proof
  have m: "(0xFFFFFF00 :: u32) = push_bit 8 (mask 24)"
    by (simp add: mask_eq_exp_minus_1 push_bit_eq_mult)
  assume a: "x AND 0xFFFFFF00 = 0" "8 \<le> n" and b: "bit x n"
  from b have "n < 32" by (auto dest: bit_imp_le_length)
  with a b have "bit (x AND push_bit 8 (mask 24)) n" by (auto simp: bit_simps)
  with a(1) show False by (simp add: m)
qed

lemma gate_fields:
  assumes "tmp AND 0xFFFF0000 = 0"
  shows "gate_offset (gate tmp addr) = addr" and "gate_selector (gate tmp addr) = 8"
    and "gate_dpl (gate tmp addr) = drop_bit 13 tmp AND 3"
    and "gate_present (gate tmp addr) = bit tmp 15"
    and "gate_type (gate tmp addr) = drop_bit 8 tmp AND 0x1F"
proof -
  note hi = bits_above_16 [OF assms]
  have sel: "(0x00080000 :: u32) = push_bit 19 1" by (simp add: push_bit_eq_mult)
  have m5: "(0x1F :: u32) = mask 5" and m2: "(3 :: u32) = mask 2"
    by (simp_all add: mask_eq_exp_minus_1)
  show "gate_offset (gate tmp addr) = addr"
    unfolding gate_offset_def gate_def sel u32_masks
    using hi by (auto intro!: bit_word_eqI simp: bit_simps simp del: push_bit_of_1)
  have "(8 :: u32) = push_bit 3 1" by (simp add: push_bit_eq_mult)
  then show "gate_selector (gate tmp addr) = 8"
    unfolding gate_selector_def gate_def sel u32_masks
    by (auto intro!: bit_word_eqI simp: bit_simps)
  show "gate_dpl (gate tmp addr) = drop_bit 13 tmp AND 3"
    unfolding gate_dpl_def gate_def u32_masks m2
    by (auto intro!: bit_word_eqI simp: bit_simps)
  show "gate_present (gate tmp addr) = bit tmp 15"
    unfolding gate_present_def gate_def u32_masks by (simp add: bit_simps)
  show "gate_type (gate tmp addr) = drop_bit 8 tmp AND 0x1F"
    unfolding gate_type_def gate_def u32_masks m5
    by (auto intro!: bit_word_eqI simp: bit_simps)
qed

lemma get_base_sys_desc [simp]:
  assumes "lim AND 0xFFFF0000 = 0" and "ty AND 0xFFFFFF00 = 0"
  shows "get_base (sys_desc lim ty addr) = addr"
proof -
  note lim = bits_above_16 [OF assms(1)] and ty = bits_above_8 [OF assms(2)]
  have "desc_b (sys_desc lim ty addr) AND push_bit 24 (mask 8) = addr AND push_bit 24 (mask 8)"
    and "desc_b (sys_desc lim ty addr) AND mask 8 = drop_bit 16 addr AND mask 8"
    and "drop_bit 16 (desc_a (sys_desc lim ty addr)) = take_bit 16 addr"
    unfolding sys_desc_def u32_masks using lim ty
    by (auto intro!: bit_word_eqI simp: bit_simps)
  then show ?thesis
    unfolding get_base_def u32_masks by (simp only: base_pieces)
qed

lemma restore_after_cli: "restore_intr_flag (save_intr_flag f) (cli f) = f"
proof -
  have "(0x0200 :: u32) = push_bit 9 1" by (simp add: push_bit_eq_mult)
  then show ?thesis
    unfolding restore_intr_flag_def save_intr_flag_def cli_def
    by (auto intro!: bit_word_eqI simp: bit_simps)
qed

section \<open>Properties\<close>

text \<open>
  C40. The base and the limit written into a segment descriptor are read back: the base exactly,
  the limit rounded up to whole pages, whatever the descriptor held, provided its granularity
  bit is set.
\<close>

theorem segment_round_trip:
  assumes "bit (desc_b d) 23"
  shows "get_base (set_limit (set_base d b) l) = b
    \<and> get_limit (\<lambda>_. set_limit (set_base d b) l) sel = (l + 0xFFF) AND NOT 0xFFF
    \<and> get_base (set_base (set_limit d l) b) = b
    \<and> get_limit (\<lambda>_. set_base (set_limit d l) b) sel = (l + 0xFFF) AND NOT 0xFFF"
  unfolding get_limit_def using assms by (simp_all add: lsl_set_limit page_round_up)

theorem segment_round_trip_witness:
  "get_base (set_limit (set_base \<lparr>desc_a = 0x02FF, desc_b = 0x00C0FA00\<rparr> 0x04000000) 0x280000)
     = 0x04000000"
  using segment_round_trip [of "\<lparr>desc_a = 0x02FF, desc_b = 0x00C0FA00\<rparr>"]
  by (simp add: bit_iff_odd_drop_bit)

text \<open>
  The processor reads from each gate exactly what the kernel meant: the handler's address,
  the kernel code selector, a present gate of the right type, and a privilege level that lets
  user programs call only the system gates. TSS and LDT descriptors carry their address.
\<close>

theorem gates_decode:
  "gate_offset (set_intr_gate n addr t n) = addr
   \<and> gate_offset (set_trap_gate n addr t n) = addr
   \<and> gate_offset (set_system_gate n addr t n) = addr
   \<and> gate_selector (set_intr_gate n addr t n) = 8
   \<and> gate_selector (set_trap_gate n addr t n) = 8
   \<and> gate_selector (set_system_gate n addr t n) = 8
   \<and> gate_dpl (set_intr_gate n addr t n) = 0
   \<and> gate_dpl (set_trap_gate n addr t n) = 0
   \<and> gate_dpl (set_system_gate n addr t n) = 3
   \<and> gate_present (set_intr_gate n addr t n)
   \<and> gate_present (set_trap_gate n addr t n)
   \<and> gate_present (set_system_gate n addr t n)
   \<and> gate_type (set_intr_gate n addr t n) = 14
   \<and> gate_type (set_trap_gate n addr t n) = 15
   \<and> gate_type (set_system_gate n addr t n) = 15
   \<and> get_base (set_tss_desc m addr t m) = addr
   \<and> get_base (set_ldt_desc m addr t m) = addr"
  by (simp add: set_intr_gate_def set_trap_gate_def set_system_gate_def gate_fields
      set_tss_desc_def set_ldt_desc_def bit_iff_odd_drop_bit)

text \<open>
  A critical section that saves the interrupt flag, disables interrupts and restores the
  saved flag leaves the flags register as it was.
\<close>

theorem intr_flag_restored: "restore_intr_flag (save_intr_flag f) (cli f) = f"
  by (rule restore_after_cli)

end
