(* ===== verification/Sched.thy ===== *)
theory Sched
  imports Descriptors
begin

text \<open>
  \<^verbatim>\<open>kernel/sched.c\<close>: the task table, the scheduler, sleeping and waking, the timer list and
  the boot-time initialisation of task 0. The state of this theory is the base of the kernel
  state; every later component extends the record with its own fields.
\<close>

section \<open>Tasks\<close>

abbreviation (input) NR_TASKS :: nat where "NR_TASKS \<equiv> 64"
abbreviation (input) NR_OPEN :: nat where "NR_OPEN \<equiv> 20"
abbreviation (input) NGROUPS :: nat where "NGROUPS \<equiv> 32"
abbreviation (input) NOGROUP :: int where "NOGROUP \<equiv> - 1"
abbreviation (input) RLIM_NLIMITS :: nat where "RLIM_NLIMITS \<equiv> 6"
abbreviation (input) RLIM_INFINITY :: int where "RLIM_INFINITY \<equiv> 0x7fffffff"
abbreviation (input) TASK_RUNNING :: int where "TASK_RUNNING \<equiv> 0"
abbreviation (input) TASK_INTERRUPTIBLE :: int where "TASK_INTERRUPTIBLE \<equiv> 1"
abbreviation (input) TASK_UNINTERRUPTIBLE :: int where "TASK_UNINTERRUPTIBLE \<equiv> 2"
abbreviation (input) TASK_ZOMBIE :: int where "TASK_ZOMBIE \<equiv> 3"
abbreviation (input) TASK_STOPPED :: int where "TASK_STOPPED \<equiv> 4"

text \<open>A pointer to a \<^verbatim>\<open>task_struct\<close> is its address, \<open>0\<close> is \<^verbatim>\<open>NULL\<close>.\<close>

type_synonym task_ptr = u32

record sigaction =
  sa_handler :: u32
  sa_mask :: u32
  sa_flags :: u32
  sa_restorer :: u32

record rlimit =
  rlim_cur :: int
  rlim_max :: int

record tss_struct =
  tss_back_link :: u32
  tss_esp0 :: u32
  tss_ss0 :: u32
  tss_esp1 :: u32
  tss_ss1 :: u32
  tss_esp2 :: u32
  tss_ss2 :: u32
  tss_cr3 :: u32
  tss_eip :: u32
  tss_eflags :: u32
  tss_eax :: u32
  tss_ecx :: u32
  tss_edx :: u32
  tss_ebx :: u32
  tss_esp :: u32
  tss_ebp :: u32
  tss_esi :: u32
  tss_edi :: u32
  tss_es :: u32
  tss_cs :: u32
  tss_ss :: u32
  tss_ds :: u32
  tss_fs :: u32
  tss_gs :: u32
  tss_ldt :: u32
  tss_trace_bitmap :: u32

text \<open>Pointers to inodes and files are indices of \<^verbatim>\<open>inode_table\<close> and \<^verbatim>\<open>file_table\<close>.\<close>

record task_struct =
  t_state :: int
  t_counter :: int
  t_priority :: int
  t_signal :: u32
  t_sigaction :: "nat \<Rightarrow> sigaction"
  t_blocked :: u32
  t_exit_code :: u32
  t_start_code :: u32
  t_end_code :: u32
  t_end_data :: u32
  t_brk :: u32
  t_start_stack :: u32
  t_pid :: int
  t_pgrp :: int
  t_session :: int
  t_leader :: int
  t_groups :: "nat \<Rightarrow> int"
  p_pptr :: task_ptr
  p_cptr :: task_ptr
  p_ysptr :: task_ptr
  p_osptr :: task_ptr
  t_uid :: u16
  t_euid :: u16
  t_suid :: u16
  t_gid :: u16
  t_egid :: u16
  t_sgid :: u16
  t_timeout :: u32
  t_alarm :: u32
  t_utime :: int
  t_stime :: int
  t_cutime :: int
  t_cstime :: int
  t_start_time :: u32
  t_rlim :: "nat \<Rightarrow> rlimit"
  t_flags :: u32
  t_used_math :: u16
  t_tty :: int
  t_umask :: u16
  t_pwd :: "nat option"
  t_root :: "nat option"
  t_executable :: "nat option"
  t_library :: "nat option"
  t_close_on_exec :: u32
  t_filp :: "nat \<Rightarrow> nat option"
  t_ldt :: "nat \<Rightarrow> desc"
  t_tss :: tss_struct

section \<open>The kernel state\<close>

text \<open>
  A wait queue is a \<^verbatim>\<open>struct task_struct *\<close> variable whose address is passed to \<^verbatim>\<open>sleep_on\<close>
  and \<^verbatim>\<open>wake_up\<close>. The variables of this kind of all components are kept in one map \<open>wq\<close>,
  by their address.
\<close>

datatype waitq = Buffer_wait | B_wait nat | Wait_for_request | R_waiting nat
  | I_wait nat | I_wait2 nat | Tty_queue_wait nat | Swap_wait | Other_wait nat

record timer =
  tm_jiffies :: int
  tm_fn :: nat
  tm_next :: "nat option"

record sched =
  task :: "nat \<Rightarrow> task_ptr"
  tstruct :: "task_ptr \<Rightarrow> task_struct"
  current :: task_ptr
  last_task_used_math :: task_ptr
  jiffies :: u32
  startup_time :: u32
  jiffies_offset :: u32
  last_pid :: int
  timer_list :: "nat \<Rightarrow> timer"
  next_timer :: "nat option"
  hd_timeout :: int
  wq :: "waitq \<Rightarrow> task_ptr"
  gdt :: "nat \<Rightarrow> desc"
  idt :: "nat \<Rightarrow> desc"
  kmem :: bytes
  fs_mem :: bytes
  port_log :: "(u16 \<times> u8) list"
  n_in :: nat
  n_switch :: nat

definition mod_task :: "task_ptr \<Rightarrow> (task_struct \<Rightarrow> task_struct) \<Rightarrow> 'a sched_scheme \<Rightarrow> 'a sched_scheme" where
  "mod_task p f s = s\<lparr>tstruct := (tstruct s)(p := f (tstruct s p))\<rparr>"

abbreviation cur :: "'a sched_scheme \<Rightarrow> task_struct" where
  "cur s \<equiv> tstruct s (current s)"

abbreviation mod_cur :: "(task_struct \<Rightarrow> task_struct) \<Rightarrow> 'a sched_scheme \<Rightarrow> 'a sched_scheme" where
  "mod_cur f s \<equiv> mod_task (current s) f s"


section \<open>Ports and the user segment\<close>

definition outb :: "u8 \<Rightarrow> u16 \<Rightarrow> 'a sched_scheme \<Rightarrow> 'a sched_scheme" where
  "outb v port s = s\<lparr>port_log := port_log s @ [(port, v)]\<rparr>"

definition inb :: "'a sched_scheme world \<Rightarrow> u16 \<Rightarrow> 'a sched_scheme \<Rightarrow> u8 \<times> 'a sched_scheme" where
  "inb w port s = (w_in w (n_in s) port, s\<lparr>n_in := n_in s + 1\<rparr>)"

text \<open>\<^verbatim>\<open>lib/segment.c\<close>: accesses through the \<^verbatim>\<open>fs\<close> segment, the data of the current task.\<close>

definition get_fs_byte :: "u32 \<Rightarrow> 'a sched_scheme \<Rightarrow> u8" where
  "get_fs_byte addr s = fs_mem s addr"

definition get_fs_word :: "u32 \<Rightarrow> 'a sched_scheme \<Rightarrow> u16" where
  "get_fs_word addr s = ld16 (fs_mem s) addr"

definition get_fs_long :: "u32 \<Rightarrow> 'a sched_scheme \<Rightarrow> u32" where
  "get_fs_long addr s = ld32 (fs_mem s) addr"

definition put_fs_byte :: "u8 \<Rightarrow> u32 \<Rightarrow> 'a sched_scheme \<Rightarrow> 'a sched_scheme" where
  "put_fs_byte val addr s = s\<lparr>fs_mem := (fs_mem s)(addr := val)\<rparr>"

definition put_fs_word :: "u16 \<Rightarrow> u32 \<Rightarrow> 'a sched_scheme \<Rightarrow> 'a sched_scheme" where
  "put_fs_word val addr s = s\<lparr>fs_mem := st16 addr val (fs_mem s)\<rparr>"

definition put_fs_long :: "u32 \<Rightarrow> u32 \<Rightarrow> 'a sched_scheme \<Rightarrow> 'a sched_scheme" where
  "put_fs_long val addr s = s\<lparr>fs_mem := st32 addr val (fs_mem s)\<rparr>"

definition suser :: "'a sched_scheme \<Rightarrow> bool" where
  "suser s \<longleftrightarrow> t_euid (cur s) = 0"

definition CURRENT_TIME :: "'a sched_scheme \<Rightarrow> u32" where
  "CURRENT_TIME s = startup_time s + (jiffies s + jiffies_offset s) div 100"

section \<open>The scheduler\<close>

definition BLOCKABLE :: u32 where
  "BLOCKABLE = NOT (sigbit SIGKILL OR sigbit SIGSTOP)"

text \<open>The body of the first loop of \<^verbatim>\<open>schedule\<close>, on one task.\<close>

definition sched_check :: "u32 \<Rightarrow> task_struct \<Rightarrow> task_struct" where
  "sched_check now t0 =
     (let t1 = (if t_timeout t0 \<noteq> 0 \<and> t_timeout t0 < now
                then t0\<lparr>t_timeout := 0, t_state :=
                       (if t_state t0 = TASK_INTERRUPTIBLE then TASK_RUNNING else t_state t0)\<rparr>
                else t0);
          t2 = (if t_alarm t1 \<noteq> 0 \<and> t_alarm t1 < now
                then t1\<lparr>t_signal := t_signal t1 OR sigbit SIGALRM, t_alarm := 0\<rparr> else t1)
      in if t_signal t2 AND NOT (BLOCKABLE AND t_blocked t2) \<noteq> 0
            \<and> t_state t2 = TASK_INTERRUPTIBLE
         then t2\<lparr>t_state := TASK_RUNNING\<rparr> else t2)"

text \<open>\<^verbatim>\<open>for (p = &LAST_TASK; p > &FIRST_TASK; --p) if ( *p) ...\<close>, with a body that changes
  the task \<^verbatim>\<open>*p\<close> only.\<close>

definition for_tasks :: "(task_struct \<Rightarrow> task_struct) \<Rightarrow> 'a sched_scheme \<Rightarrow> 'a sched_scheme" where
  "for_tasks f s0 =
     fold (\<lambda>i s. if task s i \<noteq> 0 then mod_task (task s i) f s else s) (down_to 63) s0"

definition sched_signals :: "'a sched_scheme \<Rightarrow> 'a sched_scheme" where
  "sched_signals s = for_tasks (sched_check (jiffies s)) s"

definition sched_pick :: "'a sched_scheme \<Rightarrow> int \<times> nat" where
  "sched_pick s = fold (\<lambda>i (c, next).
     if task s i \<noteq> 0 \<and> t_state (tstruct s (task s i)) = TASK_RUNNING
        \<and> t_counter (tstruct s (task s i)) > c
     then (t_counter (tstruct s (task s i)), i) else (c, next)) (down_to 63) (- 1, 0)"

definition sched_recalc :: "'a sched_scheme \<Rightarrow> 'a sched_scheme" where
  "sched_recalc s = for_tasks (\<lambda>t. t\<lparr>t_counter := t_counter t div 2 + t_priority t\<rparr>) s"

partial_function (option) sched_loop :: "'a sched_scheme \<Rightarrow> (nat \<times> 'a sched_scheme) option" where
  "sched_loop s =
     (let (c, next) = sched_pick s in
      if c \<noteq> 0 then Some (next, s) else sched_loop (sched_recalc s))"

text \<open>
  The \<^verbatim>\<open>ljmp\<close> to the TSS of another task returns when this task is switched to again; then
  \<^verbatim>\<open>current\<close> is this task.
\<close>

definition switch_to :: "'a sched_scheme world \<Rightarrow> nat \<Rightarrow> 'a sched_scheme \<Rightarrow> 'a sched_scheme" where
  "switch_to w n s =
     (if task s n = current s then s
      else (w_run w (n_switch s) (s\<lparr>current := task s n, n_switch := n_switch s + 1\<rparr>))
             \<lparr>current := current s\<rparr>)"

definition schedule :: "'a sched_scheme world \<Rightarrow> 'a sched_scheme \<Rightarrow> 'a sched_scheme option" where
  "schedule w s = do {
     (next, s) \<leftarrow> sched_loop (sched_signals s);
     Some (switch_to w next s)
   }"

definition sys_pause :: "'a sched_scheme world \<Rightarrow> 'a sched_scheme \<Rightarrow> (int \<times> 'a sched_scheme) option" where
  "sys_pause w s = do {
     s \<leftarrow> schedule w (mod_cur (\<lambda>t. t\<lparr>t_state := TASK_INTERRUPTIBLE\<rparr>) s);
     Some (0, s)
   }"

section \<open>Sleeping and waking\<close>

text \<open>The address of the array \<^verbatim>\<open>task\<close> (\<^verbatim>\<open>System.map\<close>), which \<^verbatim>\<open>__sleep_on\<close> compares with
  \<^verbatim>\<open>current\<close>.\<close>

definition task_array :: task_ptr where
  "task_array = 0x127440"

definition set_state :: "int \<Rightarrow> task_ptr \<Rightarrow> 'a sched_scheme \<Rightarrow> 'a sched_scheme" where
  "set_state st p = mod_task p (\<lambda>t. t\<lparr>t_state := st\<rparr>)"

text \<open>The three parts of \<^verbatim>\<open>__sleep_on\<close>: queueing up, the test after each \<^verbatim>\<open>schedule()\<close> (true
  if the task has to go on sleeping), and passing the wake-up on.\<close>

definition sleep_enter :: "waitq \<Rightarrow> int \<Rightarrow> 'a sched_scheme \<Rightarrow> 'a sched_scheme" where
  "sleep_enter q st s = set_state st (current s) (s\<lparr>wq := (wq s)(q := current s)\<rparr>)"

definition sleep_again :: "waitq \<Rightarrow> 'a sched_scheme \<Rightarrow> bool \<times> 'a sched_scheme" where
  "sleep_again q s =
     (if wq s q \<noteq> 0 \<and> wq s q \<noteq> current s
      then (True, set_state TASK_UNINTERRUPTIBLE (current s) (set_state TASK_RUNNING (wq s q) s))
      else (False, s))"

definition sleep_leave :: "waitq \<Rightarrow> task_ptr \<Rightarrow> 'a sched_scheme \<Rightarrow> 'a sched_scheme" where
  "sleep_leave q tmp s =
     (let s1 = s\<lparr>wq := (wq s)(q := tmp)\<rparr> in
      if tmp \<noteq> 0 then set_state TASK_RUNNING tmp s1 else s1)"

partial_function (option) sleep_loop ::
  "'a sched_scheme world \<Rightarrow> waitq \<Rightarrow> 'a sched_scheme \<Rightarrow> 'a sched_scheme option" where
  "sleep_loop w q s = do {
     s \<leftarrow> schedule w s;
     let (again, s) = sleep_again q s in
     if again then sleep_loop w q s else Some s
   }"

definition sleep_on_state ::
  "'a sched_scheme world \<Rightarrow> waitq \<Rightarrow> int \<Rightarrow> 'a sched_scheme \<Rightarrow> 'a sched_scheme option" where
  "sleep_on_state w q st s =
     (if current s = task_array then None
      else do {
        let tmp = wq s q;
        s \<leftarrow> sleep_loop w q (sleep_enter q st s);
        Some (sleep_leave q tmp s)
      })"

definition interruptible_sleep_on ::
  "'a sched_scheme world \<Rightarrow> waitq \<Rightarrow> 'a sched_scheme \<Rightarrow> 'a sched_scheme option" where
  "interruptible_sleep_on w q = sleep_on_state w q TASK_INTERRUPTIBLE"

definition sleep_on ::
  "'a sched_scheme world \<Rightarrow> waitq \<Rightarrow> 'a sched_scheme \<Rightarrow> 'a sched_scheme option" where
  "sleep_on w q = sleep_on_state w q TASK_UNINTERRUPTIBLE"

definition wake_up :: "waitq \<Rightarrow> 'a sched_scheme \<Rightarrow> 'a sched_scheme" where
  "wake_up q s = (if wq s q \<noteq> 0 then set_state TASK_RUNNING (wq s q) s else s)"

section \<open>Timers\<close>

abbreviation (input) TIME_REQUESTS :: nat where "TIME_REQUESTS \<equiv> 64"

text \<open>The \<^verbatim>\<open>while\<close> loop of \<^verbatim>\<open>add_timer\<close>: the new entry \<open>p\<close> sinks past the earlier ones.\<close>

partial_function (option) timer_sink :: "nat \<Rightarrow> (nat \<Rightarrow> timer) \<Rightarrow> (nat \<Rightarrow> timer) option" where
  "timer_sink p ts =
     (case tm_next (ts p) of
        None \<Rightarrow> Some ts
      | Some n \<Rightarrow>
          if tm_jiffies (ts n) < tm_jiffies (ts p)
          then let j = tm_jiffies (ts p) - tm_jiffies (ts n);
                   fn = tm_fn (ts p);
                   ts1 = ts(p := (ts p)\<lparr>tm_jiffies := tm_jiffies (ts n), tm_fn := tm_fn (ts n)\<rparr>);
                   ts2 = ts1(n := (ts1 n)\<lparr>tm_jiffies := j, tm_fn := fn\<rparr>)
               in timer_sink n ts2
          else Some ts)"

definition free_timer :: "'a sched_scheme \<Rightarrow> nat option" where
  "free_timer s = List.find (\<lambda>p. tm_fn (timer_list s p) = 0) [0..<TIME_REQUESTS]"

definition add_timer ::
  "'a sched_scheme world \<Rightarrow> int \<Rightarrow> nat \<Rightarrow> 'a sched_scheme \<Rightarrow> 'a sched_scheme option" where
  "add_timer w jif fn s =
     (if fn = 0 then Some s
      else if jif \<le> 0 then w_call w fn s
      else do {
        p \<leftarrow> free_timer s;
        ts \<leftarrow> timer_sink p ((timer_list s)
                (p := \<lparr>tm_jiffies = jif, tm_fn = fn, tm_next = next_timer s\<rparr>));
        Some (s\<lparr>timer_list := ts, next_timer := Some p\<rparr>)
      })"

partial_function (option) run_timers ::
  "'a sched_scheme world \<Rightarrow> 'a sched_scheme \<Rightarrow> 'a sched_scheme option" where
  "run_timers w s =
     (case next_timer s of
        None \<Rightarrow> Some s
      | Some p \<Rightarrow>
          if tm_jiffies (timer_list s p) \<le> 0
          then do {
            let fn = tm_fn (timer_list s p);
            s \<leftarrow> w_call w fn
              (s\<lparr>timer_list := (timer_list s)(p := (timer_list s p)\<lparr>tm_fn := 0\<rparr>),
                 next_timer := tm_next (timer_list s p)\<rparr>);
            run_timers w s
          }
          else Some s)"

definition do_timer ::
  "'a sched_scheme world \<Rightarrow> u32 \<Rightarrow> 'a sched_scheme \<Rightarrow> 'a sched_scheme option" where
  "do_timer w cpl s = do {
     s \<leftarrow> (if hd_timeout s \<noteq> 0
           then let s1 = s\<lparr>hd_timeout := hd_timeout s - 1\<rparr> in
                if hd_timeout s1 = 0 then w_hd_times_out w s1 else Some s1
           else Some s);
     let s = (if cpl \<noteq> 0 then mod_cur (\<lambda>t. t\<lparr>t_utime := t_utime t + 1\<rparr>) s
              else mod_cur (\<lambda>t. t\<lparr>t_stime := t_stime t + 1\<rparr>) s);
     s \<leftarrow> (case next_timer s of
             None \<Rightarrow> Some s
           | Some p \<Rightarrow> run_timers w (s\<lparr>timer_list := (timer_list s)
               (p := (timer_list s p)\<lparr>tm_jiffies := tm_jiffies (timer_list s p) - 1\<rparr>)\<rparr>));
     let s = mod_cur (\<lambda>t. t\<lparr>t_counter := t_counter t - 1\<rparr>) s;
     if t_counter (cur s) > 0 then Some s
     else do {
       let s = mod_cur (\<lambda>t. t\<lparr>t_counter := 0\<rparr>) s;
       if cpl = 0 then Some s else schedule w s
     }
   }"

section \<open>Initialisation\<close>

text \<open>Offsets of \<^verbatim>\<open>ldt\<close> and \<^verbatim>\<open>tss\<close> in \<^verbatim>\<open>struct task_struct\<close> and its size.\<close>

abbreviation (input) LDT_OFFSET :: u32 where "LDT_OFFSET \<equiv> 920"
abbreviation (input) TSS_OFFSET :: u32 where "TSS_OFFSET \<equiv> 944"

definition TSS_sel :: "nat \<Rightarrow> u32" where
  "TSS_sel n = push_bit 4 (of_nat n) + push_bit 3 4"

definition LDT_sel :: "nat \<Rightarrow> u32" where
  "LDT_sel n = push_bit 4 (of_nat n) + push_bit 3 5"

definition init_task :: "task_struct \<Rightarrow> task_struct" where
  "init_task t =
     \<lparr>t_state = 0, t_counter = 15, t_priority = 15, t_signal = 0,
      t_sigaction = (\<lambda>i. if i < 32
        then \<lparr>sa_handler = 0, sa_mask = 0, sa_flags = 0, sa_restorer = 0\<rparr> else t_sigaction t i),
      t_blocked = 0, t_exit_code = 0, t_start_code = 0, t_end_code = 0, t_end_data = 0,
      t_brk = 0, t_start_stack = 0, t_pid = 0, t_pgrp = 0, t_session = 0, t_leader = 0,
      t_groups = (\<lambda>i. if i < NGROUPS then NOGROUP else t_groups t i),
      p_pptr = 0, p_cptr = 0, p_ysptr = 0, p_osptr = 0,
      t_uid = 0, t_euid = 0, t_suid = 0, t_gid = 0, t_egid = 0, t_sgid = 0,
      t_timeout = 0, t_alarm = 0, t_utime = 0, t_stime = 0, t_cutime = 0, t_cstime = 0,
      t_start_time = 0,
      t_rlim = (\<lambda>i. if i < RLIM_NLIMITS
        then \<lparr>rlim_cur = RLIM_INFINITY, rlim_max = RLIM_INFINITY\<rparr> else t_rlim t i),
      t_flags = 0, t_used_math = 0, t_tty = - 1, t_umask = 18,
      t_pwd = None, t_root = None, t_executable = None, t_library = None,
      t_close_on_exec = 0,
      t_filp = (\<lambda>i. if i < NR_OPEN then None else t_filp t i),
      t_ldt = (t_ldt t)(0 := \<lparr>desc_a = 0, desc_b = 0\<rparr>,
        1 := \<lparr>desc_a = 0x02FF, desc_b = 0x00C0FA00\<rparr>,
        2 := \<lparr>desc_a = 0x02FF, desc_b = 0x00C0F200\<rparr>),
      t_tss = \<lparr>tss_back_link = 0, tss_esp0 = 0x13000, tss_ss0 = 0x10, tss_esp1 = 0,
        tss_ss1 = 0, tss_esp2 = 0, tss_ss2 = 0, tss_cr3 = 0, tss_eip = 0, tss_eflags = 0,
        tss_eax = 0, tss_ecx = 0, tss_edx = 0, tss_ebx = 0, tss_esp = 0, tss_ebp = 0,
        tss_esi = 0, tss_edi = 0, tss_es = 0x17, tss_cs = 0x0F, tss_ss = 0x17,
        tss_ds = 0x17, tss_fs = 0x17, tss_gs = 0x17, tss_ldt = LDT_sel 0,
        tss_trace_bitmap = 0x80000000\<rparr>\<rparr>"

text \<open>
  \<open>timer_interrupt\<close> and \<open>system_call\<close> are the addresses of the assembly entry points
  (\<^verbatim>\<open>kernel/sys_call.s\<close>); \<^verbatim>\<open>LATCH\<close> is \<open>1193180 / 100 = 11931\<close>. The \<^verbatim>\<open>ltr\<close>/\<^verbatim>\<open>lldt\<close>
  instructions and the clearing of the NT flag only change processor registers.
\<close>

definition sched_init ::
  "'a sched_scheme world \<Rightarrow> u32 \<Rightarrow> u32 \<Rightarrow> 'a sched_scheme \<Rightarrow> 'a sched_scheme" where
  "sched_init w timer_interrupt system_call s0 =
     (let cp = 0x12000;
          s = s0\<lparr>jiffies := 0, startup_time := 0, jiffies_offset := 0,
                 task := (\<lambda>i. if i < NR_TASKS then (if i = 0 then cp else 0) else task s0 i),
                 last_task_used_math := 0, last_pid := 0, current := cp,
                 timer_list := (\<lambda>i. if i < TIME_REQUESTS
                   then \<lparr>tm_jiffies = 0, tm_fn = 0, tm_next = None\<rparr> else timer_list s0 i),
                 next_timer := None\<rparr>;
          s = mod_task cp init_task s;
          s = s\<lparr>gdt := set_ldt_desc 5 (cp + LDT_OFFSET) (set_tss_desc 4 (cp + TSS_OFFSET) (gdt s))\<rparr>;
          s = s\<lparr>gdt := (\<lambda>i. if 6 \<le> i \<and> i < 6 + 2 * (NR_TASKS - 1)
                  then \<lparr>desc_a = 0, desc_b = 0\<rparr> else gdt s i)\<rparr>;
          s = outb 0x36 0x43 s;
          s = outb (of_nat (11931 mod 256)) 0x40 s;
          s = outb (of_nat (11931 div 256)) 0x40 s;
          s = s\<lparr>idt := set_intr_gate 0x20 timer_interrupt (idt s)\<rparr>;
          (v, s) = inb w 0x21 s;
          s = outb (v AND NOT 0x01) 0x21 s
      in s\<lparr>idt := set_system_gate 0x80 system_call (idt s)\<rparr>)"

lemmas [kdefs] = outb_def inb_def mod_task_def set_state_def sched_check_def sched_signals_def
  sched_pick_def sched_recalc_def switch_to_def schedule_def sys_pause_def sleep_enter_def
  sleep_again_def sleep_leave_def sleep_on_state_def sleep_on_def interruptible_sleep_on_def
  wake_up_def free_timer_def add_timer_def do_timer_def

section \<open>Frame lemmas\<close>

lemma mod_task_simps [simp]:
  "task (mod_task p f s) = task s" "current (mod_task p f s) = current s"
  "jiffies (mod_task p f s) = jiffies s" "wq (mod_task p f s) = wq s"
  "last_pid (mod_task p f s) = last_pid s" "timer_list (mod_task p f s) = timer_list s"
  "next_timer (mod_task p f s) = next_timer s" "fs_mem (mod_task p f s) = fs_mem s"
  "kmem (mod_task p f s) = kmem s" "gdt (mod_task p f s) = gdt s"
  "startup_time (mod_task p f s) = startup_time s"
  "jiffies_offset (mod_task p f s) = jiffies_offset s"
  "tstruct (mod_task p f s) = (tstruct s)(p := f (tstruct s p))"
  "sched.more (mod_task p f s) = sched.more s"
  by (simp_all add: mod_task_def)

lemma set_state_simps [simp]:
  "task (set_state st p s) = task s" "current (set_state st p s) = current s"
  "jiffies (set_state st p s) = jiffies s" "wq (set_state st p s) = wq s"
  "tstruct (set_state st p s) = (tstruct s)(p := (tstruct s p)\<lparr>t_state := st\<rparr>)"
  by (simp_all add: set_state_def)

text \<open>A loop over the task table changes only the tasks; if its body establishes and keeps a
  property, every task of the table has it afterwards.\<close>

lemma for_tasks_frame [simp]:
  "task (for_tasks f s) = task s" "jiffies (for_tasks f s) = jiffies s"
  "current (for_tasks f s) = current s" "wq (for_tasks f s) = wq s"
proof -
  let ?g = "\<lambda>i s. if task s i \<noteq> 0 then mod_task (task s i) f s else s"
  have "task (fold ?g xs s) = task s \<and> jiffies (fold ?g xs s) = jiffies s
      \<and> current (fold ?g xs s) = current s \<and> wq (fold ?g xs s) = wq s" for xs
    by (induction xs arbitrary: s) auto
  then show "task (for_tasks f s) = task s" "jiffies (for_tasks f s) = jiffies s"
    "current (for_tasks f s) = current s" "wq (for_tasks f s) = wq s"
    by (simp_all add: for_tasks_def)
qed

lemma for_tasks_all:
  assumes est: "\<And>t. Q t \<Longrightarrow> P (f t) \<and> Q (f t)" and "\<And>p. Q (tstruct s p)"
    and "i \<in> {1..63}" and "task s i \<noteq> 0"
  shows "P (tstruct (for_tasks f s) (task s i))"
proof -
  let ?g = "\<lambda>i s. if task s i \<noteq> 0 then mod_task (task s i) f s else s"
  have "\<forall>i \<in> I \<union> set xs. task s i \<noteq> 0 \<longrightarrow> P (tstruct (fold ?g xs s) (task s i))"
    if "\<And>p. Q (tstruct s p)" "\<forall>i \<in> I. task s i \<noteq> 0 \<longrightarrow> P (tstruct s (task s i))"
    for xs I s
    using that
  proof (induction xs arbitrary: s I)
    case (Cons x xs)
    have *: "\<And>p. Q (tstruct (?g x s) p)" "task (?g x s) = task s"
      "\<forall>i \<in> insert x I. task s i \<noteq> 0 \<longrightarrow> P (tstruct (?g x s) (task s i))"
      using Cons.prems est by auto
    from Cons.IH[of "?g x s" "insert x I"] * show ?case by simp
  qed simp
  from this[of s "{}" "down_to 63"] assms show ?thesis
    by (simp add: for_tasks_def)
qed

section \<open>Choosing the next task\<close>

text \<open>The tasks \<^verbatim>\<open>schedule\<close> may choose, and the property of its choice.\<close>

definition runnable :: "'a sched_scheme \<Rightarrow> nat \<Rightarrow> bool" where
  "runnable s i \<longleftrightarrow> i \<in> {1..63} \<and> task s i \<noteq> 0 \<and> t_state (tstruct s (task s i)) = TASK_RUNNING"

abbreviation counter_of :: "'a sched_scheme \<Rightarrow> nat \<Rightarrow> int" where
  "counter_of s i \<equiv> t_counter (tstruct s (task s i))"

definition best :: "'a sched_scheme \<Rightarrow> nat set \<Rightarrow> int \<Rightarrow> nat \<Rightarrow> bool" where
  "best s I c n \<longleftrightarrow>
     (\<forall>i \<in> I. task s i \<noteq> 0 \<and> t_state (tstruct s (task s i)) = TASK_RUNNING
        \<longrightarrow> counter_of s i \<le> c)
     \<and> (c = - 1 \<and> n = 0
        \<or> 0 \<le> c \<and> n \<in> I \<and> task s n \<noteq> 0 \<and> t_state (tstruct s (task s n)) = TASK_RUNNING
          \<and> counter_of s n = c)"

lemma sched_pick_best: "sched_pick s = (c, n) \<Longrightarrow> best s {1..63} c n"
proof -
  let ?f = "\<lambda>i (c, next). if task s i \<noteq> 0 \<and> t_state (tstruct s (task s i)) = TASK_RUNNING
        \<and> t_counter (tstruct s (task s i)) > c
     then (t_counter (tstruct s (task s i)), i) else (c, next)"
  have step: "best s I c n \<Longrightarrow> best s (I \<union> set xs) (fst (fold ?f xs (c, n))) (snd (fold ?f xs (c, n)))"
    for I xs c n
  proof (induction xs arbitrary: I c n)
    case (Cons x xs)
    obtain c' n' where x: "?f x (c, n) = (c', n')" by fastforce
    with Cons.prems have "best s (insert x I) c' n'"
      by (auto simp: best_def split: if_splits)
    from Cons.IH[OF this] x show ?case by simp
  qed simp
  assume "sched_pick s = (c, n)"
  with step[of "{}" "- 1" 0 "down_to 63"] show ?thesis
    by (simp add: sched_pick_def best_def)
qed

lemma sched_frame [simp]:
  "task (sched_recalc s) = task s" "current (sched_recalc s) = current s" "wq (sched_recalc s) = wq s"
  "task (sched_signals s) = task s" "current (sched_signals s) = current s" "wq (sched_signals s) = wq s"
  by (simp_all add: sched_recalc_def sched_signals_def)

lemma for_tasks_inv:
  assumes "\<And>t. I t \<Longrightarrow> I (f t)" and "I (tstruct s p)"
  shows "I (tstruct (for_tasks f s) p)"
  using assms(2) unfolding for_tasks_def by (rule fold_invariant) (auto intro: assms(1))

lemma sched_recalc_state [simp]:
  "t_state (tstruct (sched_recalc s) p) = t_state (tstruct s p)"
  "t_priority (tstruct (sched_recalc s) p) = t_priority (tstruct s p)"
  unfolding sched_recalc_def
  by (rule for_tasks_inv [where I = "\<lambda>t. t_state t = t_state (tstruct s p)"], simp_all)
     (rule for_tasks_inv [where I = "\<lambda>t. t_priority t = t_priority (tstruct s p)"], simp_all)

text \<open>One round of recalculation is enough if every runnable task has a positive priority.\<close>

lemma sched_recalc_positive:
  assumes "i \<in> {1..63}" "task s i \<noteq> 0" "t_priority (tstruct s (task s i)) > 0" "counter_of s i \<ge> 0"
  shows "counter_of (sched_recalc s) i > 0"
proof -
  let ?q = "task s i"
  let ?g = "\<lambda>t. t\<lparr>t_counter := t_counter t div 2 + t_priority t\<rparr>"
  let ?h = "\<lambda>i s. if task s i \<noteq> 0 then mod_task (task s i) ?g s else s"
  have "t_priority (tstruct (fold ?h xs u) ?q) = t_priority (tstruct u ?q)
      \<and> (t_counter (tstruct u ?q) \<ge> 0 \<longrightarrow> t_counter (tstruct (fold ?h xs u) ?q) \<ge> 0)
      \<and> (t_counter (tstruct u ?q) > 0 \<or> t_counter (tstruct u ?q) = 0 \<and> i \<in> set xs
           \<longrightarrow> t_counter (tstruct (fold ?h xs u) ?q) > 0)"
    if "task u = task s" "t_priority (tstruct u ?q) > 0" for xs u
    using that
  proof (induction xs arbitrary: u)
    case (Cons x xs)
    from Cons.prems Cons.IH[of "?h x u"] assms(2) show ?case
      by (cases "task s x = ?q") (auto split del: if_split split: if_splits)
  qed simp
  note this[of s "down_to 63"]
  moreover have "tstruct (sched_recalc s) = tstruct (fold ?h (down_to 63) s)"
    by (simp add: sched_recalc_def for_tasks_def)
  ultimately show ?thesis using assms by (cases "counter_of s i = 0") auto
qed

lemma sched_loop_chooses:
  assumes prio: "\<And>i. runnable s i \<Longrightarrow> t_priority (tstruct s (task s i)) > 0"
  shows "\<exists>n s'. sched_loop s = Some (n, s') \<and> (\<exists>c. sched_pick s' = (c, n) \<and> c \<noteq> 0)
     \<and> task s' = task s \<and> current s' = current s \<and> wq s' = wq s
     \<and> (\<forall>p. t_state (tstruct s' p) = t_state (tstruct s p))"
proof -
  obtain c n where pick: "sched_pick s = (c, n)" by fastforce
  show ?thesis
  proof (cases "c = 0")
    case False
    with pick show ?thesis by (subst sched_loop.simps) (simp add: Let_def)
  next
    case True
    let ?s = "sched_recalc s"
    from sched_pick_best[OF pick] True have n: "n \<in> {1..63}" "task s n \<noteq> 0"
      "t_state (tstruct s (task s n)) = TASK_RUNNING" "counter_of s n = 0"
      by (auto simp: best_def)
    then have "runnable s n" by (simp add: runnable_def)
    with prio n have pos: "counter_of ?s n > 0" by (intro sched_recalc_positive) auto
    obtain c' n' where pick': "sched_pick ?s = (c', n')" by fastforce
    with sched_pick_best[OF pick'] n pos have "c' \<noteq> 0" by (auto simp: best_def)
    with pick pick' True show ?thesis
      by (subst sched_loop.simps, subst sched_loop.simps) (simp add: Let_def)
  qed
qed

lemma sched_check_priority [simp]: "t_priority (sched_check now t) = t_priority t"
  by (simp add: sched_check_def Let_def)

lemma sched_signals_priority [simp]:
  "t_priority (tstruct (sched_signals s) p) = t_priority (tstruct s p)"
  unfolding sched_signals_def
  by (rule for_tasks_inv [where I = "\<lambda>t. t_priority t = t_priority (tstruct s p)"], simp_all)

text \<open>
  C2. \<^verbatim>\<open>schedule\<close> always finds a task to run when every task has a positive priority: it does not
  loop forever, and it chooses a runnable task with a positive counter no other runnable task
  exceeds, or task 0 when no runnable task has a counter left that is not negative.
\<close>

theorem schedule_chooses_best:
  assumes "\<And>i. i \<in> {1..63} \<Longrightarrow> task s i \<noteq> 0 \<Longrightarrow> t_priority (tstruct s (task s i)) > 0"
  shows "\<exists>n s'. sched_loop (sched_signals s) = Some (n, s')
     \<and> schedule w s = Some (switch_to w n s') \<and> task s' = task s
     \<and> (\<forall>p. t_state (tstruct s' p) = t_state (tstruct (sched_signals s) p))
     \<and> (if n = 0 then \<forall>i. runnable s' i \<longrightarrow> counter_of s' i < 0
        else runnable s' n \<and> counter_of s' n > 0
             \<and> (\<forall>i. runnable s' i \<longrightarrow> counter_of s' i \<le> counter_of s' n))"
proof -
  have "\<And>i. runnable (sched_signals s) i
      \<Longrightarrow> t_priority (tstruct (sched_signals s) (task (sched_signals s) i)) > 0"
    using assms by (simp add: runnable_def)
  from sched_loop_chooses[OF this] obtain n s' c where
    l: "sched_loop (sched_signals s) = Some (n, s')" "sched_pick s' = (c, n)" "c \<noteq> 0"
       "task s' = task s" "\<forall>p. t_state (tstruct s' p) = t_state (tstruct (sched_signals s) p)"
    by auto
  from sched_pick_best[OF l(2)] l(3)
  have "if n = 0 then \<forall>i. runnable s' i \<longrightarrow> counter_of s' i < 0
        else runnable s' n \<and> counter_of s' n > 0
             \<and> (\<forall>i. runnable s' i \<longrightarrow> counter_of s' i \<le> counter_of s' n)"
    by (fastforce simp: best_def runnable_def)
  with l show ?thesis by (auto simp: schedule_def)
qed

section \<open>The timer list\<close>

text \<open>
  The abstract timer list: the pending timers in order, each with the ticks left after the one
  before it has run out. \<open>tm_insert\<close> is the effect of the loop of \<^verbatim>\<open>add_timer\<close> on it, as the
  code has it: the entry that follows the new one keeps its ticks. It serves as a step of the
  proofs; what is wanted of a timer is stated by the ticks at which the timers are due.
\<close>

fun tm_insert :: "int \<times> nat \<Rightarrow> (int \<times> nat) list \<Rightarrow> (int \<times> nat) list" where
  "tm_insert (j, f) [] = [(j, f)]"
| "tm_insert (j, f) ((k, g) # xs) =
     (if k < j then (k, g) # tm_insert (j - k, f) xs else (j, f) # (k, g) # xs)"

fun tm_chain :: "(nat \<Rightarrow> timer) \<Rightarrow> nat option \<Rightarrow> nat list \<Rightarrow> bool" where
  "tm_chain ts q [] \<longleftrightarrow> q = None"
| "tm_chain ts q (p # ps) \<longleftrightarrow> q = Some p \<and> tm_chain ts (tm_next (ts p)) ps"

definition tm_abs :: "(nat \<Rightarrow> timer) \<Rightarrow> nat list \<Rightarrow> (int \<times> nat) list" where
  "tm_abs ts ps = map (\<lambda>p. (tm_jiffies (ts p), tm_fn (ts p))) ps"

lemma tm_chain_cong:
  "(\<And>p. p \<in> set ps \<Longrightarrow> tm_next (ts' p) = tm_next (ts p)) \<Longrightarrow> tm_chain ts' q ps = tm_chain ts q ps"
  by (induction ps arbitrary: q) auto

lemma tm_abs_Cons [simp]: "tm_abs ts (p # ps) = (tm_jiffies (ts p), tm_fn (ts p)) # tm_abs ts ps"
  and tm_abs_Nil [simp]: "tm_abs ts [] = []"
  by (simp_all add: tm_abs_def)

lemma tm_abs_cong: "(\<And>p. p \<in> set ps \<Longrightarrow> ts' p = ts p) \<Longrightarrow> tm_abs ts' ps = tm_abs ts ps"
  by (simp add: tm_abs_def)

lemma timer_sink_refines:
  assumes "tm_chain ts (Some p) (p # ps)" and "distinct (p # ps)"
  shows "\<exists>ts'. timer_sink p ts = Some ts' \<and> (\<forall>q. tm_next (ts' q) = tm_next (ts q))
     \<and> (\<forall>q. q \<notin> set (p # ps) \<longrightarrow> ts' q = ts q)
     \<and> tm_abs ts' (p # ps) = tm_insert (tm_jiffies (ts p), tm_fn (ts p)) (tm_abs ts ps)"
  using assms
proof (induction ps arbitrary: p ts)
  case Nil
  then show ?case by (subst timer_sink.simps) simp
next
  case (Cons n ps)
  from Cons.prems have nx: "tm_next (ts p) = Some n" and ch: "tm_chain ts (tm_next (ts n)) ps"
    and d: "p \<noteq> n" "p \<notin> set ps" "n \<notin> set ps" "distinct ps" by auto
  show ?case
  proof (cases "tm_jiffies (ts n) < tm_jiffies (ts p)")
    case False
    with nx show ?thesis by (subst timer_sink.simps) auto
  next
    case True
    let ?j = "tm_jiffies (ts p) - tm_jiffies (ts n)"
    let ?ts1 = "ts(p := (ts p)\<lparr>tm_jiffies := tm_jiffies (ts n), tm_fn := tm_fn (ts n)\<rparr>)"
    let ?ts = "?ts1(n := (?ts1 n)\<lparr>tm_jiffies := ?j, tm_fn := tm_fn (ts p)\<rparr>)"
    have step: "timer_sink p ts = timer_sink n ?ts"
      using nx True by (subst timer_sink.simps) (simp add: Let_def)
    have "tm_chain ?ts (tm_next (ts n)) ps \<longleftrightarrow> tm_chain ts (tm_next (ts n)) ps"
      using d by (intro tm_chain_cong) auto
    then have "tm_chain ?ts (Some n) (n # ps)" "distinct (n # ps)"
      using ch d by simp_all
    from Cons.IH[OF this] obtain ts' where ts':
      "timer_sink n ?ts = Some ts'" "\<forall>q. tm_next (ts' q) = tm_next (?ts q)"
      "\<forall>q. q \<notin> set (n # ps) \<longrightarrow> ts' q = ?ts q"
      "tm_abs ts' (n # ps) = tm_insert (tm_jiffies (?ts n), tm_fn (?ts n)) (tm_abs ?ts ps)"
      by blast
    have "ts' p = ?ts p" "tm_abs ?ts ps = tm_abs ts ps"
      using ts'(3) d by (auto intro!: tm_abs_cong)
    then have "tm_abs ts' (p # n # ps) = tm_insert (tm_jiffies (ts p), tm_fn (ts p)) (tm_abs ts (n # ps))"
      using ts'(4) d True by simp
    moreover have "timer_sink p ts = Some ts'" using ts'(1) step by simp
    moreover have "\<forall>q. tm_next (ts' q) = tm_next (ts q)" using ts'(2) by simp
    moreover have "\<forall>q. q \<notin> set (p # n # ps) \<longrightarrow> ts' q = ts q" using ts'(3) by simp
    ultimately show ?thesis by blast
  qed
qed

lemma add_timer_inserts:
  assumes "tm_chain (timer_list s) (next_timer s) ps" and "distinct ps"
    and "\<And>p. p \<in> set ps \<Longrightarrow> tm_fn (timer_list s p) \<noteq> 0"
    and "free_timer s = Some n" and "jif > 0" and "fn \<noteq> 0"
  shows "\<exists>s'. add_timer w jif fn s = Some s' \<and> tm_chain (timer_list s') (next_timer s') (n # ps)
     \<and> tm_abs (timer_list s') (n # ps) = tm_insert (jif, fn) (tm_abs (timer_list s) ps)"
proof -
  let ?ts = "(timer_list s)(n := \<lparr>tm_jiffies = jif, tm_fn = fn, tm_next = next_timer s\<rparr>)"
  have "tm_fn (timer_list s n) = 0"
    using assms(4) by (auto simp: free_timer_def find_Some_iff)
  with assms(3)[of n] have n: "n \<notin> set ps" by auto
  then have "tm_chain ?ts (next_timer s) ps \<longleftrightarrow> tm_chain (timer_list s) (next_timer s) ps"
    by (intro tm_chain_cong) auto
  with assms(1) n assms(2) have ch: "tm_chain ?ts (Some n) (n # ps)" and "distinct (n # ps)"
    by simp_all
  from timer_sink_refines[OF this] obtain ts' where
    "timer_sink n ?ts = Some ts'" "\<forall>q. tm_next (ts' q) = tm_next (?ts q)"
    "tm_abs ts' (n # ps) = tm_insert (jif, fn) (tm_abs ?ts ps)"
    by (metis fun_upd_same timer.select_convs(1,2))
  moreover have "tm_abs ?ts ps = tm_abs (timer_list s) ps"
    using n by (auto intro!: tm_abs_cong)
  moreover have "tm_chain ts' (Some n) (n # ps) \<longleftrightarrow> tm_chain ?ts (Some n) (n # ps)"
    using calculation(2) by (intro tm_chain_cong) simp
  ultimately show ?thesis using assms(4-6) ch by (simp add: add_timer_def)
qed

text \<open>The tick at which each timer of the list is due, and the tick a function is called.\<close>

fun tm_due :: "int \<Rightarrow> (int \<times> nat) list \<Rightarrow> (int \<times> nat) list" where
  "tm_due t [] = []"
| "tm_due t ((k, g) # xs) = (t + k, g) # tm_due (t + k) xs"

lemma tm_due_shift: "tm_due (t + d) xs = map (\<lambda>(k, g). (k + d, g)) (tm_due t xs)"
  by (induction t xs rule: tm_due.induct) (auto simp: add.commute add.left_commute)

lemma tm_due_insert:
  "\<exists>us vs. tm_due t xs = us @ vs \<and> (\<forall>(k, g) \<in> set us. k < t + j)
     \<and> (vs \<noteq> [] \<longrightarrow> t + j \<le> fst (hd vs))
     \<and> tm_due t (tm_insert (j, f) xs)
         = us @ (t + j, f) # map (\<lambda>(k, g). (k + (t + j - (if us = [] then t else fst (last us))), g)) vs"
proof (induction xs arbitrary: t j)
  case (Cons x xs)
  obtain k g where x: "x = (k, g)" by fastforce
  show ?case
  proof (cases "k < j")
    case False
    with x show ?thesis by (intro exI [of _ "[]"] exI [of _ "tm_due t (x # xs)"])
        (simp add: tm_due_shift [symmetric] add_ac)
  next
    case True
    from Cons.IH[of "t + k" "j - k"] obtain us vs where
      "tm_due (t + k) xs = us @ vs" "\<forall>(k, g) \<in> set us. k < t + j"
      "vs \<noteq> [] \<longrightarrow> t + j \<le> fst (hd vs)"
      "tm_due (t + k) (tm_insert (j - k, f) xs) = us @ (t + j, f)
         # map (\<lambda>(k', g). (k' + (t + j - (if us = [] then t + k else fst (last us))), g)) vs"
      by auto
    with x True show ?thesis by (intro exI [of _ "(t + k, g) # us"] exI [of _ vs]) auto
  qed
qed simp

text \<open>
  C36. \<^verbatim>\<open>add_timer\<close> and the ticks at which timers are due, counted from now. With a positive
  number \<open>jif\<close> of ticks, a function that is not null and a free entry, on a well-formed list of
  pending timers, the call returns, the list is well formed with one entry more, the new timer is
  due in exactly \<open>jif\<close> ticks, after the timers due earlier, and those keep their time. Each timer
  due at or after the new one is late by \<open>jif\<close> less the time of the timer before the new one: the
  code does not take the ticks of the new entry off the entry that follows it.
\<close>

theorem add_timer_due:
  assumes "tm_chain (timer_list s) (next_timer s) ps" and "distinct ps"
    and "\<And>p. p \<in> set ps \<Longrightarrow> tm_fn (timer_list s p) \<noteq> 0"
    and "free_timer s = Some n" and "jif > 0" and "fn \<noteq> 0"
  shows "\<exists>s' us vs. add_timer w jif fn s = Some s'
     \<and> tm_chain (timer_list s') (next_timer s') (n # ps)
     \<and> tm_due 0 (tm_abs (timer_list s) ps) = us @ vs
     \<and> (\<forall>(k, g) \<in> set us. k < jif) \<and> (vs \<noteq> [] \<longrightarrow> jif \<le> fst (hd vs))
     \<and> tm_due 0 (tm_abs (timer_list s') (n # ps)) = us @ (jif, fn)
         # map (\<lambda>(k, g). (k + (jif - (if us = [] then 0 else fst (last us))), g)) vs"
proof -
  from add_timer_inserts [OF assms] obtain s' where s': "add_timer w jif fn s = Some s'"
    "tm_chain (timer_list s') (next_timer s') (n # ps)"
    "tm_abs (timer_list s') (n # ps) = tm_insert (jif, fn) (tm_abs (timer_list s) ps)" by blast
  from tm_due_insert [of 0 "tm_abs (timer_list s) ps" jif fn] obtain us vs where
    "tm_due 0 (tm_abs (timer_list s) ps) = us @ vs" "\<forall>(k, g) \<in> set us. k < jif"
    "vs \<noteq> [] \<longrightarrow> jif \<le> fst (hd vs)"
    "tm_due 0 (tm_insert (jif, fn) (tm_abs (timer_list s) ps)) = us @ (jif, fn)
         # map (\<lambda>(k, g). (k + (jif - (if us = [] then 0 else fst (last us))), g)) vs"
    unfolding add_0 by blast
  with s' show ?thesis by (intro exI conjI) (assumption | simp only:)+
qed

section \<open>Pending signals\<close>

definition deliverable :: "task_struct \<Rightarrow> u32" where
  "deliverable t = t_signal t AND NOT (BLOCKABLE AND t_blocked t)"

lemma sched_signals_wakes:
  assumes "i \<in> {1..63}" and "task s i \<noteq> 0"
  defines "t \<equiv> tstruct (sched_signals s) (task s i)"
  shows "\<not> (t_state t = TASK_INTERRUPTIBLE \<and> deliverable t \<noteq> 0)"
  unfolding t_def sched_signals_def
  by (rule for_tasks_all [where Q = "\<lambda>_. True"])
     (use assms in \<open>auto simp: sched_check_def deliverable_def Let_def\<close>)

lemma sched_signals_kill_stop:
  assumes "bit (t_signal t) (sig - 1)" and "sig = SIGKILL \<or> sig = SIGSTOP"
  shows "deliverable t \<noteq> 0"
proof -
  have "bit (deliverable t) (sig - 1)"
    using assms by (auto simp: deliverable_def BLOCKABLE_def bit_simps dest: bit_imp_le_length)
  then show ?thesis by auto
qed

section \<open>Sleep queues\<close>

text \<open>
  The sleepers of a wait queue form a stack: the variable points to the task that went to sleep
  last, whose \<open>tmp\<close> is the one before, and so on. \<open>sleepq\<close> is a wait queue as the tasks asleep
  on it see it; its steps are made of the parts of \<^verbatim>\<open>__sleep_on\<close> and of \<^verbatim>\<open>wake_up\<close>, applied
  to the kernel state. A task runs only when its state is \<open>TASK_RUNNING\<close>; a signal may make any
  task running.
\<close>

type_synonym 'a sleepq = "'a sched_scheme \<times> (task_ptr \<rightharpoonup> task_ptr)"

inductive sleep_step :: "waitq \<Rightarrow> 'a sleepq \<Rightarrow> 'a sleepq \<Rightarrow> bool" for q where
  enter: "tmp t = None \<Longrightarrow> t \<noteq> 0 \<Longrightarrow> st \<in> {TASK_INTERRUPTIBLE, TASK_UNINTERRUPTIBLE} \<Longrightarrow>
    sleep_step q (s, tmp)
      (sleep_enter q st (s\<lparr>current := t\<rparr>), tmp(t \<mapsto> wq s q))"
| wake: "sleep_step q (s, tmp) (wake_up q s, tmp)"
| signal: "sleep_step q (s, tmp) (set_state TASK_RUNNING t s, tmp)"
| again: "tmp t = Some r \<Longrightarrow> t_state (tstruct s t) = TASK_RUNNING \<Longrightarrow>
    sleep_again q (s\<lparr>current := t\<rparr>) = (True, s') \<Longrightarrow>
    sleep_step q (s, tmp) (s', tmp)"
| leave: "tmp t = Some r \<Longrightarrow> t_state (tstruct s t) = TASK_RUNNING \<Longrightarrow>
    sleep_again q (s\<lparr>current := t\<rparr>) = (False, s') \<Longrightarrow>
    sleep_step q (s, tmp) (sleep_leave q r s', tmp(t := None))"

fun sleep_chain :: "(task_ptr \<rightharpoonup> task_ptr) \<Rightarrow> task_ptr \<Rightarrow> task_ptr list \<Rightarrow> bool" where
  "sleep_chain tmp h [] \<longleftrightarrow> h = 0"
| "sleep_chain tmp h (t # ts) \<longleftrightarrow> h = t \<and> t \<noteq> 0 \<and> (\<exists>r. tmp t = Some r \<and> sleep_chain tmp r ts)"

definition sleepq_ok :: "waitq \<Rightarrow> 'a sleepq \<Rightarrow> bool" where
  "sleepq_ok q st \<longleftrightarrow> (\<exists>ts. distinct ts \<and> set ts = dom (snd st)
     \<and> sleep_chain (snd st) (wq (fst st) q) ts)"

lemma sleep_chain_cong:
  "(\<And>t. t \<in> set ts \<Longrightarrow> tmp' t = tmp t) \<Longrightarrow> sleep_chain tmp' h ts = sleep_chain tmp h ts"
  by (induction ts arbitrary: h) auto

lemma sleep_chain_upd [simp]: "t \<notin> set ts \<Longrightarrow> sleep_chain (tmp(t := r)) h ts = sleep_chain tmp h ts"
  by (rule sleep_chain_cong) auto

lemma wq_sleep_simps [simp]:
  "wq (wake_up q' s) = wq s"
  "wq (sleep_enter q' st s) = (wq s)(q' := current s)"
  "wq (sleep_leave q' r s) = (wq s)(q' := r)"
  "wq (snd (sleep_again q' s)) = wq s"
  by (simp_all add: wake_up_def sleep_enter_def sleep_leave_def sleep_again_def Let_def)

lemma sleep_step_ok:
  assumes "sleep_step q st st'" and "sleepq_ok q st"
  shows "sleepq_ok q st'"
  using assms
proof (cases rule: sleep_step.cases)
  case (enter tmp t st0 s)
  with assms(2) obtain ts where ts: "distinct ts" "set ts = dom tmp" "sleep_chain tmp (wq s q) ts"
    by (auto simp: sleepq_ok_def)
  with enter have "t \<notin> set ts" by auto
  with ts enter have "distinct (t # ts)" "set (t # ts) = dom (tmp(t \<mapsto> wq s q))"
    "sleep_chain (tmp(t \<mapsto> wq s q)) t (t # ts)"
    by auto
  with enter show ?thesis by (auto simp: sleepq_ok_def intro!: exI [of _ "t # ts"])
next
  case (again tmp t r s s')
  then have "wq s' = wq s" by (auto simp: sleep_again_def split: if_splits)
  with again assms(2) show ?thesis by (simp add: sleepq_ok_def)
next
  case (leave tmp t r s s')
  then have s': "wq s' = wq s" "wq s q = 0 \<or> wq s q = t" by (auto simp: sleep_again_def split: if_splits)
  from assms(2) leave obtain ts where ts: "distinct ts" "set ts = dom tmp" "sleep_chain tmp (wq s q) ts"
    by (auto simp: sleepq_ok_def)
  with leave have "t \<in> set ts" by auto
  then obtain u us where us: "ts = u # us" by (cases ts) auto
  with ts s' leave have "u = t" "sleep_chain tmp r us" by auto
  with us ts leave have "distinct us" "set us = dom (tmp(t := None))"
    "sleep_chain (tmp(t := None)) r us"
    by auto
  with leave show ?thesis by (auto simp: sleepq_ok_def)
qed (simp_all add: sleepq_ok_def)

inductive sleep_reach :: "waitq \<Rightarrow> 'a sleepq \<Rightarrow> bool" for q where
  init: "wq s q = 0 \<Longrightarrow> sleep_reach q (s, Map.empty)"
| step: "sleep_reach q st \<Longrightarrow> sleep_step q st st' \<Longrightarrow> sleep_reach q st'"

lemma sleep_reach_ok: "sleep_reach q st \<Longrightarrow> sleepq_ok q st"
proof (induction rule: sleep_reach.induct)
  case (init s)
  then show ?case by (auto simp: sleepq_ok_def intro!: exI [of _ "[]"])
qed (rule sleep_step_ok)

text \<open>
  C9. No sleeper is ever lost: in every state reached from an empty queue, the tasks asleep on
  it are exactly the tasks of the chain that starts at the queue's variable, each once.
\<close>

theorem sleepers_on_chain:
  "sleep_reach q st \<Longrightarrow> \<exists>ts. distinct ts \<and> set ts = dom (snd st)
     \<and> sleep_chain (snd st) (wq (fst st) q) ts"
  unfolding sleepq_ok_def [symmetric] by (rule sleep_reach_ok)

subsection \<open>What one wake-up starts\<close>

text \<open>
  The steps the sleepers take by themselves, with no further \<^verbatim>\<open>wake_up\<close>, no signal and no new
  sleeper: a sleeper that runs finds another task at the head of the queue, makes that one
  running and goes on sleeping, or it returns from \<^verbatim>\<open>__sleep_on\<close>.
\<close>

inductive sleeper_step :: "waitq \<Rightarrow> 'a sleepq \<Rightarrow> 'a sleepq \<Rightarrow> bool" for q where
  goes_on: "tmp t = Some r \<Longrightarrow> t_state (tstruct s t) = TASK_RUNNING \<Longrightarrow>
    sleep_again q (s\<lparr>current := t\<rparr>) = (True, s') \<Longrightarrow>
    sleeper_step q (s, tmp) (s', tmp)"
| returns: "tmp t = Some r \<Longrightarrow> t_state (tstruct s t) = TASK_RUNNING \<Longrightarrow>
    sleep_again q (s\<lparr>current := t\<rparr>) = (False, s') \<Longrightarrow>
    sleeper_step q (s, tmp) (sleep_leave q r s', tmp(t := None))"

lemma sleeper_step_sleep: "sleeper_step q st st' \<Longrightarrow> sleep_step q st st'"
  by (erule sleeper_step.cases) (auto intro: sleep_step.intros)

text \<open>A queue that was woken: its head is running. The second definition is the set of the sleepers
  that are running; a step takes a sleeper off the queue, or one out of that set.\<close>

definition woken_ok :: "waitq \<Rightarrow> 'a sleepq \<Rightarrow> bool" where
  "woken_ok q st \<longleftrightarrow> sleepq_ok q st
     \<and> (wq (fst st) q \<noteq> 0 \<longrightarrow> t_state (tstruct (fst st) (wq (fst st) q)) = TASK_RUNNING)"

definition awake :: "'a sleepq \<Rightarrow> task_ptr set" where
  "awake st = {t \<in> dom (snd st). t_state (tstruct (fst st) t) = TASK_RUNNING}"

lemma sleepq_ok_finite: "sleepq_ok q st \<Longrightarrow> finite (dom (snd st))"
  unfolding sleepq_ok_def by (metis List.finite_set)

lemma sleepq_ok_head:
  assumes "sleepq_ok q st"
  shows "wq (fst st) q = 0 \<longleftrightarrow> snd st = Map.empty" "wq (fst st) q \<noteq> 0 \<Longrightarrow> wq (fst st) q \<in> dom (snd st)"
proof -
  from assms obtain ts where ts: "set ts = dom (snd st)" "sleep_chain (snd st) (wq (fst st) q) ts"
    by (auto simp: sleepq_ok_def)
  show "wq (fst st) q = 0 \<longleftrightarrow> snd st = Map.empty" using ts by (cases ts) auto
  show "wq (fst st) q \<in> dom (snd st)" if "wq (fst st) q \<noteq> 0" using ts that by (cases ts) auto
qed

lemma sleeper_step_progress:
  assumes "woken_ok q st" "snd st \<noteq> Map.empty"
  shows "\<exists>st'. sleeper_step q st st'"
proof -
  obtain s tmp where st: "st = (s, tmp)" by (cases st)
  with assms sleepq_ok_head [of q st] obtain r where h: "wq s q \<noteq> 0" "tmp (wq s q) = Some r"
    "t_state (tstruct s (wq s q)) = TASK_RUNNING"
    by (auto simp: woken_ok_def)
  have "sleep_again q (s\<lparr>current := wq s q\<rparr>) = (False, s\<lparr>current := wq s q\<rparr>)"
    by (simp add: sleep_again_def)
  with h(2,3) have "sleeper_step q (s, tmp) (sleep_leave q r (s\<lparr>current := wq s q\<rparr>), tmp(wq s q := None))"
    by (rule sleeper_step.returns)
  with st show ?thesis by blast
qed

lemma sleeper_step_woken:
  assumes step: "sleeper_step q st st'" and ok: "woken_ok q st"
  shows "woken_ok q st' \<and>
    (card (dom (snd st')) < card (dom (snd st))
     \<or> card (dom (snd st')) = card (dom (snd st)) \<and> card (awake st') < card (awake st))"
proof -
  from ok have q: "sleepq_ok q st" by (simp add: woken_ok_def)
  note fin = sleepq_ok_finite [OF q]
  have q': "sleepq_ok q st'" using sleep_step_ok [OF sleeper_step_sleep [OF step] q] .
  from step show ?thesis
  proof (cases rule: sleeper_step.cases)
    case (goes_on tmp t r s s')
    then have s': "wq s q \<noteq> 0" "wq s q \<noteq> t"
      "s' = set_state TASK_UNINTERRUPTIBLE t (set_state TASK_RUNNING (wq s q) (s\<lparr>current := t\<rparr>))"
      by (auto simp: sleep_again_def split: if_splits)
    have "t_state (tstruct s (wq s q)) = TASK_RUNNING" using ok goes_on s' by (simp add: woken_ok_def)
    with s' goes_on have "awake st' = awake st - {t}" "t \<in> awake st"
      by (auto simp: awake_def)
    moreover have "finite (awake st)" using fin by (simp add: awake_def)
    ultimately have "card (awake st') < card (awake st)" by (metis card_Diff1_less)
    with q' s' goes_on show ?thesis by (simp add: woken_ok_def)
  next
    case (returns tmp t r s s')
    have "card (dom (tmp(t := None))) < card (dom tmp)"
      using fin returns by (auto intro!: psubset_card_mono)
    with q' returns show ?thesis by (simp add: woken_ok_def sleep_leave_def Let_def)
  qed
qed

lemma wake_up_woken: "sleepq_ok q (s, tmp) \<Longrightarrow> woken_ok q (wake_up q s, tmp)"
  by (simp add: woken_ok_def sleepq_ok_def) (simp add: wake_up_def)

lemma sleepers_woken: "(sleeper_step q)\<^sup>*\<^sup>* st st' \<Longrightarrow> woken_ok q st \<Longrightarrow> woken_ok q st'"
  by (induction rule: rtranclp_induct) (auto dest: sleeper_step_woken)

lemma sleepers_no_infinite_run:
  assumes "woken_ok q (f 0)"
  shows "\<not> (\<forall>i. sleeper_step q (f i) (f (Suc i)))"
proof
  assume run: "\<forall>i. sleeper_step q (f i) (f (Suc i))"
  let ?m = "\<lambda>i. (card (dom (snd (f i))), card (awake (f i)))"
  have ok: "woken_ok q (f i)" for i
    by (induction i) (use assms run in \<open>auto dest: sleeper_step_woken\<close>)
  have "(?m (Suc i), ?m i) \<in> less_than <*lex*> less_than" for i
    using sleeper_step_woken [OF run [rule_format] ok] by auto
  moreover have "wf (less_than <*lex*> less_than)" by blast
  ultimately show False
    by (auto simp: wf_iff_no_infinite_down_chain simp del: in_lex_prod dest!: spec [where x = ?m])
qed

text \<open>
  C10. One \<^verbatim>\<open>wake_up\<close> wakes the whole queue. The sleepers of a queue that was reached from an
  empty one are left to themselves after it, with no signal and no other call: whatever the order
  in which they run, as long as the queue is not empty one of them can go on, they cannot go on
  for ever, and when the queue's variable is null nobody sleeps on it any more.
\<close>

theorem wake_up_wakes_all:
  assumes "sleep_reach q (s, tmp)"
  shows "(\<forall>s' tmp'. (sleeper_step q)\<^sup>*\<^sup>* (wake_up q s, tmp) (s', tmp') \<longrightarrow>
        (if wq s' q = 0 then tmp' = Map.empty else \<exists>st. sleeper_step q (s', tmp') st))
     \<and> (\<nexists>f. f 0 = (wake_up q s, tmp) \<and> (\<forall>i. sleeper_step q (f i) (f (Suc i))))"
proof -
  note ok = wake_up_woken [OF sleep_reach_ok [OF assms]]
  have "if wq s' q = 0 then tmp' = Map.empty else \<exists>st. sleeper_step q (s', tmp') st"
    if "(sleeper_step q)\<^sup>*\<^sup>* (wake_up q s, tmp) (s', tmp')" for s' tmp'
    using sleepers_woken [OF that ok] sleepq_ok_head(1) [of q "(s', tmp')"]
      sleeper_step_progress [of q "(s', tmp')"] by (auto simp: woken_ok_def)
  with sleepers_no_infinite_run [of q] ok show ?thesis by metis
qed
section \<open>Concrete states\<close>

text \<open>A world in which nothing happens, and a state with one task, for the examples that show
  that the hypotheses of the properties can be met.\<close>

definition quiet :: "'s world" where
  "quiet = \<lparr>w_in = \<lambda>_ _. 0, w_run = \<lambda>_ s. s, w_call = \<lambda>_ s. Some s, w_request = \<lambda>_ s. Some s,
     w_hd_times_out = Some, w_sync_inodes = Some\<rparr>"

definition blank_task :: task_struct where
  "blank_task =
     \<lparr>t_state = 0, t_counter = 15, t_priority = 15, t_signal = 0,
      t_sigaction = (\<lambda>_. \<lparr>sa_handler = 0, sa_mask = 0, sa_flags = 0, sa_restorer = 0\<rparr>),
      t_blocked = 0, t_exit_code = 0, t_start_code = 0, t_end_code = 0, t_end_data = 0,
      t_brk = 0, t_start_stack = 0, t_pid = 0, t_pgrp = 0, t_session = 0, t_leader = 0,
      t_groups = (\<lambda>_. NOGROUP), p_pptr = 0, p_cptr = 0, p_ysptr = 0, p_osptr = 0,
      t_uid = 0, t_euid = 0, t_suid = 0, t_gid = 0, t_egid = 0, t_sgid = 0,
      t_timeout = 0, t_alarm = 0, t_utime = 0, t_stime = 0, t_cutime = 0, t_cstime = 0,
      t_start_time = 0, t_rlim = (\<lambda>_. \<lparr>rlim_cur = RLIM_INFINITY, rlim_max = RLIM_INFINITY\<rparr>),
      t_flags = 0, t_used_math = 0, t_tty = - 1, t_umask = 18,
      t_pwd = None, t_root = None, t_executable = None, t_library = None,
      t_close_on_exec = 0, t_filp = (\<lambda>_. None), t_ldt = (\<lambda>_. \<lparr>desc_a = 0, desc_b = 0\<rparr>),
      t_tss = \<lparr>tss_back_link = 0, tss_esp0 = 0x13000, tss_ss0 = 0x10, tss_esp1 = 0,
        tss_ss1 = 0, tss_esp2 = 0, tss_ss2 = 0, tss_cr3 = 0, tss_eip = 0, tss_eflags = 0,
        tss_eax = 0, tss_ecx = 0, tss_edx = 0, tss_ebx = 0, tss_esp = 0, tss_ebp = 0,
        tss_esi = 0, tss_edi = 0, tss_es = 0x17, tss_cs = 0x0F, tss_ss = 0x17,
        tss_ds = 0x17, tss_fs = 0x17, tss_gs = 0x17, tss_ldt = 0, tss_trace_bitmap = 0\<rparr>\<rparr>"

definition blank_sched :: sched where
  "blank_sched =
     \<lparr>task = (\<lambda>i. if i = 0 then 0x12000 else if i = 1 then 0x20000 else 0),
      tstruct = (\<lambda>_. blank_task), current = 0x12000, last_task_used_math = 0,
      jiffies = 0, startup_time = 0, jiffies_offset = 0, last_pid = 0,
      timer_list = (\<lambda>_. \<lparr>tm_jiffies = 0, tm_fn = 0, tm_next = None\<rparr>), next_timer = None,
      hd_timeout = 0, wq = (\<lambda>_. 0), gdt = (\<lambda>_. \<lparr>desc_a = 0, desc_b = 0\<rparr>),
      idt = (\<lambda>_. \<lparr>desc_a = 0, desc_b = 0\<rparr>), kmem = (\<lambda>_. 0), fs_mem = (\<lambda>_. 0),
      port_log = [], n_in = 0, n_switch = 0\<rparr>"

lemmas blank_defs = blank_sched_def blank_task_def quiet_def

theorem schedule_chooses_best_witness:
  "\<exists>n s'. sched_loop (sched_signals blank_sched) = Some (n, s')
     \<and> schedule quiet blank_sched = Some (switch_to quiet n s')"
  using schedule_chooses_best [of blank_sched quiet] by (auto simp: blank_defs)

theorem add_timer_due_witness:
  "\<exists>s'. add_timer quiet 5 7 (blank_sched\<lparr>next_timer := Some 1,
       timer_list := (\<lambda>_. \<lparr>tm_jiffies = 0, tm_fn = 0, tm_next = None\<rparr>)
         (1 := \<lparr>tm_jiffies = 9, tm_fn = 3, tm_next = None\<rparr>)\<rparr>) = Some s'
     \<and> tm_due 0 (tm_abs (timer_list s') [0, 1]) = [(5, 7), (14, 3)]"
  using add_timer_due [of "blank_sched\<lparr>next_timer := Some 1,
       timer_list := (\<lambda>_. \<lparr>tm_jiffies = 0, tm_fn = 0, tm_next = None\<rparr>)
         (1 := \<lparr>tm_jiffies = 9, tm_fn = 3, tm_next = None\<rparr>)\<rparr>" "[1]" 0 5 7 quiet]
  by (auto simp: blank_defs free_timer_def upt_rec Cons_eq_append_conv)

lemma sleep_reach_example:
  "sleep_reach Buffer_wait (sleep_enter Buffer_wait TASK_INTERRUPTIBLE
     (blank_sched\<lparr>current := 0x20000\<rparr>), [0x20000 \<mapsto> 0])"
proof -
  have "sleep_reach Buffer_wait (blank_sched, Map.empty)"
    by (rule sleep_reach.init) (simp add: blank_sched_def)
  from sleep_reach.step [OF this sleep_step.enter
      [where tmp = Map.empty and t = "0x20000" and st = TASK_INTERRUPTIBLE and s = blank_sched]]
  show ?thesis by (simp add: blank_sched_def)
qed

theorem sleepers_on_chain_witness:
  "\<exists>ts. distinct ts \<and> set ts = {0x20000 :: task_ptr}
     \<and> sleep_chain [0x20000 \<mapsto> 0] 0x20000 ts"
  using sleepers_on_chain [OF sleep_reach_example] by (simp add: blank_sched_def)

theorem wake_up_wakes_all_witness:
  "let st = (wake_up Buffer_wait (sleep_enter Buffer_wait TASK_INTERRUPTIBLE
      (blank_sched\<lparr>current := 0x20000\<rparr>)), [0x20000 \<mapsto> 0])
   in Ex (sleeper_step Buffer_wait st)
     \<and> (\<nexists>f. f 0 = st \<and> (\<forall>i. sleeper_step Buffer_wait (f i) (f (Suc i))))"
proof -
  let ?s = "wake_up Buffer_wait (sleep_enter Buffer_wait TASK_INTERRUPTIBLE (blank_sched\<lparr>current := 0x20000\<rparr>))"
  have "wq ?s Buffer_wait \<noteq> 0" by simp
  with wake_up_wakes_all [OF sleep_reach_example] show ?thesis
    unfolding Let_def by (meson rtranclp.rtrancl_refl)
qed

section \<open>Invariants of the state a sleep keeps\<close>

text \<open>
  A property of the state is \<open>stable\<close> when the other tasks keep it while this one is switched
  out, and when it does not depend on the fields that scheduling changes. Such a property
  survives \<^verbatim>\<open>schedule\<close>, \<^verbatim>\<open>sleep_on\<close> and \<^verbatim>\<open>wake_up\<close>.
\<close>

definition stable :: "'a sched_scheme world \<Rightarrow> ('a sched_scheme \<Rightarrow> bool) \<Rightarrow> bool" where
  "stable w P \<longleftrightarrow> (\<forall>s. P s \<longrightarrow> (\<forall>n. P (w_run w n s)) \<and> (\<forall>ts. P (s\<lparr>tstruct := ts\<rparr>))
     \<and> (\<forall>q. P (s\<lparr>wq := q\<rparr>)) \<and> (\<forall>c. P (s\<lparr>current := c\<rparr>)) \<and> (\<forall>n. P (s\<lparr>n_switch := n\<rparr>)))"

lemma stableD:
  assumes "stable w P" "P s"
  shows "P (w_run w n s)" "P (mod_task p f s)" "P (s\<lparr>wq := q\<rparr>)" "P (s\<lparr>current := c\<rparr>)"
    "P (s\<lparr>n_switch := n\<rparr>)" "P (set_state st p s)" "P (wake_up q' s)"
  using assms by (auto simp: stable_def mod_task_def set_state_def wake_up_def)

lemma for_tasks_stable: "stable w P \<Longrightarrow> P s \<Longrightarrow> P (for_tasks f s)"
  unfolding for_tasks_def by (rule fold_invariant) (auto intro: stableD)

lemma sched_loop_stable:
  assumes "stable w P" and "sched_loop s = Some r" and "P s"
  shows "P (snd r)"
  using assms(2,3)
proof (induction rule: sched_loop.raw_induct [rotated, consumes 1, case_names step])
  case (step loop s r)
  moreover have "P (sched_recalc s)"
    using step.prems assms(1) by (simp add: sched_recalc_def for_tasks_stable)
  ultimately show ?case
    by (cases "sched_pick s") (auto simp: Let_def split: if_splits)
qed

lemma switch_to_stable: "stable w P \<Longrightarrow> P s \<Longrightarrow> P (switch_to w n s)"
proof -
  assume a: "stable w P" "P s"
  have "P (s\<lparr>current := task s n, n_switch := n_switch s + 1\<rparr>)"
    using stableD(5) [OF a(1) stableD(4) [OF a], of "n_switch s + 1" "task s n"] by simp
  with a show ?thesis by (auto simp: switch_to_def intro: stableD)
qed

lemma schedule_stable:
  assumes "schedule w s = Some s'" and "stable w P" and "P s"
  shows "P s'"
proof -
  from assms(1) obtain n u where u: "sched_loop (sched_signals s) = Some (n, u)" "s' = switch_to w n u"
    by (auto simp: schedule_def)
  have "P (sched_signals s)" using assms by (simp add: sched_signals_def for_tasks_stable)
  from sched_loop_stable [OF assms(2) u(1) this] u(2) assms(2) show ?thesis
    by (simp add: switch_to_stable)
qed

lemma sleep_again_stable: "stable w P \<Longrightarrow> P s \<Longrightarrow> P (snd (sleep_again q s))"
  by (auto simp: sleep_again_def intro: stableD)

lemma sleep_loop_stable:
  assumes "stable w P" and "sleep_loop w q s = Some s'" and "P s"
  shows "P s'"
  using assms(2,3,1)
proof (induction rule: sleep_loop.raw_induct [rotated, consumes 1, case_names step])
  case (step loop w q s s')
  from step.hyps obtain u where u: "schedule w s = Some u"
    "(let (again, s) = sleep_again q u in if again then loop w q s else Some s) = Some s'"
    by auto
  have "P (snd (sleep_again q u))"
    using schedule_stable [OF u(1) step.prems(2,1)] step.prems(2) by (rule sleep_again_stable [rotated])
  with u(2) step.prems(2) step.IH show ?case
    by (cases "sleep_again q u") (auto split: if_splits)
qed

lemma sleep_on_state_stable:
  "sleep_on_state w q st s = Some s' \<Longrightarrow> stable w P \<Longrightarrow> P s \<Longrightarrow> P s'"
proof -
  assume a: "sleep_on_state w q st s = Some s'" "stable w P" "P s"
  then obtain u where u: "sleep_loop w q (sleep_enter q st s) = Some u"
    "s' = sleep_leave q (wq s q) u"
    by (auto simp: sleep_on_state_def split: if_splits)
  have "P (sleep_enter q st s)" using a(2,3) by (auto simp: sleep_enter_def intro: stableD)
  from sleep_loop_stable [OF a(2) u(1) this] a(2) u(2) show ?thesis
    by (auto simp: sleep_leave_def Let_def intro: stableD)
qed

lemma sleep_on_stable: "sleep_on w q s = Some s' \<Longrightarrow> stable w P \<Longrightarrow> P s \<Longrightarrow> P s'"
  and interruptible_sleep_on_stable:
    "interruptible_sleep_on w q s = Some s' \<Longrightarrow> stable w P \<Longrightarrow> P s \<Longrightarrow> P s'"
  by (auto simp: sleep_on_def interruptible_sleep_on_def intro: sleep_on_state_stable)

end
