(* ===== verification/Blk.thy ===== *)
theory Blk
  imports Sched
begin

text \<open>
  \<^verbatim>\<open>kernel/blk_drv/ll_rw_blk.c\<close>: the request queue between the buffer cache (and the
  swapper) and the block device drivers. The kernel state gets the buffer heads, the table of
  requests and the table of block devices.
\<close>

section \<open>State\<close>

abbreviation (input) READ :: int where "READ \<equiv> 0"
abbreviation (input) WRITE :: int where "WRITE \<equiv> 1"
abbreviation (input) READA :: int where "READA \<equiv> 2"
abbreviation (input) WRITEA :: int where "WRITEA \<equiv> 3"
abbreviation (input) NR_REQUEST :: nat where "NR_REQUEST \<equiv> 32"
abbreviation (input) NR_BLK_DEV :: nat where "NR_BLK_DEV \<equiv> 7"

definition MAJOR :: "u32 \<Rightarrow> nat" where
  "MAJOR a = unat (drop_bit 8 a)"

definition MINOR :: "u32 \<Rightarrow> nat" where
  "MINOR a = unat (a AND 0xff)"

text \<open>A pointer to a buffer head is its index in the array at \<^verbatim>\<open>start_buffer\<close>. The field
  \<^verbatim>\<open>b_wait\<close> is \<open>wq s (B_wait i)\<close>.\<close>

record buffer_head =
  b_data :: u32
  b_blocknr :: u32
  b_dev :: u16
  b_uptodate :: u8
  b_dirt :: u8
  b_count :: u8
  b_lock :: u8
  b_prev :: "nat option"
  b_next :: "nat option"
  b_prev_free :: "nat option"
  b_next_free :: "nat option"

text \<open>The field \<^verbatim>\<open>waiting\<close> of request \<open>r\<close> is \<open>wq s (R_waiting r)\<close>.\<close>

record request =
  rq_dev :: int
  rq_cmd :: int
  rq_errors :: int
  rq_sector :: u32
  rq_nr_sectors :: u32
  rq_buffer :: u32
  rq_bh :: "nat option"
  rq_next :: "nat option"

record blk = sched +
  bufs :: "nat \<Rightarrow> buffer_head"
  requests :: "nat \<Rightarrow> request"
  request_fn :: "nat \<Rightarrow> nat"
  current_request :: "nat \<Rightarrow> nat option"
  blk_size :: "nat \<Rightarrow> (nat \<Rightarrow> int) option"

definition mod_buf :: "nat \<Rightarrow> (buffer_head \<Rightarrow> buffer_head) \<Rightarrow> 'a blk_scheme \<Rightarrow> 'a blk_scheme" where
  "mod_buf b f s = s\<lparr>bufs := (bufs s)(b := f (bufs s b))\<rparr>"

definition mod_req :: "nat \<Rightarrow> (request \<Rightarrow> request) \<Rightarrow> 'a blk_scheme \<Rightarrow> 'a blk_scheme" where
  "mod_req r f s = s\<lparr>requests := (requests s)(r := f (requests s r))\<rparr>"

section \<open>Locking a buffer\<close>

partial_function (option) lock_buffer ::
  "'a blk_scheme world \<Rightarrow> nat \<Rightarrow> 'a blk_scheme \<Rightarrow> 'a blk_scheme option" where
  "lock_buffer w bh s =
     (if b_lock (bufs s bh) \<noteq> 0
      then do { s \<leftarrow> sleep_on w (B_wait bh) s; lock_buffer w bh s }
      else Some (mod_buf bh (\<lambda>b. b\<lparr>b_lock := 1\<rparr>) s))"

definition unlock_buffer :: "nat \<Rightarrow> 'a blk_scheme \<Rightarrow> 'a blk_scheme" where
  "unlock_buffer bh s = wake_up (B_wait bh) (mod_buf bh (\<lambda>b. b\<lparr>b_lock := 0\<rparr>) s)"

section \<open>The elevator\<close>

definition IN_ORDER :: "request \<Rightarrow> request \<Rightarrow> bool" where
  "IN_ORDER s1 s2 =
     (if rq_cmd s1 < rq_cmd s2 then True
      else if rq_cmd s1 = rq_cmd s2 \<and> rq_dev s1 < rq_dev s2 then True
      else if rq_dev s1 = rq_dev s2 \<and> rq_sector s1 < rq_sector s2 then True
      else False)"

text \<open>The \<^verbatim>\<open>for\<close> loop of \<^verbatim>\<open>add_request\<close>: the request after which \<open>req\<close> is linked in.\<close>

partial_function (option) elevator :: "(nat \<Rightarrow> request) \<Rightarrow> request \<Rightarrow> nat \<Rightarrow> nat option" where
  "elevator rs req tmp =
     (case rq_next (rs tmp) of
        None \<Rightarrow> Some tmp
      | Some n \<Rightarrow>
          if rq_bh req = None
          then (if rq_bh (rs n) \<noteq> None then Some tmp else elevator rs req n)
          else if (IN_ORDER (rs tmp) req \<or> \<not> IN_ORDER (rs tmp) (rs n)) \<and> IN_ORDER req (rs n)
          then Some tmp
          else elevator rs req n)"

definition add_request ::
  "'a blk_scheme world \<Rightarrow> nat \<Rightarrow> nat \<Rightarrow> 'a blk_scheme \<Rightarrow> 'a blk_scheme option" where
  "add_request w dev req s0 = do {
     let s = mod_req req (\<lambda>r. r\<lparr>rq_next := None\<rparr>) s0;
     let s = (case rq_bh (requests s req) of
                Some bh \<Rightarrow> mod_buf bh (\<lambda>b. b\<lparr>b_dirt := 0\<rparr>) s
              | None \<Rightarrow> s);
     case current_request s dev of
       None \<Rightarrow> w_request w dev (s\<lparr>current_request := (current_request s)(dev := Some req)\<rparr>)
     | Some tmp \<Rightarrow> do {
         t \<leftarrow> elevator (requests s) (requests s req) tmp;
         let s = mod_req req (\<lambda>r. r\<lparr>rq_next := rq_next (requests s t)\<rparr>) s;
         Some (mod_req t (\<lambda>r. r\<lparr>rq_next := Some req\<rparr>) s)
       }
   }"

section \<open>Making requests\<close>

text \<open>\<^verbatim>\<open>while (--req >= request) if (req->dev < 0) break;\<close> from \<^verbatim>\<open>request + n\<close>.\<close>

definition free_request :: "nat \<Rightarrow> 'a blk_scheme \<Rightarrow> nat option" where
  "free_request n s = List.find (\<lambda>r. rq_dev (requests s r) < 0) (rev [0..<n])"

text \<open>The loop from \<^verbatim>\<open>repeat:\<close> in \<^verbatim>\<open>make_request\<close>: an empty request, or nothing when a
  read-ahead finds none.\<close>

partial_function (option) wait_request ::
  "'a blk_scheme world \<Rightarrow> nat \<Rightarrow> bool \<Rightarrow> 'a blk_scheme \<Rightarrow> (nat option \<times> 'a blk_scheme) option" where
  "wait_request w n ahead s =
     (case free_request n s of
        Some r \<Rightarrow> Some (Some r, s)
      | None \<Rightarrow>
          if ahead then Some (None, s)
          else do { s \<leftarrow> sleep_on w Wait_for_request s; wait_request w n ahead s })"

definition fill_request :: "nat \<Rightarrow> int \<Rightarrow> nat \<Rightarrow> 'a blk_scheme \<Rightarrow> 'a blk_scheme" where
  "fill_request req rw bh s =
     (let b = bufs s bh in
      mod_req req (\<lambda>r. \<lparr>rq_dev = uint (b_dev b), rq_cmd = rw, rq_errors = 0,
          rq_sector = push_bit 1 (b_blocknr b), rq_nr_sectors = 2, rq_buffer = b_data b,
          rq_bh = Some bh, rq_next = None\<rparr>)
        (s\<lparr>wq := (wq s)(R_waiting req := 0)\<rparr>))"

text \<open>The part of \<^verbatim>\<open>make_request\<close> from \<^verbatim>\<open>repeat:\<close> on.\<close>

definition queue_request ::
  "'a blk_scheme world \<Rightarrow> nat \<Rightarrow> int \<Rightarrow> bool \<Rightarrow> nat \<Rightarrow> 'a blk_scheme \<Rightarrow> 'a blk_scheme option" where
  "queue_request w major rw rw_ahead bh s = do {
     (r, s) \<leftarrow> wait_request w (if rw = READ then NR_REQUEST else NR_REQUEST * 2 div 3) rw_ahead s;
     case r of
       None \<Rightarrow> Some (unlock_buffer bh s)
     | Some req \<Rightarrow> add_request w major req (fill_request req rw bh s)
   }"

definition make_request ::
  "'a blk_scheme world \<Rightarrow> nat \<Rightarrow> int \<Rightarrow> nat \<Rightarrow> 'a blk_scheme \<Rightarrow> 'a blk_scheme option" where
  "make_request w major rw0 bh s =
     (let rw_ahead = (rw0 = READA \<or> rw0 = WRITEA);
          rw = (if rw0 = READA then READ else if rw0 = WRITEA then WRITE else rw0) in
      if rw_ahead \<and> b_lock (bufs s bh) \<noteq> 0 then Some s
      else if rw \<noteq> READ \<and> rw \<noteq> WRITE then None
      else do {
        s \<leftarrow> lock_buffer w bh s;
        if rw = WRITE \<and> b_dirt (bufs s bh) = 0 \<or> rw = READ \<and> b_uptodate (bufs s bh) \<noteq> 0
        then Some (unlock_buffer bh s)
        else queue_request w major rw rw_ahead bh s
      })"

definition ll_rw_page ::
  "'a blk_scheme world \<Rightarrow> int \<Rightarrow> u32 \<Rightarrow> u32 \<Rightarrow> u32 \<Rightarrow> 'a blk_scheme \<Rightarrow> 'a blk_scheme option" where
  "ll_rw_page w rw dev page buffer s =
     (let major = MAJOR dev in
      if major \<ge> NR_BLK_DEV \<or> request_fn s major = 0 then Some s
      else if rw \<noteq> READ \<and> rw \<noteq> WRITE then None
      else do {
        (r, s) \<leftarrow> wait_request w NR_REQUEST False s;
        req \<leftarrow> r;
        let s = mod_req req (\<lambda>_. \<lparr>rq_dev = sint dev, rq_cmd = rw, rq_errors = 0,
            rq_sector = push_bit 3 page, rq_nr_sectors = 8, rq_buffer = buffer,
            rq_bh = None, rq_next = None\<rparr>)
          (s\<lparr>wq := (wq s)(R_waiting req := current s)\<rparr>);
        s \<leftarrow> add_request w major req (set_state TASK_UNINTERRUPTIBLE (current s) s);
        schedule w s
      })"

definition ll_rw_block ::
  "'a blk_scheme world \<Rightarrow> int \<Rightarrow> nat \<Rightarrow> 'a blk_scheme \<Rightarrow> 'a blk_scheme option" where
  "ll_rw_block w rw bh s =
     (let major = MAJOR (ucast (b_dev (bufs s bh))) in
      if major \<ge> NR_BLK_DEV \<or> request_fn s major = 0 then Some s
      else make_request w major rw bh s)"

definition blk_dev_init :: "'a blk_scheme \<Rightarrow> 'a blk_scheme" where
  "blk_dev_init s =
     s\<lparr>wq := (wq s)(Wait_for_request := 0),
       requests := (\<lambda>i. if i < NR_REQUEST then (requests s i)\<lparr>rq_dev := - 1, rq_next := None\<rparr>
                        else requests s i),
       request_fn := (\<lambda>i. if i < NR_BLK_DEV then 0 else request_fn s i),
       current_request := (\<lambda>i. if i < NR_BLK_DEV then None else current_request s i),
       blk_size := (\<lambda>i. if i < NR_BLK_DEV then None else blk_size s i)\<rparr>"

lemmas [kdefs] = mod_buf_def mod_req_def unlock_buffer_def IN_ORDER_def add_request_def
  free_request_def fill_request_def queue_request_def make_request_def ll_rw_page_def ll_rw_block_def blk_dev_init_def

section \<open>The request queue as a list\<close>

text \<open>The queue of a device: the chain of \<^verbatim>\<open>next\<close> pointers from its \<^verbatim>\<open>current_request\<close>.\<close>

fun rq_chain :: "(nat \<Rightarrow> request) \<Rightarrow> nat option \<Rightarrow> nat list \<Rightarrow> bool" where
  "rq_chain rs p [] \<longleftrightarrow> p = None"
| "rq_chain rs p (r # q) \<longleftrightarrow> p = Some r \<and> rq_chain rs (rq_next (rs r)) q"

lemma rq_chain_cong:
  "(\<And>r. r \<in> set q \<Longrightarrow> rq_next (rs' r) = rq_next (rs r)) \<Longrightarrow> rq_chain rs' p q = rq_chain rs p q"
  by (induction q arbitrary: p) auto

lemma rq_chain_upd [simp]: "r \<notin> set q \<Longrightarrow> rq_chain (rs(r := x)) p q = rq_chain rs p q"
  by (rule rq_chain_cong) auto

lemma rq_chain_fun: "rq_chain rs p q \<Longrightarrow> rq_chain rs p q' \<Longrightarrow> q = q'"
  by (induction q arbitrary: p q') (case_tac q'; auto)+

text \<open>Linking \<open>r\<close> in after \<open>t\<close>.\<close>

lemma rq_chain_insert:
  assumes "rq_chain rs p (us @ t # vs)" "distinct (us @ t # vs)" "r \<notin> set (us @ t # vs)"
    and "rq_next (rs' t) = Some r" "rq_next (rs' r) = rq_next (rs t)"
    and "\<And>x. x \<noteq> t \<Longrightarrow> x \<noteq> r \<Longrightarrow> rq_next (rs' x) = rq_next (rs x)"
  shows "rq_chain rs' p (us @ t # r # vs)"
  using assms
proof (induction us arbitrary: p)
  case Nil
  then have "\<And>x. x \<in> set vs \<Longrightarrow> rq_next (rs' x) = rq_next (rs x)" by fastforce
  then have "rq_chain rs' (rq_next (rs t)) vs = rq_chain rs (rq_next (rs t)) vs"
    by (rule rq_chain_cong)
  with Nil show ?case by simp
qed auto

text \<open>The loop ends at a request of the queue, and the request after it satisfies the break
  condition.\<close>

lemma elevator_finds:
  assumes "rq_chain rs (Some t) (t # q)"
  shows "\<exists>us v vs. elevator rs req t = Some v \<and> t # q = us @ v # vs"
  using assms
proof (induction q arbitrary: t)
  case Nil
  then have "elevator rs req t = Some t" by (subst elevator.simps) simp
  then show ?case by (intro exI [of _ "[]"]) auto
next
  case (Cons n q)
  then have n: "rq_next (rs t) = Some n" "rq_chain rs (Some n) (n # q)" by auto
  from Cons.IH [OF n(2)] obtain us v vs where
    IH: "elevator rs req n = Some v" "n # q = us @ v # vs" by blast
  have "elevator rs req t = Some t \<or> elevator rs req t = elevator rs req n"
    using n(1) elevator.simps [of rs req t] by simp
  then show ?case
  proof
    assume "elevator rs req t = Some t"
    then show ?thesis by (intro exI [of _ "[]"]) auto
  next
    assume "elevator rs req t = elevator rs req n"
    with IH show ?thesis by (intro exI [of _ "t # us"]) auto
  qed
qed

lemma elevator_swap:
  assumes "rq_chain rs (Some t) (t # ss @ bs)" and "rq_bh req = None"
    and "\<forall>x \<in> set ss. rq_bh (rs x) = None" and "bs \<noteq> [] \<longrightarrow> rq_bh (rs (hd bs)) \<noteq> None"
  shows "elevator rs req t = Some (last (t # ss))"
  using assms
proof (induction ss arbitrary: t)
  case Nil
  then show ?case by (subst elevator.simps) (cases bs; auto)
next
  case (Cons n ss)
  then have "elevator rs req t = elevator rs req n" by (subst elevator.simps) simp
  with Cons show ?case by simp
qed

lemma mod_req_simps [simp]:
  "requests (mod_req r f s) = (requests s)(r := f (requests s r))"
  "current_request (mod_req r f s) = current_request s" "bufs (mod_req r f s) = bufs s"
  "wq (mod_req r f s) = wq s" "current (mod_req r f s) = current s"
  by (simp_all add: mod_req_def)

lemma mod_buf_simps [simp]:
  "bufs (mod_buf b f s) = (bufs s)(b := f (bufs s b))" "requests (mod_buf b f s) = requests s"
  "current_request (mod_buf b f s) = current_request s" "wq (mod_buf b f s) = wq s"
  "current (mod_buf b f s) = current s"
  by (simp_all add: mod_buf_def)

section \<open>Properties\<close>

text \<open>
  \<^verbatim>\<open>add_request\<close> on a busy device links the request into the queue behind the one in
  progress, exactly once, and leaves the order of all others alone; it always finds a place.
\<close>

theorem add_request_links:
  assumes "rq_chain (requests s) (current_request s dev) (h # q)" and "distinct (h # q)"
    and "req \<notin> set (h # q)"
  shows "\<exists>s' us vs. add_request w dev req s = Some s' \<and> q = us @ vs
     \<and> rq_chain (requests s') (current_request s' dev) (h # us @ req # vs)
     \<and> (\<forall>r. rq_dev (requests s' r) = rq_dev (requests s r)
            \<and> rq_sector (requests s' r) = rq_sector (requests s r)
            \<and> rq_bh (requests s' r) = rq_bh (requests s r))"
proof -
  let ?r = "(requests s req)\<lparr>rq_next := None\<rparr>"
  let ?rs = "(requests s)(req := ?r)"
  from assms have cur: "current_request s dev = Some h" by simp
  with assms have ch: "rq_chain ?rs (Some h) (h # q)" by simp
  from elevator_finds [OF ch, of ?r] obtain us v vs where
    v: "elevator ?rs ?r h = Some v" "h # q = us @ v # vs" by blast
  from v(2) assms(3) have vr: "v \<noteq> req" by auto
  let ?b = "case rq_bh (requests s req) of Some bh \<Rightarrow> (bufs s)(bh := (bufs s bh)\<lparr>b_dirt := 0\<rparr>) | None \<Rightarrow> bufs s"
  let ?rs' = "?rs(req := ?r\<lparr>rq_next := rq_next (requests s v)\<rparr>, v := (requests s v)\<lparr>rq_next := Some req\<rparr>)"
  have run: "\<exists>s'. add_request w dev req s = Some s' \<and> requests s' = ?rs' \<and> current_request s' = current_request s"
    using v(1) cur vr by (cases "rq_bh (requests s req)") (auto simp: add_request_def Let_def)
  have "rq_chain ?rs' (Some h) (us @ v # req # vs)"
    using ch v(2) assms(2,3) vr by (intro rq_chain_insert [of ?rs]) auto
  moreover obtain us' where us': "us @ v # req # vs = h # us' @ req # vs" "q = us' @ vs"
    using v(2) by (cases us) auto
  moreover from run obtain s' where s': "add_request w dev req s = Some s'" "requests s' = ?rs'"
    "current_request s' = current_request s" by blast
  ultimately have "rq_chain (requests s') (current_request s' dev) (h # us' @ req # vs)"
    by (simp only: cur)
  moreover have "\<forall>r. rq_dev (requests s' r) = rq_dev (requests s r)
      \<and> rq_sector (requests s' r) = rq_sector (requests s r)
      \<and> rq_bh (requests s' r) = rq_bh (requests s r)"
    unfolding s' by auto
  ultimately show ?thesis using s'(1) us'(2) by blast
qed

text \<open>
  A request on an idle device becomes the current request and starts the driver.
\<close>

theorem add_request_starts:
  assumes "current_request s dev = None"
  shows "\<exists>s1. add_request w dev req s = w_request w dev s1
     \<and> current_request s1 dev = Some req \<and> rq_next (requests s1 req) = None
     \<and> (\<forall>b. rq_bh (requests s req) = Some b \<longrightarrow> b_dirt (bufs s1 b) = 0)"
  using assms by (cases "rq_bh (requests s req)")
    (simp_all add: add_request_def Let_def, (rule exI, rule conjI, rule refl, simp)+)

text \<open>
  A swap request goes behind the swap requests that already wait at the front of the queue
  and before the first buffer request: swap requests are served in their order of arrival.
\<close>

theorem add_request_swap_fifo:
  assumes "rq_chain (requests s) (current_request s dev) (h # ss @ bs)"
    and "distinct (h # ss @ bs)" and "req \<notin> set (h # ss @ bs)"
    and "rq_bh (requests s req) = None" and "\<forall>x \<in> set ss. rq_bh (requests s x) = None"
    and "bs \<noteq> [] \<longrightarrow> rq_bh (requests s (hd bs)) \<noteq> None"
  shows "\<exists>s'. add_request w dev req s = Some s'
     \<and> rq_chain (requests s') (current_request s' dev) (h # ss @ req # bs)"
proof -
  let ?r = "(requests s req)\<lparr>rq_next := None\<rparr>"
  let ?rs = "(requests s)(req := ?r)"
  let ?v = "last (h # ss)"
  from assms have cur: "current_request s dev = Some h" by simp
  with assms have ch: "rq_chain ?rs (Some h) (h # ss @ bs)" by simp
  have "elevator ?rs ?r h = Some ?v"
    using assms by (intro elevator_swap [OF ch]) (auto split: list.split dest: hd_in_set)
  moreover have vr: "?v \<noteq> req" "?v \<in> set (h # ss)" using assms(3) last_in_set [of "h # ss"] by fastforce+
  moreover have split: "h # ss @ bs = butlast (h # ss) @ ?v # bs"
    "h # ss @ req # bs = butlast (h # ss) @ ?v # req # bs"
    by (metis append_butlast_last_id append_Cons append_assoc list.distinct(1) append_Nil)+
  let ?rs' = "?rs(req := ?r\<lparr>rq_next := rq_next (requests s ?v)\<rparr>, ?v := (requests s ?v)\<lparr>rq_next := Some req\<rparr>)"
  have "\<exists>s'. add_request w dev req s = Some s' \<and> requests s' = ?rs' \<and> current_request s' = current_request s"
    using calculation cur assms(4) by (auto simp: add_request_def Let_def)
  moreover have "rq_chain ?rs' (Some h) (butlast (h # ss) @ ?v # req # bs)"
    using ch assms(2,3) vr unfolding split(1) by (intro rq_chain_insert [of ?rs]) auto
  ultimately show ?thesis
    using cur unfolding split(2) by auto
qed

text \<open>\<open>reads_reserved\<close>: no request beyond the first two thirds of the table is a buffer write.\<close>

definition reads_reserved :: "'a blk_scheme \<Rightarrow> bool" where
  "reads_reserved s \<longleftrightarrow> (\<forall>r \<in> {21..<32}. rq_dev (requests s r) \<ge> 0 \<longrightarrow> rq_bh (requests s r) \<noteq> None
     \<longrightarrow> rq_cmd (requests s r) = READ)"

lemma reads_reserved_cong:
  "requests s' = requests s \<Longrightarrow> reads_reserved s' = reads_reserved s"
  by (simp add: reads_reserved_def)

lemma stable_requests:
  assumes "\<And>n s. P (requests s) \<Longrightarrow> P (requests (w_run w n s))"
  shows "stable w (\<lambda>s. P (requests s))"
  using assms by (simp add: stable_def)

lemma free_request_Some: "free_request n s = Some r \<Longrightarrow> r < n \<and> rq_dev (requests s r) < 0"
  by (auto simp: free_request_def find_Some_iff rev_nth)

lemma wait_request_result:
  assumes "stable w P" and "wait_request w n a s = Some res" and "P s"
  shows "P (snd res) \<and> (\<forall>r. fst res = Some r \<longrightarrow> r < n \<and> rq_dev (requests (snd res) r) < 0)"
  using assms(2,3,1)
proof (induction rule: wait_request.raw_induct [rotated, consumes 1, case_names step])
  case (step loop w n a s res)
  show ?case
  proof (cases "free_request n s = None \<and> \<not> a")
    case True
    with step.hyps obtain u where "sleep_on w Wait_for_request s = Some u" "loop w n a u = Some res"
      by auto
    with step.IH step.prems show ?thesis using sleep_on_stable by blast
  qed (use step in \<open>auto dest: free_request_Some split: option.splits if_splits\<close>)
qed

lemma lock_buffer_stable:
  assumes "stable w P" and "\<And>s b. P s \<Longrightarrow> P (mod_buf b (\<lambda>b. b\<lparr>b_lock := 1\<rparr>) s)"
    and "lock_buffer w bh s = Some s'" and "P s"
  shows "P s'"
  using assms(3,4,1,2)
proof (induction rule: lock_buffer.raw_induct [rotated, consumes 1, case_names step])
  case (step loop w bh s s')
  show ?case
  proof (cases "b_lock (bufs s bh) = 0")
    case False
    with step.hyps obtain u where "sleep_on w (B_wait bh) s = Some u" "loop w bh u = Some s'" by auto
    with step.IH step.prems show ?thesis using sleep_on_stable by blast
  qed (use step in auto)
qed

lemma add_request_reserved:
  assumes "add_request w dev req s = Some s'" and "reads_reserved s"
    and drv: "\<And>s s'. reads_reserved s \<Longrightarrow> w_request w dev s = Some s' \<Longrightarrow> reads_reserved s'"
  shows "reads_reserved s'"
proof -
  let ?s1 = "mod_req req (\<lambda>r. r\<lparr>rq_next := None\<rparr>) s"
  let ?s2 = "case rq_bh (requests ?s1 req) of Some bh \<Rightarrow> mod_buf bh (\<lambda>b. b\<lparr>b_dirt := 0\<rparr>) ?s1 | None \<Rightarrow> ?s1"
  have s2: "reads_reserved ?s2" "current_request ?s2 = current_request s"
    using assms(2) by (auto simp: reads_reserved_def split: option.split)
  show ?thesis
  proof (cases "current_request s dev")
    case None
    have "reads_reserved (?s2\<lparr>current_request := (current_request ?s2)(dev := Some req)\<rparr>)"
      using s2(1) by (simp add: reads_reserved_def)
    with assms(1) None s2(2) drv show ?thesis by (auto simp: add_request_def Let_def)
  next
    case (Some t)
    with assms(1) s2 show ?thesis
      by (auto simp: add_request_def Let_def) (auto simp: reads_reserved_def)
  qed
qed

lemma reads_reserved_unlock [simp]: "reads_reserved (unlock_buffer b u) = reads_reserved u"
  by (rule reads_reserved_cong) (simp add: unlock_buffer_def wake_up_def set_state_def mod_task_def)

lemma queue_request_reserved:
  assumes st: "stable w reads_reserved"
    and drv: "\<And>s s'. reads_reserved s \<Longrightarrow> w_request w major s = Some s' \<Longrightarrow> reads_reserved s'"
    and rw: "rw = READ \<or> rw = WRITE"
    and q: "queue_request w major rw ahead bh s = Some s'" and "reads_reserved s"
  shows "reads_reserved s'"
proof -
  from q obtain r v where
    v: "wait_request w (if rw = READ then NR_REQUEST else NR_REQUEST * 2 div 3) ahead s = Some (r, v)"
    and fin: "(case r of None \<Rightarrow> Some (unlock_buffer bh v)
      | Some req \<Rightarrow> add_request w major req (fill_request req rw bh v)) = Some s'"
    by (auto simp: queue_request_def)
  note res = wait_request_result [OF st v assms(5)]
  then have pv: "reads_reserved v" by simp
  show ?thesis
  proof (cases r)
    case None
    with fin pv show ?thesis by auto
  next
    case (Some q)
    with res rw
    have "q < 21 \<or> rw = READ" by (auto split: if_splits)
    with pv have "reads_reserved (fill_request q rw bh v)"
      by (auto simp: fill_request_def Let_def reads_reserved_def)
    with fin Some drv show ?thesis by (auto intro: add_request_reserved)
  qed
qed

text \<open>
  C26. Writes never use the last third of the request table: whatever the rest of the system
  does, as long as it respects it too, no request beyond the first 21 is a buffer write.
\<close>

theorem make_request_reserves_reads:
  assumes run: "\<And>n s. reads_reserved s \<Longrightarrow> reads_reserved (w_run w n s)"
    and drv: "\<And>s s'. reads_reserved s \<Longrightarrow> w_request w major s = Some s' \<Longrightarrow> reads_reserved s'"
    and "make_request w major rw bh s = Some s'" and "reads_reserved s"
  shows "reads_reserved s'"
proof -
  have st: "stable w reads_reserved"
    using run by (auto simp: stable_def reads_reserved_def)
  have mb: "reads_reserved s \<Longrightarrow> reads_reserved (mod_buf b f s)" for s b f
    by (simp add: reads_reserved_def)
  show ?thesis
  proof (cases "(rw = READA \<or> rw = WRITEA) \<and> b_lock (bufs s bh) \<noteq> 0")
    case True
    with assms(3,4) show ?thesis by (auto simp: make_request_def Let_def)
  next
    case False
    define rw' where "rw' = (if rw = READA then READ else if rw = WRITEA then WRITE else rw)"
    from False assms(3) obtain u where rw': "rw' = READ \<or> rw' = WRITE"
      and u: "lock_buffer w bh s = Some u"
      and rest: "s' = unlock_buffer bh u
        \<or> queue_request w major rw' (rw = READA \<or> rw = WRITEA) bh u = Some s'"
      unfolding make_request_def Let_def rw'_def [symmetric] by (auto split: if_splits)
    have "reads_reserved u" using lock_buffer_stable [OF st mb u assms(4)] .
    with rest queue_request_reserved [OF st drv rw'] show ?thesis by auto
  qed
qed

section \<open>Examples\<close>

definition blank_request :: request where
  "blank_request = \<lparr>rq_dev = - 1, rq_cmd = 0, rq_errors = 0, rq_sector = 0, rq_nr_sectors = 0,
     rq_buffer = 0, rq_bh = None, rq_next = None\<rparr>"

definition blank_buffer :: buffer_head where
  "blank_buffer = \<lparr>b_data = 0, b_blocknr = 0, b_dev = 0, b_uptodate = 0, b_dirt = 0, b_count = 0,
     b_lock = 0, b_prev = None, b_next = None, b_prev_free = None, b_next_free = None\<rparr>"

definition blank_blk :: blk where
  "blank_blk = sched.extend blank_sched (blk.fields (\<lambda>_. blank_buffer) (\<lambda>_. blank_request)
     (\<lambda>_. 0) (\<lambda>_. None) (\<lambda>_. None))"

text \<open>A queue with a write of block 5 in progress and a swap-out waiting behind it, and a read
  of block 9 about to be queued.\<close>

definition busy_queue :: blk where
  "busy_queue = blank_blk\<lparr>current_request := (\<lambda>_. Some 0),
     requests := (\<lambda>_. blank_request)
       (0 := blank_request\<lparr>rq_dev := 0x301, rq_cmd := WRITE, rq_sector := 10, rq_bh := Some 0, rq_next := Some 1\<rparr>,
        1 := blank_request\<lparr>rq_dev := 0x304, rq_cmd := WRITE, rq_sector := 80\<rparr>,
        2 := blank_request\<lparr>rq_dev := 0x301, rq_cmd := READ, rq_sector := 18, rq_bh := Some 1\<rparr>,
        3 := blank_request\<lparr>rq_dev := 0x304, rq_cmd := READ, rq_sector := 88\<rparr>)\<rparr>"

lemma blank_blk_simps [simp]:
  "requests blank_blk = (\<lambda>_. blank_request)" "bufs blank_blk = (\<lambda>_. blank_buffer)"
  "current_request blank_blk = (\<lambda>_. None)"
  by (simp_all add: blank_blk_def sched.defs blk.defs)

theorem add_request_links_witness:
  "\<exists>s' us vs. add_request quiet 3 2 busy_queue = Some s' \<and> [1] = us @ vs
     \<and> rq_chain (requests s') (current_request s' 3) (0 # us @ 2 # vs)"
  using add_request_links [of busy_queue 3 0 "[1]" 2 quiet]
  by (auto simp: busy_queue_def blank_request_def)

theorem add_request_starts_witness:
  "\<exists>s1. add_request quiet 3 2 blank_blk = Some s1 \<and> current_request s1 3 = Some 2"
  using add_request_starts [of blank_blk 3 quiet 2] by (auto simp: quiet_def)

theorem add_request_swap_fifo_witness:
  "\<exists>s'. add_request quiet 3 3 busy_queue = Some s'
     \<and> rq_chain (requests s') (current_request s' 3) [0, 1, 3]"
  using add_request_swap_fifo [of busy_queue 3 0 "[1]" "[]" 3 quiet]
  by (auto simp: busy_queue_def blank_request_def)

theorem make_request_reserves_reads_witness:
  "\<exists>s'. make_request quiet 3 READ 0 blank_blk = Some s' \<and> reads_reserved s'"
proof -
  have "\<exists>s'. make_request quiet 3 READ 0 blank_blk = Some s'"
    by (simp add: make_request_def Let_def lock_buffer.simps blank_buffer_def queue_request_def
        wait_request.simps free_request_def upt_rec fill_request_def add_request_def quiet_def
        blank_request_def)
  moreover have "reads_reserved blank_blk" by (simp add: reads_reserved_def blank_request_def)
  ultimately show ?thesis
    using make_request_reserves_reads [of quiet 3 READ 0 blank_blk] by (auto simp: quiet_def)
qed

text \<open>
  Swap requests do not always go before other requests: a buffer read that comes later is
  queued ahead of a waiting swap request.
\<close>

theorem swap_request_overtaken:
  "\<exists>s'. add_request quiet 3 2 busy_queue = Some s'
     \<and> rq_chain (requests s') (current_request s' 3) [0, 2, 1]
     \<and> rq_bh (requests s' 1) = None \<and> rq_bh (requests s' 2) \<noteq> None"
  by (simp add: add_request_def Let_def busy_queue_def elevator.simps IN_ORDER_def blank_request_def)

end
