(* ===== verification/Hd.thy ===== *)
theory Hd
  imports Blk
begin

text \<open>
  \<^verbatim>\<open>kernel/blk_drv/hd.c\<close>: the AT hard disk driver. Its routines run the request at the head
  of the queue of device 3 step by step: a command is written to the controller's ports and
  the interrupt handler in \<^verbatim>\<open>do_hd\<close> continues when the controller is done.
\<close>

section \<open>State\<close>

record hd_struct =
  start_sect :: int
  nr_sects :: int

record hd_info_struct =
  hi_cyl :: u16
  hi_head :: u8
  hi_rcur_cyl :: u16
  hi_wpcom :: u16
  hi_ECC_len :: u8
  hi_ctl :: u8
  hi_std_timeout :: u8
  hi_fmt_timeout :: u8
  hi_check_timeout :: u8
  hi_lzone :: u16
  hi_sect :: u8
  hi_preserve_byte :: u8

text \<open>The values the function pointer \<^verbatim>\<open>do_hd\<close> takes.\<close>

datatype hd_intr = No_intr | Read_intr | Write_intr | Recal_intr | Reset_hd

record hd = blk +
  hd_part :: "nat \<Rightarrow> hd_struct"
  hd_sizes :: "nat \<Rightarrow> int"
  hd_info :: "nat \<Rightarrow> hd_info_struct"
  callable :: int
  recalibrate :: int
  reset :: int
  reset_i :: int
  NR_HD :: int
  do_hd :: hd_intr
  sys_load_flags :: int
  ROOT_DEV :: u32
  SWAP_DEV :: u32

abbreviation (input) HD_DATA :: u16 where "HD_DATA \<equiv> 0x1f0"
abbreviation (input) HD_ERROR :: u16 where "HD_ERROR \<equiv> 0x1f1"
abbreviation (input) HD_STATUS :: u16 where "HD_STATUS \<equiv> 0x1f7"
abbreviation (input) HD_CMD :: u16 where "HD_CMD \<equiv> 0x3f6"
abbreviation (input) WIN_RESTORE :: u8 where "WIN_RESTORE \<equiv> 0x10"
abbreviation (input) WIN_READ :: u8 where "WIN_READ \<equiv> 0x20"
abbreviation (input) WIN_WRITE :: u8 where "WIN_WRITE \<equiv> 0x30"
abbreviation (input) WIN_SPECIFY :: u8 where "WIN_SPECIFY \<equiv> 0x91"
abbreviation (input) MAX_ERRORS :: int where "MAX_ERRORS \<equiv> 7"
abbreviation (input) MAJOR_NR :: nat where "MAJOR_NR \<equiv> 3"

definition SET_INTR :: "hd_intr \<Rightarrow> 'a hd_scheme \<Rightarrow> 'a hd_scheme" where
  "SET_INTR x s = s\<lparr>do_hd := x\<rparr>"

definition DEVICE_NR :: "u32 \<Rightarrow> nat" where
  "DEVICE_NR device = MINOR device div 5"

abbreviation (input) CURRENT :: "'a hd_scheme \<Rightarrow> nat option" where
  "CURRENT s \<equiv> current_request s MAJOR_NR"

section \<open>Ending a request\<close>

definition unlock_buffer_hd :: "nat \<Rightarrow> 'a hd_scheme \<Rightarrow> 'a hd_scheme" where
  "unlock_buffer_hd bh s = wake_up (B_wait bh) (mod_buf bh (\<lambda>b. b\<lparr>b_lock := 0\<rparr>) s)"

text \<open>\<open>r\<close> is the request \<^verbatim>\<open>CURRENT\<close> points to.\<close>

definition end_request :: "u8 \<Rightarrow> nat \<Rightarrow> 'a hd_scheme \<Rightarrow> 'a hd_scheme" where
  "end_request uptodate r s0 =
     (let s = (case rq_bh (requests s0 r) of
                 Some bh \<Rightarrow> unlock_buffer_hd bh (mod_buf bh (\<lambda>b. b\<lparr>b_uptodate := uptodate\<rparr>) s0)
               | None \<Rightarrow> s0);
          s = wake_up Wait_for_request (wake_up (R_waiting r) s);
          s = mod_req r (\<lambda>q. q\<lparr>rq_dev := - 1\<rparr>) s
      in s\<lparr>current_request := (current_request s)(MAJOR_NR := rq_next (requests s r))\<rparr>)"

text \<open>
  After \<^verbatim>\<open>end_request\<close> the queue may be empty; the code then reads \<^verbatim>\<open>CURRENT->errors\<close> through
  a null pointer, that is, the word at address 8.
\<close>

definition current_errors :: "'a hd_scheme \<Rightarrow> int" where
  "current_errors s =
     (case CURRENT s of Some r \<Rightarrow> rq_errors (requests s r) | None \<Rightarrow> sint (ld32 (kmem s) 8))"

definition bad_rw_intr :: "nat \<Rightarrow> 'a hd_scheme \<Rightarrow> 'a hd_scheme" where
  "bad_rw_intr r s0 =
     (let s = mod_req r (\<lambda>q. q\<lparr>rq_errors := rq_errors q + 1\<rparr>) s0;
          s = (if rq_errors (requests s r) \<ge> MAX_ERRORS then end_request 0 r s else s)
      in if current_errors s > MAX_ERRORS div 2 then s\<lparr>reset := 1\<rparr> else s)"

section \<open>The controller\<close>

text \<open>\<^verbatim>\<open>while (--retries && (inb_p(HD_STATUS)&0xc0)!=0x40);\<close>\<close>

fun ready_loop :: "'a hd_scheme world \<Rightarrow> nat \<Rightarrow> 'a hd_scheme \<Rightarrow> nat \<times> 'a hd_scheme" where
  "ready_loop w 0 s = (0, s)"
| "ready_loop w (Suc retries) s =
     (if retries = 0 then (0, s)
      else let (v, s) = inb w HD_STATUS s in
        if v AND 0xc0 \<noteq> 0x40 then ready_loop w retries s else (retries, s))"

definition controller_ready :: "'a hd_scheme world \<Rightarrow> 'a hd_scheme \<Rightarrow> nat \<times> 'a hd_scheme" where
  "controller_ready w s = ready_loop w 100000 s"

text \<open>True is the result 1, the command failed.\<close>

definition win_result :: "'a hd_scheme world \<Rightarrow> 'a hd_scheme \<Rightarrow> bool \<times> 'a hd_scheme" where
  "win_result w s =
     (let (i, s) = inb w HD_STATUS s in
      if i AND (0x80 OR 0x40 OR 0x20 OR 0x10 OR 0x01) = (0x40 OR 0x10) then (False, s)
      else if i AND 1 \<noteq> 0 then (True, snd (inb w HD_ERROR s))
      else (True, s))"

definition hd_out ::
  "'a hd_scheme world \<Rightarrow> nat \<Rightarrow> u8 \<Rightarrow> u8 \<Rightarrow> u32 \<Rightarrow> u32 \<Rightarrow> u8 \<Rightarrow> hd_intr \<Rightarrow> 'a hd_scheme
     \<Rightarrow> 'a hd_scheme option" where
  "hd_out w drive nsect sect head cyl cmd intr_addr s0 =
     (if drive > 1 \<or> sint head > 15 then None
      else let (ready, s) = controller_ready w s0 in
      if ready = 0 then None
      else let s = SET_INTR intr_addr s;
               s = outb (hi_ctl (hd_info s drive)) HD_CMD s;
               s = outb (ucast (drop_bit 2 (hi_wpcom (hd_info s drive)))) 0x1f1 s;
               s = outb nsect 0x1f2 s;
               s = outb sect 0x1f3 s;
               s = outb (ucast cyl) 0x1f4 s;
               s = outb (ucast (drop_bit 8 cyl)) 0x1f5 s;
               s = outb (0xA0 OR push_bit 4 (of_nat drive) OR ucast head) 0x1f6 s
           in Some (outb cmd 0x1f7 s))"

text \<open>The six bytes that address a run of sectors and start a command (LBA form). \<open>drv\<close> is
  \<^verbatim>\<open>0xE0\<close> with the drive in bit 4.\<close>

definition lba_out :: "u8 \<Rightarrow> u8 \<Rightarrow> u32 \<Rightarrow> u8 \<Rightarrow> 'a hd_scheme \<Rightarrow> 'a hd_scheme" where
  "lba_out drv nsect sector cmd s =
     outb cmd 0x1f7 (outb ((ucast (drop_bit 24 sector) AND 0x0F) OR drv) 0x1f6
       (outb (ucast (drop_bit 16 sector)) 0x1f5 (outb (ucast (drop_bit 8 sector)) 0x1f4
         (outb (ucast sector) 0x1f3 (outb nsect 0x1f2 s)))))"

definition hd_out_LBA ::
  "'a hd_scheme world \<Rightarrow> nat \<Rightarrow> u8 \<Rightarrow> u32 \<Rightarrow> u8 \<Rightarrow> hd_intr \<Rightarrow> 'a hd_scheme \<Rightarrow> 'a hd_scheme option" where
  "hd_out_LBA w drive nsect sector cmd intr_addr s0 =
     (if drive > 1 then None
      else let (ready, s) = controller_ready w s0 in
      if ready = 0 then None
      else Some (lba_out (0xE0 OR push_bit 4 (of_nat drive)) nsect sector cmd (SET_INTR intr_addr s)))"

text \<open>\<^verbatim>\<open>rep insw\<close> and \<^verbatim>\<open>rep outsw\<close>: a 16-bit port access delivers or takes two bytes, the low
  one first.\<close>

fun port_read :: "'a hd_scheme world \<Rightarrow> u16 \<Rightarrow> u32 \<Rightarrow> nat \<Rightarrow> 'a hd_scheme \<Rightarrow> 'a hd_scheme" where
  "port_read w port buf 0 s = s"
| "port_read w port buf (Suc nr) s =
     (let (lo, s) = inb w port s;
          (hi, s) = inb w port s
      in port_read w port (buf + 2) nr (s\<lparr>kmem := (kmem s)(buf := lo, buf + 1 := hi)\<rparr>))"

fun port_write :: "u16 \<Rightarrow> u32 \<Rightarrow> nat \<Rightarrow> 'a hd_scheme \<Rightarrow> 'a hd_scheme" where
  "port_write port buf 0 s = s"
| "port_write port buf (Suc nr) s =
     port_write port (buf + 2) nr (outb (kmem s (buf + 1)) port (outb (kmem s buf) port s))"

fun busy_loop :: "'a hd_scheme world \<Rightarrow> nat \<Rightarrow> 'a hd_scheme \<Rightarrow> bool \<times> 'a hd_scheme" where
  "busy_loop w 0 s = (True, s)"
| "busy_loop w (Suc n) s =
     (let (c, s) = inb w HD_STATUS s in
      if c AND (0x80 OR 0x40 OR 0x10) = (0x40 OR 0x10) then (False, s) else busy_loop w n s)"

definition drive_busy :: "'a hd_scheme world \<Rightarrow> 'a hd_scheme \<Rightarrow> bool \<times> 'a hd_scheme" where
  "drive_busy w s = busy_loop w 50000 s"

definition reset_controller :: "'a hd_scheme world \<Rightarrow> 'a hd_scheme \<Rightarrow> 'a hd_scheme" where
  "reset_controller w s =
     (let s = outb 4 HD_CMD s;
          s = outb (hi_ctl (hd_info s 0) AND 0x0f) HD_CMD s;
          (busy, s) = drive_busy w s;
          (i, s) = inb w HD_ERROR s
      in s)"

fun drq_loop :: "'a hd_scheme world \<Rightarrow> nat \<Rightarrow> 'a hd_scheme \<Rightarrow> bool \<times> 'a hd_scheme" where
  "drq_loop w 0 s = (False, s)"
| "drq_loop w (Suc n) s =
     (let (r, s) = inb w HD_STATUS s in
      if r AND 0x08 \<noteq> 0 then (True, s) else drq_loop w n s)"

section \<open>Serving the queue\<close>

text \<open>
  The range check of \<^verbatim>\<open>do_hd_request\<close>; \<^verbatim>\<open>sector\<close> is an \<^verbatim>\<open>int\<close> there.
\<close>

definition hd_out_of_range :: "nat \<Rightarrow> u32 \<Rightarrow> 'a hd_scheme \<Rightarrow> bool" where
  "hd_out_of_range dev sector s \<longleftrightarrow>
     int dev \<ge> 5 * NR_HD s \<or> s32 (sint sector + 2) \<ge> nr_sects (hd_part s dev)"

text \<open>The last part of \<^verbatim>\<open>do_hd_request\<close>, from the computation of the absolute sector on. The
  result tells whether the code goes back to \<^verbatim>\<open>repeat:\<close>.\<close>

definition hd_command :: "'a hd_scheme world \<Rightarrow> nat \<Rightarrow> 'a hd_scheme \<Rightarrow> (bool \<times> 'a hd_scheme) option" where
  "hd_command w r s =
     (let q = requests s r;
          minor = MINOR (of_int (rq_dev q));
          sector = rq_sector q + of_int (start_sect (hd_part s minor));
          dev = minor div 5;
          nsect = ucast (rq_nr_sectors q)
      in if recalibrate s \<noteq> 0
         then do {
           s \<leftarrow> hd_out w dev (hi_sect (hd_info s (DEVICE_NR (of_int (rq_dev q))))) 0 0 0 WIN_RESTORE
                  Recal_intr (s\<lparr>recalibrate := 0\<rparr>);
           Some (False, s)
         }
         else if rq_cmd q = WRITE
         then do {
           s \<leftarrow> hd_out_LBA w dev nsect sector WIN_WRITE Write_intr s;
           let (drq, s) = drq_loop w 10000 s in
           if drq then Some (False, port_write HD_DATA (rq_buffer (requests s r)) 256 s)
           else Some (True, bad_rw_intr r s)
         }
         else if rq_cmd q = READ
         then do {
           s \<leftarrow> hd_out_LBA w dev nsect sector WIN_READ Read_intr s;
           Some (False, s)
         }
         else None)"

text \<open>
  \<^verbatim>\<open>do_hd_request\<close> and \<^verbatim>\<open>reset_hd\<close> call each other; they are one loop over the routine to
  run, \<open>True\<close> standing for \<^verbatim>\<open>reset_hd\<close>. A call through a null \<^verbatim>\<open>CURRENT\<close> that writes memory
  is \<open>None\<close>.
\<close>

partial_function (option) hd_run :: "'a hd_scheme world \<Rightarrow> bool \<Rightarrow> 'a hd_scheme \<Rightarrow> 'a hd_scheme option" where
  "hd_run w resetting s =
     (if resetting
      then do {
        (again, s) \<leftarrow>
          (if reset s \<noteq> 0
           then Some (False, reset_controller w (s\<lparr>reset := 0, reset_i := - 1\<rparr>))
           else let (bad, s) = win_result w s in
             if bad
             then do { r \<leftarrow> CURRENT s; let s = bad_rw_intr r s in Some (reset s \<noteq> 0, s) }
             else Some (False, s));
        if again then hd_run w True s
        else let s = s\<lparr>reset_i := reset_i s + 1\<rparr> in
          if reset_i s < NR_HD s
          then let d = nat (reset_i s); h = hd_info s d in
            hd_out w d (hi_sect h) (hi_sect h) (ucast (hi_head h) - 1) (ucast (hi_cyl h))
              WIN_SPECIFY Reset_hd s
          else hd_run w False s
      }
      else case CURRENT s of
        None \<Rightarrow> Some (s\<lparr>do_hd := No_intr, hd_timeout := 0\<rparr>)
      | Some r \<Rightarrow>
          if MAJOR (of_int (rq_dev (requests s r))) \<noteq> MAJOR_NR then None
          else if (case rq_bh (requests s r) of None \<Rightarrow> False | Some bh \<Rightarrow> b_lock (bufs s bh) = 0)
          then None
          else if hd_out_of_range (MINOR (of_int (rq_dev (requests s r)))) (rq_sector (requests s r)) s
          then hd_run w False (end_request 0 r s)
          else if reset s \<noteq> 0 then hd_run w True (s\<lparr>recalibrate := 1\<rparr>)
          else do {
            (again, s) \<leftarrow> hd_command w r s;
            if again then hd_run w False s else Some s
          })"

definition do_hd_request :: "'a hd_scheme world \<Rightarrow> 'a hd_scheme \<Rightarrow> 'a hd_scheme option" where
  "do_hd_request w s = hd_run w False s"

definition reset_hd :: "'a hd_scheme world \<Rightarrow> 'a hd_scheme \<Rightarrow> 'a hd_scheme option" where
  "reset_hd w s = hd_run w True s"

section \<open>Interrupt handlers\<close>

definition unexpected_hd_interrupt :: "'a hd_scheme world \<Rightarrow> 'a hd_scheme \<Rightarrow> 'a hd_scheme option" where
  "unexpected_hd_interrupt w s =
     (if sys_load_flags s \<noteq> 0 then Some s else do_hd_request w (s\<lparr>reset := 1\<rparr>))"

definition hd_times_out :: "'a hd_scheme world \<Rightarrow> 'a hd_scheme \<Rightarrow> 'a hd_scheme option" where
  "hd_times_out w s0 =
     (case CURRENT s0 of
        None \<Rightarrow> Some s0
      | Some r \<Rightarrow>
          let s = mod_req r (\<lambda>q. q\<lparr>rq_errors := rq_errors q + 1\<rparr>) s0;
              s = (if rq_errors (requests s r) \<ge> MAX_ERRORS then end_request 0 r s else s)
          in do_hd_request w ((SET_INTR No_intr s)\<lparr>reset := 1\<rparr>))"

definition read_intr :: "'a hd_scheme world \<Rightarrow> 'a hd_scheme \<Rightarrow> 'a hd_scheme option" where
  "read_intr w s0 = do {
     let (bad, s) = win_result w s0;
     r \<leftarrow> CURRENT s;
     if bad then do_hd_request w (bad_rw_intr r s)
     else let s = port_read w HD_DATA (rq_buffer (requests s r)) 256 s;
              s = mod_req r (\<lambda>q. q\<lparr>rq_errors := 0, rq_buffer := rq_buffer q + 512,
                    rq_sector := rq_sector q + 1, rq_nr_sectors := rq_nr_sectors q - 1\<rparr>) s
          in if rq_nr_sectors (requests s r) \<noteq> 0 then Some (SET_INTR Read_intr s)
             else do_hd_request w (end_request 1 r s)
   }"

definition write_intr :: "'a hd_scheme world \<Rightarrow> 'a hd_scheme \<Rightarrow> 'a hd_scheme option" where
  "write_intr w s0 = do {
     let (bad, s) = win_result w s0;
     r \<leftarrow> CURRENT s;
     if bad then do_hd_request w (bad_rw_intr r s)
     else let s = mod_req r (\<lambda>q. q\<lparr>rq_nr_sectors := rq_nr_sectors q - 1\<rparr>) s
          in if rq_nr_sectors (requests s r) \<noteq> 0
             then let s = mod_req r (\<lambda>q. q\<lparr>rq_sector := rq_sector q + 1,
                            rq_buffer := rq_buffer q + 512\<rparr>) s
                  in Some (port_write HD_DATA (rq_buffer (requests s r)) 256 (SET_INTR Write_intr s))
             else do_hd_request w (end_request 1 r s)
   }"

definition recal_intr :: "'a hd_scheme world \<Rightarrow> 'a hd_scheme \<Rightarrow> 'a hd_scheme option" where
  "recal_intr w s0 = do {
     let (bad, s) = win_result w s0;
     if bad then do { r \<leftarrow> CURRENT s; do_hd_request w (bad_rw_intr r s) }
     else do_hd_request w s
   }"

text \<open>\<^verbatim>\<open>hd_interrupt\<close> of \<^verbatim>\<open>sys_call.s\<close> clears the timeout, takes the handler out of \<^verbatim>\<open>do_hd\<close>
  and calls it.\<close>

definition hd_interrupt :: "'a hd_scheme world \<Rightarrow> 'a hd_scheme \<Rightarrow> 'a hd_scheme option" where
  "hd_interrupt w s0 =
     (let s = outb 0x20 0xA0 s0;
          h = do_hd s;
          s = outb 0x20 0x20 (s\<lparr>hd_timeout := 0, do_hd := No_intr\<rparr>)
      in case h of
           No_intr \<Rightarrow> unexpected_hd_interrupt w s
         | Read_intr \<Rightarrow> read_intr w s
         | Write_intr \<Rightarrow> write_intr w s
         | Recal_intr \<Rightarrow> recal_intr w s
         | Reset_hd \<Rightarrow> reset_hd w s)"

section \<open>Polled access\<close>

text \<open>\<^verbatim>\<open>do status = inb_p(port) & mask; while (status != val);\<close>\<close>

partial_function (option) poll :: "'a hd_scheme world \<Rightarrow> u8 \<Rightarrow> u8 \<Rightarrow> 'a hd_scheme \<Rightarrow> 'a hd_scheme option" where
  "poll w m val s =
     (let (v, s) = inb w 0x1F7 s in if v AND m \<noteq> val then poll w m val s else Some s)"

definition read_disk_base ::
  "'a hd_scheme world \<Rightarrow> u8 \<Rightarrow> u32 \<Rightarrow> u32 \<Rightarrow> 'a hd_scheme \<Rightarrow> 'a hd_scheme option" where
  "read_disk_base w drv sector buffer s = do {
     s \<leftarrow> poll w 0x88 0x08 (lba_out drv 1 sector 0x20 s);
     Some (port_read w HD_DATA buffer 256 s)
   }"

definition write_disk_base ::
  "'a hd_scheme world \<Rightarrow> u8 \<Rightarrow> u32 \<Rightarrow> u32 \<Rightarrow> 'a hd_scheme \<Rightarrow> 'a hd_scheme option" where
  "write_disk_base w drv sector buffer s =
     poll w 0x80 0x00 (port_write HD_DATA buffer 256 (lba_out drv 1 sector 0x30 s))"

definition read_first_disk_base ::
  "'a hd_scheme world \<Rightarrow> u32 \<Rightarrow> u32 \<Rightarrow> 'a hd_scheme \<Rightarrow> 'a hd_scheme option" where
  "read_first_disk_base w = read_disk_base w 0xE0"

definition read_second_disk_base ::
  "'a hd_scheme world \<Rightarrow> u32 \<Rightarrow> u32 \<Rightarrow> 'a hd_scheme \<Rightarrow> 'a hd_scheme option" where
  "read_second_disk_base w = read_disk_base w 0xF0"

definition write_first_disk_base ::
  "'a hd_scheme world \<Rightarrow> u32 \<Rightarrow> u32 \<Rightarrow> 'a hd_scheme \<Rightarrow> 'a hd_scheme option" where
  "write_first_disk_base w = write_disk_base w 0xE0"

definition write_second_disk_base ::
  "'a hd_scheme world \<Rightarrow> u32 \<Rightarrow> u32 \<Rightarrow> 'a hd_scheme \<Rightarrow> 'a hd_scheme option" where
  "write_second_disk_base w = write_disk_base w 0xF0"

text \<open>Two sectors in a row; \<^verbatim>\<open>buffer\<close> is a pointer to 16-bit words.\<close>

definition read_first_disk :: "'a hd_scheme world \<Rightarrow> u32 \<Rightarrow> u32 \<Rightarrow> 'a hd_scheme \<Rightarrow> 'a hd_scheme option" where
  "read_first_disk w n buffer s = do {
     s \<leftarrow> read_first_disk_base w n buffer s; read_first_disk_base w (n + 1) (buffer + 512) s }"

definition read_second_disk :: "'a hd_scheme world \<Rightarrow> u32 \<Rightarrow> u32 \<Rightarrow> 'a hd_scheme \<Rightarrow> 'a hd_scheme option" where
  "read_second_disk w n buffer s = do {
     s \<leftarrow> read_second_disk_base w n buffer s; read_second_disk_base w (n + 1) (buffer + 512) s }"

definition write_first_disk :: "'a hd_scheme world \<Rightarrow> u32 \<Rightarrow> u32 \<Rightarrow> 'a hd_scheme \<Rightarrow> 'a hd_scheme option" where
  "write_first_disk w n buffer s = do {
     s \<leftarrow> write_first_disk_base w n buffer s; write_first_disk_base w (n + 1) (buffer + 512) s }"

definition write_second_disk :: "'a hd_scheme world \<Rightarrow> u32 \<Rightarrow> u32 \<Rightarrow> 'a hd_scheme \<Rightarrow> 'a hd_scheme option" where
  "write_second_disk w n buffer s = do {
     s \<leftarrow> write_second_disk_base w n buffer s; write_second_disk_base w (n + 1) (buffer + 512) s }"

section \<open>Initialisation\<close>

definition hd_init :: "'a hd_scheme world \<Rightarrow> u32 \<Rightarrow> 'a hd_scheme \<Rightarrow> 'a hd_scheme" where
  "hd_init w hd_interrupt_addr s0 =
     (let s = (if ROOT_DEV s0 = 0 \<and> SWAP_DEV s0 = 0
               then s0\<lparr>SWAP_DEV := 0, ROOT_DEV := 0x0306\<rparr> else s0);
          s = s\<lparr>sys_load_flags := 1, NR_HD := 0,
                hd_info := (hd_info s)
                  (0 := (hd_info s 0)\<lparr>hi_cyl := 40, hi_head := 16, hi_sect := 63, hi_wpcom := 65535, hi_ctl := 0xC8, hi_lzone := 40\<rparr>,
                   1 := (hd_info s 1)\<lparr>hi_cyl := 20, hi_head := 16, hi_sect := 63, hi_wpcom := 65535, hi_ctl := 0xC8, hi_lzone := 20\<rparr>),
                hd_part := (\<lambda>i. if i < 10 then \<lparr>start_sect = 0, nr_sects = 0\<rparr> else hd_part s i),
                hd_sizes := (\<lambda>i. if i < 10 then 0 else hd_sizes s i),
                callable := 1, recalibrate := 0, reset := 0, hd_timeout := 0, do_hd := No_intr,
                request_fn := (request_fn s)(MAJOR_NR := 1),
                idt := set_intr_gate 0x2E hd_interrupt_addr (idt s)\<rparr>;
          (v, s) = inb w 0x21 s;
          s = outb (v AND 0xfb) 0x21 s;
          (v, s) = inb w 0xA1 s
      in outb (v AND 0xbf) 0xA1 s)"

lemmas [kdefs] = SET_INTR_def DEVICE_NR_def unlock_buffer_hd_def end_request_def bad_rw_intr_def
  current_errors_def win_result_def lba_out_def hd_out_LBA_def do_hd_request_def reset_hd_def
  hd_times_out_def read_intr_def write_intr_def recal_intr_def hd_interrupt_def

section \<open>Properties\<close>

text \<open>What the controller reads from the last six bytes written to it: the drive bits, the
  sector and the number of sectors.\<close>

definition lba_word :: "u8 \<Rightarrow> u8 \<Rightarrow> u8 \<Rightarrow> u8 \<Rightarrow> u32" where
  "lba_word d c b a = push_bit 24 (ucast (d AND 0x0F)) OR push_bit 16 (ucast c)
     OR push_bit 8 (ucast b) OR ucast a"

definition lba_read :: "(u16 \<times> u8) list \<Rightarrow> (u32 \<times> u8) option" where
  "lba_read log = (case rev log of
     (p7, cmd) # (p6, d) # (p5, c) # (p4, b) # (p3, a) # (p2, n) # _ \<Rightarrow>
       if [p2, p3, p4, p5, p6, p7] = [0x1f2, 0x1f3, 0x1f4, 0x1f5, 0x1f6, 0x1f7]
       then Some (lba_word d c b a, n)
       else None
   | _ \<Rightarrow> None)"

lemma u8_low4: "(0x0F :: u8) = mask 4" by (simp add: mask_eq_exp_minus_1)

lemma lba_bytes:
  assumes "drop_bit 28 (x :: u32) = 0" and "d AND 0x0F = (0 :: u8)"
  shows "lba_word ((ucast (drop_bit 24 x) AND 0x0F) OR d) (ucast (drop_bit 16 x))
     (ucast (drop_bit 8 x)) (ucast x) = x"
  unfolding lba_word_def
proof (rule bit_word_eqI)
  fix n assume "n < LENGTH(32)"
  then have n: "n < 32" by simp
  have hi: "\<not> bit x k" if "28 \<le> k" for k
  proof
    assume "bit x k"
    with that have "bit (drop_bit 28 x) (k - 28)" by (simp add: bit_simps)
    with assms(1) show False by simp
  qed
  have d: "\<not> bit d k" if "k < 4" for k
  proof
    assume "bit d k"
    with that have "bit (d AND mask 4) k" by (simp add: bit_simps)
    with assms(2) show False by (simp add: u8_low4)
  qed
  show "bit (push_bit 24 (ucast (((ucast (drop_bit 24 x) AND 0x0F) OR d) AND (0x0F :: u8)))
     OR push_bit 16 (ucast (ucast (drop_bit 16 x) :: u8)) OR push_bit 8 (ucast (ucast (drop_bit 8 x) :: u8))
     OR ucast (ucast x :: u8) :: u32) n = bit x n"
  proof -
    consider "n < 8" | "8 \<le> n" "n < 16" | "16 \<le> n" "n < 24" | "24 \<le> n" "n < 28" | "28 \<le> n"
      by linarith
    then show ?thesis
      unfolding u8_low4 using n by cases (auto simp: bit_simps hi d)
  qed
qed

lemma lba_read_log:
  "lba_read (l @ [(0x1f2, n), (0x1f3, a), (0x1f4, b), (0x1f5, c), (0x1f6, d), (0x1f7, e)])
     = Some (lba_word d c b a, n)"
  by (simp add: lba_read_def)

lemma port_log_outb: "port_log (outb v p s) = port_log s @ [(p, v)]"
  by (simp add: outb_def)

text \<open>
  The sector number and count that reach the controller are the ones asked for, for every
  sector below \<open>2^28\<close> and both drives.
\<close>

theorem lba_out_decodes:
  assumes "drop_bit 28 sector = 0" and "drv AND 0x0F = 0"
  shows "lba_read (port_log (lba_out drv nsect sector cmd s)) = Some (sector, nsect)"
  unfolding lba_out_def port_log_outb append_assoc append.simps lba_read_log lba_bytes [OF assms] ..

text \<open>A disk with one partition of 200 sectors that starts at sector 1, a read of block 5 in
  progress, and a controller whose status register always says that the command is done and
  whose other registers count the reads.\<close>

definition ready_world :: "'s world" where
  "ready_world = quiet\<lparr>w_in := \<lambda>k port. if port = HD_STATUS then 0x50 else of_nat k\<rparr>"

definition disk_reading :: hd where
  "disk_reading = blk.extend (blank_blk\<lparr>
       requests := (\<lambda>_. blank_request)(0 := blank_request\<lparr>rq_dev := 0x301, rq_sector := 10,
         rq_nr_sectors := 2, rq_buffer := 0x400000, rq_bh := Some 0\<rparr>),
       bufs := (\<lambda>_. blank_buffer)(0 := blank_buffer\<lparr>b_dev := 0x301, b_blocknr := 5, b_lock := 1\<rparr>),
       current_request := (\<lambda>_. None)(3 := Some 0)\<rparr>)
     (hd.fields (\<lambda>_. \<lparr>start_sect = 1, nr_sects = 200\<rparr>) (\<lambda>_. 0)
       (\<lambda>_. \<lparr>hi_cyl = 40, hi_head = 16, hi_rcur_cyl = 0, hi_wpcom = 65535, hi_ECC_len = 0, hi_ctl = 0xC8,
          hi_std_timeout = 0, hi_fmt_timeout = 0, hi_check_timeout = 0, hi_lzone = 40, hi_sect = 63, hi_preserve_byte = 0\<rparr>)
       1 0 0 0 1 Read_intr 0 0x301 0)"

lemma disk_reading_simps [simp]:
  "requests disk_reading = (\<lambda>_. blank_request)(0 := blank_request\<lparr>rq_dev := 0x301, rq_sector := 10,
         rq_nr_sectors := 2, rq_buffer := 0x400000, rq_bh := Some 0\<rparr>)"
  "bufs disk_reading = (\<lambda>_. blank_buffer)(0 := blank_buffer\<lparr>b_dev := 0x301, b_blocknr := 5, b_lock := 1\<rparr>)"
  "current_request disk_reading = (\<lambda>_. None)(3 := Some 0)"
  "hd_part disk_reading = (\<lambda>_. \<lparr>start_sect = 1, nr_sects = 200\<rparr>)"
  "NR_HD disk_reading = 1" "reset disk_reading = 0" "recalibrate disk_reading = 0"
  "n_in disk_reading = 0" "wq disk_reading = (\<lambda>_. 0)"
  by (simp_all add: disk_reading_def blk.defs hd.defs blank_blk_def sched.defs blank_sched_def)

theorem lba_out_decodes_witness:
  "lba_read (port_log (lba_out 0xF0 2 0x0123456 0x20 disk_reading)) = Some (0x0123456, 2)"
  by (simp add: lba_out_decodes)

section \<open>The life of a read\<close>

lemma inb_simps [simp]:
  "requests (snd (inb w port s)) = requests s" "current_request (snd (inb w port s)) = current_request s"
  "bufs (snd (inb w port s)) = bufs s" "wq (snd (inb w port s)) = wq s"
  by (simp_all add: inb_def)

lemma port_read_simps [simp]:
  "requests (port_read w port buf n s) = requests s"
  "current_request (port_read w port buf n s) = current_request s"
  "bufs (port_read w port buf n s) = bufs s" "wq (port_read w port buf n s) = wq s"
  by (induction n arbitrary: buf s) (simp_all add: inb_def Let_def)

lemma win_result_simps [simp]:
  "requests (snd (win_result w s)) = requests s"
  "current_request (snd (win_result w s)) = current_request s"
  "bufs (snd (win_result w s)) = bufs s" "wq (snd (win_result w s)) = wq s"
  by (simp_all add: win_result_def inb_def Let_def)

lemma wake_up_blk [simp]:
  "requests (wake_up q s) = requests s" "bufs (wake_up q s) = bufs s"
  "current_request (wake_up q s) = current_request s"
  by (simp_all add: wake_up_def set_state_def mod_task_def)

lemma end_request_simps:
  assumes "rq_bh (requests s r) = Some b"
  shows "bufs (end_request u r s) = (bufs s)(b := (bufs s b)\<lparr>b_uptodate := u, b_lock := 0\<rparr>)"
    "requests (end_request u r s) = (requests s)(r := (requests s r)\<lparr>rq_dev := - 1\<rparr>)"
    "current_request (end_request u r s) = (current_request s)(MAJOR_NR := rq_next (requests s r))"
  using assms by (simp_all add: end_request_def Let_def unlock_buffer_hd_def)

text \<open>The bytes a port delivers are stored in their order, and no other byte of memory changes.\<close>

lemma port_read_kmem:
  assumes "2 * n < 2 ^ 32"
  shows "kmem (port_read w port buf n s) x
    = (if unat (x - buf) < 2 * n then w_in w (n_in s + unat (x - buf)) port else kmem s x)"
  using assms
proof (induction n arbitrary: buf s)
  case (Suc n)
  define d where "d = x - buf"
  have x: "x = buf + d" "x - (buf + 2) = d - 2" by (simp_all add: d_def)
  consider "d = 0" | "d = 1" | "2 \<le> d" using word_le_nat_alt [of 2 d] by unat_arith
  then show ?case
  proof cases
    case 1
    with Suc show ?thesis by (simp add: x inb_def Let_def)
  next
    case 2
    have "unat (- 1 :: u32) = 2 ^ 32 - 1" by (simp add: unsigned_minus_1_eq_mask mask_eq_exp_minus_1)
    with 2 Suc show ?thesis by (simp add: x inb_def Let_def)
  next
    case 3
    then have "unat (d - 2) = unat d - 2" "2 \<le> unat d" and ne: "d \<noteq> 0" "d \<noteq> 1"
      by (auto simp: unat_sub word_le_nat_alt)
    then obtain e where "unat d = e + 2" "unat (d - 2) = e" by (metis add.commute le_Suc_ex add_diff_cancel_left')
    with Suc ne show ?thesis by (auto simp: x inb_def Let_def)
  qed
qed simp

lemma kmem_blk [simp]:
  "kmem (wake_up q s) = kmem s" "kmem (mod_req r f s) = kmem s" "kmem (mod_buf b g s) = kmem s"
  by (simp_all add: wake_up_def set_state_def mod_task_def mod_req_def mod_buf_def)

lemma end_request_kmem [simp]: "kmem (end_request u r s) = kmem s"
  by (simp add: end_request_def Let_def unlock_buffer_hd_def split: option.splits)

text \<open>
  C27. Each interrupt of a successful read moves one sector: the 512 bytes the controller delivers,
  which are the answers that follow that of the status port, are in memory at the place the
  request names, and no other byte of memory changes. As long as sectors are missing the
  request stays current with one sector less to go and no errors, and the handler is armed again; with the
  last one the request is taken off the queue and freed, its buffer is unlocked and marked up
  to date, and the next request is started.
\<close>

theorem read_intr_progress:
  assumes "CURRENT s = Some r" and "rq_bh (requests s r) = Some b" and "\<not> fst (win_result w s)"
  defines "mem \<equiv> \<lambda>x. let k = unat (x - rq_buffer (requests s r)) in
    if k < 512 then w_in w (n_in s + 1 + k) HD_DATA else kmem s x"
  shows "if rq_nr_sectors (requests s r) \<noteq> 1
     then \<exists>s'. read_intr w s = Some s' \<and> do_hd s' = Read_intr \<and> CURRENT s' = Some r
        \<and> rq_sector (requests s' r) = rq_sector (requests s r) + 1
        \<and> rq_nr_sectors (requests s' r) = rq_nr_sectors (requests s r) - 1
        \<and> rq_buffer (requests s' r) = rq_buffer (requests s r) + 512
        \<and> rq_errors (requests s' r) = 0 \<and> kmem s' = mem
     else \<exists>s'. read_intr w s = do_hd_request w s' \<and> CURRENT s' = rq_next (requests s r)
        \<and> rq_dev (requests s' r) < 0 \<and> b_lock (bufs s' b) = 0 \<and> b_uptodate (bufs s' b) = 1
        \<and> kmem s' = mem"
proof -
  obtain s1 where s1: "win_result w s = (False, s1)" using assms(3) by (cases "win_result w s") simp
  then have s1': "s1 = s\<lparr>n_in := n_in s + 1\<rparr>" by (auto simp: win_result_def inb_def Let_def split: if_splits)
  then have f: "requests s1 = requests s" "current_request s1 = current_request s" "bufs s1 = bufs s"
    "kmem s1 = kmem s" "n_in s1 = n_in s + 1"
    by simp_all
  let ?s2 = "mod_req r (\<lambda>q. q\<lparr>rq_errors := 0, rq_buffer := rq_buffer q + 512,
                    rq_sector := rq_sector q + 1, rq_nr_sectors := rq_nr_sectors q - 1\<rparr>)
      (port_read w HD_DATA (rq_buffer (requests s1 r)) 256 s1)"
  have run: "read_intr w s = (if rq_nr_sectors (requests ?s2 r) \<noteq> 0 then Some (SET_INTR Read_intr ?s2)
             else do_hd_request w (end_request 1 r ?s2))"
    using s1 assms(1) f by (simp add: read_intr_def Let_def)
  have b: "rq_bh (requests ?s2 r) = Some b" using assms(2) f by simp
  have m: "kmem ?s2 = mem"
    by (rule ext) (simp add: port_read_kmem f mem_def Let_def)
  show ?thesis
  proof (cases "rq_nr_sectors (requests s r) = 1")
    case True
    with run f have "read_intr w s = do_hd_request w (end_request 1 r ?s2)" by simp
    moreover have "CURRENT (end_request 1 r ?s2) = rq_next (requests s r)"
      "rq_dev (requests (end_request 1 r ?s2) r) < 0" "b_lock (bufs (end_request 1 r ?s2) b) = 0"
      "b_uptodate (bufs (end_request 1 r ?s2) b) = 1"
      unfolding end_request_simps [OF b] using f by simp_all
    moreover have "kmem (end_request 1 r ?s2) = mem" using m by simp
    ultimately have "\<exists>s'. read_intr w s = do_hd_request w s' \<and> CURRENT s' = rq_next (requests s r)
        \<and> rq_dev (requests s' r) < 0 \<and> b_lock (bufs s' b) = 0 \<and> b_uptodate (bufs s' b) = 1
        \<and> kmem s' = mem"
      by blast
    with True show ?thesis by simp
  next
    case False
    with run f m show ?thesis using assms(1)
      by (auto simp: SET_INTR_def)
  qed
qed

text \<open>
  C28. A request that fails seven times is given up: it leaves the queue and its buffer is
  unlocked but not up to date.
\<close>

theorem bad_rw_intr_gives_up:
  assumes "CURRENT s = Some r" and "rq_bh (requests s r) = Some b" and "rq_errors (requests s r) = 6"
  shows "CURRENT (bad_rw_intr r s) = rq_next (requests s r) \<and> rq_dev (requests (bad_rw_intr r s) r) < 0
     \<and> b_lock (bufs (bad_rw_intr r s) b) = 0 \<and> b_uptodate (bufs (bad_rw_intr r s) b) = 0"
proof -
  let ?s1 = "mod_req r (\<lambda>q. q\<lparr>rq_errors := rq_errors q + 1\<rparr>) s"
  have "rq_bh (requests ?s1 r) = Some b" using assms by simp
  from end_request_simps [OF this, of 0] assms show ?thesis
    by (simp add: bad_rw_intr_def Let_def)
qed

text \<open>
  C29. The range check is off by one: the last block of a partition, though inside it, is
  refused and its request ended with an error.
\<close>

theorem last_block_refused:
  assumes "CURRENT s = Some r" and "MAJOR (of_int (rq_dev (requests s r))) = MAJOR_NR"
    and "rq_bh (requests s r) = Some b" and "b_lock (bufs s b) \<noteq> 0"
    and "sint (rq_sector (requests s r)) \<ge> 0"
    and "sint (rq_sector (requests s r)) + 2 = nr_sects (hd_part s (MINOR (of_int (rq_dev (requests s r)))))"
    and "nr_sects (hd_part s (MINOR (of_int (rq_dev (requests s r))))) < 2 ^ 31"
  shows "do_hd_request w s = do_hd_request w (end_request 0 r s)"
proof -
  have "hd_out_of_range (MINOR (of_int (rq_dev (requests s r)))) (rq_sector (requests s r)) s"
    using assms(5-7) by (simp add: hd_out_of_range_def)
  with assms(1-4) show ?thesis
    unfolding do_hd_request_def by (subst hd_run.simps) simp
qed

theorem read_intr_progress_witness:
  "\<exists>s'. read_intr ready_world disk_reading = Some s' \<and> rq_nr_sectors (requests s' 0) = 1
     \<and> kmem s' (0x400000 + 3) = 4"
  using read_intr_progress [of disk_reading 0 0 ready_world]
  by (auto simp: win_result_def inb_def ready_world_def blank_request_def)

theorem bad_rw_intr_gives_up_witness:
  "b_uptodate (bufs (bad_rw_intr 0 (disk_reading\<lparr>requests := (requests disk_reading)
     (0 := (requests disk_reading 0)\<lparr>rq_errors := 6\<rparr>)\<rparr>)) 0) = 0"
  using bad_rw_intr_gives_up [of "disk_reading\<lparr>requests := (requests disk_reading)
     (0 := (requests disk_reading 0)\<lparr>rq_errors := 6\<rparr>)\<rparr>" 0 0] by simp

theorem last_block_refused_witness:
  "do_hd_request ready_world (disk_reading\<lparr>hd_part := (\<lambda>_. \<lparr>start_sect = 1, nr_sects = 12\<rparr>)\<rparr>)
     = do_hd_request ready_world
         (end_request 0 0 (disk_reading\<lparr>hd_part := (\<lambda>_. \<lparr>start_sect = 1, nr_sects = 12\<rparr>)\<rparr>))"
  by (rule last_block_refused [of _ 0 0]) (simp_all add: MAJOR_def blank_buffer_def)

end
