(* ===== verification/Swap.thy ===== *)
theory Swap
  imports Hd
begin

text \<open>
  Physical pages and the swap space: the page map of \<^verbatim>\<open>mm/memory.c\<close> (\<^verbatim>\<open>mem_map\<close>,
  \<^verbatim>\<open>free_page\<close>, \<^verbatim>\<open>mem_init\<close>) and \<^verbatim>\<open>mm/swap.c\<close>. Page tables and page contents are the
  words and bytes of \<open>kmem\<close>; the page directory is at address 0.
\<close>

section \<open>State\<close>

abbreviation (input) LOW_MEM :: u32 where "LOW_MEM \<equiv> 0x300000"
abbreviation (input) PAGING_MEMORY :: u32 where "PAGING_MEMORY \<equiv> 0x3d00000"
abbreviation (input) PAGING_PAGES :: nat where "PAGING_PAGES \<equiv> 15616"
abbreviation (input) USED :: u8 where "USED \<equiv> 100"
abbreviation (input) PAGE_DIRTY :: u32 where "PAGE_DIRTY \<equiv> 0x40"
abbreviation (input) SWAP_BITS :: nat where "SWAP_BITS \<equiv> 32768"
abbreviation (input) FIRST_VM_PAGE :: nat where "FIRST_VM_PAGE \<equiv> 16384"
abbreviation (input) VM_PAGES :: int where "VM_PAGES \<equiv> 1032192"

record mm = hd +
  HIGH_MEMORY :: u32
  mem_map :: "nat \<Rightarrow> u8"
  swap_bitmap :: u32
  dir_entry :: nat
  page_entry :: int

definition MAP_NR :: "u32 \<Rightarrow> nat" where
  "MAP_NR addr = unat (drop_bit 12 (addr - LOW_MEM))"

definition rd :: "u32 \<Rightarrow> 'a sched_scheme \<Rightarrow> u32" where
  "rd a s = ld32 (kmem s) a"

definition wr :: "u32 \<Rightarrow> u32 \<Rightarrow> 'a sched_scheme \<Rightarrow> 'a sched_scheme" where
  "wr a v s = s\<lparr>kmem := st32 a v (kmem s)\<rparr>"

definition set_map :: "nat \<Rightarrow> u8 \<Rightarrow> 'a mm_scheme \<Rightarrow> 'a mm_scheme" where
  "set_map i v s = s\<lparr>mem_map := (mem_map s)(i := v)\<rparr>"

section \<open>Pages\<close>

definition mem_init :: "u32 \<Rightarrow> u32 \<Rightarrow> 'a mm_scheme \<Rightarrow> 'a mm_scheme" where
  "mem_init start_mem end_mem s =
     (let first = MAP_NR start_mem; n = unat (drop_bit 12 (end_mem - start_mem)) in
      s\<lparr>HIGH_MEMORY := end_mem,
        mem_map := (\<lambda>i. if first \<le> i \<and> i < first + n then 0
                        else if i < PAGING_PAGES then USED else mem_map s i)\<rparr>)"

definition free_page :: "u32 \<Rightarrow> 'a mm_scheme \<Rightarrow> 'a mm_scheme option" where
  "free_page addr s =
     (if addr < LOW_MEM then Some s
      else if addr \<ge> HIGH_MEMORY s then None
      else let i = MAP_NR addr in
        if mem_map s i \<noteq> 0 then Some (set_map i (mem_map s i - 1) s) else None)"

definition copy_page :: "u32 \<Rightarrow> u32 \<Rightarrow> 'a mm_scheme \<Rightarrow> 'a mm_scheme" where
  "copy_page from to s = s\<lparr>kmem := copy_bytes 4096 from to (kmem s)\<rparr>"

section \<open>The swap bitmap\<close>

text \<open>The bit instructions address bit \<open>nr mod 8\<close> of byte \<open>nr div 8\<close> and return its old
  value.\<close>

definition bitmap_bit :: "u32 \<Rightarrow> nat \<Rightarrow> 'a sched_scheme \<Rightarrow> bool" where
  "bitmap_bit addr nr s = bit (kmem s (addr + of_nat (nr div 8))) (nr mod 8)"

definition setbit :: "u32 \<Rightarrow> nat \<Rightarrow> 'a sched_scheme \<Rightarrow> bool \<times> 'a sched_scheme" where
  "setbit addr nr s =
     (let a = addr + of_nat (nr div 8) in
      (bitmap_bit addr nr s, s\<lparr>kmem := (kmem s)(a := set_bit (nr mod 8) (kmem s a))\<rparr>))"

definition clrbit :: "u32 \<Rightarrow> nat \<Rightarrow> 'a sched_scheme \<Rightarrow> bool \<times> 'a sched_scheme" where
  "clrbit addr nr s =
     (let a = addr + of_nat (nr div 8) in
      (bitmap_bit addr nr s, s\<lparr>kmem := (kmem s)(a := unset_bit (nr mod 8) (kmem s a))\<rparr>))"

text \<open>\<^verbatim>\<open>for (nr = 1; nr < 32768; nr++) if (clrbit(swap_bitmap, nr)) return nr; return 0;\<close>\<close>

fun swap_scan_bits :: "u32 \<Rightarrow> nat list \<Rightarrow> 'a sched_scheme \<Rightarrow> nat \<times> 'a sched_scheme" where
  "swap_scan_bits addr [] s = (0, s)"
| "swap_scan_bits addr (nr # nrs) s =
     (let (old, s') = clrbit addr nr s in
      if old then (nr, s') else swap_scan_bits addr nrs s')"

definition get_swap_page :: "'a mm_scheme \<Rightarrow> nat \<times> 'a mm_scheme" where
  "get_swap_page s =
     (if swap_bitmap s = 0 then (0, s) else swap_scan_bits (swap_bitmap s) [1..<32768] s)"

definition swap_free :: "nat \<Rightarrow> 'a mm_scheme \<Rightarrow> 'a mm_scheme" where
  "swap_free swap_nr s =
     (if swap_nr = 0 then s
      else if swap_bitmap s \<noteq> 0 \<and> swap_nr < SWAP_BITS
      then snd (setbit (swap_bitmap s) swap_nr s) else s)"

section \<open>Swapping out\<close>

definition try_to_swap_out ::
  "'a mm_scheme world \<Rightarrow> u32 \<Rightarrow> 'a mm_scheme \<Rightarrow> (bool \<times> 'a mm_scheme) option" where
  "try_to_swap_out w table_ptr s =
     (let page = rd table_ptr s in
      if page AND 1 = 0 then Some (False, s)
      else if page - LOW_MEM > PAGING_MEMORY then Some (False, s)
      else if page AND PAGE_DIRTY \<noteq> 0
      then let page = page AND 0xfffff000 in
        if mem_map s (MAP_NR page) \<noteq> 1 then Some (False, s)
        else let (swap_nr, s) = get_swap_page s in
        if swap_nr = 0 then Some (False, s)
        else do {
          s \<leftarrow> ll_rw_page w WRITE (SWAP_DEV s) (of_nat swap_nr) page
                 (wr table_ptr (push_bit 1 (of_nat swap_nr)) s);
          s \<leftarrow> free_page page s;
          Some (True, s)
        }
      else do {
        s \<leftarrow> free_page page (wr table_ptr 0 s);
        Some (True, s)
      })"

definition next_dir :: "'a mm_scheme \<Rightarrow> 'a mm_scheme" where
  "next_dir s = s\<lparr>dir_entry := (if dir_entry s + 1 \<ge> 1024 then FIRST_VM_PAGE div 1024 else dir_entry s + 1)\<rparr>"

definition pg_dir :: "nat \<Rightarrow> 'a mm_scheme \<Rightarrow> u32" where
  "pg_dir i s = rd (4 * of_nat i) s"

text \<open>The first loop of \<^verbatim>\<open>swap_out\<close>: find a page table.\<close>

function swap_first :: "int \<Rightarrow> 'a mm_scheme \<Rightarrow> int \<times> u32 \<times> 'a mm_scheme" where
  "swap_first counter s =
     (let pg_table = pg_dir (dir_entry s) s in
      if counter \<le> 0 \<or> pg_table AND 1 \<noteq> 0 then (counter, pg_table, s)
      else swap_first (counter - 1024) (next_dir s))"
  by pat_completeness auto
termination by (relation "measure (nat \<circ> fst)") auto

declare swap_first.simps [simp del]

text \<open>From \<^verbatim>\<open>repeat:\<close>: step to the next page table; the first component is false when the loop
  is left with \<^verbatim>\<open>break\<close>.\<close>

function swap_next :: "int \<Rightarrow> 'a mm_scheme \<Rightarrow> bool \<times> int \<times> u32 \<times> 'a mm_scheme" where
  "swap_next counter s0 =
     (let s = next_dir s0; pg_table = pg_dir (dir_entry s) s in
      if pg_table AND 1 = 0
      then if counter - 1024 > 0 then swap_next (counter - 1024) s
           else (False, counter - 1024, pg_table, s)
      else (True, counter, pg_table AND 0xfffff000, s))"
  by pat_completeness auto
termination by (relation "measure (nat \<circ> fst)") auto

declare swap_next.simps [simp del]

partial_function (option) swap_loop ::
  "'a mm_scheme world \<Rightarrow> int \<Rightarrow> u32 \<Rightarrow> 'a mm_scheme \<Rightarrow> (bool \<times> 'a mm_scheme) option" where
  "swap_loop w counter pg_table s =
     (if counter \<le> 0 then Some (False, s)
      else let s = s\<lparr>page_entry := page_entry s + 1\<rparr>;
               (go, counter, pg_table, s) =
                 (if page_entry s \<ge> 1024 then swap_next (counter - 1) (s\<lparr>page_entry := 0\<rparr>)
                  else (True, counter - 1, pg_table, s))
           in if \<not> go then Some (False, s)
              else do {
                (done, s) \<leftarrow> try_to_swap_out w (pg_table + 4 * of_int (page_entry s)) s;
                if done then Some (True, s) else swap_loop w counter pg_table s
              })"

definition swap_out :: "'a mm_scheme world \<Rightarrow> 'a mm_scheme \<Rightarrow> (bool \<times> 'a mm_scheme) option" where
  "swap_out w s =
     (let (counter, pg_table, s) = swap_first VM_PAGES s in
      swap_loop w counter (pg_table AND 0xfffff000) s)"

section \<open>Getting a free page\<close>

text \<open>\<^verbatim>\<open>std; repne; scasb\<close> from the end of \<^verbatim>\<open>mem_map\<close>: the last entry that is 0.\<close>

definition last_free :: "'a mm_scheme \<Rightarrow> nat option" where
  "last_free s = List.find (\<lambda>i. mem_map s i = 0) (rev [0..<PAGING_PAGES])"

definition page_addr :: "nat \<Rightarrow> u32" where
  "page_addr i = push_bit 12 (of_nat i) + LOW_MEM"

definition take_page :: "'a mm_scheme \<Rightarrow> u32 \<times> 'a mm_scheme" where
  "take_page s =
     (case last_free s of
        None \<Rightarrow> (0, s)
      | Some i \<Rightarrow> (page_addr i, (set_map i 1 s)\<lparr>kmem := fill_bytes 4096 0 (page_addr i) (kmem s)\<rparr>))"

partial_function (option) get_free_page ::
  "'a mm_scheme world \<Rightarrow> 'a mm_scheme \<Rightarrow> (u32 \<times> 'a mm_scheme) option" where
  "get_free_page w s =
     (let (res, s) = take_page s in
      if res \<ge> HIGH_MEMORY s then get_free_page w s
      else if res = 0
      then do {
        (done, s) \<leftarrow> swap_out w s;
        if done then get_free_page w s else Some (res, s)
      }
      else Some (res, s))"

definition swap_in :: "'a mm_scheme world \<Rightarrow> u32 \<Rightarrow> 'a mm_scheme \<Rightarrow> 'a mm_scheme option" where
  "swap_in w table_ptr s =
     (if swap_bitmap s = 0 then Some s
      else if rd table_ptr s AND 1 \<noteq> 0 then Some s
      else let swap_nr = unat (drop_bit 1 (rd table_ptr s)) in
      if swap_nr = 0 then Some s
      else do {
        (page, s) \<leftarrow> get_free_page w s;
        if page = 0 then None
        else do {
          s \<leftarrow> ll_rw_page w READ (SWAP_DEV s) (of_nat swap_nr) page s;
          let (old, s) = setbit (swap_bitmap s) swap_nr s;
          Some (wr table_ptr (page OR (PAGE_DIRTY OR 7)) s)
        }
      })"

text \<open>The signature \<^verbatim>\<open>SWAP-SPACE\<close>.\<close>

definition swap_signature :: "u8 list" where
  "swap_signature = [83, 87, 65, 80, 45, 83, 80, 65, 67, 69]"

definition init_swapping :: "'a mm_scheme world \<Rightarrow> 'a mm_scheme \<Rightarrow> 'a mm_scheme option" where
  "init_swapping w s =
     (if SWAP_DEV s = 0 then Some s
      else case blk_size s (MAJOR (SWAP_DEV s)) of
        None \<Rightarrow> Some s
      | Some sizes \<Rightarrow>
        let swap_size = sizes (MINOR (SWAP_DEV s)) in
        if swap_size = 0 \<or> swap_size < 100 then Some s
        else let n = min (nat swap_size div 4) SWAP_BITS in
        do {
          (bm, s) \<leftarrow> get_free_page w s;
          let s = s\<lparr>swap_bitmap := bm\<rparr>;
          if bm = 0 then Some s
          else do {
            s \<leftarrow> ll_rw_page w READ (SWAP_DEV s) 0 bm s;
            if map (\<lambda>i. kmem s (bm + 4086 + of_nat i)) [0..<10] \<noteq> swap_signature
            then do { s \<leftarrow> free_page bm s; Some (s\<lparr>swap_bitmap := 0\<rparr>) }
            else let s = s\<lparr>kmem := fill_bytes 10 0 (bm + 4086) (kmem s)\<rparr> in
              if bitmap_bit bm 0 s \<or> bitmap_bit bm n s \<or> (\<exists>i \<in> set [n + 1..<SWAP_BITS]. bitmap_bit bm i s)
              then do { s \<leftarrow> free_page bm s; Some (s\<lparr>swap_bitmap := 0\<rparr>) }
              else if \<not> (\<exists>i \<in> set [1..<n]. bitmap_bit bm i s)
              then do { s \<leftarrow> free_page bm s; Some (s\<lparr>swap_bitmap := 0\<rparr>) }
              else Some s
          }
        })"

lemmas [kdefs] = MAP_NR_def rd_def wr_def set_map_def mem_init_def free_page_def copy_page_def
  bitmap_bit_def setbit_def clrbit_def get_swap_page_def swap_free_def try_to_swap_out_def
  next_dir_def pg_dir_def swap_out_def last_free_def page_addr_def take_page_def swap_in_def

section \<open>Pages\<close>

lemma unat_page_addr: "i < PAGING_PAGES \<Longrightarrow> unat (page_addr i) = 0x300000 + 4096 * i"
proof -
  assume i: "i < PAGING_PAGES"
  have "unat (of_nat i :: u32) = i" using i by (simp add: unat_of_nat)
  moreover have "push_bit 12 (of_nat i) = (of_nat i * 4096 :: u32)" by (simp add: push_bit_eq_mult)
  ultimately show ?thesis using i by (simp add: page_addr_def unat_word_ariths)
qed

lemma MAP_NR_page_addr [simp]: "i < PAGING_PAGES \<Longrightarrow> MAP_NR (page_addr i) = i"
proof -
  assume i: "i < PAGING_PAGES"
  have "page_addr i - LOW_MEM = push_bit 12 (of_nat i)" by (simp add: page_addr_def)
  moreover have "unat (push_bit 12 (of_nat i) :: u32) = 4096 * i"
    using i by (simp add: push_bit_eq_mult unat_word_ariths unat_of_nat)
  ultimately show ?thesis using i unfolding MAP_NR_def by (simp only: unat_drop_bit_eq) (simp add: drop_bit_eq_div)
qed

lemma page_addr_low [simp]: "i < PAGING_PAGES \<Longrightarrow> LOW_MEM \<le> page_addr i"
  by (simp add: word_le_nat_alt unat_page_addr)

lemma page_addr_not_low [simp]: "i < PAGING_PAGES \<Longrightarrow> \<not> page_addr i < LOW_MEM"
  using page_addr_low [of i] by (simp add: not_less)

lemma page_addr_nonzero [simp]: "i < PAGING_PAGES \<Longrightarrow> page_addr i \<noteq> 0"
  using unat_page_addr [of i] by auto

text \<open>Distances between the bytes of two pages.\<close>

lemma page_offset:
  assumes "i < PAGING_PAGES" "k < 4096"
  shows "unat (page_addr i + of_nat k - page_addr i) = k"
  using assms by (simp add: unat_of_nat)

lemma page_disjoint:
  assumes "i < PAGING_PAGES" "j < PAGING_PAGES" "i \<noteq> j" "k < 4096"
  shows "4096 \<le> unat (page_addr j + of_nat k - page_addr i)"
proof -
  have k: "unat (of_nat k :: u32) = k" using assms by (simp add: unat_of_nat)
  have jk: "unat (page_addr j + of_nat k) = 0x300000 + 4096 * j + k"
    using assms k by (simp add: unat_word_ariths unat_page_addr)
  show ?thesis
  proof (cases "i < j")
    case True
    then have "page_addr i \<le> page_addr j + of_nat k"
      using assms jk by (simp add: word_le_nat_alt unat_page_addr)
    then have "unat (page_addr j + of_nat k - page_addr i) = 4096 * j + k - 4096 * i"
      using assms jk by (simp add: unat_sub unat_page_addr)
    with True show ?thesis by simp
  next
    case False
    with assms have "j < i" by simp
    have "unat (page_addr j + of_nat k - page_addr i)
        = (0x300000 + 4096 * j + k + (2 ^ 32 - (0x300000 + 4096 * i))) mod 2 ^ 32"
      using assms jk \<open>j < i\<close> by (simp add: unat_sub_if' unat_page_addr word_le_nat_alt)
    with \<open>j < i\<close> assms show ?thesis by simp
  qed
qed

lemma last_freeD:
  assumes "last_free s = Some i"
  shows "i < PAGING_PAGES" "mem_map s i = 0" "\<And>j. i < j \<Longrightarrow> j < PAGING_PAGES \<Longrightarrow> mem_map s j \<noteq> 0"
proof -
  from assms obtain n where n: "n < PAGING_PAGES" "rev [0..<PAGING_PAGES] ! n = i"
    "mem_map s i = 0" "\<forall>m < n. mem_map s (rev [0..<PAGING_PAGES] ! m) \<noteq> 0"
    unfolding last_free_def find_Some_iff by auto
  from n(1,2) have i: "i = PAGING_PAGES - Suc n" by (simp add: rev_nth)
  with n show "i < PAGING_PAGES" "mem_map s i = 0" by auto
  fix j assume "i < j" "j < PAGING_PAGES"
  with i have "PAGING_PAGES - Suc j < n" by simp
  with n(4) have "mem_map s (rev [0..<PAGING_PAGES] ! (PAGING_PAGES - Suc j)) \<noteq> 0" by blast
  with \<open>j < PAGING_PAGES\<close> show "mem_map s j \<noteq> 0" by (simp add: rev_nth)
qed

lemma get_free_page_takes:
  assumes "last_free s = Some i" and "page_addr i < HIGH_MEMORY s"
  shows "get_free_page w s = Some (page_addr i,
    (set_map i 1 s)\<lparr>kmem := fill_bytes 4096 0 (page_addr i) (kmem s)\<rparr>)"
  using assms last_freeD(1) [OF assms(1)]
  by (subst get_free_page.simps) (auto simp: take_page_def set_map_def Let_def)

text \<open>
  \<^verbatim>\<open>mem_init\<close> makes exactly the pages of the main memory free: the others are marked
  \<^verbatim>\<open>USED\<close>.
\<close>

theorem mem_init_free:
  assumes "a \<le> PAGING_PAGES" "b \<le> PAGING_PAGES" "a \<le> b" "i < PAGING_PAGES"
  shows "mem_map (mem_init (page_addr a) (page_addr b) s) i
     = (if a \<le> i \<and> i < b then 0 else USED)"
proof -
  have u: "unat (page_addr c) = 0x300000 + 4096 * c" if "c \<le> PAGING_PAGES" for c
  proof -
    have "unat (of_nat c :: u32) = c" using that by (simp add: unat_of_nat)
    moreover have "push_bit 12 (of_nat c) = (of_nat c * 4096 :: u32)" by (simp add: push_bit_eq_mult)
    ultimately show ?thesis using that by (simp add: page_addr_def unat_word_ariths)
  qed
  have m: "MAP_NR (page_addr a) = a"
    using u [of a] assms(1)
    unfolding MAP_NR_def by (simp only: unat_drop_bit_eq) (simp add: drop_bit_eq_div unat_sub word_le_nat_alt)
  have "unat (page_addr b - page_addr a) = 4096 * (b - a)"
    using u [of a] u [of b] assms by (simp add: unat_sub word_le_nat_alt diff_mult_distrib2)
  then have n: "unat (drop_bit 12 (page_addr b - page_addr a)) = b - a"
    by (simp only: unat_drop_bit_eq) (simp add: drop_bit_eq_div)
  show ?thesis using assms unfolding mem_init_def Let_def m n by auto
qed

text \<open>
  While a page is free, \<^verbatim>\<open>get_free_page\<close> returns the highest one at once, zeroed, with a
  reference count of one, and changes nothing else.
\<close>

theorem get_free_page_returns:
  assumes "last_free s = Some i" and "page_addr i < HIGH_MEMORY s"
  shows "\<exists>s'. get_free_page w s = Some (page_addr i, s')
     \<and> mem_map s i = 0 \<and> mem_map s' = (mem_map s)(i := 1)
     \<and> (\<forall>x. kmem s' x = (if unat (x - page_addr i) < 4096 then 0 else kmem s x))
     \<and> (\<forall>j > i. j < PAGING_PAGES \<longrightarrow> mem_map s j \<noteq> 0)"
  using get_free_page_takes [OF assms, of w] last_freeD [OF assms(1)]
  by (auto simp: set_map_def fill_bytes_apply)

text \<open>
  Freeing the page that was just got restores the page map; freeing it once more panics;
  addresses below the paged memory are ignored.
\<close>

theorem free_page_undoes_get:
  assumes "last_free s = Some i" and "page_addr i < HIGH_MEMORY s"
  shows "\<exists>s1 s2. get_free_page w s = Some (page_addr i, s1) \<and> free_page (page_addr i) s1 = Some s2
     \<and> mem_map s2 = mem_map s \<and> free_page (page_addr i) s2 = None
     \<and> free_page (page_addr i AND 0xFFF) s2 = Some s2"
proof -
  have "(x AND 0xFFF) < (LOW_MEM :: u32)" for x :: u32
    using word_and_le1 [of x "0xFFF"] by (simp add: word_le_nat_alt word_less_nat_alt)
  with assms get_free_page_takes [OF assms, of w] last_freeD [OF assms(1)] show ?thesis
    by (auto simp: free_page_def set_map_def Let_def not_le)
qed

section \<open>The swap bitmap\<close>

lemma setbit_same: "bitmap_bit addr nr (snd (setbit addr nr s))"
  by (simp add: setbit_def bitmap_bit_def Let_def bit_set_bit_iff)

lemma swap_slot_neq:
  assumes "nr < 2 ^ 32" "nr' < 2 ^ 32" "nr div 8 \<noteq> nr' div 8"
  shows "addr + of_nat (nr div 8) \<noteq> (addr :: u32) + of_nat (nr' div 8)"
proof
  assume "addr + of_nat (nr div 8) = addr + of_nat (nr' div 8)"
  then have "unat (of_nat (nr div 8) :: u32) = unat (of_nat (nr' div 8) :: u32)" by simp
  with assms show False by (simp add: unat_of_nat)
qed

lemma div_mod_8_neq: "nr \<noteq> nr' \<Longrightarrow> nr div 8 = nr' div 8 \<Longrightarrow> nr mod 8 \<noteq> nr' mod (8 :: nat)"
  by (metis div_mod_decomp)

lemma bitmap_bit_clrbit:
  assumes "nr < 2 ^ 32" "nr' < 2 ^ 32"
  shows "bitmap_bit addr nr' (snd (clrbit addr nr s)) \<longleftrightarrow> nr' \<noteq> nr \<and> bitmap_bit addr nr' s"
  using assms swap_slot_neq [of nr nr' addr] div_mod_8_neq [of nr nr']
  by (cases "nr div 8 = nr' div 8") (auto simp: clrbit_def bitmap_bit_def Let_def bit_unset_bit_iff)

lemma bitmap_bit_setbit:
  assumes "nr < 2 ^ 32" "nr' < 2 ^ 32"
  shows "bitmap_bit addr nr' (snd (setbit addr nr s)) \<longleftrightarrow> nr' = nr \<or> bitmap_bit addr nr' s"
  using assms swap_slot_neq [of nr nr' addr] div_mod_8_neq [of nr nr']
  by (cases "nr div 8 = nr' div 8") (auto simp: setbit_def bitmap_bit_def Let_def bit_set_bit_iff)

lemma swap_scan_bits_spec:
  assumes "swap_scan_bits addr nrs s = (nr, s')" and "\<forall>n \<in> set nrs. n \<noteq> 0 \<and> n < 2 ^ 32"
  shows "(nr \<noteq> 0 \<longrightarrow> nr \<in> set nrs \<and> bitmap_bit addr nr s)
     \<and> (\<forall>k < 2 ^ 32. bitmap_bit addr k s' \<longleftrightarrow> bitmap_bit addr k s \<and> (nr \<noteq> 0 \<longrightarrow> k \<noteq> nr))"
  using assms
proof (induction nrs arbitrary: s)
  case (Cons n nrs)
  let ?s = "snd (clrbit addr n s)"
  have old: "fst (clrbit addr n s) = bitmap_bit addr n s" by (simp add: clrbit_def Let_def)
  have n: "n \<noteq> 0" "n < 2 ^ 32" using Cons.prems(2) by auto
  show ?case
  proof (cases "bitmap_bit addr n s")
    case True
    with Cons.prems(1) old have "nr = n" "s' = ?s" by (auto simp: case_prod_beta)
    with n True bitmap_bit_clrbit [of n _ addr s] show ?thesis by auto
  next
    case False
    with Cons.prems(1) old have "swap_scan_bits addr nrs ?s = (nr, s')" by (auto simp: case_prod_beta)
    moreover have "bitmap_bit addr m ?s = bitmap_bit addr m s" if "m < 2 ^ 32" for m
      using bitmap_bit_clrbit [of n m addr s] that n False by auto
    ultimately show ?thesis using Cons.IH [of ?s] Cons.prems(2) by auto
  qed
qed simp

lemma swap_scan_bits_bitmap:
  "swap_scan_bits a nrs s = (n, s') \<Longrightarrow> swap_bitmap s' = swap_bitmap (s :: 'a mm_scheme)"
  by (induction nrs arbitrary: s) (auto simp: clrbit_def Let_def split: if_splits)

text \<open>
  A swap page is given out only while its bit is set, its bit is cleared and no other bit
  changes, so no page is given out twice; and giving it back with \<^verbatim>\<open>swap_free\<close> restores the
  bitmap.
\<close>

theorem swap_page_round_trip:
  assumes "get_swap_page s = (nr, s1)" and "nr \<noteq> 0" and "k < SWAP_BITS"
  shows "bitmap_bit (swap_bitmap s) nr s \<and> nr < SWAP_BITS
     \<and> (bitmap_bit (swap_bitmap s) k s1 \<longleftrightarrow> bitmap_bit (swap_bitmap s) k s \<and> k \<noteq> nr)
     \<and> (bitmap_bit (swap_bitmap s) k (swap_free nr s1) \<longleftrightarrow> bitmap_bit (swap_bitmap s) k s)"
proof -
  let ?a = "swap_bitmap s"
  from assms have bm: "?a \<noteq> 0" and scan: "swap_scan_bits ?a [1..<32768] s = (nr, s1)"
    by (auto simp: get_swap_page_def split: if_splits)
  have "\<forall>n \<in> set [1..<32768]. n \<noteq> 0 \<and> n < (2 ^ 32 :: nat)" by auto
  from swap_scan_bits_spec [OF scan this] assms(2)
  have spec: "bitmap_bit ?a nr s" "nr < 32768"
    "\<And>m. m < 2 ^ 32 \<Longrightarrow> bitmap_bit ?a m s1 \<longleftrightarrow> bitmap_bit ?a m s \<and> m \<noteq> nr"
    by auto
  from bm spec(2) assms(2) swap_scan_bits_bitmap [OF scan]
  have free: "swap_free nr s1 = snd (setbit ?a nr s1)" by (simp add: swap_free_def)
  show ?thesis
    unfolding free using bitmap_bit_setbit [of nr k ?a s1] spec assms(3) by auto
qed

end
