(* ===== verification/Memory.thy ===== *)
theory Memory
  imports Swap
begin

text \<open>
  \<^verbatim>\<open>mm/memory.c\<close>: page tables, copy on write, and sharing; and \<^verbatim>\<open>verify_area\<close> of
  \<^verbatim>\<open>kernel/fork.c\<close>, which makes user memory writable for the kernel. The page directory
  and the page tables are words of \<open>kmem\<close>. \<^verbatim>\<open>invalidate\<close> only reloads \<^verbatim>\<open>cr3\<close>.
\<close>

abbreviation (input) FRAME :: u32 where "FRAME \<equiv> 0xfffff000"
abbreviation (input) TASK_SIZE :: u32 where "TASK_SIZE \<equiv> 0x04000000"
abbreviation (input) LIBRARY_OFFSET :: u32 where "LIBRARY_OFFSET \<equiv> 0x03c00000"

section \<open>Freeing page tables\<close>

text \<open>The inner loop of \<^verbatim>\<open>free_page_tables\<close>, over \<open>n\<close> entries from \<open>pte\<close> on.\<close>

fun free_ptes :: "nat \<Rightarrow> u32 \<Rightarrow> 'a mm_scheme \<Rightarrow> 'a mm_scheme option" where
  "free_ptes 0 pte s = Some s"
| "free_ptes (Suc n) pte s = do {
     let e = rd pte s;
     s \<leftarrow> (if e \<noteq> 0
           then do {
             s \<leftarrow> (if e AND 1 \<noteq> 0 then free_page (FRAME AND e) s
                   else Some (swap_free (unat (drop_bit 1 e)) s));
             Some (wr pte 0 s)
           }
           else Some s);
     free_ptes n (pte + 4) s
   }"

fun free_dirs :: "nat \<Rightarrow> u32 \<Rightarrow> 'a mm_scheme \<Rightarrow> 'a mm_scheme option" where
  "free_dirs 0 dir s = Some s"
| "free_dirs (Suc n) dir s = do {
     let d = rd dir s;
     s \<leftarrow> (if d AND 1 = 0 then Some s
           else do {
             s \<leftarrow> free_ptes 1024 (FRAME AND d) s;
             s \<leftarrow> free_page (FRAME AND rd dir s) s;
             Some (wr dir 0 s)
           });
     free_dirs n (dir + 4) s
   }"

definition free_page_tables :: "u32 \<Rightarrow> u32 \<Rightarrow> 'a mm_scheme \<Rightarrow> (int \<times> 'a mm_scheme) option" where
  "free_page_tables from sz s =
     (if from AND 0x3fffff \<noteq> 0 then None
      else if from = 0 then None
      else do {
        s \<leftarrow> free_dirs (unat (drop_bit 22 (sz + 0x3fffff))) (drop_bit 20 from AND 0xffc) s;
        Some (0, s)
      })"

section \<open>Copying page tables\<close>

text \<open>One step of the inner loop of \<^verbatim>\<open>copy_page_tables\<close>; the result is false when no page is
  left.\<close>

definition copy_pte ::
  "'a mm_scheme world \<Rightarrow> u32 \<Rightarrow> u32 \<Rightarrow> 'a mm_scheme \<Rightarrow> (bool \<times> 'a mm_scheme) option" where
  "copy_pte w from_pte to_pte s =
     (let this_page = rd from_pte s in
      if this_page = 0 then Some (True, s)
      else if this_page AND 1 = 0
      then do {
        (new_page, s) \<leftarrow> get_free_page w s;
        if new_page = 0 then Some (False, s)
        else do {
          s \<leftarrow> ll_rw_page w READ (SWAP_DEV s) (drop_bit 1 this_page) new_page s;
          Some (True, wr from_pte (new_page OR (PAGE_DIRTY OR 7)) (wr to_pte this_page s))
        }
      }
      else let p = this_page AND NOT 2;
               s = wr to_pte p s
        in if p > LOW_MEM
           then let s = wr from_pte p s; i = MAP_NR p
                in Some (True, set_map i (mem_map s i + 1) s)
           else Some (True, s))"

fun copy_ptes ::
  "'a mm_scheme world \<Rightarrow> nat \<Rightarrow> u32 \<Rightarrow> u32 \<Rightarrow> 'a mm_scheme \<Rightarrow> (bool \<times> 'a mm_scheme) option" where
  "copy_ptes w 0 from_pte to_pte s = Some (True, s)"
| "copy_ptes w (Suc n) from_pte to_pte s = do {
     (ok, s) \<leftarrow> copy_pte w from_pte to_pte s;
     if ok then copy_ptes w n (from_pte + 4) (to_pte + 4) s else Some (False, s)
   }"

fun copy_dirs ::
  "'a mm_scheme world \<Rightarrow> nat \<Rightarrow> nat \<Rightarrow> u32 \<Rightarrow> u32 \<Rightarrow> 'a mm_scheme \<Rightarrow> (bool \<times> 'a mm_scheme) option" where
  "copy_dirs w 0 tmp from_dir to_dir s = Some (True, s)"
| "copy_dirs w (Suc sz) tmp from_dir to_dir s =
     (if rd to_dir s AND 1 \<noteq> 0 then None
      else if rd from_dir s AND 1 = 0 then copy_dirs w sz tmp (from_dir + 4) (to_dir + 4) s
      else do {
        let from_page_table = FRAME AND rd from_dir s;
        (to_page_table, s) \<leftarrow> get_free_page w s;
        if to_page_table = 0 then Some (False, s)
        else do {
          let s = wr to_dir (to_page_table OR 7) s;
          (ok, s) \<leftarrow> copy_ptes w (if sz = 0 then tmp else 1024) from_page_table to_page_table s;
          if ok then copy_dirs w sz tmp (from_dir + 4) (to_dir + 4) s else Some (False, s)
        }
      })"

text \<open>\<^verbatim>\<open>size\<close> is an \<^verbatim>\<open>int\<close>; \<^verbatim>\<open>tmp\<close> is the number of pages of the last page table.\<close>

definition last_table_pages :: "u32 \<Rightarrow> nat" where
  "last_table_pages sz =
     (let tmp = signed_drop_bit 12 (sz + 0x1000 - 1) AND (0x1000 - 1) in
      if tmp = 0 \<and> sz \<noteq> 0 then 1024 else unat tmp)"

definition copy_page_tables ::
  "'a mm_scheme world \<Rightarrow> u32 \<Rightarrow> u32 \<Rightarrow> u32 \<Rightarrow> 'a mm_scheme \<Rightarrow> (int \<times> 'a mm_scheme) option" where
  "copy_page_tables w from to sz s =
     (if from AND 0x3fffff \<noteq> 0 \<or> to AND 0x3fffff \<noteq> 0 then None
      else do {
        (ok, s) \<leftarrow> copy_dirs w (unat (drop_bit 22 (sz + 0x3fffff))) (last_table_pages sz)
                  (drop_bit 20 from AND 0xffc) (drop_bit 20 to AND 0xffc) s;
        Some (if ok then 0 else - 1, s)
      })"

section \<open>Mapping pages\<close>

text \<open>The common part of \<^verbatim>\<open>put_page\<close> and \<^verbatim>\<open>put_dirty_page\<close>; the checks before it only
  print.\<close>

definition put_page_flags ::
  "'a mm_scheme world \<Rightarrow> u32 \<Rightarrow> u32 \<Rightarrow> u32 \<Rightarrow> 'a mm_scheme \<Rightarrow> (u32 \<times> 'a mm_scheme) option" where
  "put_page_flags w flags page address s = do {
     let dir = drop_bit 20 address AND 0xffc;
     (table, s) \<leftarrow>
       (if rd dir s AND 1 \<noteq> 0 then Some (Some (FRAME AND rd dir s), s)
        else do {
          (tmp, s) \<leftarrow> get_free_page w s;
          Some (if tmp = 0 then (None, s) else (Some tmp, wr dir (tmp OR 7) s))
        });
     case table of
       None \<Rightarrow> Some (0, s)
     | Some t \<Rightarrow> Some (page, wr (t + 4 * (drop_bit 12 address AND 0x3ff)) (page OR flags) s)
   }"

definition put_page ::
  "'a mm_scheme world \<Rightarrow> u32 \<Rightarrow> u32 \<Rightarrow> 'a mm_scheme \<Rightarrow> (u32 \<times> 'a mm_scheme) option" where
  "put_page w = put_page_flags w 7"

definition put_dirty_page ::
  "'a mm_scheme world \<Rightarrow> u32 \<Rightarrow> u32 \<Rightarrow> 'a mm_scheme \<Rightarrow> (u32 \<times> 'a mm_scheme) option" where
  "put_dirty_page w = put_page_flags w (PAGE_DIRTY OR 7)"

definition get_empty_page :: "'a mm_scheme world \<Rightarrow> u32 \<Rightarrow> 'a mm_scheme \<Rightarrow> 'a mm_scheme option" where
  "get_empty_page w address s = do {
     (tmp, s) \<leftarrow> get_free_page w s;
     if tmp = 0 then None
     else do {
       (r, s) \<leftarrow> put_page w tmp address s;
       if r = 0 then None else Some s
     }
   }"

section \<open>Copy on write\<close>

definition un_wp_page :: "'a mm_scheme world \<Rightarrow> u32 \<Rightarrow> 'a mm_scheme \<Rightarrow> 'a mm_scheme option" where
  "un_wp_page w table_entry s =
     (let old_page = FRAME AND rd table_entry s in
      if old_page \<ge> LOW_MEM \<and> mem_map s (MAP_NR old_page) = 1
      then Some (wr table_entry (rd table_entry s OR 2) s)
      else do {
        (new_page, s) \<leftarrow> get_free_page w s;
        if new_page = 0 then None
        else let s = (if old_page \<ge> LOW_MEM
                      then set_map (MAP_NR old_page) (mem_map s (MAP_NR old_page) - 1) s else s)
             in Some (wr table_entry (new_page OR 7) (copy_page old_page new_page s))
      })"

definition pte_addr :: "u32 \<Rightarrow> 'a mm_scheme \<Rightarrow> u32" where
  "pte_addr address s =
     (drop_bit 10 address AND 0xffc) + (FRAME AND rd (drop_bit 20 address AND 0xffc) s)"

definition write_verify :: "'a mm_scheme world \<Rightarrow> u32 \<Rightarrow> 'a mm_scheme \<Rightarrow> 'a mm_scheme option" where
  "write_verify w address s =
     (if rd (drop_bit 20 address AND 0xffc) s AND 1 = 0 then Some s
      else let page = pte_addr address s in
        if rd page s AND 3 = 1 then un_wp_page w page s else Some s)"

text \<open>\<^verbatim>\<open>verify_area\<close>: the loop runs while \<^verbatim>\<open>size > 0\<close>, a page at a time.\<close>

function verify_pages :: "'a mm_scheme world \<Rightarrow> u32 \<Rightarrow> int \<Rightarrow> 'a mm_scheme \<Rightarrow> 'a mm_scheme option" where
  "verify_pages w start sz s =
     (if sz > 0
      then do { s \<leftarrow> write_verify w start s; verify_pages w (start + 4096) (sz - 4096) s }
      else Some s)"
  by pat_completeness auto
termination by (relation "measure (\<lambda>(w, start, sz, s). nat sz)") auto

declare verify_pages.simps [simp del]

definition verify_area :: "'a mm_scheme world \<Rightarrow> u32 \<Rightarrow> int \<Rightarrow> 'a mm_scheme \<Rightarrow> 'a mm_scheme option" where
  "verify_area w addr sz s =
     verify_pages w ((addr AND 0xfffff000) + get_base (t_ldt (cur s) 2))
       (sz + uint (addr AND 0xfff)) s"

section \<open>Sharing\<close>

definition try_to_share ::
  "'a mm_scheme world \<Rightarrow> u32 \<Rightarrow> task_ptr \<Rightarrow> 'a mm_scheme \<Rightarrow> (bool \<times> 'a mm_scheme) option" where
  "try_to_share w address p s =
     (let dir = drop_bit 20 address AND 0xffc;
          from_dir = dir + (drop_bit 20 (t_start_code (tstruct s p)) AND 0xffc);
          to_dir = dir + (drop_bit 20 (t_start_code (cur s)) AND 0xffc)
      in if rd from_dir s AND 1 = 0 then Some (False, s)
      else let from_page = (rd from_dir s AND FRAME) + (drop_bit 10 address AND 0xffc) in
      if rd from_page s AND 0x41 \<noteq> 0x01 then Some (False, s)
      else let phys_addr = rd from_page s AND FRAME in
      if phys_addr \<ge> HIGH_MEMORY s \<or> phys_addr < LOW_MEM then Some (False, s)
      else do {
        (to, s) \<leftarrow>
          (if rd to_dir s AND 1 = 0
           then do {
             (to, s) \<leftarrow> get_free_page w s;
             if to = 0 then None else Some (to, wr to_dir (to OR 7) s)
           }
           else Some (rd to_dir s, s));
        let to_page = (to AND FRAME) + (drop_bit 10 address AND 0xffc);
        if rd to_page s AND 1 \<noteq> 0 then None
        else let s = wr from_page (rd from_page s AND NOT 2) s;
                 s = wr to_page (rd from_page s) s;
                 i = MAP_NR phys_addr
             in Some (True, set_map i (mem_map s i + 1) s)
      })"

lemmas [kdefs] = free_page_tables_def copy_pte_def last_table_pages_def copy_page_tables_def
  put_page_flags_def put_page_def put_dirty_page_def get_empty_page_def un_wp_page_def
  pte_addr_def write_verify_def verify_area_def try_to_share_def

section \<open>Lemmas\<close>

lemma rd_wr_same [simp]: "rd a (wr a v s) = v"
  by (simp add: rd_def wr_def)

lemma rd_wr_other: "aligned4 a \<Longrightarrow> aligned4 b \<Longrightarrow> a \<noteq> b \<Longrightarrow> rd b (wr a v s) = rd b s"
  by (simp add: rd_def wr_def ld32_st32_other)

lemma wr_simps [simp]:
  "mem_map (wr a v s) = mem_map s" "HIGH_MEMORY (wr a v s) = HIGH_MEMORY s"
  "swap_bitmap (wr a v s) = swap_bitmap s"
  by (simp_all add: wr_def)

lemma set_map_simps [simp]:
  "mem_map (set_map i v s) = (mem_map s)(i := v)" "kmem (set_map i v s) = kmem s"
  "HIGH_MEMORY (set_map i v s) = HIGH_MEMORY s" "rd a (set_map i v s) = rd a s"
  "swap_bitmap (set_map i v s) = swap_bitmap s"
  by (simp_all add: set_map_def rd_def)

lemma st32_outside:
  assumes "4 \<le> unat (x - a)"
  shows "st32 a v m x = m x"
proof -
  have "x \<noteq> a + of_nat k" if "k < 4" for k
  proof
    assume "x = a + of_nat k"
    then have "unat (x - a) = unat (of_nat k :: u32)" by simp
    with that assms show False by (simp add: unat_of_nat)
  qed
  from this [of 0] this [of 1] this [of 2] this [of 3] show ?thesis by (simp add: st32_def)
qed

text \<open>The frame and the low bits of an entry made of a page address and flags.\<close>

lemma frame_page:
  assumes "i < PAGING_PAGES" and "f AND FRAME = 0"
  shows "FRAME AND (page_addr i OR f) = page_addr i"
proof -
  have F: "FRAME = push_bit 12 (mask 20)" by (simp add: mask_eq_exp_minus_1 push_bit_eq_mult)
  have p: "page_addr i = push_bit 12 (of_nat i + 0x300)"
    by (simp add: page_addr_def push_bit_eq_mult algebra_simps)
  have f: "\<not> bit f n" if "12 \<le> n" for n
  proof
    assume "bit f n"
    moreover then have "n < 32" by (auto dest: bit_imp_le_length)
    ultimately have "bit (f AND FRAME) n" using that unfolding F by (auto simp: bit_simps)
    with assms(2) show False by simp
  qed
  show ?thesis
    unfolding p F by (rule bit_word_eqI) (auto simp: bit_simps f)
qed

lemma page_low_bits:
  assumes "i < PAGING_PAGES" and "m AND FRAME = 0"
  shows "page_addr i AND m = 0"
proof -
  have F: "FRAME = push_bit 12 (mask 20)" by (simp add: mask_eq_exp_minus_1 push_bit_eq_mult)
  have p: "page_addr i = push_bit 12 (of_nat i + 0x300)"
    by (simp add: page_addr_def push_bit_eq_mult algebra_simps)
  have m: "\<not> bit m n" if "12 \<le> n" for n
  proof
    assume "bit m n"
    moreover then have "n < 32" by (auto dest: bit_imp_le_length)
    ultimately have "bit (m AND FRAME) n" using that unfolding F by (auto simp: bit_simps)
    with assms(2) show False by simp
  qed
  show ?thesis unfolding p by (rule bit_word_eqI) (auto simp: bit_simps m)
qed

text \<open>
  C15. Copy on write: writing to a page that is shared gives the writer a page of its own with
  the same content, present and writable, takes one reference off the shared page, and leaves
  every byte outside the new page and the page-table entry as it was.
\<close>

theorem un_wp_page_copies:
  assumes "FRAME AND rd te s = page_addr k" and "k < PAGING_PAGES" and "mem_map s k \<noteq> 1"
    and "last_free s = Some i" and "page_addr i < HIGH_MEMORY s" and "k \<noteq> i"
    and te: "\<And>j. j < 4096 \<Longrightarrow> 4 \<le> unat (page_addr i + of_nat j - te)"
  shows "\<exists>s'. un_wp_page w te s = Some s' \<and> rd te s' = page_addr i OR 7
     \<and> mem_map s' = (mem_map s)(i := 1, k := mem_map s k - 1)
     \<and> (\<forall>j < 4096. kmem s' (page_addr i + of_nat j) = kmem s (page_addr k + of_nat j))
     \<and> (\<forall>x. 4096 \<le> unat (x - page_addr i) \<longrightarrow> 4 \<le> unat (x - te) \<longrightarrow> kmem s' x = kmem s x)"
proof -
  let ?p = "page_addr i" and ?o = "page_addr k"
  have i: "i < PAGING_PAGES" using last_freeD(1) [OF assms(4)] .
  define m1 where "m1 = fill_bytes 4096 0 ?p (kmem s)"
  define m2 where "m2 = copy_bytes 4096 ?o ?p m1"
  let ?s' = "wr te (?p OR 7) (set_map k (mem_map s k - 1) (set_map i 1 s)\<lparr>kmem := m2\<rparr>)"
  have run: "un_wp_page w te s = Some ?s'"
    using assms get_free_page_takes [OF assms(4,5), of w] i
    by (simp add: un_wp_page_def Let_def copy_page_def m1_def m2_def set_map_def wr_def)
  have far: "\<not> unat (?o + of_nat j - ?p) < 4096" if "j < 4096" for j
    using page_disjoint [OF i assms(2) _ that] assms(6) by simp
  have m1: "m1 x = (if unat (x - ?p) < 4096 then 0 else kmem s x)" for x
    by (simp add: m1_def fill_bytes_apply)
  have m2: "m2 x = (if unat (x - ?p) < 4096 then m1 (?o + (x - ?p)) else m1 x)" for x
    unfolding m2_def by (rule copy_bytes_apply) (use far in auto)
  have km: "kmem ?s' = st32 te (?p OR 7) m2" by (simp add: wr_def)
  have "kmem ?s' (?p + of_nat j) = kmem s (?o + of_nat j)" if "j < 4096" for j
    using that te [OF that] far [OF that] page_offset [OF i that] unfolding km
    by (simp add: st32_outside m1 m2)
  moreover have "kmem ?s' x = kmem s x" if "4096 \<le> unat (x - ?p)" "4 \<le> unat (x - te)" for x
    using that unfolding km by (simp add: st32_outside m1 m2)
  moreover have "mem_map ?s' = (mem_map s)(i := 1, k := mem_map s k - 1)"
    by simp
  ultimately show ?thesis using run by (intro exI [of _ ?s'] conjI) (simp | blast)+
qed

text \<open>
  A page with a single reference is not copied: it only becomes writable, and no page is
  taken.
\<close>

theorem un_wp_page_sole_owner:
  assumes "FRAME AND rd te s = page_addr k" and "k < PAGING_PAGES" and "mem_map s k = 1"
  shows "\<exists>s'. un_wp_page w te s = Some s' \<and> rd te s' = rd te s OR 2 \<and> mem_map s' = mem_map s"
  using assms by (simp add: un_wp_page_def Let_def)

section \<open>Page tables shared by fork\<close>

text \<open>A present entry for page \<open>p\<close> of the paged memory.\<close>

definition user_pte :: "u32 \<Rightarrow> nat \<Rightarrow> bool" where
  "user_pte e p \<longleftrightarrow> p < PAGING_PAGES \<and> FRAME AND e = page_addr p \<and> e AND 1 \<noteq> 0"

lemma user_pte_sum:
  assumes "user_pte e p"
  shows "unat e = unat (page_addr p) + unat (take_bit 12 e)" "unat (take_bit 12 e) < 4096"
proof -
  have F: "FRAME = NOT (0xFFF :: u32)" by simp
  have "e AND NOT 0xFFF = page_addr p"
    using assms unfolding user_pte_def F by (simp only: and.commute)
  then have e: "e = page_addr p + take_bit 12 e" unfolding and_not_fff by (simp add: algebra_simps)
  show lt: "unat (take_bit 12 e) < 4096"
    by (simp only: unsigned_take_bit_eq) (simp add: take_bit_eq_mod)
  have "p < PAGING_PAGES" using assms by (simp add: user_pte_def)
  then have "unat (page_addr p) + unat (take_bit 12 e) < 2 ^ 32"
    using lt by (simp add: unat_page_addr)
  with e show "unat e = unat (page_addr p) + unat (take_bit 12 e)"
    using unat_word_ariths(1) [of "page_addr p" "take_bit 12 e"] by simp
qed

lemma user_pteD:
  assumes "user_pte e p"
  shows "p < PAGING_PAGES" "e \<noteq> 0" "e > LOW_MEM" "MAP_NR e = p" "e AND 1 \<noteq> 0"
proof -
  show p: "p < PAGING_PAGES" and one: "e AND 1 \<noteq> 0" using assms by (simp_all add: user_pte_def)
  from one show "e \<noteq> 0" by auto
  have "take_bit 12 e \<noteq> 0"
  proof
    assume "take_bit 12 e = 0"
    moreover have "bit (take_bit 12 e) 0 \<longleftrightarrow> bit e 0" by (simp add: bit_simps)
    ultimately show False using one by (simp add: and_one_eq mod_2_eq_odd bit_0)
  qed
  then have "0 < unat (take_bit 12 e)" by (simp add: unat_gt_0)
  with user_pte_sum [OF assms] p show gt: "e > LOW_MEM"
    by (simp add: word_less_nat_alt unat_page_addr)
  have "unat (e - LOW_MEM) = 4096 * p + unat (take_bit 12 e)"
    using user_pte_sum [OF assms] p gt by (simp add: unat_sub less_imp_le unat_page_addr)
  then show "MAP_NR e = p"
    using user_pte_sum(2) [OF assms] unfolding MAP_NR_def
    by (simp only: unat_drop_bit_eq) (simp add: drop_bit_eq_div)
qed

lemma user_pte_ro: "user_pte e p \<Longrightarrow> user_pte (e AND NOT 2) p"
proof -
  assume e: "user_pte e p"
  have n: "NOT 2 AND 1 = (1 :: u32)" "NOT 2 AND FRAME = FRAME" by simp_all
  have "(e AND NOT 2) AND 1 = e AND 1" unfolding and.assoc n ..
  moreover have "FRAME AND (e AND NOT 2) = FRAME AND e"
    unfolding and.commute [of FRAME] and.assoc n ..
  ultimately show ?thesis using e unfolding user_pte_def by metis
qed

text \<open>The entries of a table, and how many of its first \<open>n\<close> entries map page \<open>i\<close>.\<close>

definition ent :: "u32 \<Rightarrow> nat \<Rightarrow> u32" where
  "ent t k = t + 4 * of_nat k"

definition refs :: "(nat \<Rightarrow> u32) \<Rightarrow> nat \<Rightarrow> nat \<Rightarrow> nat" where
  "refs e n i = length (filter (\<lambda>k. e k \<noteq> 0 \<and> MAP_NR (e k) = i) [0..<n])"

definition user_table :: "(nat \<Rightarrow> u32) \<Rightarrow> nat \<Rightarrow> bool" where
  "user_table e n \<longleftrightarrow> (\<forall>k < n. e k = 0 \<or> (\<exists>p. user_pte (e k) p))"

definition tables_apart :: "u32 \<Rightarrow> u32 \<Rightarrow> nat \<Rightarrow> bool" where
  "tables_apart f t n \<longleftrightarrow> (\<forall>k < n. aligned4 (ent f k) \<and> aligned4 (ent t k))
     \<and> (\<forall>j < n. \<forall>k < n. ent f j \<noteq> ent t k \<and> (j \<noteq> k \<longrightarrow> ent f j \<noteq> ent f k \<and> ent t j \<noteq> ent t k))"

lemma ent_0 [simp]: "ent t 0 = t"
  and ent_Suc: "ent t (Suc k) = ent (t + 4) k"
  by (simp_all add: ent_def algebra_simps)

lemma tables_apart_Suc: "tables_apart f t (Suc n) \<Longrightarrow> tables_apart (f + 4) (t + 4) n"
  unfolding tables_apart_def ent_Suc [symmetric] by auto

lemma refs_Suc:
  "refs e (Suc n) i = (if e 0 \<noteq> 0 \<and> MAP_NR (e 0) = i then 1 else 0) + refs (\<lambda>k. e (Suc k)) n i"
proof -
  have "[0..<Suc n] = 0 # map Suc [0..<n]" by (simp add: upt_conv_Cons map_Suc_upt del: upt_Suc)
  then show ?thesis by (simp add: refs_def filter_map comp_def)
qed

lemma refs_cong: "(\<And>k. k < n \<Longrightarrow> e k = e' k) \<Longrightarrow> refs e n i = refs e' n i"
  unfolding refs_def by (rule arg_cong [where f = length], rule filter_cong) auto

definition ro :: "u32 \<Rightarrow> u32" where
  "ro e = e AND NOT 2"

text \<open>One entry: the child gets the entry, both are read-only, and the page has one more
  reference.\<close>

lemma copy_pte_present:
  assumes "user_pte (rd f s) p"
  shows "copy_pte w f t s = Some (True, set_map p (mem_map s p + 1) (wr f (ro (rd f s)) (wr t (ro (rd f s)) s)))"
  using user_pteD [OF assms] user_pteD [OF user_pte_ro [OF assms]]
  by (simp add: copy_pte_def Let_def ro_def)

lemma copy_ptes_spec:
  assumes "tables_apart f t n" and "user_table (\<lambda>k. rd (ent f k) s) n"
  shows "\<exists>s'. copy_ptes w n f t s = Some (True, s')
     \<and> (\<forall>k < n. rd (ent f k) s' = ro (rd (ent f k) s))
     \<and> (\<forall>k < n. rd (ent t k) s' = (if rd (ent f k) s = 0 then rd (ent t k) s else ro (rd (ent f k) s)))
     \<and> (\<forall>i. mem_map s' i = mem_map s i + of_nat (refs (\<lambda>k. rd (ent f k) s) n i))
     \<and> (\<forall>a. aligned4 a \<longrightarrow> (\<forall>k < n. a \<noteq> ent f k \<and> a \<noteq> ent t k) \<longrightarrow> rd a s' = rd a s)
     \<and> HIGH_MEMORY s' = HIGH_MEMORY s"
  using assms
proof (induction n arbitrary: f t s)
  case 0
  then show ?case by (simp add: refs_def)
next
  case (Suc n)
  let ?e = "rd f s"
  define s1 where "s1 = (if ?e = 0 then s
    else set_map (MAP_NR ?e) (mem_map s (MAP_NR ?e) + 1) (wr f (ro ?e) (wr t (ro ?e) s)))"
  have al: "aligned4 f" "aligned4 t" "f \<noteq> t"
    "\<And>k. k < n \<Longrightarrow> aligned4 (ent f (Suc k)) \<and> aligned4 (ent t (Suc k))
        \<and> ent f (Suc k) \<noteq> f \<and> ent f (Suc k) \<noteq> t \<and> ent t (Suc k) \<noteq> f \<and> ent t (Suc k) \<noteq> t"
    using Suc.prems(1) unfolding tables_apart_def by (metis ent_0 Suc_less_eq nat.distinct(1) zero_less_Suc)+
  have step: "copy_pte w f t s = Some (True, s1)"
  proof (cases "?e = 0")
    case True
    then show ?thesis by (simp add: copy_pte_def s1_def)
  next
    case False
    with Suc.prems(2) obtain p where "user_pte ?e p" by (auto simp: user_table_def)
    with copy_pte_present [OF this, of w t] False user_pteD(4) [OF this] show ?thesis
      by (simp add: s1_def)
  qed
  have other: "rd a s1 = rd a s" if "aligned4 a" "a \<noteq> f" "a \<noteq> t" for a
    using that al by (simp add: s1_def rd_wr_other)
  have f1: "rd f s1 = ro ?e" and t1: "rd t s1 = (if ?e = 0 then rd t s else ro ?e)"
    using al by (simp_all add: s1_def rd_wr_other ro_def)
  have keep: "rd (ent f (Suc k)) s1 = rd (ent f (Suc k)) s" "rd (ent t (Suc k)) s1 = rd (ent t (Suc k)) s"
    if "k < n" for k using other al(4) that by auto
  have "user_table (\<lambda>k. rd (ent (f + 4) k) s1) n"
    using Suc.prems(2) keep unfolding user_table_def ent_Suc [symmetric] by auto
  from Suc.IH [OF tables_apart_Suc [OF Suc.prems(1)] this] obtain s' where
    s': "copy_ptes w n (f + 4) (t + 4) s1 = Some (True, s')"
    "\<forall>k < n. rd (ent f (Suc k)) s' = ro (rd (ent f (Suc k)) s1)"
    "\<forall>k < n. rd (ent t (Suc k)) s' = (if rd (ent f (Suc k)) s1 = 0 then rd (ent t (Suc k)) s1
        else ro (rd (ent f (Suc k)) s1))"
    "\<forall>i. mem_map s' i = mem_map s1 i + of_nat (refs (\<lambda>k. rd (ent f (Suc k)) s1) n i)"
    "\<forall>a. aligned4 a \<longrightarrow> (\<forall>k < n. a \<noteq> ent f (Suc k) \<and> a \<noteq> ent t (Suc k)) \<longrightarrow> rd a s' = rd a s1"
    "HIGH_MEMORY s' = HIGH_MEMORY s1"
    unfolding ent_Suc [symmetric] by blast
  have run: "copy_ptes w (Suc n) f t s = Some (True, s')" using step s'(1) by simp
  have f0: "rd f s' = ro ?e" "rd t s' = (if ?e = 0 then rd t s else ro ?e)"
    using s'(5) al f1 t1 by metis+
  have map: "mem_map s' i = mem_map s i + of_nat (refs (\<lambda>k. rd (ent f k) s) (Suc n) i)" for i
  proof -
    have "refs (\<lambda>k. rd (ent f (Suc k)) s1) n i = refs (\<lambda>k. rd (ent f (Suc k)) s) n i"
      using keep by (intro refs_cong) auto
    with s'(4) show ?thesis by (auto simp: refs_Suc s1_def)
  qed
  have "\<forall>k < Suc n. rd (ent f k) s' = ro (rd (ent f k) s)"
    using f0 s'(2) keep by (auto simp: less_Suc_eq_0_disj)
  moreover have "\<forall>k < Suc n. rd (ent t k) s'
      = (if rd (ent f k) s = 0 then rd (ent t k) s else ro (rd (ent f k) s))"
    using f0 s'(3) keep by (auto simp: less_Suc_eq_0_disj)
  moreover have "rd a s' = rd a s" if "aligned4 a" "\<forall>k < Suc n. a \<noteq> ent f k \<and> a \<noteq> ent t k" for a
    using that s'(5) other by (metis Suc_less_eq ent_0 zero_less_Suc)
  moreover have "HIGH_MEMORY s' = HIGH_MEMORY s" using s'(6) by (simp add: s1_def)
  ultimately show ?case using run map by blast
qed

lemma user_pte_free:
  assumes "user_pte e p" "page_addr p < HIGH_MEMORY s" "mem_map s p \<noteq> 0"
  shows "free_page (FRAME AND e) s = Some (set_map p (mem_map s p - 1) s)"
  using assms by (simp add: free_page_def user_pte_def Let_def not_le)

lemma free_ptes_spec:
  assumes "\<forall>k < n. aligned4 (ent t k)" "\<forall>j < n. \<forall>k < n. j \<noteq> k \<longrightarrow> ent t j \<noteq> ent t k"
    and "user_table (\<lambda>k. rd (ent t k) s) n"
    and "\<forall>i. refs (\<lambda>k. rd (ent t k) s) n i \<le> unat (mem_map s i)"
    and "\<forall>i < PAGING_PAGES. page_addr i < HIGH_MEMORY s"
  shows "\<exists>s'. free_ptes n t s = Some s' \<and> (\<forall>k < n. rd (ent t k) s' = 0)
     \<and> (\<forall>i. mem_map s' i = mem_map s i - of_nat (refs (\<lambda>k. rd (ent t k) s) n i))
     \<and> (\<forall>a. aligned4 a \<longrightarrow> (\<forall>k < n. a \<noteq> ent t k) \<longrightarrow> rd a s' = rd a s)"
  using assms
proof (induction n arbitrary: t s)
  case 0
  then show ?case by (simp add: refs_def)
next
  case (Suc n)
  let ?e = "rd t s"
  let ?i = "MAP_NR ?e"
  define s1 where "s1 = (if ?e = 0 then s else wr t 0 (set_map ?i (mem_map s ?i - 1) s))"
  have al: "aligned4 t" "\<And>k. k < n \<Longrightarrow> aligned4 (ent t (Suc k)) \<and> ent t (Suc k) \<noteq> t"
    using Suc.prems(1,2) by (metis ent_0 Suc_less_eq nat.distinct(1) zero_less_Suc)+
  have step: "free_ptes (Suc n) t s = free_ptes n (t + 4) s1"
  proof (cases "?e = 0")
    case True
    then show ?thesis by (simp add: s1_def)
  next
    case False
    with Suc.prems(3) obtain p where p: "user_pte ?e p" by (auto simp: user_table_def)
    note d = user_pteD [OF p]
    have "refs (\<lambda>k. rd (ent t k) s) (Suc n) p \<le> unat (mem_map s p)" using Suc.prems(4) by blast
    then have "mem_map s p \<noteq> 0" using False d(4) by (auto simp: refs_Suc)
    then have "free_page (FRAME AND ?e) s = Some (set_map p (mem_map s p - 1) s)"
      using user_pte_free [OF p] Suc.prems(5) d by blast
    with d False show ?thesis by (simp add: s1_def)
  qed
  have other: "rd a s1 = rd a s" if "aligned4 a" "a \<noteq> t" for a
    using that al by (simp add: s1_def rd_wr_other)
  have t1: "rd t s1 = 0" by (simp add: s1_def)
  have keep: "rd (ent t (Suc k)) s1 = rd (ent t (Suc k)) s" if "k < n" for k
    using other al(2) that by auto
  have refs1: "refs (\<lambda>k. rd (ent t (Suc k)) s1) n i = refs (\<lambda>k. rd (ent t (Suc k)) s) n i" for i
    using keep by (intro refs_cong) auto
  have cnt: "refs (\<lambda>k. rd (ent t (Suc k)) s1) n i \<le> unat (mem_map s1 i)" for i
  proof -
    have "refs (\<lambda>k. rd (ent t k) s) (Suc n) i \<le> unat (mem_map s i)" using Suc.prems(4) by blast
    moreover have "mem_map s1 = (if ?e = 0 then mem_map s else (mem_map s)(?i := mem_map s ?i - 1))"
      by (simp add: s1_def)
    ultimately show ?thesis unfolding refs1
      by (cases "mem_map s i = 0") (auto simp: refs_Suc unat_minus_one split: if_splits)
  qed
  have "\<exists>s'. free_ptes n (t + 4) s1 = Some s' \<and> (\<forall>k < n. rd (ent t (Suc k)) s' = 0)
     \<and> (\<forall>i. mem_map s' i = mem_map s1 i - of_nat (refs (\<lambda>k. rd (ent t (Suc k)) s1) n i))
     \<and> (\<forall>a. aligned4 a \<longrightarrow> (\<forall>k < n. a \<noteq> ent t (Suc k)) \<longrightarrow> rd a s' = rd a s1)"
    unfolding ent_Suc
  proof (rule Suc.IH)
    show "\<forall>k < n. aligned4 (ent (t + 4) k)" "\<forall>j < n. \<forall>k < n. j \<noteq> k \<longrightarrow> ent (t + 4) j \<noteq> ent (t + 4) k"
      using Suc.prems(1,2) unfolding ent_Suc [symmetric] by auto
    show "user_table (\<lambda>k. rd (ent (t + 4) k) s1) n"
      using Suc.prems(3) keep unfolding user_table_def ent_Suc [symmetric] by auto
    show "\<forall>i. refs (\<lambda>k. rd (ent (t + 4) k) s1) n i \<le> unat (mem_map s1 i)"
      using cnt unfolding ent_Suc by blast
    show "\<forall>i < PAGING_PAGES. page_addr i < HIGH_MEMORY s1"
      using Suc.prems(5) by (simp add: s1_def)
  qed
  then obtain s' where s': "free_ptes n (t + 4) s1 = Some s'" "\<forall>k < n. rd (ent t (Suc k)) s' = 0"
    "\<forall>i. mem_map s' i = mem_map s1 i - of_nat (refs (\<lambda>k. rd (ent t (Suc k)) s1) n i)"
    "\<forall>a. aligned4 a \<longrightarrow> (\<forall>k < n. a \<noteq> ent t (Suc k)) \<longrightarrow> rd a s' = rd a s1"
    by blast
  have "rd t s' = 0" using s'(4) al t1 by metis
  then have "\<forall>k < Suc n. rd (ent t k) s' = 0" using s'(2) by (auto simp: less_Suc_eq_0_disj)
  moreover have "mem_map s' i = mem_map s i - of_nat (refs (\<lambda>k. rd (ent t k) s) (Suc n) i)" for i
    using s'(3) refs1 by (auto simp: refs_Suc s1_def)
  moreover have "rd a s' = rd a s" if "aligned4 a" "\<forall>k < Suc n. a \<noteq> ent t k" for a
    using that s'(4) other by (metis Suc_less_eq ent_0 zero_less_Suc)
  ultimately show ?case using step s'(1) by auto
qed

text \<open>
  C16. Fork shares pages instead of copying them: after \<^verbatim>\<open>copy_page_tables\<close> has copied the
  entries of a page table whose pages are all present, parent and child map the same pages,
  neither may write to them, and every page has one more reference for each entry that maps it.
\<close>

theorem copy_ptes_shares:
  assumes "tables_apart f t n" and "user_table (\<lambda>k. rd (ent f k) s) n"
  shows "\<exists>s'. copy_ptes w n f t s = Some (True, s')
     \<and> (\<forall>k < n. rd (ent f k) s \<noteq> 0 \<longrightarrow> rd (ent t k) s' = rd (ent f k) s'
          \<and> rd (ent f k) s' AND FRAME = rd (ent f k) s AND FRAME \<and> rd (ent f k) s' AND 2 = 0)
     \<and> (\<forall>i. mem_map s' i = mem_map s i + of_nat (refs (\<lambda>k. rd (ent f k) s) n i))"
proof -
  have n: "NOT 2 AND 2 = (0 :: u32)" "NOT 2 AND FRAME = FRAME" by simp_all
  have "ro e AND FRAME = e AND FRAME" "ro e AND 2 = 0" for e
    unfolding ro_def and.assoc n by simp_all
  with copy_ptes_spec [OF assms, of w] show ?thesis by fastforce
qed

text \<open>
  C5. Exit gives back what fork took: freeing the child's page table right after it was copied
  restores the reference count of every page and empties the table.
\<close>

theorem fork_then_exit_restores:
  assumes "tables_apart f t n" and "user_table (\<lambda>k. rd (ent f k) s) n"
    and "\<forall>k < n. rd (ent t k) s = 0" and "\<forall>i < PAGING_PAGES. page_addr i < HIGH_MEMORY s"
    and "\<forall>i. unat (mem_map s i) + refs (\<lambda>k. rd (ent f k) s) n i < 256"
  shows "\<exists>s1 s2. copy_ptes w n f t s = Some (True, s1) \<and> free_ptes n t s1 = Some s2
     \<and> mem_map s2 = mem_map s \<and> (\<forall>k < n. rd (ent t k) s2 = 0)"
proof -
  from copy_ptes_spec [OF assms(1,2), of w] obtain s1 where
    s1: "copy_ptes w n f t s = Some (True, s1)"
    "\<forall>k < n. rd (ent t k) s1 = (if rd (ent f k) s = 0 then rd (ent t k) s else ro (rd (ent f k) s))"
    "\<forall>i. mem_map s1 i = mem_map s i + of_nat (refs (\<lambda>k. rd (ent f k) s) n i)"
    "HIGH_MEMORY s1 = HIGH_MEMORY s"
    by blast
  have ro0: "ro 0 = 0" by (simp add: ro_def)
  have e: "rd (ent t k) s1 = ro (rd (ent f k) s)" if "k < n" for k
    using s1(2) assms(3) that ro0 by simp
  have pte: "ro e \<noteq> 0 \<and> MAP_NR (ro e) = MAP_NR e" if "user_pte e p" for e p
    using user_pteD [OF that] user_pteD [OF user_pte_ro [OF that]] by (simp add: ro_def)
  have refs: "refs (\<lambda>k. rd (ent t k) s1) n i = refs (\<lambda>k. rd (ent f k) s) n i" for i
    unfolding refs_def
    by (rule arg_cong [where f = length], rule filter_cong)
       (use assms(2) e pte ro0 in \<open>auto simp: user_table_def\<close>)
  have cnt: "refs (\<lambda>k. rd (ent t k) s1) n i \<le> unat (mem_map s1 i)" for i
  proof -
    let ?r = "refs (\<lambda>k. rd (ent f k) s) n i"
    have lt: "unat (mem_map s i) + ?r < 256" using assms(5) by blast
    then have "unat (of_nat ?r :: u8) = ?r" by (simp add: unat_of_nat)
    with lt have "unat (mem_map s1 i) = unat (mem_map s i) + ?r"
      using s1(3) by (simp add: unat_word_ariths)
    then show ?thesis using refs by simp
  qed
  have "user_table (\<lambda>k. rd (ent t k) s1) n"
    using assms(2) e ro0 user_pte_ro unfolding user_table_def by (metis ro_def)
  with assms(1,4) s1(4) cnt have "\<exists>s2. free_ptes n t s1 = Some s2 \<and> (\<forall>k < n. rd (ent t k) s2 = 0)
     \<and> (\<forall>i. mem_map s2 i = mem_map s1 i - of_nat (refs (\<lambda>k. rd (ent t k) s1) n i))"
    using free_ptes_spec [of n t s1] by (auto simp: tables_apart_def)
  then obtain s2 where "free_ptes n t s1 = Some s2" "\<forall>k < n. rd (ent t k) s2 = 0"
    "\<forall>i. mem_map s2 i = mem_map s1 i - of_nat (refs (\<lambda>k. rd (ent t k) s1) n i)" by blast
  with s1(1,3) refs show ?thesis by (intro exI [of _ s1] exI [of _ s2]) auto
qed

lemma un_wp_page_writable:
  "un_wp_page w te s = Some s' \<Longrightarrow> rd te s' AND 2 \<noteq> 0"
proof -
  assume "un_wp_page w te s = Some s'"
  then obtain v u where v: "s' = wr te v u" "v = rd te s OR 2 \<or> (\<exists>p. v = p OR 7)"
    by (auto simp: un_wp_page_def Let_def split: if_splits)
  have b: "bit (2 :: u32) 1" "bit (7 :: u32) 1" by (simp_all add: bit_iff_odd_drop_bit)
  with v(2) have "bit (v AND 2) 1" by (auto simp: bit_and_iff bit_or_iff)
  then show ?thesis using v(1) by auto
qed

text \<open>
  After \<^verbatim>\<open>write_verify\<close> the kernel can write to the page without corrupting a shared
  copy: the entry that maps the address is no longer present and read-only.
\<close>

theorem write_verify_not_read_only:
  assumes "write_verify w address s = Some s'" and "rd (drop_bit 20 address AND 0xffc) s AND 1 \<noteq> 0"
  shows "rd (pte_addr address s) s' AND 3 \<noteq> 1"
proof (cases "rd (pte_addr address s) s AND 3 = 1")
  case True
  with assms have "un_wp_page w (pte_addr address s) s = Some s'" by (simp add: write_verify_def Let_def)
  then have "rd (pte_addr address s) s' AND 2 \<noteq> 0" by (rule un_wp_page_writable)
  moreover have "x AND 2 = 0" if "x AND 3 = 1" for x :: u32
  proof -
    have "x AND 2 = (x AND 3) AND 2" by (simp add: and.assoc)
    with that show ?thesis by simp
  qed
  ultimately show ?thesis by blast
next
  case False
  with assms show ?thesis by (auto simp: write_verify_def Let_def)
qed

section \<open>Examples\<close>

text \<open>Page 5 is shared by two entries, the others are in use except page 10, which is free.
  The page table is at \<^verbatim>\<open>0x1000\<close>, and \<^verbatim>\<open>0x2000\<close> is empty.\<close>

definition blank_hd :: hd where
  "blank_hd = blk.extend blank_blk (hd.fields (\<lambda>_. \<lparr>start_sect = 0, nr_sects = 0\<rparr>) (\<lambda>_. 0)
     (\<lambda>_. \<lparr>hi_cyl = 0, hi_head = 0, hi_rcur_cyl = 0, hi_wpcom = 0, hi_ECC_len = 0, hi_ctl = 0,
          hi_std_timeout = 0, hi_fmt_timeout = 0, hi_check_timeout = 0, hi_lzone = 0, hi_sect = 0, hi_preserve_byte = 0\<rparr>)
     1 0 0 0 0 No_intr 0 0x301 0)"

definition shared_page :: mm where
  "shared_page = hd.extend (blank_hd\<lparr>kmem := st32 0x1000 (page_addr 5 OR 5) (st32 0 0x1007 (\<lambda>_. 0))\<rparr>)
     (mm.fields 0x4000000 ((\<lambda>_. 1)(5 := 2, 10 := 0)) 0x900000 16 (- 1))"

lemma kmem_extend [simp]: "kmem (hd.extend s x) = kmem s"
  by (simp add: hd.extend_def)

lemma shared_page_simps [simp]:
  "kmem shared_page = st32 0x1000 (page_addr 5 OR 5) (st32 0 0x1007 (\<lambda>_. 0))"
  "mem_map shared_page = (\<lambda>_. 1)(5 := 2, 10 := 0)" "HIGH_MEMORY shared_page = 0x4000000"
  "swap_bitmap shared_page = 0x900000"
  by (simp_all add: shared_page_def mm.defs hd.defs)

lemma shared_page_free: "last_free shared_page = Some 10"
proof -
  have "mem_map shared_page 10 = 0" "10 \<in> set (rev [0..<15616])" by simp_all
  then have "last_free shared_page \<noteq> None" unfolding last_free_def find_None_iff by blast
  then obtain i where "last_free shared_page = Some i" by blast
  with last_freeD(2) [OF this] show ?thesis by (auto split: if_splits)
qed

lemma pages_below_high: "\<forall>i < PAGING_PAGES. page_addr i < HIGH_MEMORY shared_page"
  by (auto simp: word_less_nat_alt unat_page_addr)

lemma shared_page_entry: "rd 0x1000 shared_page = page_addr 5 OR 5"
  by (simp add: rd_def)

lemma shared_page_frame: "FRAME AND rd 0x1000 shared_page = page_addr 5"
  unfolding shared_page_entry by (rule frame_page) simp_all

theorem un_wp_page_copies_witness:
  "\<exists>s'. un_wp_page quiet 0x1000 shared_page = Some s' \<and> rd 0x1000 s' = page_addr 10 OR 7
     \<and> mem_map s' 5 = 1 \<and> mem_map s' 10 = 1"
proof -
  have "4 \<le> unat (page_addr 10 + of_nat j - 0x1000)" if "j < 4096" for j
  proof -
    have "unat (of_nat j :: u32) = j" using that by (simp add: unat_of_nat)
    moreover have "page_addr 10 - 0x1000 = 0x309000" by (simp add: page_addr_def push_bit_eq_mult)
    then have "page_addr 10 + of_nat j - 0x1000 = of_nat j + 0x309000" by (simp add: algebra_simps)
    ultimately show ?thesis using that by (simp add: unat_word_ariths)
  qed
  moreover have "page_addr 10 < HIGH_MEMORY shared_page" using pages_below_high by simp
  moreover have "mem_map shared_page 5 \<noteq> 1" by simp
  ultimately obtain s' where "un_wp_page quiet 0x1000 shared_page = Some s'"
    "rd 0x1000 s' = page_addr 10 OR 7" "mem_map s' = (mem_map shared_page)(10 := 1, 5 := mem_map shared_page 5 - 1)"
    using un_wp_page_copies [OF shared_page_frame _ _ shared_page_free, where w = quiet] by auto
  then show ?thesis by (intro exI [of _ s']) simp
qed

theorem un_wp_page_sole_owner_witness:
  "\<exists>s'. un_wp_page quiet 0x1000 (set_map 5 1 shared_page) = Some s' \<and> rd 0x1000 s' = page_addr 5 OR 5 OR 2"
  using un_wp_page_sole_owner [where te = "0x1000" and s = "set_map 5 1 shared_page" and k = 5 and w = quiet] shared_page_frame shared_page_entry
  by (auto simp: or.assoc)

lemma example_tables:
  "tables_apart 0x1000 0x2000 1" "user_table (\<lambda>k. rd (ent 0x1000 k) shared_page) 1"
  "\<forall>k < 1. rd (ent 0x2000 k) shared_page = 0"
proof -
  show "tables_apart 0x1000 0x2000 1" by (simp add: tables_apart_def aligned4_def)
  have "user_pte (rd 0x1000 shared_page) 5"
    using shared_page_frame unfolding user_pte_def shared_page_entry
    by (simp add: page_addr_def push_bit_eq_mult)
  then show "user_table (\<lambda>k. rd (ent 0x1000 k) shared_page) 1"
    by (auto simp: user_table_def)
  show "\<forall>k < 1. rd (ent 0x2000 k) shared_page = 0"
    by (simp add: rd_def ld32_st32_other aligned4_def) (simp add: ld32_def)
qed

theorem copy_ptes_shares_witness:
  "\<exists>s'. copy_ptes quiet 1 0x1000 0x2000 shared_page = Some (True, s') \<and> rd 0x2000 s' = rd 0x1000 s'
     \<and> rd 0x1000 s' AND 2 = 0"
proof -
  from copy_ptes_shares [OF example_tables(1,2), of quiet] obtain s' where
    s': "copy_ptes quiet 1 0x1000 0x2000 shared_page = Some (True, s')"
    "\<forall>k < 1. rd (ent 0x1000 k) shared_page \<noteq> 0 \<longrightarrow> rd (ent 0x2000 k) s' = rd (ent 0x1000 k) s'
       \<and> rd (ent 0x1000 k) s' AND FRAME = rd (ent 0x1000 k) shared_page AND FRAME
       \<and> rd (ent 0x1000 k) s' AND 2 = 0" by blast
  have "rd 0x1000 shared_page \<noteq> 0" unfolding shared_page_entry by (simp add: page_addr_def push_bit_eq_mult)
  with s'(2) have "rd 0x2000 s' = rd 0x1000 s' \<and> rd 0x1000 s' AND 2 = 0" by simp
  with s'(1) show ?thesis by blast
qed

theorem fork_then_exit_restores_witness:
  "\<exists>s1 s2. copy_ptes quiet 1 0x1000 0x2000 shared_page = Some (True, s1)
     \<and> free_ptes 1 0x2000 s1 = Some s2 \<and> mem_map s2 = mem_map shared_page"
proof -
  have "unat (mem_map shared_page i) + refs (\<lambda>k. rd (ent 0x1000 k) shared_page) 1 i < 256" for i
    by (simp add: refs_def)
  with fork_then_exit_restores [OF example_tables(1,2,3) pages_below_high, of quiet] show ?thesis by blast
qed

theorem write_verify_not_read_only_witness:
  "\<exists>s'. write_verify quiet 0 (set_map 5 1 shared_page) = Some s' \<and> rd 0x1000 s' AND 3 \<noteq> 1"
proof -
  have dir: "rd 0 shared_page = 0x1007"
    by (simp add: rd_def ld32_st32_other aligned4_def)
  then have pte: "pte_addr 0 (set_map 5 1 shared_page) = 0x1000" by (simp add: pte_addr_def)
  then obtain s' where "write_verify quiet 0 (set_map 5 1 shared_page) = Some s'"
    using un_wp_page_sole_owner [where te = "0x1000" and s = "set_map 5 1 shared_page" and k = 5 and w = quiet] shared_page_frame dir
    by (cases "rd 0x1000 shared_page AND 3 = 1") (auto simp: write_verify_def Let_def)
  with write_verify_not_read_only [OF this] dir pte show ?thesis by auto
qed

theorem mem_init_free_witness:
  "mem_map (mem_init (page_addr 2560) (page_addr 15616) shared_page) 4000 = 0"
  using mem_init_free [of 2560 15616 4000 shared_page] by simp

theorem get_free_page_returns_witness:
  "\<exists>s'. get_free_page quiet shared_page = Some (page_addr 10, s') \<and> mem_map s' 10 = 1"
  using get_free_page_returns [OF shared_page_free, of quiet] pages_below_high by auto

theorem free_page_undoes_get_witness:
  "\<exists>s1 s2. get_free_page quiet shared_page = Some (page_addr 10, s1)
     \<and> free_page (page_addr 10) s1 = Some s2 \<and> mem_map s2 = mem_map shared_page"
proof -
  have "page_addr 10 < HIGH_MEMORY shared_page" using pages_below_high by simp
  from free_page_undoes_get [OF shared_page_free this, of quiet] show ?thesis by blast
qed

theorem swap_page_round_trip_witness:
  "\<exists>s1. get_swap_page (shared_page\<lparr>kmem := (\<lambda>_. 0xFE)\<rparr>) = (1, s1)
     \<and> bitmap_bit 0x900000 1 (swap_free 1 s1)"
proof -
  have u: "[1..<32768] = 1 # [Suc 1..<32768]" by (rule upt_conv_Cons) simp
  have b: "bit (0xFE :: u8) 1" by (simp add: bit_iff_odd_drop_bit)
  obtain s1 where s1: "get_swap_page (shared_page\<lparr>kmem := (\<lambda>_. 0xFE)\<rparr>) = (1, s1)"
    unfolding get_swap_page_def u by (simp add: clrbit_def bitmap_bit_def Let_def b)
  from swap_page_round_trip [OF s1, of 1] s1 b show ?thesis by (simp add: bitmap_bit_def)
qed

end
