(* ===== verification/Signal.thy ===== *)
theory Signal
  imports Memory
begin

text \<open>
  \<^verbatim>\<open>kernel/signal.c\<close> and the routines of \<^verbatim>\<open>kernel/exit.c\<close> that send signals and look at
  process groups. The walk \<^verbatim>\<open>for (p = &LAST_TASK; p > &FIRST_TASK; --p)\<close> is a fold over the
  slots 63 to 1 of the task table; where the code reads through an empty slot it reads the
  task structure at address 0, as the kernel does.
\<close>

section \<open>Sending\<close>

text \<open>\<open>SIGSTOP \<le> sig \<le> SIGTTOU\<close> are the stop signals. For a signal number outside 1 to 32
  (which only \<^verbatim>\<open>kill(-1, sig)\<close> lets through) the code indexes \<^verbatim>\<open>sigaction\<close> out of range: \<open>None\<close>.\<close>

definition stop_mask :: u32 where
  "stop_mask = sigbit SIGSTOP OR sigbit SIGTSTP OR sigbit SIGTTIN OR sigbit SIGTTOU"

text \<open>The change of the receiver: \<^verbatim>\<open>SIGKILL\<close> and \<^verbatim>\<open>SIGCONT\<close> resume a stopped task and cancel
  pending stop signals, stop signals cancel a pending \<^verbatim>\<open>SIGCONT\<close>, and an ignored signal is not
  posted.\<close>

definition post_signal :: "nat \<Rightarrow> task_struct \<Rightarrow> task_struct" where
  "post_signal sig t0 =
     (let t = (if sig = SIGKILL \<or> sig = SIGCONT
               then t0\<lparr>t_state := (if t_state t0 = TASK_STOPPED then TASK_RUNNING else t_state t0),
                       t_exit_code := 0, t_signal := t_signal t0 AND NOT stop_mask\<rparr>
               else t0)
      in if sa_handler (t_sigaction t (sig - 1)) = 1 then t
         else let t = (if sig \<ge> SIGSTOP \<and> sig \<le> SIGTTOU
                       then t\<lparr>t_signal := t_signal t AND NOT (sigbit SIGCONT)\<rparr> else t)
              in t\<lparr>t_signal := t_signal t OR sigbit sig\<rparr>)"

definition send_sig ::
  "int \<Rightarrow> task_ptr \<Rightarrow> bool \<Rightarrow> 'a sched_scheme \<Rightarrow> (int \<times> 'a sched_scheme) option" where
  "send_sig sig p priv s =
     (if p = 0 then Some (- EINVAL, s)
      else if \<not> priv \<and> t_euid (cur s) \<noteq> t_euid (tstruct s p) \<and> \<not> suser s then Some (- EPERM, s)
      else if sig < 1 \<or> sig > 32 then None
      else Some (0, mod_task p (post_signal (nat sig)) s))"

section \<open>Process groups and sessions\<close>

definition session_of_pgrp :: "int \<Rightarrow> 'a sched_scheme \<Rightarrow> int" where
  "session_of_pgrp pgrp s =
     (case List.find (\<lambda>i. t_pgrp (tstruct s (task s i)) = pgrp) (down_to 63) of
        Some i \<Rightarrow> t_session (tstruct s (task s i))
      | None \<Rightarrow> - 1)"

text \<open>The loops of \<^verbatim>\<open>kill_pg\<close> and of \<^verbatim>\<open>kill(-1)\<close>.\<close>

fun kill_pg_loop :: "int \<Rightarrow> int \<Rightarrow> bool \<Rightarrow> nat list \<Rightarrow> int \<Rightarrow> nat \<Rightarrow> 'a sched_scheme
    \<Rightarrow> (int \<times> 'a sched_scheme) option" where
  "kill_pg_loop pgrp sig priv [] retval found s = Some (if found \<noteq> 0 then 0 else retval, s)"
| "kill_pg_loop pgrp sig priv (i # is) retval found s =
     (if t_pgrp (tstruct s (task s i)) = pgrp
      then do {
        (err, s) \<leftarrow> send_sig sig (task s i) priv s;
        if err \<noteq> 0 then kill_pg_loop pgrp sig priv is err found s
        else kill_pg_loop pgrp sig priv is retval (found + 1) s
      }
      else kill_pg_loop pgrp sig priv is retval found s)"

definition kill_pg :: "int \<Rightarrow> int \<Rightarrow> bool \<Rightarrow> 'a sched_scheme \<Rightarrow> (int \<times> 'a sched_scheme) option" where
  "kill_pg pgrp sig priv s =
     (if sig < 1 \<or> sig > 32 \<or> pgrp \<le> 0 then Some (- EINVAL, s)
      else kill_pg_loop pgrp sig priv (down_to 63) (- ESRCH) 0 s)"

definition kill_proc :: "int \<Rightarrow> int \<Rightarrow> bool \<Rightarrow> 'a sched_scheme \<Rightarrow> (int \<times> 'a sched_scheme) option" where
  "kill_proc pid sig priv s =
     (if sig < 1 \<or> sig > 32 then Some (- EINVAL, s)
      else case List.find (\<lambda>i. t_pid (tstruct s (task s i)) = pid) (down_to 63) of
             Some i \<Rightarrow> send_sig sig (task s i) priv s
           | None \<Rightarrow> Some (- ESRCH, s))"

fun kill_all_loop :: "int \<Rightarrow> nat list \<Rightarrow> int \<Rightarrow> 'a sched_scheme \<Rightarrow> (int \<times> 'a sched_scheme) option" where
  "kill_all_loop sig [] retval s = Some (retval, s)"
| "kill_all_loop sig (i # is) retval s = do {
     (err, s) \<leftarrow> send_sig sig (task s i) False s;
     kill_all_loop sig is (if err \<noteq> 0 then err else retval) s
   }"

definition sys_kill :: "int \<Rightarrow> int \<Rightarrow> 'a sched_scheme \<Rightarrow> (int \<times> 'a sched_scheme) option" where
  "sys_kill pid sig s =
     (if pid = 0 then kill_pg (t_pid (cur s)) sig False s
      else if pid = - 1 then kill_all_loop sig (down_to 63) 0 s
      else if pid < 0 then kill_pg (s32 (- pid)) sig False s
      else kill_proc pid sig False s)"

definition is_orphaned_pgrp :: "int \<Rightarrow> 'a sched_scheme \<Rightarrow> bool" where
  "is_orphaned_pgrp pgrp s \<longleftrightarrow>
     \<not> list_ex (\<lambda>i. let p = tstruct s (task s i); pp = tstruct s (p_pptr p) in
         \<not> (task s i = 0 \<or> t_pgrp p \<noteq> pgrp \<or> t_state p = TASK_ZOMBIE \<or> t_pid pp = 1)
         \<and> t_pgrp pp \<noteq> pgrp \<and> t_session pp = t_session p) (down_to 63)"

definition has_stopped_jobs :: "int \<Rightarrow> 'a sched_scheme \<Rightarrow> bool" where
  "has_stopped_jobs pgrp s \<longleftrightarrow>
     list_ex (\<lambda>i. t_pgrp (tstruct s (task s i)) = pgrp
       \<and> t_state (tstruct s (task s i)) = TASK_STOPPED) (down_to 63)"

section \<open>Masks and handlers\<close>

definition sys_sgetmask :: "'a sched_scheme \<Rightarrow> u32" where
  "sys_sgetmask s = t_blocked (cur s)"

definition sys_ssetmask :: "u32 \<Rightarrow> 'a sched_scheme \<Rightarrow> u32 \<times> 'a sched_scheme" where
  "sys_ssetmask newmask s =
     (t_blocked (cur s),
      mod_cur (\<lambda>t. t\<lparr>t_blocked := newmask AND NOT (sigbit SIGKILL) AND NOT (sigbit SIGSTOP)\<rparr>) s)"

definition sys_sigpending ::
  "'a mm_scheme world \<Rightarrow> u32 \<Rightarrow> 'a mm_scheme \<Rightarrow> (int \<times> 'a mm_scheme) option" where
  "sys_sigpending w sset s = do {
     s \<leftarrow> verify_area w sset 4 s;
     Some (0, put_fs_long (t_blocked (cur s) AND t_signal (cur s)) sset s)
   }"

text \<open>\<^verbatim>\<open>sys_sigsuspend\<close> changes its arguments \<^verbatim>\<open>restart\<close> and \<^verbatim>\<open>old_mask\<close> on the stack, from
  where they are restored into the registers of the task; they are part of the result.\<close>

definition sys_sigsuspend ::
  "'a sched_scheme world \<Rightarrow> u32 \<Rightarrow> u32 \<Rightarrow> u32 \<Rightarrow> 'a sched_scheme
     \<Rightarrow> (int \<times> u32 \<times> u32 \<times> 'a sched_scheme) option" where
  "sys_sigsuspend w restart old_mask sset s =
     (if restart \<noteq> 0
      then Some (- EINTR, restart, old_mask, mod_cur (\<lambda>t. t\<lparr>t_blocked := old_mask\<rparr>) s)
      else let old = t_blocked (cur s) in do {
        (r, s) \<leftarrow> sys_pause w (mod_cur (\<lambda>t. t\<lparr>t_blocked := sset\<rparr>) s);
        Some (- ERESTARTNOINTR, 1, old, s)
      })"

abbreviation (input) SA_NOCLDSTOP :: u32 where "SA_NOCLDSTOP \<equiv> 1"
abbreviation (input) SA_INTERRUPT :: u32 where "SA_INTERRUPT \<equiv> 0x20000000"
abbreviation (input) SA_NOMASK :: u32 where "SA_NOMASK \<equiv> 0x40000000"
abbreviation (input) SA_ONESHOT :: u32 where "SA_ONESHOT \<equiv> 0x80000000"

text \<open>The byte loops of \<^verbatim>\<open>get_new\<close> and \<^verbatim>\<open>save_old\<close> move the four words of a
  \<^verbatim>\<open>struct sigaction\<close>.\<close>

definition get_new :: "u32 \<Rightarrow> 'a sched_scheme \<Rightarrow> sigaction" where
  "get_new from s =
     \<lparr>sa_handler = get_fs_long from s, sa_mask = get_fs_long (from + 4) s,
      sa_flags = get_fs_long (from + 8) s, sa_restorer = get_fs_long (from + 12) s\<rparr>"

definition save_old ::
  "'a mm_scheme world \<Rightarrow> sigaction \<Rightarrow> u32 \<Rightarrow> 'a mm_scheme \<Rightarrow> 'a mm_scheme option" where
  "save_old w sa to s = do {
     s \<leftarrow> verify_area w to 16 s;
     Some (put_fs_long (sa_restorer sa) (to + 12) (put_fs_long (sa_flags sa) (to + 8)
       (put_fs_long (sa_mask sa) (to + 4) (put_fs_long (sa_handler sa) to s))))
   }"

definition set_sigaction :: "nat \<Rightarrow> sigaction \<Rightarrow> 'a sched_scheme \<Rightarrow> 'a sched_scheme" where
  "set_sigaction i sa s = mod_cur (\<lambda>t. t\<lparr>t_sigaction := (t_sigaction t)(i := sa)\<rparr>) s"

definition sys_sigaction ::
  "'a mm_scheme world \<Rightarrow> int \<Rightarrow> u32 \<Rightarrow> u32 \<Rightarrow> 'a mm_scheme \<Rightarrow> (int \<times> 'a mm_scheme) option" where
  "sys_sigaction w signum action oldaction s =
     (if signum < 1 \<or> signum > 32 \<or> signum = int SIGKILL \<or> signum = int SIGSTOP then Some (- EINVAL, s)
      else let i = nat signum - 1; tmp = t_sigaction (cur s) i in do {
        let s = set_sigaction i (get_new action s) s;
        s \<leftarrow> (if oldaction \<noteq> 0 then save_old w tmp oldaction s else Some s);
        let sa = t_sigaction (cur s) i;
        Some (0, set_sigaction i
          (sa\<lparr>sa_mask := (if sa_flags sa AND SA_NOMASK \<noteq> 0 then 0 else sa_mask sa OR sigbit (nat signum))\<rparr>) s)
      })"

section \<open>Delivering\<close>

text \<open>The registers of the interrupted task that \<^verbatim>\<open>do_signal\<close> reads and changes.\<close>

record sigregs =
  sr_eax :: u32
  sr_ecx :: u32
  sr_edx :: u32
  sr_orig_eax :: u32
  sr_eip :: u32
  sr_eflags :: u32
  sr_esp :: u32

definition core_dump :: "nat \<Rightarrow> bool" where
  "core_dump signr = False"

text \<open>The restart of an interrupted system call: the registers and \<^verbatim>\<open>old_eip\<close>.\<close>

definition signal_restart :: "nat \<Rightarrow> sigaction \<Rightarrow> sigregs \<Rightarrow> sigregs \<times> u32" where
  "signal_restart signr sa r =
     (if sr_orig_eax r \<noteq> - 1 \<and> (sr_eax r = of_int (- ERESTARTSYS) \<or> sr_eax r = of_int (- ERESTARTNOINTR))
      then if sr_eax r = of_int (- ERESTARTSYS)
              \<and> (sa_flags sa AND SA_INTERRUPT \<noteq> 0 \<or> signr < SIGCONT \<or> signr > SIGTTOU)
           then (r\<lparr>sr_eax := of_int (- EINTR)\<rparr>, sr_eip r)
           else (r\<lparr>sr_eax := sr_orig_eax r, sr_eip := sr_eip r - 2\<rparr>, sr_eip r - 2)
      else (r, sr_eip r))"

text \<open>The frame a handler finds on its stack.\<close>

fun put_longs :: "u32 list \<Rightarrow> u32 \<Rightarrow> 'a sched_scheme \<Rightarrow> 'a sched_scheme" where
  "put_longs [] a s = s"
| "put_longs (v # vs) a s = put_longs vs (a + 4) (put_fs_long v a s)"

lemmas [kdefs] = send_sig_def post_signal_def kill_pg_def kill_proc_def sys_kill_def
  sys_ssetmask_def sys_sigpending_def sys_sigsuspend_def sys_sigaction_def

section \<open>Who may signal whom\<close>

lemma post_signal_euid [simp]: "t_euid (post_signal sig t) = t_euid t"
  by (simp add: post_signal_def Let_def)

text \<open>\<open>confined s s'\<close>: from \<open>s\<close> to \<open>s'\<close> the current task and all effective user numbers stay,
  and only tasks with the caller's effective user number change.\<close>

definition confined :: "'a sched_scheme \<Rightarrow> 'a sched_scheme \<Rightarrow> bool" where
  "confined s s' \<longleftrightarrow> current s' = current s \<and> task s' = task s
     \<and> (\<forall>q. t_euid (tstruct s' q) = t_euid (tstruct s q))
     \<and> (\<forall>q. t_euid (tstruct s q) \<noteq> t_euid (cur s) \<longrightarrow> tstruct s' q = tstruct s q)"

lemma confined_refl: "confined s s"
  by (simp add: confined_def)

lemma confined_trans: "confined s t \<Longrightarrow> confined t u \<Longrightarrow> confined s u"
  by (simp add: confined_def)

lemma confined_suser: "confined s t \<Longrightarrow> suser t = suser s"
  by (simp add: confined_def suser_def)

lemma send_sig_confined:
  "send_sig sig p False s = Some (r, s') \<Longrightarrow> \<not> suser s \<Longrightarrow> confined s s'"
  by (auto simp: send_sig_def confined_def split: if_splits)

lemma kill_pg_loop_confined:
  "kill_pg_loop g sig False is rv n s = Some (r, s') \<Longrightarrow> \<not> suser s \<Longrightarrow> confined s s'"
proof (induction "is" arbitrary: rv n s)
  case (Cons i "is")
  show ?case
  proof (cases "t_pgrp (tstruct s (task s i)) = g")
    case True
    with Cons.prems(1) obtain e u rv' n' where u: "send_sig sig (task s i) False s = Some (e, u)"
      "kill_pg_loop g sig False is rv' n' u = Some (r, s')"
      by (auto split: if_splits)
    have "confined s u" using send_sig_confined [OF u(1) Cons.prems(2)] .
    with Cons.IH [OF u(2)] Cons.prems(2) show ?thesis
      using confined_suser confined_trans by blast
  qed (use Cons in auto)
qed (auto intro: confined_refl)

lemma kill_all_loop_confined:
  "kill_all_loop sig is rv s = Some (r, s') \<Longrightarrow> \<not> suser s \<Longrightarrow> confined s s'"
proof (induction "is" arbitrary: rv s)
  case (Cons i "is")
  then obtain e u rv' where u: "send_sig sig (task s i) False s = Some (e, u)"
    "kill_all_loop sig is rv' u = Some (r, s')" by auto
  have "confined s u" using send_sig_confined [OF u(1) Cons.prems(2)] .
  with Cons.IH [OF u(2)] Cons.prems(2) show ?case using confined_suser confined_trans by blast
qed (auto intro: confined_refl)

text \<open>
  C19. A process without superuser rights can signal only processes with its own effective user
  number: whatever \<^verbatim>\<open>kill\<close> is called with, every task of another user is exactly as before.
\<close>

theorem kill_confined_to_user:
  assumes "sys_kill pid sig s = Some (r, s')" and "t_euid (cur s) \<noteq> 0"
    and "t_euid (tstruct s q) \<noteq> t_euid (cur s)"
  shows "tstruct s' q = tstruct s q"
proof -
  have "\<not> suser s" using assms(2) by (simp add: suser_def)
  with assms(1) have "confined s s'"
    by (auto simp: sys_kill_def kill_pg_def kill_proc_def confined_refl split: if_splits option.splits
        intro: kill_pg_loop_confined kill_all_loop_confined send_sig_confined)
  with assms(3) show ?thesis by (simp add: confined_def)
qed

text \<open>Process 5 of user 7 may signal itself; process 1, of the superuser, is out of its reach.\<close>

definition two_users :: sched where
  "two_users = blank_sched\<lparr>task := (\<lambda>i. if i = 1 then 0x1000 else if i = 2 then 0x2000 else 0),
     current := 0x2000,
     tstruct := (\<lambda>p. if p = 0x1000 then blank_task\<lparr>t_pid := 1\<rparr>
       else if p = 0x2000 then blank_task\<lparr>t_pid := 5, t_euid := 7\<rparr> else blank_task)\<rparr>"

theorem kill_confined_to_user_witness:
  "\<exists>s'. sys_kill 5 15 two_users = Some (0, s') \<and> tstruct s' 0x1000 = tstruct two_users 0x1000
     \<and> t_signal (tstruct s' 0x2000) = sigbit 15"
proof -
  have f: "List.find (\<lambda>i. t_pid (tstruct two_users (task two_users i)) = 5) (down_to 63) = Some 2"
    by (simp add: two_users_def blank_task_def down_to_def upt_rec)
  have d: "sigaction.sa_handler (t_sigaction (tstruct two_users 0x2000) 14) = 0"
    by (simp add: two_users_def blank_task_def)
  obtain s' where k: "sys_kill 5 15 two_users = Some (0, s')" "t_signal (tstruct s' 0x2000) = sigbit 15"
    using f d by (simp add: sys_kill_def kill_proc_def send_sig_def two_users_def
        post_signal_def blank_task_def)
  moreover have "tstruct s' 0x1000 = tstruct two_users 0x1000"
    by (rule kill_confined_to_user [OF k(1)]) (simp_all add: two_users_def blank_task_def)
  ultimately show ?thesis by blast
qed

section \<open>Stopping and continuing\<close>

lemma stop_mask_zero: "x AND stop_mask = 0 \<longleftrightarrow> (\<forall>n. 18 \<le> n \<and> n \<le> 21 \<longrightarrow> \<not> bit x n)" for x :: u32
proof
  assume a: "x AND stop_mask = 0"
  show "\<forall>n. 18 \<le> n \<and> n \<le> 21 \<longrightarrow> \<not> bit x n"
  proof (intro allI impI notI)
    fix n :: nat assume "18 \<le> n \<and> n \<le> 21" "bit x n"
    then have "bit (x AND stop_mask) n" by (auto simp: stop_mask_def bit_and_iff bit_or_iff)
    with a show False by simp
  qed
next
  assume "\<forall>n. 18 \<le> n \<and> n \<le> 21 \<longrightarrow> \<not> bit x n"
  then show "x AND stop_mask = 0"
    by (intro bit_word_eqI) (auto simp: stop_mask_def bit_and_iff bit_or_iff)
qed

lemma bit_stop_mask: "bit stop_mask n \<longleftrightarrow> 18 \<le> n \<and> n \<le> 21"
  by (auto simp: stop_mask_def bit_or_iff)

text \<open>No stop signal is pending together with \<^verbatim>\<open>SIGCONT\<close>.\<close>

definition stop_cont_excl :: "task_struct \<Rightarrow> bool" where
  "stop_cont_excl t \<longleftrightarrow> t_signal t AND stop_mask = 0 \<or> \<not> bit (t_signal t) (SIGCONT - 1)"

lemma stop_cont_excl_alt:
  "stop_cont_excl t \<longleftrightarrow> (\<forall>n. 18 \<le> n \<and> n \<le> 21 \<longrightarrow> \<not> bit (t_signal t) n) \<or> \<not> bit (t_signal t) 17"
  by (simp add: stop_cont_excl_def stop_mask_zero)

lemma post_signal_bits:
  "bit (t_signal (post_signal sig t)) n \<longleftrightarrow>
     (let ign = sa_handler (t_sigaction t (sig - 1)) = 1;
          old = bit (t_signal t) n \<and> \<not> ((sig = SIGKILL \<or> sig = SIGCONT) \<and> 18 \<le> n \<and> n \<le> 21)
      in if ign then old
         else old \<and> \<not> (sig \<ge> SIGSTOP \<and> sig \<le> SIGTTOU \<and> n = 17) \<or> n = sig - 1 \<and> n < 32)"
  by (auto simp: post_signal_def Let_def bit_and_iff bit_or_iff bit_not_iff bit_stop_mask
        dest: bit_imp_le_length)

text \<open>
  C21. A signal is posted so that a task never has a stop signal and \<^verbatim>\<open>SIGCONT\<close> pending together;
  \<^verbatim>\<open>SIGKILL\<close> and \<^verbatim>\<open>SIGCONT\<close> leave the task not stopped and without pending stop signals, even
  where it ignores them.
\<close>

theorem post_signal_exclusive:
  assumes "stop_cont_excl t"
  shows "stop_cont_excl (post_signal sig t)
     \<and> (sig = SIGCONT \<or> sig = SIGKILL \<longrightarrow> t_state (post_signal sig t) \<noteq> TASK_STOPPED
          \<and> t_signal (post_signal sig t) AND stop_mask = 0)"
proof (intro conjI impI)
  show "stop_cont_excl (post_signal sig t)"
    using assms unfolding stop_cont_excl_alt post_signal_bits Let_def by auto
  assume s: "sig = SIGCONT \<or> sig = SIGKILL"
  then show "t_state (post_signal sig t) \<noteq> TASK_STOPPED"
    by (auto simp: post_signal_def Let_def)
  show "t_signal (post_signal sig t) AND stop_mask = 0"
    using s unfolding stop_mask_zero post_signal_bits Let_def by auto
qed

theorem post_signal_exclusive_witness:
  "stop_cont_excl (post_signal SIGSTOP (blank_task\<lparr>t_signal := sigbit SIGCONT\<rparr>))"
  by (rule conjunct1 [OF post_signal_exclusive]) (simp add: stop_cont_excl_alt)

end
