(* ===== verification/Files.thy ===== *)
theory Files
  imports Signal
begin

text \<open>
  The data of \<^verbatim>\<open>include/linux/fs.h\<close> that tasks refer to, the table of inodes and the table
  of open files, and \<^verbatim>\<open>fs/file_table.c\<close>.
\<close>

abbreviation (input) NR_INODE :: nat where "NR_INODE \<equiv> 64"
abbreviation (input) NR_FILE :: nat where "NR_FILE \<equiv> 64"

text \<open>The fields \<^verbatim>\<open>i_wait\<close> and \<^verbatim>\<open>i_wait2\<close> of inode \<open>i\<close> are \<open>wq s (I_wait i)\<close> and
  \<open>wq s (I_wait2 i)\<close>.\<close>

record m_inode =
  i_mode :: u16
  i_uid :: u16
  i_size :: u32
  i_mtime :: u32
  i_gid :: u8
  i_nlinks :: u8
  i_zone :: "nat \<Rightarrow> u16"
  i_atime :: u32
  i_ctime :: u32
  i_dev :: u16
  i_num :: u16
  i_count :: u16
  i_lock :: u8
  i_dirt :: u8
  i_pipe :: u8
  i_mount :: u8
  i_seek :: u8
  i_update :: u8

record file_struct =
  f_mode :: u16
  f_flags :: u16
  f_count :: u16
  f_inode :: "nat option"
  f_pos :: int

record files = mm +
  inode_table :: "nat \<Rightarrow> m_inode"
  file_table :: "nat \<Rightarrow> file_struct"
  ACC_MODE_INFO :: "nat \<Rightarrow> u8"

definition mod_inode :: "nat \<Rightarrow> (m_inode \<Rightarrow> m_inode) \<Rightarrow> 'a files_scheme \<Rightarrow> 'a files_scheme" where
  "mod_inode i f s = s\<lparr>inode_table := (inode_table s)(i := f (inode_table s i))\<rparr>"

definition mod_file :: "nat \<Rightarrow> (file_struct \<Rightarrow> file_struct) \<Rightarrow> 'a files_scheme \<Rightarrow> 'a files_scheme" where
  "mod_file i f s = s\<lparr>file_table := (file_table s)(i := f (file_table s i))\<rparr>"

definition file_table_init :: "'a files_scheme \<Rightarrow> 'a files_scheme" where
  "file_table_init s =
     s\<lparr>file_table := (\<lambda>i. if i < NR_FILE
         then \<lparr>f_mode = 0, f_flags = 0, f_count = 0, f_inode = None, f_pos = 0\<rparr> else file_table s i),
       ACC_MODE_INFO := (ACC_MODE_INFO s)(0 := 4, 1 := 2, 2 := 6, 3 := 255, 4 := 0)\<rparr>"

lemmas [kdefs] = mod_inode_def mod_file_def

end
