(* ===== verification/Fork.thy ===== *)
theory Fork
  imports Files
begin

text \<open>
  \<^verbatim>\<open>kernel/fork.c\<close>: choosing a process number and copying a process, and \<^verbatim>\<open>release\<close> of
  \<^verbatim>\<open>kernel/exit.c\<close>, which takes a dead process off the task table and the process tree.
\<close>

section \<open>Process numbers\<close>

text \<open>One step of \<^verbatim>\<open>if ((++last_pid)<0) last_pid=1;\<close>.\<close>

definition next_pid :: "int \<Rightarrow> int" where
  "next_pid pid = (let n = s32 (pid + 1) in if n < 0 then 1 else n)"

definition pid_in_use :: "int \<Rightarrow> 'a sched_scheme \<Rightarrow> bool" where
  "pid_in_use pid s \<longleftrightarrow> list_ex (\<lambda>i. task s i \<noteq> 0
     \<and> (t_pid (tstruct s (task s i)) = pid \<or> t_pgrp (tstruct s (task s i)) = pid)) [0..<NR_TASKS]"

partial_function (option) pid_loop :: "int \<Rightarrow> 'a sched_scheme \<Rightarrow> int option" where
  "pid_loop pid s =
     (let n = next_pid pid in if pid_in_use n s then pid_loop n s else Some n)"

definition find_empty_process :: "'a sched_scheme \<Rightarrow> (int \<times> 'a sched_scheme) option" where
  "find_empty_process s = do {
     n \<leftarrow> pid_loop (last_pid s) s;
     let s = s\<lparr>last_pid := n\<rparr>;
     case List.find (\<lambda>i. task s i = 0) [1..<NR_TASKS] of
       Some i \<Rightarrow> Some (int i, s)
     | None \<Rightarrow> Some (- EAGAIN, s)
   }"

section \<open>Copying a process\<close>

text \<open>\<^verbatim>\<open>get_limit(0x0f)\<close> and \<^verbatim>\<open>get_limit(0x17)\<close> are the limits of entries 1 and 2 of the
  LDT of the current task.\<close>

definition segment_limit :: "u32 \<Rightarrow> 'a sched_scheme \<Rightarrow> u32" where
  "segment_limit sel s = get_limit (\<lambda>seg. t_ldt (cur s) (unat (drop_bit 3 seg))) sel"

definition set_task_base :: "task_ptr \<Rightarrow> u32 \<Rightarrow> 'a sched_scheme \<Rightarrow> 'a sched_scheme" where
  "set_task_base p base = mod_task p (\<lambda>t. t\<lparr>t_start_code := base,
     t_ldt := (t_ldt t)(1 := set_base (t_ldt t 1) base, 2 := set_base (t_ldt t 2) base)\<rparr>)"

definition copy_mem ::
  "'a mm_scheme world \<Rightarrow> nat \<Rightarrow> task_ptr \<Rightarrow> 'a mm_scheme \<Rightarrow> (int \<times> 'a mm_scheme) option" where
  "copy_mem w nr p s =
     (let code_limit = segment_limit 0x0f s;
          data_limit = segment_limit 0x17 s;
          old_code_base = get_base (t_ldt (cur s) 1);
          old_data_base = get_base (t_ldt (cur s) 2);
          new_base = of_nat nr * TASK_SIZE
      in if old_data_base \<noteq> old_code_base then None
      else if data_limit < code_limit then None
      else do {
        (err, s) \<leftarrow> copy_page_tables w old_data_base new_base data_limit (set_task_base p new_base s);
        if err \<noteq> 0
        then do {
          (r, s) \<leftarrow> free_page_tables new_base data_limit s;
          Some (- ENOMEM, s)
        }
        else Some (0, s)
      })"

text \<open>The registers of the parent, the arguments of \<^verbatim>\<open>copy_process\<close>.\<close>

record fork_regs =
  fr_ebp :: u32
  fr_edi :: u32
  fr_esi :: u32
  fr_gs :: u32
  fr_ebx :: u32
  fr_ecx :: u32
  fr_edx :: u32
  fr_fs :: u32
  fr_es :: u32
  fr_ds :: u32
  fr_eip :: u32
  fr_cs :: u32
  fr_eflags :: u32
  fr_esp :: u32
  fr_ss :: u32

definition child_tss :: "nat \<Rightarrow> task_ptr \<Rightarrow> fork_regs \<Rightarrow> tss_struct \<Rightarrow> tss_struct" where
  "child_tss nr p r t = t\<lparr>tss_back_link := 0, tss_esp0 := 4096 + p, tss_ss0 := 0x10,
     tss_eip := fr_eip r, tss_eflags := fr_eflags r, tss_eax := 0, tss_ecx := fr_ecx r,
     tss_edx := fr_edx r, tss_ebx := fr_ebx r, tss_esp := fr_esp r, tss_ebp := fr_ebp r,
     tss_esi := fr_esi r, tss_edi := fr_edi r, tss_es := fr_es r AND 0xffff,
     tss_cs := fr_cs r AND 0xffff, tss_ss := fr_ss r AND 0xffff, tss_ds := fr_ds r AND 0xffff,
     tss_fs := fr_fs r AND 0xffff, tss_gs := fr_gs r AND 0xffff, tss_ldt := LDT_sel nr,
     tss_trace_bitmap := 0x80000000\<rparr>"

definition child_task :: "nat \<Rightarrow> task_ptr \<Rightarrow> fork_regs \<Rightarrow> 'a sched_scheme \<Rightarrow> task_struct" where
  "child_task nr p r s =
     (let t = cur s in
      t\<lparr>t_state := TASK_UNINTERRUPTIBLE, t_pid := last_pid s, t_counter := t_priority t,
        t_signal := 0, t_alarm := 0, t_leader := 0, t_utime := 0, t_stime := 0, t_cutime := 0,
        t_cstime := 0, t_start_time := jiffies s, t_tss := child_tss nr p r (t_tss t)\<rparr>)"

text \<open>The reference counts of what the child shares with its parent.\<close>

definition share_files :: "task_ptr \<Rightarrow> 'a files_scheme \<Rightarrow> 'a files_scheme" where
  "share_files p s0 =
     fold (\<lambda>i s. case t_filp (tstruct s p) i of
             None \<Rightarrow> s
           | Some f \<Rightarrow> mod_file f (\<lambda>x. x\<lparr>f_count := f_count x + 1\<rparr>) s) [0..<NR_OPEN] s0"

definition share_inode :: "nat option \<Rightarrow> 'a files_scheme \<Rightarrow> 'a files_scheme" where
  "share_inode i s =
     (case i of None \<Rightarrow> s | Some n \<Rightarrow> mod_inode n (\<lambda>x. x\<lparr>i_count := i_count x + 1\<rparr>) s)"

text \<open>The links of the process tree: the child becomes the youngest child of its parent.\<close>

definition link_child :: "task_ptr \<Rightarrow> 'a sched_scheme \<Rightarrow> 'a sched_scheme" where
  "link_child p s0 =
     (let s = mod_task p (\<lambda>t. t\<lparr>p_pptr := current s0, p_cptr := 0, p_ysptr := 0,
                p_osptr := p_cptr (cur s0)\<rparr>) s0;
          older = p_osptr (tstruct s p);
          s = (if older \<noteq> 0 then mod_task older (\<lambda>t. t\<lparr>p_ysptr := p\<rparr>) s else s)
      in mod_cur (\<lambda>t. t\<lparr>p_cptr := p\<rparr>) s)"

definition copy_process ::
  "'a files_scheme world \<Rightarrow> nat \<Rightarrow> fork_regs \<Rightarrow> 'a files_scheme \<Rightarrow> (int \<times> 'a files_scheme) option" where
  "copy_process w nr r s = do {
     (p, s) \<leftarrow> get_free_page w s;
     if p = 0 then Some (- EAGAIN, s)
     else do {
       let s = s\<lparr>task := (task s)(nr := p)\<rparr>;
       let s = mod_task p (\<lambda>_. child_task nr p r s) s;
       (err, s) \<leftarrow> copy_mem w nr p s;
       if err \<noteq> 0
       then do {
         s \<leftarrow> free_page p (s\<lparr>task := (task s)(nr := 0)\<rparr>);
         Some (- EAGAIN, s)
       }
       else do {
         let s = share_files p s;
         let s = share_inode (t_pwd (cur s)) s;
         let s = share_inode (t_root (cur s)) s;
         let s = share_inode (t_executable (cur s)) s;
         let s = share_inode (t_library (cur s)) s;
         let s = (if t_pid (cur s) = 0
                  then mod_task p (\<lambda>t. t\<lparr>t_ldt := (t_ldt t)
                         (1 := (t_ldt t 1)\<lparr>desc_a := 0x3FFF\<rparr>, 2 := (t_ldt t 2)\<lparr>desc_a := 0x3FFF\<rparr>)\<rparr>) s
                  else s);
         let s = s\<lparr>gdt := set_tss_desc (nr * 2 + 4) (p + TSS_OFFSET) (gdt s)\<rparr>;
         let s = s\<lparr>gdt := set_ldt_desc (nr * 2 + 5) (p + LDT_OFFSET) (gdt s)\<rparr>;
         let s = link_child p s;
         Some (last_pid s, set_state TASK_RUNNING p s)
       }
     }
   }"

section \<open>Releasing a process\<close>

definition unlink_child :: "task_ptr \<Rightarrow> 'a sched_scheme \<Rightarrow> 'a sched_scheme" where
  "unlink_child p s0 =
     (let t = tstruct s0 p;
          s = (if p_osptr t \<noteq> 0 then mod_task (p_osptr t) (\<lambda>x. x\<lparr>p_ysptr := p_ysptr t\<rparr>) s0 else s0);
          t = tstruct s p
      in if p_ysptr t \<noteq> 0 then mod_task (p_ysptr t) (\<lambda>x. x\<lparr>p_osptr := p_osptr t\<rparr>) s
         else mod_task (p_pptr t) (\<lambda>x. x\<lparr>p_cptr := p_osptr t\<rparr>) s)"

definition release :: "'a mm_scheme world \<Rightarrow> task_ptr \<Rightarrow> 'a mm_scheme \<Rightarrow> 'a mm_scheme option" where
  "release w p s =
     (if p = 0 then Some s
      else if p = current s then Some s
      else case List.find (\<lambda>i. task s i = p) [1..<NR_TASKS] of
        None \<Rightarrow> None
      | Some i \<Rightarrow> do {
          s \<leftarrow> free_page p (unlink_child p (s\<lparr>task := (task s)(i := 0)\<rparr>));
          schedule w s
        })"

section \<open>The audit of the process tree\<close>

definition bad_task_ptr :: "task_ptr \<Rightarrow> 'a sched_scheme \<Rightarrow> bool" where
  "bad_task_ptr p s \<longleftrightarrow> p \<noteq> 0 \<and> \<not> list_ex (\<lambda>i. task s i = p) [0..<NR_TASKS]"

text \<open>\<^verbatim>\<open>audit_ptree\<close> prints a warning for each broken link; \<open>audit_task\<close> holds when it prints
  none for task \<open>q\<close>.\<close>

definition audit_task :: "task_ptr \<Rightarrow> 'a sched_scheme \<Rightarrow> bool" where
  "audit_task q s \<longleftrightarrow>
     (let t = tstruct s q; link = tstruct s in
      \<not> bad_task_ptr (p_pptr t) s \<and> \<not> bad_task_ptr (p_cptr t) s
      \<and> \<not> bad_task_ptr (p_ysptr t) s \<and> \<not> bad_task_ptr (p_osptr t) s
      \<and> p_pptr t \<noteq> q \<and> p_cptr t \<noteq> q \<and> p_ysptr t \<noteq> q \<and> p_osptr t \<noteq> q
      \<and> (p_osptr t \<noteq> 0 \<longrightarrow> p_pptr (link (p_osptr t)) = p_pptr t \<and> p_ysptr (link (p_osptr t)) = q)
      \<and> (p_ysptr t \<noteq> 0 \<longrightarrow> p_pptr (link (p_ysptr t)) = p_pptr t \<and> p_osptr (link (p_ysptr t)) = q)
      \<and> (p_cptr t \<noteq> 0 \<longrightarrow> p_pptr (link (p_cptr t)) = q \<and> p_ysptr (link (p_cptr t)) = 0))"

definition audit_ptree :: "'a sched_scheme \<Rightarrow> bool" where
  "audit_ptree s \<longleftrightarrow> list_all (\<lambda>i. task s i \<noteq> 0 \<longrightarrow> audit_task (task s i) s) [1..<NR_TASKS]"

lemmas [kdefs] = next_pid_def pid_in_use_def find_empty_process_def copy_mem_def copy_process_def
  link_child_def unlink_child_def release_def audit_task_def audit_ptree_def bad_task_ptr_def

section \<open>Choosing a process number\<close>

lemma next_pid_range: "0 \<le> next_pid p \<and> next_pid p < 2 ^ 31"
  using s32_range [of "p + 1"] by (auto simp: next_pid_def Let_def)

lemma next_pid_step: "0 \<le> p \<Longrightarrow> p < 2 ^ 31 - 1 \<Longrightarrow> next_pid p = p + 1"
  by (simp add: next_pid_def Let_def)

lemma next_pid_wrap [simp]: "next_pid 2147483647 = 1"
  by (simp add: next_pid_def Let_def s32_def)

lemma next_pid_pos: "0 \<le> p \<Longrightarrow> p < 2 ^ 31 \<Longrightarrow> 0 < next_pid p"
  using next_pid_step [of p] by (cases "p = 2147483647") auto

text \<open>Counted from \<open>p\<close>, the numbers the loop tries are \<open>p + 1, p + 2, \<dots>\<close> modulo \<open>2^31 - 1\<close>.\<close>

lemma next_pid_iterate:
  "0 \<le> p \<Longrightarrow> p < 2 ^ 31 \<Longrightarrow> 0 < k \<Longrightarrow> (next_pid ^^ k) p = (p + int k - 1) mod (2 ^ 31 - 1) + 1"
proof (induction k)
  case (Suc k)
  show ?case
  proof (cases "k = 0")
    case True
    show ?thesis
    proof (cases "p = 2147483647")
      case False
      with Suc.prems True next_pid_step [of p] show ?thesis by simp
    qed (use True in simp)
  next
    case False
    define m where "m = (p + int k - 1) mod (2 ^ 31 - 1)"
    have m: "0 \<le> m" "m < 2 ^ 31 - 1" by (simp_all add: m_def)
    have eq: "(p + int k) mod (2 ^ 31 - 1) = (m + 1) mod (2 ^ 31 - 1)"
      by (simp add: m_def mod_simps algebra_simps)
    have "(next_pid ^^ Suc k) p = next_pid (m + 1)" using Suc False by (simp add: m_def)
    also have "\<dots> = (m + 1) mod (2 ^ 31 - 1) + 1"
    proof (cases "m = 2 ^ 31 - 2")
      case True
      then show ?thesis by simp
    next
      case False
      with m next_pid_step [of "m + 1"] show ?thesis by simp
    qed
    finally show ?thesis using eq by (simp add: algebra_simps)
  qed
qed simp

lemma next_pid_iterates_distinct:
  assumes "0 \<le> p" "p < 2 ^ 31" "n < 2 ^ 31 - 1"
  shows "inj_on (\<lambda>k. (next_pid ^^ k) p) {1..n}"
proof (rule inj_onI)
  fix i j assume i: "i \<in> {1..n}" and j: "j \<in> {1..n}" and e: "(next_pid ^^ i) p = (next_pid ^^ j) p"
  then have "(p + int i - 1) mod (2 ^ 31 - 1) = (p + int j - 1) mod (2 ^ 31 - 1)"
    using next_pid_iterate [of p i] next_pid_iterate [of p j] assms by auto
  then have "2 ^ 31 - 1 dvd int i - int j"
    by (simp add: mod_eq_dvd_iff)
  moreover have "\<bar>int i - int j\<bar> < 2 ^ 31 - 1" using i j assms(3) by auto
  ultimately have "int i - int j = 0"
    using zdvd_not_zless [of "\<bar>int i - int j\<bar>" "2 ^ 31 - 1"] by fastforce
  then show "i = j" by simp
qed


lemma pids_in_use: "finite {p. pid_in_use p s} \<and> card {p. pid_in_use p s} \<le> 128"
proof -
  let ?pid = "(\<lambda>i. t_pid (tstruct s (task s i))) ` {..<64}"
  let ?pgrp = "(\<lambda>i. t_pgrp (tstruct s (task s i))) ` {..<64}"
  have sub: "{p. pid_in_use p s} \<subseteq> ?pid \<union> ?pgrp"
    by (auto simp: pid_in_use_def list_ex_iff)
  have "card (?pid \<union> ?pgrp) \<le> card ?pid + card ?pgrp" by (rule card_Un_le)
  also have "\<dots> \<le> 64 + 64"
    by (intro add_mono) (use card_image_le [of "{..<64::nat}"] in fastforce)+
  finally show ?thesis
    using card_mono [OF _ sub] finite_subset [OF sub] by (simp add: order_trans)
qed

lemma unused_pid_near:
  assumes "0 \<le> p" "p < 2 ^ 31"
  shows "\<exists>k\<in>{1..129}. \<not> pid_in_use ((next_pid ^^ k) p) s"
proof (rule ccontr)
  let ?f = "\<lambda>k. (next_pid ^^ k) p"
  assume "\<not> ?thesis"
  then have "?f ` {1..129} \<subseteq> {p. pid_in_use p s}" by auto
  then have "card (?f ` {1..129}) \<le> 128" using pids_in_use [of s] by (meson card_mono order_trans)
  moreover have "card (?f ` {1..129}) = 129"
    using card_image [OF next_pid_iterates_distinct [OF assms, of 129]] by simp
  ultimately show False by simp
qed

lemma pid_loop_finds:
  "\<not> pid_in_use ((next_pid ^^ Suc k) p) s \<Longrightarrow>
   \<exists>j\<le>k. pid_loop p s = Some ((next_pid ^^ Suc j) p) \<and> \<not> pid_in_use ((next_pid ^^ Suc j) p) s"
proof (induction k arbitrary: p)
  case 0
  then show ?case by (subst pid_loop.simps) (simp add: Let_def)
next
  case (Suc k)
  show ?case
  proof (cases "pid_in_use (next_pid p) s")
    case True
    have *: "(next_pid ^^ Suc n) (next_pid p) = (next_pid ^^ Suc (Suc n)) p" for n
      by (metis comp_apply funpow_Suc_right)
    have "\<not> pid_in_use ((next_pid ^^ Suc k) (next_pid p)) s" using Suc.prems unfolding * .
    from Suc.IH [OF this] obtain j where "j \<le> k"
      "pid_loop (next_pid p) s = Some ((next_pid ^^ Suc (Suc j)) p)"
      "\<not> pid_in_use ((next_pid ^^ Suc (Suc j)) p) s"
      unfolding * by blast
    with True show ?thesis
      by (intro exI [of _ "Suc j"]) (simp add: pid_loop.simps [of p] Let_def)
  next
    case False
    then show ?thesis
      by (intro exI [of _ 0]) (simp add: pid_loop.simps [of p] Let_def)
  qed
qed

text \<open>
  C11. \<^verbatim>\<open>find_empty_process\<close> always returns. The new process number is positive, within 129 steps of
  the previous one and not in use as a process or group number; the slot is the first empty
  one, and \<^verbatim>\<open>-EAGAIN\<close> is returned exactly when the table is full.
\<close>

theorem find_empty_process_finds:
  assumes "0 \<le> last_pid s" "last_pid s < 2 ^ 31"
  shows "\<exists>n r. find_empty_process s = Some (r, s\<lparr>last_pid := n\<rparr>)
     \<and> 0 < n \<and> n < 2 ^ 31 \<and> \<not> pid_in_use n s
     \<and> (\<exists>k\<in>{1..129}. n = (next_pid ^^ k) (last_pid s))
     \<and> (r = - EAGAIN \<and> (\<forall>i\<in>{1..<64}. task s i \<noteq> 0)
        \<or> (\<exists>i\<in>{1..<64}. r = int i \<and> task s i = 0 \<and> (\<forall>j\<in>{1..<i}. task s j \<noteq> 0)))"
proof -
  from unused_pid_near [OF assms] obtain k where "k \<in> {1..129}"
    "\<not> pid_in_use ((next_pid ^^ k) (last_pid s)) s" by blast
  then obtain m where m: "m < 129" "\<not> pid_in_use ((next_pid ^^ Suc m) (last_pid s)) s"
    by (metis Suc_pred' atLeastAtMost_iff less_le_trans less_eq_Suc_le lessI zero_less_one
        less_Suc_eq_le Suc_leI numeral_eq_Suc pred_numeral_simps(3))
  from pid_loop_finds [OF m(2)] obtain j where j: "j \<le> m"
    "pid_loop (last_pid s) s = Some ((next_pid ^^ Suc j) (last_pid s))"
    "\<not> pid_in_use ((next_pid ^^ Suc j) (last_pid s)) s" by blast
  define n where "n = (next_pid ^^ Suc j) (last_pid s)"
  have n: "0 < n" "n < 2 ^ 31"
    using next_pid_iterate [OF assms, of "Suc j"] pos_mod_bound [of "2 ^ 31 - 1" "last_pid s + int j"]
      pos_mod_sign [of "2 ^ 31 - 1" "last_pid s + int j"]
    unfolding n_def by simp_all
  show ?thesis
  proof (cases "List.find (\<lambda>i. task s i = 0) [1..<NR_TASKS]")
    case None
    then have "find_empty_process s = Some (- EAGAIN, s\<lparr>last_pid := n\<rparr>)"
      using j(2) by (simp add: find_empty_process_def n_def)
    moreover have "\<forall>i\<in>{1..<64}. task s i \<noteq> 0" using None by (auto simp: find_None_iff)
    ultimately show ?thesis using n j m(1) n_def by (intro exI conjI bexI [of _ "Suc j"]) auto
  next
    case (Some i)
    then have "find_empty_process s = Some (int i, s\<lparr>last_pid := n\<rparr>)"
      using j(2) by (simp add: find_empty_process_def n_def)
    moreover have "i \<in> {1..<64} \<and> task s i = 0 \<and> (\<forall>j\<in>{1..<i}. task s j \<noteq> 0)"
      using find_upt_SomeD [OF Some] by auto
    ultimately show ?thesis using n j m(1) n_def
      by (intro exI [of _ n] exI [of _ "int i"] conjI bexI [of _ "Suc j"]) auto
  qed
qed

theorem find_empty_process_finds_witness:
  "\<exists>n r. find_empty_process blank_sched = Some (r, blank_sched\<lparr>last_pid := n\<rparr>) \<and> 0 < n"
  using find_empty_process_finds [of blank_sched] by (auto simp: blank_sched_def)

section \<open>The process tree\<close>

text \<open>The first part of \<open>audit_task\<close> that holds of task 0 as well, whose parent is itself.\<close>

definition child_link :: "task_ptr \<Rightarrow> 'a sched_scheme \<Rightarrow> bool" where
  "child_link q s \<longleftrightarrow>
     (let c = p_cptr (tstruct s q) in
      \<not> bad_task_ptr c s \<and> c \<noteq> q \<and> (c \<noteq> 0 \<longrightarrow> p_pptr (tstruct s c) = q \<and> p_ysptr (tstruct s c) = 0))"

text \<open>\<open>p_osptr\<close> leads to older siblings: with an age for every process no list of siblings is a
  ring, which the audit alone would accept.\<close>

definition older_siblings :: "(task_ptr \<Rightarrow> nat) \<Rightarrow> 'a sched_scheme \<Rightarrow> bool" where
  "older_siblings age s \<longleftrightarrow> (\<forall>i<NR_TASKS. task s i \<noteq> 0 \<longrightarrow> p_osptr (tstruct s (task s i)) \<noteq> 0 \<longrightarrow>
     age (p_osptr (tstruct s (task s i))) < age (task s i))"

text \<open>Task 0 has no parent and no siblings, as \<^verbatim>\<open>sched_init\<close> leaves it.\<close>

definition root_alone :: "'a sched_scheme \<Rightarrow> bool" where
  "root_alone s \<longleftrightarrow> (let t = tstruct s (task s 0) in
     p_pptr t = 0 \<and> p_osptr t = 0 \<and> p_ysptr t = 0)"

definition ptree_ok :: "'a sched_scheme \<Rightarrow> bool" where
  "ptree_ok s \<longleftrightarrow> audit_ptree s \<and> task s 0 \<noteq> 0 \<and> child_link (task s 0) s
     \<and> root_alone s \<and> (\<exists>age. older_siblings age s)
     \<and> (\<forall>i<NR_TASKS. \<forall>j<NR_TASKS. task s i = task s j \<longrightarrow> task s i = 0 \<or> i = j)"

lemma audit_child_link: "audit_task q s \<Longrightarrow> child_link q s"
  by (simp add: audit_task_def child_link_def Let_def)

lemma bad_task_ptr_iff: "bad_task_ptr p s \<longleftrightarrow> p \<noteq> 0 \<and> (\<forall>i<NR_TASKS. task s i \<noteq> p)"
  by (auto simp: bad_task_ptr_def list_ex_iff)

lemma bad_task_ptr_0 [simp]: "\<not> bad_task_ptr 0 s"
  by (simp add: bad_task_ptr_def)

lemma audit_taskI:
  assumes "\<not> bad_task_ptr (p_pptr (tstruct s q)) s" "\<not> bad_task_ptr (p_cptr (tstruct s q)) s"
    "\<not> bad_task_ptr (p_ysptr (tstruct s q)) s" "\<not> bad_task_ptr (p_osptr (tstruct s q)) s"
    "p_pptr (tstruct s q) \<noteq> q" "p_cptr (tstruct s q) \<noteq> q" "p_ysptr (tstruct s q) \<noteq> q" "p_osptr (tstruct s q) \<noteq> q"
    "\<And>r. p_osptr (tstruct s q) = r \<Longrightarrow> r \<noteq> 0 \<Longrightarrow>
       p_pptr (tstruct s r) = p_pptr (tstruct s q) \<and> p_ysptr (tstruct s r) = q"
    "\<And>r. p_ysptr (tstruct s q) = r \<Longrightarrow> r \<noteq> 0 \<Longrightarrow>
       p_pptr (tstruct s r) = p_pptr (tstruct s q) \<and> p_osptr (tstruct s r) = q"
    "\<And>r. p_cptr (tstruct s q) = r \<Longrightarrow> r \<noteq> 0 \<Longrightarrow> p_pptr (tstruct s r) = q \<and> p_ysptr (tstruct s r) = 0"
  shows "audit_task q s"
  using assms by (simp add: audit_task_def)

lemma audit_taskD:
  assumes "audit_task q s"
  shows "\<not> bad_task_ptr (p_pptr (tstruct s q)) s" "\<not> bad_task_ptr (p_cptr (tstruct s q)) s"
    "\<not> bad_task_ptr (p_ysptr (tstruct s q)) s" "\<not> bad_task_ptr (p_osptr (tstruct s q)) s"
    "p_pptr (tstruct s q) \<noteq> q" "p_cptr (tstruct s q) \<noteq> q" "p_ysptr (tstruct s q) \<noteq> q" "p_osptr (tstruct s q) \<noteq> q"
    "p_osptr (tstruct s q) = r \<Longrightarrow> r \<noteq> 0 \<Longrightarrow>
       p_pptr (tstruct s r) = p_pptr (tstruct s q) \<and> p_ysptr (tstruct s r) = q"
    "p_ysptr (tstruct s q) = r \<Longrightarrow> r \<noteq> 0 \<Longrightarrow>
       p_pptr (tstruct s r) = p_pptr (tstruct s q) \<and> p_osptr (tstruct s r) = q"
    "p_cptr (tstruct s q) = r \<Longrightarrow> r \<noteq> 0 \<Longrightarrow> p_pptr (tstruct s r) = q \<and> p_ysptr (tstruct s r) = 0"
  using assms by (auto simp: audit_task_def Let_def)

lemma ptree_okD:
  assumes "ptree_ok s" "i < NR_TASKS" "task s i \<noteq> 0"
  shows "child_link (task s i) s" and "0 < i \<Longrightarrow> audit_task (task s i) s"
  using assms by (cases i; auto simp: ptree_ok_def audit_ptree_def list_all_iff intro: audit_child_link)+

lemma ptree_okI:
  assumes "\<And>i. 0 < i \<Longrightarrow> i < NR_TASKS \<Longrightarrow> task s i \<noteq> 0 \<Longrightarrow> audit_task (task s i) s"
    and "task s 0 \<noteq> 0" "child_link (task s 0) s" "root_alone s" "older_siblings age s"
    and "\<And>i j. i < NR_TASKS \<Longrightarrow> j < NR_TASKS \<Longrightarrow> task s i = task s j \<Longrightarrow> task s i = 0 \<or> i = j"
  shows "ptree_ok s"
  using assms by (auto simp: ptree_ok_def audit_ptree_def list_all_iff)


subsection \<open>Linking a child\<close>

text \<open>\<open>linked p c o' s s'\<close>: the links of \<open>s'\<close> are those of \<open>s\<close> with \<open>p\<close> as the youngest child
  of \<open>c\<close>, before the child \<open>o'\<close>.\<close>

definition linked :: "task_ptr \<Rightarrow> task_ptr \<Rightarrow> task_ptr \<Rightarrow> 'a sched_scheme \<Rightarrow> 'a sched_scheme \<Rightarrow> bool" where
  "linked p c o' s s' \<longleftrightarrow> (\<forall>x.
     p_pptr (tstruct s' x) = (if x = p then c else p_pptr (tstruct s x))
     \<and> p_cptr (tstruct s' x) = (if x = p then 0 else if x = c then p else p_cptr (tstruct s x))
     \<and> p_ysptr (tstruct s' x) = (if x = p then 0 else if x = o' \<and> o' \<noteq> 0 then p else p_ysptr (tstruct s x))
     \<and> p_osptr (tstruct s' x) = (if x = p then o' else p_osptr (tstruct s x)))"

lemma linkedD:
  assumes "linked p c o' s s'"
  shows "p_pptr (tstruct s' x) = (if x = p then c else p_pptr (tstruct s x))"
    "p_cptr (tstruct s' x) = (if x = p then 0 else if x = c then p else p_cptr (tstruct s x))"
    "p_ysptr (tstruct s' x) = (if x = p then 0 else if x = o' \<and> o' \<noteq> 0 then p else p_ysptr (tstruct s x))"
    "p_osptr (tstruct s' x) = (if x = p then o' else p_osptr (tstruct s x))"
  using assms by (simp_all add: linked_def)

lemma link_child_linked:
  fixes s :: "'a sched_scheme"
  assumes "current s \<noteq> p" "p_cptr (cur s) \<noteq> p" "p_cptr (cur s) \<noteq> current s"
  shows "linked p (current s) (p_cptr (cur s)) s (link_child p (s\<lparr>task := (task s)(nr := p)\<rparr>))"
proof -
  define s' where "s' = link_child p (s\<lparr>task := (task s)(nr := p)\<rparr>)"
  define o' where "o' = p_cptr (cur s)"
  define s1 where "s1 = mod_task p (\<lambda>t. t\<lparr>p_pptr := current s, p_cptr := 0, p_ysptr := 0,
     p_osptr := o'\<rparr>) (s\<lparr>task := (task s)(nr := p)\<rparr>)"
  define s2 where "s2 = (if o' \<noteq> 0 then mod_task o' (\<lambda>t. t\<lparr>p_ysptr := p\<rparr>) s1 else s1)"
  have t1: "tstruct s1 x = (if x = p then (tstruct s p)\<lparr>p_pptr := current s, p_cptr := 0,
      p_ysptr := 0, p_osptr := o'\<rparr> else tstruct s x)" for x
    by (simp add: s1_def)
  have c1: "current s1 = current s" by (simp add: s1_def)
  have t2: "tstruct s2 x = (if x = o' \<and> o' \<noteq> 0 then (tstruct s1 x)\<lparr>p_ysptr := p\<rparr> else tstruct s1 x)" for x
    by (simp add: s2_def)
  have c2: "current s2 = current s" by (simp add: s2_def c1)
  have "s' = mod_cur (\<lambda>t. t\<lparr>p_cptr := p\<rparr>) s2"
    unfolding s'_def link_child_def Let_def by (simp add: s2_def s1_def o'_def)
  then have t3: "tstruct s' x = (if x = current s then (tstruct s2 x)\<lparr>p_cptr := p\<rparr> else tstruct s2 x)" for x
    by (simp add: c2)
  show ?thesis
    using assms by (simp add: linked_def s'_def [symmetric] o'_def [symmetric] t3 t2 t1)
qed

lemma linked_audit:
  assumes "linked p c o' s s'" and B: "\<And>x. bad_task_ptr x s' \<longleftrightarrow> x \<noteq> p \<and> bad_task_ptr x s"
    and a: "audit_task q s" "q \<noteq> p" "q \<noteq> 0" and Bp: "bad_task_ptr p s"
    and o': "o' \<noteq> p" "o' \<noteq> c" "o' \<noteq> 0 \<Longrightarrow> p_pptr (tstruct s o') = c"
      "o' \<noteq> 0 \<Longrightarrow> p_ysptr (tstruct s o') = 0"
  shows "audit_task q s'"
proof -
  note L = linkedD [OF assms(1)]
  show ?thesis
    proof (rule audit_taskI)
      fix r assume "p_osptr (tstruct s' q) = r" "r \<noteq> 0"
      then have "p_osptr (tstruct s q) = r" using a(2) by (simp add: L)
      with a audit_taskD(4,9) [OF a(1)] Bp \<open>r \<noteq> 0\<close> o' show
        "p_pptr (tstruct s' r) = p_pptr (tstruct s' q) \<and> p_ysptr (tstruct s' r) = q"
        by (auto simp: L)
    next
      fix r assume r: "p_ysptr (tstruct s' q) = r" "r \<noteq> 0"
      show "p_pptr (tstruct s' r) = p_pptr (tstruct s' q) \<and> p_osptr (tstruct s' r) = q"
      proof (cases "q = o'")
        case True
        then show ?thesis using r a o' by (simp add: L)
      next
        case False
        then have "p_ysptr (tstruct s q) = r" using r a(2) by (simp add: L)
        with a audit_taskD(3,10) [OF a(1)] Bp r(2) show ?thesis by (auto simp: L)
      qed
    next
      fix r assume r: "p_cptr (tstruct s' q) = r" "r \<noteq> 0"
      show "p_pptr (tstruct s' r) = q \<and> p_ysptr (tstruct s' r) = 0"
      proof (cases "q = c")
        case True
        then show ?thesis using r a by (simp add: L)
      next
        case False
        then have "p_cptr (tstruct s q) = r" using r a(2) by (simp add: L)
        with a audit_taskD(2,11) [OF a(1)] Bp r(2) o'(3) False show ?thesis by (auto simp: L)
      qed
    qed (use a(2) audit_taskD(1-8) [OF a(1)] Bp in \<open>auto simp: L B\<close>)
qed

lemma linked_older:
  assumes "linked p c o' s s'" "older_siblings age s" "ptree_ok s" "\<forall>i<NR_TASKS. task s i \<noteq> p"
    and T: "\<And>i. task s' i = (if i = nr then p else task s i)" and o': "o' \<noteq> p" and Bp: "bad_task_ptr p s"
  shows "older_siblings (age(p := Suc (age o'))) s'"
proof -
  note L = linkedD [OF assms(1)]
  show ?thesis
      unfolding older_siblings_def
    proof (intro allI impI)
      fix i assume i: "i < NR_TASKS" "task s' i \<noteq> 0" "p_osptr (tstruct s' (task s' i)) \<noteq> 0"
      show "(age(p := Suc (age o'))) (p_osptr (tstruct s' (task s' i))) < (age(p := Suc (age o'))) (task s' i)"
      proof (cases "i = nr")
        case False
        define q where "q = task s i"
        have q: "q \<noteq> p" "task s' i = q" "p_osptr (tstruct s q) \<noteq> 0" "q \<noteq> 0"
          using i False assms(4) by (auto simp: q_def T L)
        have "p_osptr (tstruct s q) \<noteq> p"
        proof (cases "i = 0")
          case True
          then show ?thesis using assms(3) q by (simp add: q_def ptree_ok_def root_alone_def)
        next
          case False
          then show ?thesis
            using Bp audit_taskD(4) [OF ptree_okD(2) [OF assms(3) i(1)]] q by (auto simp: q_def)
        qed
        moreover have "age (p_osptr (tstruct s q)) < age q"
          using assms(2) i(1) q unfolding older_siblings_def q_def by blast
        ultimately show ?thesis using q by (simp add: L)
      qed (use o' i(3) in \<open>simp add: T L\<close>)
    qed
qed

text \<open>
  C13. \<^verbatim>\<open>copy_process\<close> hangs a new process into the process tree as the youngest child of its
  parent: if \<^verbatim>\<open>audit_ptree\<close> found no broken link before, it finds none after.
\<close>

theorem link_child_keeps_tree:
  assumes "ptree_ok s" and "cs < NR_TASKS" "current s = task s cs" "current s \<noteq> 0"
    and "0 < nr" "nr < NR_TASKS" "task s nr = 0" and "p \<noteq> 0" "\<forall>i<NR_TASKS. task s i \<noteq> p"
  shows "ptree_ok (link_child p (s\<lparr>task := (task s)(nr := p)\<rparr>))
     \<and> p_cptr (cur (link_child p (s\<lparr>task := (task s)(nr := p)\<rparr>))) = p"
proof -
  define s' where "s' = link_child p (s\<lparr>task := (task s)(nr := p)\<rparr>)"
  define o' where "o' = p_cptr (cur s)"
  have cp: "current s \<noteq> p" using assms by auto
  have o': "o' \<noteq> p" "o' \<noteq> current s" "o' \<noteq> 0 \<Longrightarrow> p_pptr (tstruct s o') = current s"
    "o' \<noteq> 0 \<Longrightarrow> p_ysptr (tstruct s o') = 0" "\<not> bad_task_ptr o' s"
    using ptree_okD(1) [of s cs] assms by (auto simp: child_link_def Let_def o'_def bad_task_ptr_iff)
  have T: "task s' i = (if i = nr then p else task s i)" and C: "current s' = current s" for i
    by (simp_all add: s'_def link_child_def Let_def)
  have lk: "linked p (current s) o' s s'"
    using link_child_linked [of s p nr] cp o' by (simp add: s'_def o'_def)
  note L = linkedD [OF lk]
  have B: "bad_task_ptr x s' \<longleftrightarrow> x \<noteq> p \<and> bad_task_ptr x s" for x
    using assms(6,7,8) by (auto simp: bad_task_ptr_iff T)
  have bad: "bad_task_ptr p s" "\<not> bad_task_ptr (current s) s"
    using assms by (auto simp: bad_task_ptr_iff)
  obtain age where age: "older_siblings age s" using assms(1) by (auto simp: ptree_ok_def)
  have "ptree_ok s'"
  proof (rule ptree_okI)
    fix i assume i: "0 < i" "i < NR_TASKS" "task s' i \<noteq> 0"
    show "audit_task (task s' i) s'"
      using linked_audit [OF lk B _ _ _ bad(1) o'(1-4), of "task s i"] i ptree_okD(2) [OF assms(1), of i]
        assms(8,9) cp o' bad(2)
      by (cases "i = nr") (auto simp: T audit_task_def [of p] Let_def L B)
  next
    show "older_siblings (age(p := Suc (age o'))) s'"
      by (rule linked_older [OF lk age assms(1,9) T o'(1) bad(1)])
    have z: "child_link (task s 0) s" "task s 0 \<noteq> p" "task s 0 \<noteq> 0" using assms(1,9) by (auto simp: ptree_ok_def)
    then have "child_link (task s 0) s'"
      using bad(1) o' unfolding child_link_def Let_def L B by auto
    then show "child_link (task s' 0) s'" using assms(5) by (simp add: T)
    show "root_alone s'"
      using assms(1,4,5) z o' unfolding ptree_ok_def root_alone_def T L Let_def by auto
  qed (use assms(1,5,9) in \<open>auto simp: T ptree_ok_def split: if_splits\<close>)
  then show ?thesis using cp by (simp add: s'_def [symmetric] C L)
qed

text \<open>Task 0 forks process 1, which exits again.\<close>

definition root_only :: sched where
  "root_only = blank_sched\<lparr>task := (\<lambda>i. if i = 0 then 0x12000 else 0),
     tstruct := (\<lambda>_. blank_task)\<rparr>"

lemma root_only_ok: "ptree_ok root_only"
  by (auto simp: ptree_ok_def audit_ptree_def root_only_def child_link_def root_alone_def
      older_siblings_def blank_task_def blank_sched_def list_all_iff)

theorem link_child_keeps_tree_witness:
  "ptree_ok (link_child 0x20000 (root_only\<lparr>task := (task root_only)(1 := 0x20000)\<rparr>))"
  by (rule conjunct1 [OF link_child_keeps_tree [OF root_only_ok, of 0]])
    (simp_all add: root_only_def blank_sched_def)

subsection \<open>Unlinking a child\<close>

definition unlinked :: "task_ptr \<Rightarrow> 'a sched_scheme \<Rightarrow> 'a sched_scheme \<Rightarrow> bool" where
  "unlinked p s s' \<longleftrightarrow> (let y = p_ysptr (tstruct s p); e = p_osptr (tstruct s p); P = p_pptr (tstruct s p) in
     \<forall>x. p_pptr (tstruct s' x) = p_pptr (tstruct s x)
       \<and> p_cptr (tstruct s' x) = (if y = 0 \<and> x = P then e else p_cptr (tstruct s x))
       \<and> p_ysptr (tstruct s' x) = (if x = e \<and> e \<noteq> 0 then y else p_ysptr (tstruct s x))
       \<and> p_osptr (tstruct s' x) = (if x = y \<and> y \<noteq> 0 then e else p_osptr (tstruct s x)))"

lemma unlinkedD:
  assumes "unlinked p s s'"
  shows "p_pptr (tstruct s' x) = p_pptr (tstruct s x)"
    "p_cptr (tstruct s' x) = (if p_ysptr (tstruct s p) = 0 \<and> x = p_pptr (tstruct s p)
       then p_osptr (tstruct s p) else p_cptr (tstruct s x))"
    "p_ysptr (tstruct s' x) = (if x = p_osptr (tstruct s p) \<and> p_osptr (tstruct s p) \<noteq> 0
       then p_ysptr (tstruct s p) else p_ysptr (tstruct s x))"
    "p_osptr (tstruct s' x) = (if x = p_ysptr (tstruct s p) \<and> p_ysptr (tstruct s p) \<noteq> 0
       then p_osptr (tstruct s p) else p_osptr (tstruct s x))"
  using assms by (simp_all add: unlinked_def Let_def)

lemma unlink_child_unlinked:
  assumes "p_osptr (tstruct s p) \<noteq> p"
  shows "unlinked p s (unlink_child p (s\<lparr>task := (task s)(nr := 0)\<rparr>))"
proof -
  define s' where "s' = unlink_child p (s\<lparr>task := (task s)(nr := 0)\<rparr>)"
  define y where "y = p_ysptr (tstruct s p)"
  define e where "e = p_osptr (tstruct s p)"
  define P where "P = p_pptr (tstruct s p)"
  define s1 where "s1 = (let s = s\<lparr>task := (task s)(nr := 0)\<rparr> in
     if e \<noteq> 0 then mod_task e (\<lambda>x. x\<lparr>p_ysptr := y\<rparr>) s else s)"
  have t1: "tstruct s1 x = (if x = e \<and> e \<noteq> 0 then (tstruct s x)\<lparr>p_ysptr := y\<rparr> else tstruct s x)" for x
    by (simp add: s1_def Let_def)
  have p1: "tstruct s1 p = tstruct s p" using assms by (simp add: t1 e_def)
  have "s' = (if y \<noteq> 0 then mod_task y (\<lambda>x. x\<lparr>p_osptr := e\<rparr>) s1 else mod_task P (\<lambda>x. x\<lparr>p_cptr := e\<rparr>) s1)"
    using p1 unfolding s'_def unlink_child_def Let_def
    by (simp add: s1_def y_def e_def P_def Let_def)
  then have t2: "tstruct s' x = (if y \<noteq> 0 then if x = y then (tstruct s1 x)\<lparr>p_osptr := e\<rparr> else tstruct s1 x
     else if x = P then (tstruct s1 x)\<lparr>p_cptr := e\<rparr> else tstruct s1 x)" for x
    by simp
  show ?thesis
    by (auto simp add: unlinked_def s'_def [symmetric] y_def [symmetric] e_def [symmetric] P_def [symmetric]
        Let_def t2 t1)
qed

text \<open>What the audit says of a process that is unlinked, and of the ages of its siblings.\<close>

definition between_siblings :: "task_ptr \<Rightarrow> (task_ptr \<Rightarrow> nat) \<Rightarrow> 'a sched_scheme \<Rightarrow> bool" where
  "between_siblings p age s \<longleftrightarrow> audit_task p s
     \<and> (p_osptr (tstruct s p) \<noteq> 0 \<longrightarrow> age (p_osptr (tstruct s p)) < age p)
     \<and> (p_ysptr (tstruct s p) \<noteq> 0 \<longrightarrow> age p < age (p_ysptr (tstruct s p)))"

lemma unlinked_audit:
  assumes "unlinked p s s'" "between_siblings p age s" and p0: "p \<noteq> 0"
    and B: "\<And>x. bad_task_ptr x s' \<longleftrightarrow> x \<noteq> 0 \<and> (x = p \<or> bad_task_ptr x s)"
    and q: "audit_task q s" "q \<noteq> p" "q \<noteq> 0" "p_pptr (tstruct s q) \<noteq> p"
  shows "audit_task q s'"
proof -
  define y where "y = p_ysptr (tstruct s p)"
  define e where "e = p_osptr (tstruct s p)"
  define P where "P = p_pptr (tstruct s p)"
  note L = unlinkedD [OF assms(1), folded y_def e_def P_def]
  have d: "e \<noteq> p" "y \<noteq> p" "P \<noteq> p"
     "e \<noteq> 0 \<Longrightarrow> p_pptr (tstruct s e) = P \<and> p_ysptr (tstruct s e) = p"
     "y \<noteq> 0 \<Longrightarrow> p_pptr (tstruct s y) = P \<and> p_osptr (tstruct s y) = p"
     "\<not> bad_task_ptr e s" "\<not> bad_task_ptr y s"
    using assms(2) by (auto simp: between_siblings_def audit_task_def Let_def y_def e_def P_def)
  have ey: "y \<noteq> e" if "e \<noteq> 0"
    using assms(2) that by (auto simp: between_siblings_def y_def e_def)
  show ?thesis
    proof (rule audit_taskI)
      fix r assume r: "p_osptr (tstruct s' q) = r" "r \<noteq> 0"
      show "p_pptr (tstruct s' r) = p_pptr (tstruct s' q) \<and> p_ysptr (tstruct s' r) = q"
      proof (cases "q = y")
        case True
        then show ?thesis using r q d by (simp add: L)
      next
        case False
        then have "p_osptr (tstruct s q) = r" using r(1) by (simp add: L)
        with q audit_taskD(9) [OF q(1)] r(2) d show ?thesis by (auto simp: L)
      qed
    next
      fix r assume r: "p_ysptr (tstruct s' q) = r" "r \<noteq> 0"
      show "p_pptr (tstruct s' r) = p_pptr (tstruct s' q) \<and> p_osptr (tstruct s' r) = q"
      proof (cases "q = e")
        case True
        then show ?thesis using r q d by (simp add: L)
      next
        case False
        then have "p_ysptr (tstruct s q) = r" using r(1) by (simp add: L)
        with q audit_taskD(10) [OF q(1)] r(2) d show ?thesis by (auto simp: L)
      qed
    next
      fix r assume r: "p_cptr (tstruct s' q) = r" "r \<noteq> 0"
      show "p_pptr (tstruct s' r) = q \<and> p_ysptr (tstruct s' r) = 0"
      proof (cases "y = 0 \<and> q = P")
        case True
        then show ?thesis using r q d by (simp add: L)
      next
        case False
        then have "p_cptr (tstruct s q) = r" using r(1) by (simp add: L split: if_splits)
        with q audit_taskD(11) [OF q(1)] r(2) d False p0 show ?thesis by (auto simp: L y_def P_def)
      qed
    next
      show "\<not> bad_task_ptr (p_pptr (tstruct s' q)) s'"
        using audit_taskD(1) [OF q(1)] q(4) by (simp add: L B)
      show "\<not> bad_task_ptr (p_cptr (tstruct s' q)) s'"
        using audit_taskD(2) [OF q(1)] audit_taskD(11) [OF q(1) refl] p0 q(3) d(1,6)
        unfolding L B by (cases "y = 0 \<and> q = P") (auto simp: y_def P_def)
      show "\<not> bad_task_ptr (p_ysptr (tstruct s' q)) s'"
        using audit_taskD(3) [OF q(1)] audit_taskD(10) [OF q(1) refl] p0 q(3) d(2,7)
        unfolding L B by (cases "q = e") (auto simp: e_def)
      show "\<not> bad_task_ptr (p_osptr (tstruct s' q)) s'"
        using audit_taskD(4) [OF q(1)] audit_taskD(9) [OF q(1) refl] p0 q(3) d(1,6)
        unfolding L B by (cases "q = y") (auto simp: y_def)
      show "p_pptr (tstruct s' q) \<noteq> q" using audit_taskD(5) [OF q(1)] by (simp add: L)
      show "p_cptr (tstruct s' q) \<noteq> q" using audit_taskD(5,6) [OF q(1)] q(3) d(4) by (auto simp: L)
      show "p_ysptr (tstruct s' q) \<noteq> q" using audit_taskD(7) [OF q(1)] ey by (auto simp: L)
      show "p_osptr (tstruct s' q) \<noteq> q" using audit_taskD(8) [OF q(1)] ey by (auto simp: L)
    qed
qed

lemma unlinked_older:
  assumes "unlinked p s s'" "between_siblings p age s" and age: "older_siblings age s"
    and T: "\<And>i. task s' i = (if i = nr then 0 else task s i)"
  shows "older_siblings age s'"
proof -
  define y where "y = p_ysptr (tstruct s p)"
  define e where "e = p_osptr (tstruct s p)"
  note L = unlinkedD [OF assms(1), folded y_def e_def]
  have ages: "age e < age p" if "e \<noteq> 0"
    using assms(2) that by (simp add: between_siblings_def e_def)
  have agey: "age p < age y" if "y \<noteq> 0"
    using assms(2) that by (simp add: between_siblings_def y_def)
  show ?thesis
      unfolding older_siblings_def
    proof (intro allI impI)
      fix i assume i: "i < NR_TASKS" "task s' i \<noteq> 0" "p_osptr (tstruct s' (task s' i)) \<noteq> 0"
      define q where "q = task s i"
      have q: "task s' i = q" "q \<noteq> 0" using i by (auto simp: q_def T split: if_splits)
      show "age (p_osptr (tstruct s' (task s' i))) < age (task s' i)"
      proof (cases "q = y \<and> y \<noteq> 0")
        case True
        then show ?thesis using i(3) ages agey q less_trans [OF ages agey] by (auto simp: L)
      next
        case False
        then have "p_osptr (tstruct s' q) = p_osptr (tstruct s q)" by (auto simp: L)
        then show ?thesis using age i(1,3) q unfolding older_siblings_def by (simp add: q_def)
      qed
    qed
qed

text \<open>
  C14. \<^verbatim>\<open>release\<close> takes a childless dead process off the task table and out of its parent's list
  of children, and leaves no broken link behind.
\<close>

theorem unlink_child_keeps_tree:
  assumes "ptree_ok s" and "0 < nr" "nr < NR_TASKS" "task s nr = p" "p \<noteq> 0"
    and "\<forall>i<NR_TASKS. task s i \<noteq> 0 \<longrightarrow> p_pptr (tstruct s (task s i)) \<noteq> p"
  shows "ptree_ok (unlink_child p (s\<lparr>task := (task s)(nr := 0)\<rparr>))"
proof -
  define s' where "s' = unlink_child p (s\<lparr>task := (task s)(nr := 0)\<rparr>)"
  have ap: "audit_task p s" using ptree_okD(2) [of s nr] assms by simp
  have ul: "unlinked p s s'" using unlink_child_unlinked [of s p nr] audit_taskD(8) [OF ap] by (simp add: s'_def)
  note L = unlinkedD [OF ul]
  have T: "task s' i = (if i = nr then 0 else task s i)" for i
    by (simp add: s'_def unlink_child_def Let_def)
  have B: "bad_task_ptr x s' \<longleftrightarrow> x \<noteq> 0 \<and> (x = p \<or> bad_task_ptr x s)" for x
    using assms(1,3,4,5) by (auto simp: bad_task_ptr_iff T ptree_ok_def)
  obtain age where age: "older_siblings age s" using assms(1) by (auto simp: ptree_ok_def)
  have bs: "between_siblings p age s"
  proof -
    have "age p < age y" if y: "y \<noteq> 0" "y = p_ysptr (tstruct s p)" for y
    proof -
      obtain j where j: "j < NR_TASKS" "task s j = y"
        using audit_taskD(3) [OF ap] y by (auto simp: bad_task_ptr_iff)
      with age audit_taskD(10) [OF ap y(2) [symmetric] y(1)] y assms(5) show ?thesis
        unfolding older_siblings_def by metis
    qed
    then show ?thesis
      using ap age assms(3-5) unfolding between_siblings_def older_siblings_def by blast
  qed
  have z: "child_link (task s 0) s" "task s 0 \<noteq> 0" "task s 0 \<noteq> p" "root_alone s"
    using assms(1-5) by (auto simp: ptree_ok_def) (metis less_trans neq0_conv)+
  have "ptree_ok s'"
  proof (rule ptree_okI)
    fix i assume i: "0 < i" "i < NR_TASKS" "task s' i \<noteq> 0"
    then have "task s' i = task s i" "task s i \<noteq> p" using assms(1-5)
      by (auto simp: T ptree_ok_def split: if_splits)
    then show "audit_task (task s' i) s'"
      using unlinked_audit [OF ul bs assms(5) B, of "task s i"] ptree_okD(2) [OF assms(1) i(2)] i assms(6) by simp
  next
    show "older_siblings age s'" by (rule unlinked_older [OF ul bs age T])
    have alone: "task s 0 \<noteq> p_ysptr (tstruct s p)" "task s 0 \<noteq> p_osptr (tstruct s p)"
      using z assms(5) audit_taskD(9,10) [OF ap refl] by (auto simp: root_alone_def Let_def)
    then have "child_link (task s 0) s'"
      using z(1-3) assms(5) audit_taskD [OF ap] unfolding child_link_def Let_def L B by auto
    then show "child_link (task s' 0) s'" using assms(2) by (simp add: T)
    show "root_alone s'" using z alone assms(2) by (simp add: root_alone_def T L Let_def)
  qed (use assms(1,2) z in \<open>auto simp: T ptree_ok_def split: if_splits\<close>)
  then show ?thesis by (simp add: s'_def)
qed

definition root_and_child :: sched where
  "root_and_child = root_only\<lparr>task := (\<lambda>i. if i = 0 then 0x12000 else if i = 1 then 0x20000 else 0),
     tstruct := (\<lambda>p. if p = 0x12000 then blank_task\<lparr>p_cptr := 0x20000\<rparr>
       else if p = 0x20000 then blank_task\<lparr>p_pptr := 0x12000\<rparr> else blank_task)\<rparr>"

lemma root_and_child_ok: "ptree_ok root_and_child"
proof (rule ptree_okI)
  show "audit_task (task root_and_child i) root_and_child"
    if "0 < i" "i < NR_TASKS" "task root_and_child i \<noteq> 0" for i
    using that by (auto simp: root_and_child_def audit_task_def bad_task_ptr_iff blank_task_def
        split: if_splits)
  show "older_siblings (\<lambda>_. 0) root_and_child"
    by (simp add: older_siblings_def root_and_child_def blank_task_def)
qed (auto simp: root_and_child_def child_link_def root_alone_def bad_task_ptr_iff blank_task_def
    split: if_splits)

theorem unlink_child_keeps_tree_witness:
  "ptree_ok (unlink_child 0x20000 (root_and_child\<lparr>task := (task root_and_child)(1 := 0)\<rparr>))"
  by (rule unlink_child_keeps_tree [OF root_and_child_ok])
    (simp_all add: root_and_child_def blank_task_def)

section \<open>Shared files\<close>

text \<open>The number of descriptors below \<open>n\<close> through which task \<open>p\<close> has file \<open>f\<close> open.\<close>

definition descriptors_of :: "nat \<Rightarrow> (nat \<Rightarrow> nat option) \<Rightarrow> nat \<Rightarrow> nat" where
  "descriptors_of n filp f = length (filter (\<lambda>i. filp i = Some f) [0..<n])"

text \<open>
  A process copied by \<^verbatim>\<open>copy_process\<close> shares the open files of its parent: the reference count
  of each file grows by the number of descriptors that name it, and nothing else changes.
\<close>

theorem share_files_counts:
  "share_files p s = s\<lparr>file_table := (\<lambda>f. (file_table s f)\<lparr>f_count :=
     f_count (file_table s f) + of_nat (descriptors_of NR_OPEN (t_filp (tstruct s p)) f)\<rparr>)\<rparr>"
proof -
  let ?g = "\<lambda>i s. case t_filp (tstruct s p) i of None \<Rightarrow> s
     | Some f \<Rightarrow> mod_file f (\<lambda>x. x\<lparr>f_count := f_count x + 1\<rparr>) s"
  have "fold ?g [0..<n] s = s\<lparr>file_table := (\<lambda>f. (file_table s f)\<lparr>f_count :=
     f_count (file_table s f) + of_nat (descriptors_of n (t_filp (tstruct s p)) f)\<rparr>)\<rparr>" for n
  proof (induction n)
    case 0
    show ?case by (simp add: descriptors_of_def)
  next
    case (Suc n)
    then show ?case
      by (auto simp: descriptors_of_def mod_file_def fun_eq_iff split: option.splits)
  qed
  then show ?thesis by (simp add: share_files_def)
qed

end
