(* ===== verification/Sys.thy ===== *)
theory Sys
  imports Fork "HOL-Library.Signed_Division"
begin

text \<open>
  \<^verbatim>\<open>kernel/sys.c\<close>: user and group numbers, sessions, clocks and limits; and
  \<^verbatim>\<open>sys_waitpid\<close> of \<^verbatim>\<open>kernel/exit.c\<close>.
\<close>

section \<open>State\<close>

record sys = files +
  tz_minuteswest :: u32
  tz_dsttime :: u32
  firsttime :: int
  thisname :: "nat \<Rightarrow> u8"

section \<open>Group numbers\<close>

text \<open>A C comparison of an \<^verbatim>\<open>unsigned short\<close> field with an \<^verbatim>\<open>int\<close> argument compares the
  values; a store keeps the low 16 bits.\<close>

definition sys_setregid :: "int \<Rightarrow> int \<Rightarrow> 'a sched_scheme \<Rightarrow> int \<times> 'a sched_scheme" where
  "sys_setregid rgid egid s0 =
     (if rgid > 0 \<and> \<not> (uint (t_gid (cur s0)) = rgid \<or> suser s0) then (- EPERM, s0)
      else let s = (if rgid > 0 then mod_cur (\<lambda>t. t\<lparr>t_gid := of_int rgid\<rparr>) s0 else s0) in
        if egid > 0
        then if uint (t_gid (cur s)) = egid \<or> uint (t_egid (cur s)) = egid \<or> suser s
             then (0, mod_cur (\<lambda>t. t\<lparr>t_egid := of_int egid, t_sgid := of_int egid\<rparr>) s)
             else (- EPERM, s)
        else (0, s))"

definition sys_setgid :: "int \<Rightarrow> 'a sched_scheme \<Rightarrow> int \<times> 'a sched_scheme" where
  "sys_setgid gid s =
     (if suser s
      then (0, mod_cur (\<lambda>t. t\<lparr>t_gid := of_int gid, t_egid := of_int gid, t_sgid := of_int gid\<rparr>) s)
      else if gid = uint (t_gid (cur s)) \<or> gid = uint (t_sgid (cur s))
      then (0, mod_cur (\<lambda>t. t\<lparr>t_egid := of_int gid\<rparr>) s)
      else (- EPERM, s))"

definition in_group_p :: "int \<Rightarrow> 'a sched_scheme \<Rightarrow> bool" where
  "in_group_p grp s \<longleftrightarrow>
     grp = uint (t_egid (cur s))
     \<or> grp \<in> set (takeWhile (\<lambda>g. g \<noteq> NOGROUP) (map (t_groups (cur s)) [0..<NGROUPS]))"

text \<open>\<^verbatim>\<open>verify_area\<close> gets \<^verbatim>\<open>sizeof(gid_t) * gidsetsize\<close>; the loop writes one 16-bit number at
  a time.\<close>

fun getgroups_loop :: "nat list \<Rightarrow> int \<Rightarrow> u32 \<Rightarrow> 'a sched_scheme \<Rightarrow> int \<times> 'a sched_scheme" where
  "getgroups_loop [] gidsetsize grouplist s = (int NGROUPS, s)"
| "getgroups_loop (i # is) gidsetsize grouplist s =
     (if t_groups (cur s) i = NOGROUP then (int i, s)
      else if gidsetsize \<noteq> 0 \<and> int i \<ge> gidsetsize then (- EINVAL, s)
      else getgroups_loop is gidsetsize (grouplist + 2)
             (if gidsetsize \<noteq> 0 then put_fs_word (of_int (t_groups (cur s) i)) grouplist s else s))"

definition sys_getgroups ::
  "'a mm_scheme world \<Rightarrow> int \<Rightarrow> u32 \<Rightarrow> 'a mm_scheme \<Rightarrow> (int \<times> 'a mm_scheme) option" where
  "sys_getgroups w gidsetsize grouplist s = do {
     s \<leftarrow> (if gidsetsize \<noteq> 0 then verify_area w grouplist (s32 (2 * gidsetsize)) s else Some s);
     Some (getgroups_loop [0..<NGROUPS] gidsetsize grouplist s)
   }"

definition set_group :: "nat \<Rightarrow> int \<Rightarrow> 'a sched_scheme \<Rightarrow> 'a sched_scheme" where
  "set_group i g s = mod_cur (\<lambda>t. t\<lparr>t_groups := (t_groups t)(i := g)\<rparr>) s"

text \<open>A negative size makes the loop body run zero times.\<close>

definition sys_setgroups :: "int \<Rightarrow> u32 \<Rightarrow> 'a sched_scheme \<Rightarrow> int \<times> 'a sched_scheme" where
  "sys_setgroups gidsetsize grouplist s0 =
     (if \<not> suser s0 then (- EPERM, s0)
      else if gidsetsize > int NGROUPS then (- EINVAL, s0)
      else let n = nat gidsetsize;
               s = fold (\<lambda>i s. set_group i (uint (get_fs_word (grouplist + 2 * of_nat i) s)) s) [0..<n] s0
           in (0, if n < NGROUPS then set_group n NOGROUP s else s))"

section \<open>User numbers\<close>

definition sys_setreuid :: "int \<Rightarrow> int \<Rightarrow> 'a sched_scheme \<Rightarrow> int \<times> 'a sched_scheme" where
  "sys_setreuid ruid euid s0 =
     (let old_ruid = t_uid (cur s0) in
      if ruid > 0 \<and> \<not> (uint (t_euid (cur s0)) = ruid \<or> uint old_ruid = ruid \<or> suser s0)
      then (- EPERM, s0)
      else let s = (if ruid > 0 then mod_cur (\<lambda>t. t\<lparr>t_uid := of_int ruid\<rparr>) s0 else s0) in
        if euid > 0
        then if uint old_ruid = euid \<or> uint (t_euid (cur s)) = euid \<or> suser s
             then (0, mod_cur (\<lambda>t. t\<lparr>t_euid := of_int euid, t_suid := of_int euid\<rparr>) s)
             else (- EPERM, mod_cur (\<lambda>t. t\<lparr>t_uid := old_ruid\<rparr>) s)
        else (0, s))"

definition sys_setuid :: "int \<Rightarrow> 'a sched_scheme \<Rightarrow> int \<times> 'a sched_scheme" where
  "sys_setuid uid s =
     (if suser s
      then (0, mod_cur (\<lambda>t. t\<lparr>t_uid := of_int uid, t_euid := of_int uid, t_suid := of_int uid\<rparr>) s)
      else if uid = uint (t_uid (cur s)) \<or> uid = uint (t_suid (cur s))
      then (0, mod_cur (\<lambda>t. t\<lparr>t_euid := of_int uid\<rparr>) s)
      else (- EPERM, s))"

section \<open>Time\<close>

definition sys_time :: "'a mm_scheme world \<Rightarrow> u32 \<Rightarrow> 'a mm_scheme \<Rightarrow> (u32 \<times> 'a mm_scheme) option" where
  "sys_time w tloc s =
     (let i = CURRENT_TIME s in
      if tloc \<noteq> 0 then do { s \<leftarrow> verify_area w tloc 4 s; Some (i, put_fs_long i tloc s) }
      else Some (i, s))"

definition sys_stime :: "u32 \<Rightarrow> 'a sched_scheme \<Rightarrow> int \<times> 'a sched_scheme" where
  "sys_stime tptr s =
     (if \<not> suser s then (- EPERM, s)
      else (0, s\<lparr>startup_time := get_fs_long tptr s - jiffies s div 100, jiffies_offset := 0\<rparr>))"

definition sys_times :: "'a mm_scheme world \<Rightarrow> u32 \<Rightarrow> 'a mm_scheme \<Rightarrow> (u32 \<times> 'a mm_scheme) option" where
  "sys_times w tbuf s = do {
     s \<leftarrow> (if tbuf \<noteq> 0
           then do {
             s \<leftarrow> verify_area w tbuf 16 s;
             Some (put_longs (map of_int [t_utime (cur s), t_stime (cur s), t_cutime (cur s),
                      t_cstime (cur s)]) tbuf s)
           }
           else Some s);
     Some (jiffies s, s)
   }"

definition adjust_clock :: "'a sys_scheme \<Rightarrow> 'a sys_scheme" where
  "adjust_clock s = s\<lparr>startup_time := startup_time s + tz_minuteswest s * 60\<rparr>"

text \<open>\<^verbatim>\<open>CT_TO_SECS\<close> and \<^verbatim>\<open>CT_TO_USECS\<close> on unsigned ticks.\<close>

definition CT_TO_SECS :: "u32 \<Rightarrow> u32" where
  "CT_TO_SECS x = x div 100"

definition CT_TO_USECS :: "u32 \<Rightarrow> u32" where
  "CT_TO_USECS x = (x mod 100) * 1000000 div 100"

definition sys_gettimeofday ::
  "'a sys_scheme world \<Rightarrow> u32 \<Rightarrow> u32 \<Rightarrow> 'a sys_scheme \<Rightarrow> (int \<times> 'a sys_scheme) option" where
  "sys_gettimeofday w tv tz s = do {
     s \<leftarrow> (if tv \<noteq> 0
           then do {
             s \<leftarrow> verify_area w tv 8 s;
             let ticks = jiffies s + jiffies_offset s;
             Some (put_longs [startup_time s + CT_TO_SECS ticks, CT_TO_USECS ticks] tv s)
           }
           else Some s);
     s \<leftarrow> (if tz \<noteq> 0
           then do {
             s \<leftarrow> verify_area w tz 8 s;
             Some (put_longs [tz_minuteswest s, tz_dsttime s] tz s)
           }
           else Some s);
     Some (0, s)
   }"

definition sys_settimeofday :: "u32 \<Rightarrow> u32 \<Rightarrow> 'a sys_scheme \<Rightarrow> int \<times> 'a sys_scheme" where
  "sys_settimeofday tv tz s0 =
     (if \<not> suser s0 then (- EPERM, s0)
      else let s = (if tz \<noteq> 0
                    then let s = s0\<lparr>tz_minuteswest := get_fs_long tz s0,
                                    tz_dsttime := get_fs_long (tz + 4) s0\<rparr>
                         in if firsttime s \<noteq> 0
                            then let s = s\<lparr>firsttime := 0\<rparr> in if tv = 0 then adjust_clock s else s
                            else s
                    else s0)
           in (0, if tv \<noteq> 0
                  then let sec = get_fs_long tv s; usec = get_fs_long (tv + 4) s
                       in s\<lparr>startup_time := sec - jiffies s div 100,
                            jiffies_offset := of_int (s32 (sint usec * 100) sdiv 1000000) - jiffies s mod 100\<rparr>
                  else s))"

section \<open>Sessions, memory, limits\<close>

definition sys_brk :: "u32 \<Rightarrow> 'a sched_scheme \<Rightarrow> u32 \<times> 'a sched_scheme" where
  "sys_brk end_data_seg s =
     (let t = cur s;
          s = (if end_data_seg \<ge> t_end_code t \<and> end_data_seg < t_start_stack t - 16384
               then mod_cur (\<lambda>t. t\<lparr>t_brk := end_data_seg\<rparr>) s else s)
      in (t_brk (cur s), s))"

definition sys_setpgid :: "int \<Rightarrow> int \<Rightarrow> 'a sched_scheme \<Rightarrow> int \<times> 'a sched_scheme" where
  "sys_setpgid pid0 pgid0 s =
     (let pid = (if pid0 = 0 then t_pid (cur s) else pid0);
          pgid = (if pgid0 = 0 then t_pid (cur s) else pgid0)
      in if pgid < 0 then (- EINVAL, s)
      else case List.find (\<lambda>i. task s i \<noteq> 0 \<and> t_pid (tstruct s (task s i)) = pid
               \<and> (p_pptr (tstruct s (task s i)) = current s \<or> task s i = current s)) [0..<NR_TASKS] of
        None \<Rightarrow> (- ESRCH, s)
      | Some i \<Rightarrow>
          let t = tstruct s (task s i) in
          if t_leader t \<noteq> 0 then (- EPERM, s)
          else if t_session t \<noteq> t_session (cur s)
                  \<or> pgid \<noteq> pid \<and> session_of_pgrp pgid s \<noteq> t_session (cur s)
          then (- EPERM, s)
          else (0, mod_task (task s i) (\<lambda>t. t\<lparr>t_pgrp := pgid\<rparr>) s))"

definition sys_getpgrp :: "'a sched_scheme \<Rightarrow> int" where
  "sys_getpgrp s = t_pgrp (cur s)"

definition sys_setsid :: "'a sched_scheme \<Rightarrow> int \<times> 'a sched_scheme" where
  "sys_setsid s =
     (if t_leader (cur s) \<noteq> 0 \<and> \<not> suser s then (- EPERM, s)
      else (t_pid (cur s), mod_cur (\<lambda>t. t\<lparr>t_leader := 1, t_session := t_pid t, t_pgrp := t_pid t,
              t_tty := - 1\<rparr>) s))"

text \<open>\<^verbatim>\<open>sizeof(struct utsname)\<close> is 512: four arrays of 64 bytes and one of 64 pointers. The node
  name starts at byte 64.\<close>

abbreviation (input) UTSNAME_SIZE :: nat where "UTSNAME_SIZE \<equiv> 512"
abbreviation (input) MAXHOSTNAMELEN :: nat where "MAXHOSTNAMELEN \<equiv> 8"

definition sys_uname :: "'a sys_scheme world \<Rightarrow> u32 \<Rightarrow> 'a sys_scheme \<Rightarrow> (int \<times> 'a sys_scheme) option" where
  "sys_uname w name s =
     (if name = 0 then Some (- EERROR, s)
      else do {
        s \<leftarrow> verify_area w name (int UTSNAME_SIZE) s;
        Some (0, fold (\<lambda>i s. put_fs_byte (thisname s i) (of_nat i + name) s) [0..<UTSNAME_SIZE] s)
      })"

fun hostname_loop :: "nat \<Rightarrow> nat \<Rightarrow> u32 \<Rightarrow> 'a sys_scheme \<Rightarrow> nat \<times> 'a sys_scheme" where
  "hostname_loop 0 i name s = (i, s)"
| "hostname_loop (Suc n) i name s =
     (let c = get_fs_byte (name + of_nat i) s; s = s\<lparr>thisname := (thisname s)(64 + i := c)\<rparr>
      in if c = 0 then (i, s) else hostname_loop n (i + 1) name s)"

definition sys_sethostname :: "u32 \<Rightarrow> int \<Rightarrow> 'a sys_scheme \<Rightarrow> int \<times> 'a sys_scheme" where
  "sys_sethostname name len s0 =
     (if \<not> suser s0 then (- EPERM, s0)
      else if len > int MAXHOSTNAMELEN then (- EINVAL, s0)
      else let (i, s) = hostname_loop (nat len) 0 name s0 in
        (0, if thisname s (64 + i) \<noteq> 0
            then s\<lparr>thisname := (thisname s)(64 + (if i \<ge> MAXHOSTNAMELEN then MAXHOSTNAMELEN else i) := 0)\<rparr>
            else s))"

text \<open>A negative \<^verbatim>\<open>resource\<close> passes the check and indexes in front of the array: \<open>None\<close>.\<close>

definition sys_getrlimit ::
  "'a mm_scheme world \<Rightarrow> int \<Rightarrow> u32 \<Rightarrow> 'a mm_scheme \<Rightarrow> (int \<times> 'a mm_scheme) option" where
  "sys_getrlimit w resource rlim s =
     (if resource \<ge> int RLIM_NLIMITS then Some (- EINVAL, s)
      else if resource < 0 then None
      else do {
        s \<leftarrow> verify_area w rlim 8 s;
        let l = t_rlim (cur s) (nat resource);
        Some (0, put_longs [of_int (rlim_cur l), of_int (rlim_max l)] rlim s)
      })"

definition sys_setrlimit :: "int \<Rightarrow> u32 \<Rightarrow> 'a sched_scheme \<Rightarrow> (int \<times> 'a sched_scheme) option" where
  "sys_setrlimit resource rlim s =
     (if resource \<ge> int RLIM_NLIMITS then Some (- EINVAL, s)
      else if resource < 0 then None
      else let old = t_rlim (cur s) (nat resource);
               new = \<lparr>rlim_cur = sint (get_fs_long rlim s), rlim_max = sint (get_fs_long (rlim + 4) s)\<rparr>
           in if (rlim_cur new > rlim_max old \<or> rlim_max new > rlim_max old) \<and> \<not> suser s
              then Some (- EPERM, s)
              else Some (0, mod_cur (\<lambda>t. t\<lparr>t_rlim := (t_rlim t)(nat resource := new)\<rparr>) s))"

text \<open>\<^verbatim>\<open>struct rusage\<close> is 18 words; all but the first four are zero. The ticks are signed.\<close>

definition rusage_words :: "int \<Rightarrow> int \<Rightarrow> u32 list" where
  "rusage_words ut st =
     map of_int [ut sdiv 100, s32 (ut smod 100 * 1000000) sdiv 100,
                 st sdiv 100, s32 (st smod 100 * 1000000) sdiv 100] @ replicate 14 0"

definition sys_getrusage ::
  "'a mm_scheme world \<Rightarrow> int \<Rightarrow> u32 \<Rightarrow> 'a mm_scheme \<Rightarrow> (int \<times> 'a mm_scheme) option" where
  "sys_getrusage w who ru s =
     (if who \<noteq> 0 \<and> who \<noteq> - 1 then Some (- EINVAL, s)
      else do {
        s \<leftarrow> verify_area w ru 72 s;
        let t = cur s;
        Some (0, put_longs (if who = 0 then rusage_words (t_utime t) (t_stime t)
                            else rusage_words (t_cutime t) (t_cstime t)) ru s)
      })"

definition sys_umask :: "int \<Rightarrow> 'a sched_scheme \<Rightarrow> int \<times> 'a sched_scheme" where
  "sys_umask msk s =
     (uint (t_umask (cur s)), mod_cur (\<lambda>t. t\<lparr>t_umask := of_int msk AND 511\<rparr>) s)"

section \<open>Waiting for children\<close>

abbreviation (input) WNOHANG :: u32 where "WNOHANG \<equiv> 1"
abbreviation (input) WUNTRACED :: u32 where "WUNTRACED \<equiv> 2"

text \<open>The children \<^verbatim>\<open>waitpid\<close> is asked about.\<close>

definition wait_selects :: "int \<Rightarrow> task_struct \<Rightarrow> task_struct \<Rightarrow> bool" where
  "wait_selects pid parent p \<longleftrightarrow>
     (if pid > 0 then t_pid p = pid
      else if pid = 0 then t_pgrp p = t_pgrp parent
      else if pid \<noteq> - 1 then t_pgrp p = - pid
      else True)"

text \<open>The \<^verbatim>\<open>for\<close> loop over the children, from \<open>p\<close> on: \<open>Inl\<close> is a return with its value,
  \<open>Inr\<close> the flag at the end of the loop.\<close>

partial_function (option) wait_scan ::
  "'a mm_scheme world \<Rightarrow> int \<Rightarrow> u32 \<Rightarrow> u32 \<Rightarrow> task_ptr \<Rightarrow> bool \<Rightarrow> 'a mm_scheme
     \<Rightarrow> ((int + bool) \<times> 'a mm_scheme) option" where
  "wait_scan w pid stat_addr options p flag s =
     (if p = 0 then Some (Inr flag, s)
      else let t = tstruct s p in
      if \<not> wait_selects pid (cur s) t then wait_scan w pid stat_addr options (p_osptr t) flag s
      else if t_state t = TASK_STOPPED
      then if options AND WUNTRACED = 0 \<or> t_exit_code t = 0
           then wait_scan w pid stat_addr options (p_osptr t) flag s
           else let s = put_fs_long (push_bit 8 (t_exit_code t) OR 0x7f) stat_addr s;
                    s = mod_task p (\<lambda>t. t\<lparr>t_exit_code := 0\<rparr>) s
                in Some (Inl (t_pid t), s)
      else if t_state t = TASK_ZOMBIE
      then do {
        let s = mod_cur (\<lambda>c. c\<lparr>t_cutime := t_cutime c + t_utime t, t_cstime := t_cstime c + t_stime t\<rparr>) s;
        let s = put_fs_long (t_exit_code t) stat_addr s;
        s \<leftarrow> release w p s;
        Some (Inl (t_pid t), s)
      }
      else wait_scan w pid stat_addr options (p_osptr t) True s)"

partial_function (option) wait_loop ::
  "'a mm_scheme world \<Rightarrow> int \<Rightarrow> u32 \<Rightarrow> u32 \<Rightarrow> 'a mm_scheme \<Rightarrow> (int \<times> 'a mm_scheme) option" where
  "wait_loop w pid stat_addr options s = do {
     (r, s) \<leftarrow> wait_scan w pid stat_addr options (p_cptr (cur s)) False s;
     case r of
       Inl v \<Rightarrow> Some (v, s)
     | Inr flag \<Rightarrow>
         if \<not> flag then Some (- ECHILD, s)
         else if options AND WNOHANG \<noteq> 0 then Some (0, s)
         else do {
           let oldblocked = t_blocked (cur s);
           s \<leftarrow> schedule w (mod_cur (\<lambda>t. t\<lparr>t_state := TASK_INTERRUPTIBLE,
                  t_blocked := t_blocked t AND NOT (sigbit SIGCHLD)\<rparr>) s);
           let s = mod_cur (\<lambda>t. t\<lparr>t_blocked := oldblocked\<rparr>) s;
           if t_signal (cur s) AND NOT (t_blocked (cur s) OR sigbit SIGCHLD) \<noteq> 0
           then Some (- ERESTARTSYS, s)
           else wait_loop w pid stat_addr options s
         }
   }"

definition sys_waitpid ::
  "'a mm_scheme world \<Rightarrow> int \<Rightarrow> u32 \<Rightarrow> u32 \<Rightarrow> 'a mm_scheme \<Rightarrow> (int \<times> 'a mm_scheme) option" where
  "sys_waitpid w pid stat_addr options s = do {
     s \<leftarrow> verify_area w stat_addr 4 s;
     wait_loop w pid stat_addr options s
   }"

lemmas [kdefs] = sys_setregid_def sys_setgid_def in_group_p_def sys_setreuid_def sys_setuid_def
  sys_brk_def sys_setpgid_def sys_setsid_def sys_umask_def wait_selects_def

section \<open>User numbers\<close>

definition uids :: "task_struct \<Rightarrow> u16 set" where
  "uids t = {t_uid t, t_euid t, t_suid t}"

text \<open>One call of \<^verbatim>\<open>setuid\<close> or \<^verbatim>\<open>setreuid\<close>.\<close>

inductive cred_step :: "'a sched_scheme \<Rightarrow> 'a sched_scheme \<Rightarrow> bool" where
  setuid: "cred_step s (snd (sys_setuid uid s))"
| setreuid: "cred_step s (snd (sys_setreuid ruid euid s))"

inductive_cases cred_stepE: "cred_step s s'"

lemma setuid_uids:
  "0 \<notin> uids (cur s) \<Longrightarrow> uids (cur (snd (sys_setuid uid s))) \<subseteq> uids (cur s)"
  by (auto simp: sys_setuid_def suser_def uids_def)

lemma setreuid_uids:
  "0 \<notin> uids (cur s) \<Longrightarrow> uids (cur (snd (sys_setreuid ruid euid s))) \<subseteq> uids (cur s)"
  by (auto simp: sys_setreuid_def suser_def uids_def Let_def)

text \<open>
  C20. A process that holds no superuser number cannot get one: whatever sequence of \<^verbatim>\<open>setuid\<close> and
  \<^verbatim>\<open>setreuid\<close> calls it makes, its real, effective and saved user numbers stay among those it
  started with.
\<close>

theorem credentials_confined:
  assumes "cred_step\<^sup>*\<^sup>* s s'" "0 \<notin> uids (cur s)"
  shows "uids (cur s') \<subseteq> uids (cur s)"
  using assms
proof (induction rule: rtranclp_induct)
  case (step t u)
  then have "0 \<notin> uids (cur t)" by auto
  with step show ?case by (elim cred_stepE) (use setuid_uids setreuid_uids in blast)+
qed simp

definition plain_user :: sched where
  "plain_user = blank_sched\<lparr>tstruct := (\<lambda>_. blank_task\<lparr>t_uid := 7, t_euid := 8, t_suid := 9\<rparr>)\<rparr>"

theorem credentials_confined_witness:
  "uids (cur (snd (sys_setreuid 8 7 (snd (sys_setuid 9 plain_user))))) \<subseteq> {7, 8, 9}"
proof -
  have "cred_step\<^sup>*\<^sup>* plain_user (snd (sys_setreuid 8 7 (snd (sys_setuid 9 plain_user))))"
    by (meson cred_step.intros rtranclp.intros)
  from credentials_confined [OF this] show ?thesis
    by (simp add: plain_user_def uids_def blank_task_def)
qed

end
