(* ===== verification/Dll.thy ===== *)
theory Dll
  imports Main
begin

text \<open>
  Doubly linked lists and rings over two pointer maps, for the hash chains and the free list of the
  buffer cache.
\<close>

section \<open>Doubly linked segments\<close>

text \<open>\<open>seg nx pv p h xs q\<close>: from \<open>h\<close> the pointers \<open>nx\<close> lead through \<open>xs\<close> to \<open>q\<close>, and \<open>pv\<close> leads back,
  from the first one to \<open>p\<close>.\<close>

fun seg :: "(nat \<Rightarrow> nat option) \<Rightarrow> (nat \<Rightarrow> nat option) \<Rightarrow> nat option \<Rightarrow> nat option \<Rightarrow> nat list \<Rightarrow> nat option \<Rightarrow> bool" where
  "seg nx pv p h [] q \<longleftrightarrow> h = q"
| "seg nx pv p h (x # xs) q \<longleftrightarrow> h = Some x \<and> pv x = p \<and> seg nx pv (Some x) (nx x) xs q"

lemma seg_cong:
  "\<lbrakk>\<And>x. x \<in> set xs \<Longrightarrow> nx' x = nx x; \<And>x. x \<in> set xs \<Longrightarrow> pv' x = pv x\<rbrakk>
   \<Longrightarrow> seg nx' pv' p h xs q = seg nx pv p h xs q"
  by (induction xs arbitrary: p h) auto

lemma seg_append:
  "seg nx pv p h (xs @ y # ys) q \<longleftrightarrow>
     seg nx pv p h xs (Some y) \<and> seg nx pv (if xs = [] then p else Some (last xs)) (Some y) (y # ys) q"
  by (induction xs arbitrary: p h) auto

lemma seg_hd: "seg nx pv p h xs q \<Longrightarrow> xs \<noteq> [] \<Longrightarrow> h = Some (hd xs) \<and> pv (hd xs) = p"
  by (cases xs) auto

lemma seg_last: "seg nx pv p h xs q \<Longrightarrow> xs \<noteq> [] \<Longrightarrow> nx (last xs) = q"
  by (induction xs arbitrary: p h) (auto split: if_splits)

text \<open>The ends of a segment can be redirected.\<close>

lemma seg_retarget:
  assumes "seg nx pv p h us q" "us \<noteq> []" "distinct us"
    and "\<And>x. x \<in> set us \<Longrightarrow> x \<noteq> last us \<Longrightarrow> nx' x = nx x" "nx' (last us) = q'"
    and "\<And>x. x \<in> set us \<Longrightarrow> x \<noteq> hd us \<Longrightarrow> pv' x = pv x" "pv' (hd us) = p'"
  shows "seg nx' pv' p' (Some (hd us)) us q'"
  using assms
proof (induction us arbitrary: p h p')
  case (Cons x xs)
  show ?case
  proof (cases "xs = []")
    case False
    have x: "x \<notin> set xs" "hd xs \<in> set xs" "last xs \<in> set xs" "nx x = Some (hd xs)" "pv (hd xs) = Some x"
      using Cons.prems(1,3) False seg_hd [of nx pv "Some x" "nx x" xs q] by auto
    have "seg nx' pv' (Some x) (Some (hd xs)) xs q'"
    proof (rule Cons.IH)
      show "seg nx pv (Some x) (nx x) xs q" using Cons.prems(1) by simp
      show "pv' (hd xs) = Some x" using Cons.prems(6) [of "hd xs"] x by auto
    qed (use Cons.prems False x in auto)
    moreover have "x \<noteq> last xs" using x by metis
    then have "nx' x = nx x" using Cons.prems(4) [of x] False by simp
    ultimately show ?thesis using Cons.prems(7) x by simp
  qed (use Cons.prems in auto)
qed simp

definition ring :: "(nat \<Rightarrow> nat option) \<Rightarrow> (nat \<Rightarrow> nat option) \<Rightarrow> nat list \<Rightarrow> bool" where
  "ring nx pv xs \<longleftrightarrow> xs \<noteq> [] \<and> distinct xs \<and> seg nx pv (Some (last xs)) (Some (hd xs)) xs (Some (hd xs))"

lemma ring_cong:
  "\<lbrakk>\<And>x. x \<in> set xs \<Longrightarrow> nx' x = nx x; \<And>x. x \<in> set xs \<Longrightarrow> pv' x = pv x\<rbrakk> \<Longrightarrow> ring nx' pv' xs = ring nx pv xs"
  using seg_cong [of xs nx' nx pv' pv] by (simp add: ring_def)

lemma ring_snoc:
  "ring nx pv (us @ [b]) \<longleftrightarrow> ring nx pv (b # us)"
proof (cases us)
  case (Cons u us')
  have "seg nx pv (Some b) (Some u) (us @ [b]) (Some u) \<longleftrightarrow>
      seg nx pv (Some b) (Some u) us (Some b) \<and> pv b = Some (last us) \<and> nx b = Some u"
    unfolding seg_append by (simp add: Cons)
  moreover have "seg nx pv (Some (last us)) (Some b) (b # us) (Some b) \<longleftrightarrow>
      pv b = Some (last us) \<and> nx b = Some u \<and> seg nx pv (Some b) (Some u) us (Some b)"
    by (auto simp: Cons)
  ultimately show ?thesis by (auto simp: ring_def Cons simp del: seg.simps)
qed simp

text \<open>A node is taken out of a ring, or put in before its first one.\<close>

lemma ring_remove:
  assumes "ring nx pv (b # us)" "us \<noteq> []"
    and "\<And>x. x \<in> set us \<Longrightarrow> x \<noteq> last us \<Longrightarrow> nx' x = nx x" "nx' (last us) = nx b"
    and "\<And>x. x \<in> set us \<Longrightarrow> x \<noteq> hd us \<Longrightarrow> pv' x = pv x" "pv' (hd us) = pv b"
  shows "ring nx' pv' us"
proof -
  have s: "pv b = Some (last us)" "seg nx pv (Some b) (nx b) us (Some b)" "distinct us"
    using assms(1,2) by (auto simp: ring_def)
  then have "nx b = Some (hd us)" using seg_hd assms(2) by blast
  with s assms show ?thesis
    unfolding ring_def by (auto intro: seg_retarget [OF s(2)])
qed

lemma ring_insert:
  assumes "ring nx pv us" "b \<notin> set us" "nx' b = Some (hd us)" "pv' b = Some (last us)"
    and "\<And>x. x \<in> set us \<Longrightarrow> x \<noteq> last us \<Longrightarrow> nx' x = nx x" "nx' (last us) = Some b"
    and "\<And>x. x \<in> set us \<Longrightarrow> x \<noteq> hd us \<Longrightarrow> pv' x = pv x" "pv' (hd us) = Some b"
  shows "ring nx' pv' (us @ [b])"
proof -
  have "seg nx' pv' (Some b) (Some (hd us)) us (Some b)"
    using assms by (intro seg_retarget) (auto simp: ring_def)
  with assms show ?thesis unfolding ring_snoc by (auto simp: ring_def)
qed

text \<open>A ring can be rotated to start at any of its nodes.\<close>

lemma ring_rotate: "ring nx pv (us @ vs) \<longleftrightarrow> ring nx pv (vs @ us)"
proof (induction vs arbitrary: us)
  case (Cons v vs)
  have "ring nx pv (us @ v # vs) = ring nx pv ((us @ [v]) @ vs)" by simp
  also have "\<dots> = ring nx pv ((vs @ us) @ [v])" using Cons [of "us @ [v]"] by simp
  also have "\<dots> = ring nx pv (v # vs @ us)" by (rule ring_snoc)
  finally show ?case by simp
qed simp

lemma ring_next: "ring nx pv (x # y # ys) \<Longrightarrow> nx x = Some y \<and> pv y = Some x"
  by (simp add: ring_def)

end
