(* ===== verification/Buffer.thy ===== *)
theory Buffer
  imports Sys Dll
begin

text \<open>
  \<^verbatim>\<open>fs/buffer.c\<close>: the buffer cache. Every buffer head is on a ring, the free list, and the
  buffers of a device are on doubly linked hash chains. A buffer head is its index in the array
  at \<^verbatim>\<open>start_buffer\<close>; the wait queue \<^verbatim>\<open>buffer_wait\<close> is \<open>wq s Buffer_wait\<close>.
\<close>

section \<open>State\<close>

abbreviation (input) NR_HASH :: nat where "NR_HASH \<equiv> 307"
abbreviation (input) BLOCK_SIZE :: nat where "BLOCK_SIZE \<equiv> 1024"

record cache = sys +
  start_buffer :: u32
  hash_table :: "nat \<Rightarrow> nat option"
  free_list :: "nat option"
  NR_BUFFERS :: nat

text \<open>\<^verbatim>\<open>sizeof(struct buffer_head)\<close> is 36.\<close>

abbreviation (input) BH_SIZE :: u32 where "BH_SIZE \<equiv> 36"

section \<open>Waiting and writing out\<close>

partial_function (option) wait_on_buffer ::
  "'a blk_scheme world \<Rightarrow> nat \<Rightarrow> 'a blk_scheme \<Rightarrow> 'a blk_scheme option" where
  "wait_on_buffer w bh s =
     (if b_lock (bufs s bh) \<noteq> 0
      then do { s \<leftarrow> sleep_on w (B_wait bh) s; wait_on_buffer w bh s }
      else Some s)"

text \<open>The loops over all buffers; \<^verbatim>\<open>NR_BUFFERS\<close> does not change after \<^verbatim>\<open>buffer_init\<close>.\<close>

fun sync_buffers :: "'a blk_scheme world \<Rightarrow> nat list \<Rightarrow> 'a blk_scheme \<Rightarrow> 'a blk_scheme option" where
  "sync_buffers w [] s = Some s"
| "sync_buffers w (bh # bhs) s = do {
     s \<leftarrow> wait_on_buffer w bh s;
     s \<leftarrow> (if b_dirt (bufs s bh) \<noteq> 0 then ll_rw_block w WRITE bh s else Some s);
     sync_buffers w bhs s
   }"

definition sys_sync :: "'a cache_scheme world \<Rightarrow> 'a cache_scheme \<Rightarrow> (int \<times> 'a cache_scheme) option" where
  "sys_sync w s = do {
     s \<leftarrow> w_sync_inodes w s;
     s \<leftarrow> sync_buffers w [0..<NR_BUFFERS s] s;
     Some (0, s)
   }"

fun sync_dev_buffers :: "'a blk_scheme world \<Rightarrow> u32 \<Rightarrow> nat list \<Rightarrow> 'a blk_scheme \<Rightarrow> 'a blk_scheme option" where
  "sync_dev_buffers w dev [] s = Some s"
| "sync_dev_buffers w dev (bh # bhs) s =
     (if ucast (b_dev (bufs s bh)) \<noteq> dev then sync_dev_buffers w dev bhs s
      else do {
        s \<leftarrow> wait_on_buffer w bh s;
        s \<leftarrow> (if ucast (b_dev (bufs s bh)) = dev \<and> b_dirt (bufs s bh) \<noteq> 0
              then ll_rw_block w WRITE bh s else Some s);
        sync_dev_buffers w dev bhs s
      })"

definition sync_dev :: "'a cache_scheme world \<Rightarrow> u32 \<Rightarrow> 'a cache_scheme \<Rightarrow> 'a cache_scheme option" where
  "sync_dev w dev s = do {
     s \<leftarrow> sync_dev_buffers w dev [0..<NR_BUFFERS s] s;
     s \<leftarrow> w_sync_inodes w s;
     sync_dev_buffers w dev [0..<NR_BUFFERS s] s
   }"

fun invalidate_loop :: "'a blk_scheme world \<Rightarrow> u32 \<Rightarrow> nat list \<Rightarrow> 'a blk_scheme \<Rightarrow> 'a blk_scheme option" where
  "invalidate_loop w dev [] s = Some s"
| "invalidate_loop w dev (bh # bhs) s =
     (if ucast (b_dev (bufs s bh)) \<noteq> dev then invalidate_loop w dev bhs s
      else do {
        s \<leftarrow> wait_on_buffer w bh s;
        invalidate_loop w dev bhs
          (if ucast (b_dev (bufs s bh)) = dev then mod_buf bh (\<lambda>b. b\<lparr>b_dirt := 0, b_uptodate := 0\<rparr>) s
           else s)
      })"

definition invalidate_buffers :: "'a cache_scheme world \<Rightarrow> u32 \<Rightarrow> 'a cache_scheme \<Rightarrow> 'a cache_scheme option" where
  "invalidate_buffers w dev s = invalidate_loop w dev [0..<NR_BUFFERS s] s"

section \<open>The hash table and the free list\<close>

definition hashfn :: "u32 \<Rightarrow> u32 \<Rightarrow> nat" where
  "hashfn dev block = unat (dev XOR block) mod NR_HASH"

definition buf_hash :: "nat \<Rightarrow> 'a blk_scheme \<Rightarrow> nat" where
  "buf_hash bh s = hashfn (ucast (b_dev (bufs s bh))) (b_blocknr (bufs s bh))"

definition unhash :: "nat \<Rightarrow> 'a cache_scheme \<Rightarrow> 'a cache_scheme" where
  "unhash bh s0 =
     (let s = (case b_next (bufs s0 bh) of None \<Rightarrow> s0
                | Some n \<Rightarrow> mod_buf n (\<lambda>b. b\<lparr>b_prev := b_prev (bufs s0 bh)\<rparr>) s0);
          s = (case b_prev (bufs s bh) of None \<Rightarrow> s
                | Some p \<Rightarrow> mod_buf p (\<lambda>b. b\<lparr>b_next := b_next (bufs s bh)\<rparr>) s)
      in if hash_table s (buf_hash bh s) = Some bh
         then s\<lparr>hash_table := (hash_table s)(buf_hash bh s := b_next (bufs s bh))\<rparr> else s)"

definition unfree :: "nat \<Rightarrow> 'a cache_scheme \<Rightarrow> 'a cache_scheme option" where
  "unfree bh s = do {
     p \<leftarrow> b_prev_free (bufs s bh);
     n \<leftarrow> b_next_free (bufs s bh);
     let s = mod_buf p (\<lambda>b. b\<lparr>b_next_free := b_next_free (bufs s bh)\<rparr>) s;
     n \<leftarrow> b_next_free (bufs s bh);
     let s = mod_buf n (\<lambda>b. b\<lparr>b_prev_free := b_prev_free (bufs s bh)\<rparr>) s;
     Some (if free_list s = Some bh then s\<lparr>free_list := b_next_free (bufs s bh)\<rparr> else s)
   }"

definition remove_from_queues :: "nat \<Rightarrow> 'a cache_scheme \<Rightarrow> 'a cache_scheme option" where
  "remove_from_queues bh s = unfree bh (unhash bh s)"

definition put_free :: "nat \<Rightarrow> 'a cache_scheme \<Rightarrow> 'a cache_scheme option" where
  "put_free bh s = do {
     f \<leftarrow> free_list s;
     let s = mod_buf bh (\<lambda>b. b\<lparr>b_next_free := free_list s\<rparr>) s;
     let s = mod_buf bh (\<lambda>b. b\<lparr>b_prev_free := b_prev_free (bufs s f)\<rparr>) s;
     p \<leftarrow> b_prev_free (bufs s f);
     let s = mod_buf p (\<lambda>b. b\<lparr>b_next_free := Some bh\<rparr>) s;
     Some (mod_buf f (\<lambda>b. b\<lparr>b_prev_free := Some bh\<rparr>) s)
   }"

definition put_hash :: "nat \<Rightarrow> 'a cache_scheme \<Rightarrow> 'a cache_scheme" where
  "put_hash bh s0 =
     (let s = mod_buf bh (\<lambda>b. b\<lparr>b_prev := None, b_next := None\<rparr>) s0 in
      if b_dev (bufs s bh) = 0 then s
      else let h = buf_hash bh s;
               s = mod_buf bh (\<lambda>b. b\<lparr>b_next := hash_table s h\<rparr>) s;
               s = s\<lparr>hash_table := (hash_table s)(h := Some bh)\<rparr>
           in case b_next (bufs s bh) of None \<Rightarrow> s
              | Some n \<Rightarrow> mod_buf n (\<lambda>b. b\<lparr>b_prev := Some bh\<rparr>) s)"

definition insert_into_queues :: "nat \<Rightarrow> 'a cache_scheme \<Rightarrow> 'a cache_scheme option" where
  "insert_into_queues bh s = do {
     s \<leftarrow> put_free bh s;
     Some (put_hash bh s)
   }"

definition is_block :: "u32 \<Rightarrow> u32 \<Rightarrow> buffer_head \<Rightarrow> bool" where
  "is_block dev block b \<longleftrightarrow> ucast (b_dev b) = dev \<and> b_blocknr b = block"

partial_function (option) find_loop ::
  "u32 \<Rightarrow> u32 \<Rightarrow> nat option \<Rightarrow> 'a blk_scheme \<Rightarrow> nat option option" where
  "find_loop dev block tmp s =
     (case tmp of None \<Rightarrow> Some None
      | Some bh \<Rightarrow> if is_block dev block (bufs s bh) then Some (Some bh)
                    else find_loop dev block (b_next (bufs s bh)) s)"

definition find_buffer :: "u32 \<Rightarrow> u32 \<Rightarrow> 'a cache_scheme \<Rightarrow> nat option option" where
  "find_buffer dev block s = find_loop dev block (hash_table s (hashfn dev block)) s"

section \<open>Getting a block\<close>

partial_function (option) get_hash_table ::
  "'a cache_scheme world \<Rightarrow> u32 \<Rightarrow> u32 \<Rightarrow> 'a cache_scheme \<Rightarrow> (nat option \<times> 'a cache_scheme) option" where
  "get_hash_table w dev block s = do {
     r \<leftarrow> find_buffer dev block s;
     case r of None \<Rightarrow> Some (None, s)
     | Some bh \<Rightarrow> do {
         s \<leftarrow> wait_on_buffer w bh (mod_buf bh (\<lambda>b. b\<lparr>b_count := b_count b + 1\<rparr>) s);
         if is_block dev block (bufs s bh) then Some (Some bh, s)
         else get_hash_table w dev block (mod_buf bh (\<lambda>b. b\<lparr>b_count := b_count b - 1\<rparr>) s)
       }
   }"

definition BADNESS :: "buffer_head \<Rightarrow> nat" where
  "BADNESS b = 2 * unat (b_dirt b) + unat (b_lock b)"

text \<open>The \<^verbatim>\<open>do\<close> loop over the free list, from \<open>tmp\<close> with the found buffer so far.\<close>

partial_function (option) free_scan ::
  "nat option \<Rightarrow> nat \<Rightarrow> nat option \<Rightarrow> 'a blk_scheme \<Rightarrow> nat option option" where
  "free_scan start tmp found s =
     (let b = bufs s tmp;
          better = (b_count b = 0 \<and> (case found of None \<Rightarrow> True | Some bh \<Rightarrow> BADNESS b < BADNESS (bufs s bh)));
          found = (if better then Some tmp else found)
      in if better \<and> BADNESS b = 0 then Some found
         else if b_next_free b = start then Some found
         else case b_next_free b of None \<Rightarrow> None | Some n \<Rightarrow> free_scan start n found s)"

text \<open>\<^verbatim>\<open>while (bh->b_dirt)\<close>: false when the buffer was taken meanwhile.\<close>

partial_function (option) clean_loop ::
  "'a cache_scheme world \<Rightarrow> nat \<Rightarrow> 'a cache_scheme \<Rightarrow> (bool \<times> 'a cache_scheme) option" where
  "clean_loop w bh s =
     (if b_dirt (bufs s bh) = 0 then Some (True, s)
      else do {
        s \<leftarrow> sync_dev w (ucast (b_dev (bufs s bh))) s;
        s \<leftarrow> wait_on_buffer w bh s;
        if b_count (bufs s bh) \<noteq> 0 then Some (False, s) else clean_loop w bh s
      })"

text \<open>The end of \<^verbatim>\<open>getblk\<close>: the unused buffer becomes the buffer of the block.\<close>

definition take_buffer :: "u32 \<Rightarrow> u32 \<Rightarrow> nat \<Rightarrow> 'a cache_scheme \<Rightarrow> 'a cache_scheme option" where
  "take_buffer dev block bh s = do {
     let s = mod_buf bh (\<lambda>b. b\<lparr>b_count := 1, b_dirt := 0, b_uptodate := 0\<rparr>) s;
     s \<leftarrow> remove_from_queues bh s;
     insert_into_queues bh (mod_buf bh (\<lambda>b. b\<lparr>b_dev := ucast dev, b_blocknr := block\<rparr>) s)
   }"

partial_function (option) getblk ::
  "'a cache_scheme world \<Rightarrow> u32 \<Rightarrow> u32 \<Rightarrow> 'a cache_scheme \<Rightarrow> (nat \<times> 'a cache_scheme) option" where
  "getblk w dev block s = do {
     (r, s) \<leftarrow> get_hash_table w dev block s;
     case r of Some bh \<Rightarrow> Some (bh, s)
     | None \<Rightarrow> do {
         f \<leftarrow> free_list s;
         found \<leftarrow> free_scan (free_list s) f None s;
         case found of
           None \<Rightarrow> do { s \<leftarrow> sleep_on w Buffer_wait s; getblk w dev block s }
         | Some bh \<Rightarrow> do {
             s \<leftarrow> wait_on_buffer w bh s;
             if b_count (bufs s bh) \<noteq> 0 then getblk w dev block s
             else do {
               (clean, s) \<leftarrow> clean_loop w bh s;
               if \<not> clean then getblk w dev block s
               else do {
                 r \<leftarrow> find_buffer dev block s;
                 if r \<noteq> None then getblk w dev block s
                 else do { s \<leftarrow> take_buffer dev block bh s; Some (bh, s) }
               }
             }
           }
       }
   }"

section \<open>Reading and releasing\<close>

text \<open>\<^verbatim>\<open>brelse(NULL)\<close> does nothing.\<close>

definition brelse :: "'a blk_scheme world \<Rightarrow> nat option \<Rightarrow> 'a blk_scheme \<Rightarrow> 'a blk_scheme option" where
  "brelse w buf s =
     (case buf of None \<Rightarrow> Some s
      | Some bh \<Rightarrow> do {
          s \<leftarrow> wait_on_buffer w bh s;
          let c = b_count (bufs s bh);
          let s = mod_buf bh (\<lambda>b. b\<lparr>b_count := b_count b - 1\<rparr>) s;
          if c = 0 then None else Some (wake_up Buffer_wait s)
        })"

definition bread ::
  "'a cache_scheme world \<Rightarrow> u32 \<Rightarrow> u32 \<Rightarrow> 'a cache_scheme \<Rightarrow> (nat option \<times> 'a cache_scheme) option" where
  "bread w dev block s = do {
     (bh, s) \<leftarrow> getblk w dev block s;
     if b_uptodate (bufs s bh) \<noteq> 0 then Some (Some bh, s)
     else do {
       s \<leftarrow> ll_rw_block w READ bh s;
       s \<leftarrow> wait_on_buffer w bh s;
       if b_uptodate (bufs s bh) \<noteq> 0 then Some (Some bh, s)
       else do { s \<leftarrow> brelse w (Some bh) s; Some (None, s) }
     }
   }"

fun bread_page_get ::
  "'a cache_scheme world \<Rightarrow> u32 \<Rightarrow> u32 list \<Rightarrow> 'a cache_scheme \<Rightarrow> (nat option list \<times> 'a cache_scheme) option" where
  "bread_page_get w dev [] s = Some ([], s)"
| "bread_page_get w dev (b # bs) s =
     (if b = 0 then do { (r, s) \<leftarrow> bread_page_get w dev bs s; Some (None # r, s) }
      else do {
        (bh, s) \<leftarrow> getblk w dev b s;
        s \<leftarrow> (if b_uptodate (bufs s bh) = 0 then ll_rw_block w READ bh s else Some s);
        (r, s) \<leftarrow> bread_page_get w dev bs s;
        Some (Some bh # r, s)
      })"

definition COPYBLK :: "u32 \<Rightarrow> u32 \<Rightarrow> 'a sched_scheme \<Rightarrow> 'a sched_scheme" where
  "COPYBLK src dst s = s\<lparr>kmem := copy_bytes BLOCK_SIZE src dst (kmem s)\<rparr>"

fun bread_page_copy ::
  "'a cache_scheme world \<Rightarrow> u32 \<Rightarrow> nat option list \<Rightarrow> 'a cache_scheme \<Rightarrow> 'a cache_scheme option" where
  "bread_page_copy w address [] s = Some s"
| "bread_page_copy w address (None # bhs) s = bread_page_copy w (address + 1024) bhs s"
| "bread_page_copy w address (Some bh # bhs) s = do {
     s \<leftarrow> wait_on_buffer w bh s;
     let s = (if b_uptodate (bufs s bh) \<noteq> 0 then COPYBLK (b_data (bufs s bh)) address s else s);
     s \<leftarrow> brelse w (Some bh) s;
     bread_page_copy w (address + 1024) bhs s
   }"

definition bread_page ::
  "'a cache_scheme world \<Rightarrow> u32 \<Rightarrow> u32 \<Rightarrow> u32 list \<Rightarrow> 'a cache_scheme \<Rightarrow> 'a cache_scheme option" where
  "bread_page w address dev b s = do {
     (bhs, s) \<leftarrow> bread_page_get w dev b s;
     bread_page_copy w address bhs s
   }"

text \<open>The arguments of \<^verbatim>\<open>breada\<close> up to the first negative one; read-ahead is started for the
  first buffer \<open>bh\<close>, as the code has it.\<close>

fun breada_ahead ::
  "'a cache_scheme world \<Rightarrow> u32 \<Rightarrow> nat \<Rightarrow> int list \<Rightarrow> 'a cache_scheme \<Rightarrow> 'a cache_scheme option" where
  "breada_ahead w dev bh [] s = None"
| "breada_ahead w dev bh (first # rest) s =
     (if first < 0 then Some s
      else do {
        (tmp, s) \<leftarrow> getblk w dev (of_int first) s;
        s \<leftarrow> (if b_uptodate (bufs s tmp) = 0 then ll_rw_block w READA bh s else Some s);
        breada_ahead w dev bh rest (mod_buf tmp (\<lambda>b. b\<lparr>b_count := b_count b - 1\<rparr>) s)
      })"

definition breada ::
  "'a cache_scheme world \<Rightarrow> u32 \<Rightarrow> u32 \<Rightarrow> int list \<Rightarrow> 'a cache_scheme \<Rightarrow> (nat option \<times> 'a cache_scheme) option" where
  "breada w dev first args s = do {
     (bh, s) \<leftarrow> getblk w dev first s;
     s \<leftarrow> (if b_uptodate (bufs s bh) = 0 then ll_rw_block w READ bh s else Some s);
     s \<leftarrow> breada_ahead w dev bh args s;
     s \<leftarrow> wait_on_buffer w bh s;
     if b_uptodate (bufs s bh) \<noteq> 0 then Some (Some bh, s)
     else do { s \<leftarrow> brelse w (Some bh) s; Some (None, s) }
   }"

section \<open>Initialisation\<close>

text \<open>The loop of \<^verbatim>\<open>buffer_init\<close>: \<open>h\<close> is the index of the next buffer head, \<open>b\<close> the end of the
  memory still free.\<close>

partial_function (option) buffer_init_loop :: "nat \<Rightarrow> u32 \<Rightarrow> 'a cache_scheme \<Rightarrow> (nat \<times> 'a cache_scheme) option" where
  "buffer_init_loop h b s =
     (let b = b - 1024 in
      if b < start_buffer s + of_nat (h + 1) * BH_SIZE then Some (h, s)
      else buffer_init_loop (h + 1) b
        (mod_buf h (\<lambda>x. \<lparr>b_data = b, b_blocknr = b_blocknr x, b_dev = 0, b_uptodate = 0, b_dirt = 0,
             b_count = 0, b_lock = 0, b_prev = None, b_next = None,
             b_prev_free = (if h = 0 then None else Some (h - 1)), b_next_free = Some (h + 1)\<rparr>)
          (s\<lparr>wq := (wq s)(B_wait h := 0), NR_BUFFERS := NR_BUFFERS s + 1\<rparr>)))"

definition buffer_init :: "u32 \<Rightarrow> 'a cache_scheme \<Rightarrow> 'a cache_scheme option" where
  "buffer_init buffer_end s = do {
     let s = s\<lparr>start_buffer := LOW_MEM, wq := (wq s)(Buffer_wait := 0), NR_BUFFERS := 0\<rparr>;
     (h, s) \<leftarrow> buffer_init_loop 0 buffer_end s;
     if h = 0 then None
     else do {
       let s = s\<lparr>free_list := Some 0\<rparr>;
       let s = mod_buf 0 (\<lambda>b. b\<lparr>b_prev_free := Some (h - 1)\<rparr>) s;
       let s = mod_buf (h - 1) (\<lambda>b. b\<lparr>b_next_free := free_list s\<rparr>) s;
       Some (s\<lparr>hash_table := (\<lambda>i. if i < NR_HASH then None else hash_table s i)\<rparr>)
     }
   }"

end
