(* ===== verification/Buffer_Cache.thy ===== *)
theory Buffer_Cache
  imports Buffer
begin

text \<open>
  The correctness of the buffer cache: its invariant, the search in a hash chain, the moving of a
  buffer from one block to another, \<^verbatim>\<open>getblk\<close> alone and among other tasks, and the state after
  booting.
\<close>

section \<open>The invariant of the cache\<close>

definition free_ring :: "nat list \<Rightarrow> 'a cache_scheme \<Rightarrow> bool" where
  "free_ring fl s \<longleftrightarrow> ring (\<lambda>b. b_next_free (bufs s b)) (\<lambda>b. b_prev_free (bufs s b)) fl
     \<and> set fl = {..<NR_BUFFERS s} \<and> free_list s = Some (hd fl)"

text \<open>The buffers in \<open>X\<close> are left out.\<close>

definition hash_chain_but :: "nat set \<Rightarrow> nat \<Rightarrow> nat list \<Rightarrow> 'a cache_scheme \<Rightarrow> bool" where
  "hash_chain_but X h c s \<longleftrightarrow> distinct c
     \<and> seg (\<lambda>b. b_next (bufs s b)) (\<lambda>b. b_prev (bufs s b)) None (hash_table s h) c None
     \<and> set c = {b. b < NR_BUFFERS s \<and> b \<notin> X \<and> b_dev (bufs s b) \<noteq> 0 \<and> buf_hash b s = h}"

definition hash_chain :: "nat \<Rightarrow> nat list \<Rightarrow> 'a cache_scheme \<Rightarrow> bool" where
  "hash_chain = hash_chain_but {}"

definition no_duplicates :: "'a cache_scheme \<Rightarrow> bool" where
  "no_duplicates s \<longleftrightarrow> (\<forall>a < NR_BUFFERS s. \<forall>b < NR_BUFFERS s. b_dev (bufs s a) \<noteq> 0
     \<longrightarrow> b_dev (bufs s a) = b_dev (bufs s b) \<longrightarrow> b_blocknr (bufs s a) = b_blocknr (bufs s b) \<longrightarrow> a = b)"

text \<open>
  The free list is a ring of all buffers, each hash chain holds exactly the buffers of a device
  that hash to it, buffers without a device are on no chain, and no block is cached twice.
\<close>

definition cache_ok :: "'a cache_scheme \<Rightarrow> bool" where
  "cache_ok s \<longleftrightarrow> 2 \<le> NR_BUFFERS s \<and> (\<exists>fl. free_ring fl s) \<and> (\<forall>h<NR_HASH. \<exists>c. hash_chain h c s)
     \<and> (\<forall>b<NR_BUFFERS s. b_dev (bufs s b) = 0 \<longrightarrow> b_prev (bufs s b) = None \<and> b_next (bufs s b) = None)
     \<and> no_duplicates s"

text \<open>The part of the state the invariant looks at.\<close>

definition links :: "buffer_head \<Rightarrow> u16 \<times> u32 \<times> nat option \<times> nat option \<times> nat option \<times> nat option" where
  "links b = (b_dev b, b_blocknr b, b_prev b, b_next b, b_prev_free b, b_next_free b)"

definition same_links :: "'a cache_scheme \<Rightarrow> 'a cache_scheme \<Rightarrow> bool" where
  "same_links s s' \<longleftrightarrow> (\<forall>b. links (bufs s' b) = links (bufs s b)) \<and> hash_table s' = hash_table s
     \<and> free_list s' = free_list s \<and> NR_BUFFERS s' = NR_BUFFERS s"

lemma same_linksD:
  assumes "same_links s s'"
  shows "b_dev (bufs s' b) = b_dev (bufs s b)" "b_blocknr (bufs s' b) = b_blocknr (bufs s b)"
    "b_prev (bufs s' b) = b_prev (bufs s b)" "b_next (bufs s' b) = b_next (bufs s b)"
    "b_prev_free (bufs s' b) = b_prev_free (bufs s b)" "b_next_free (bufs s' b) = b_next_free (bufs s b)"
    "hash_table s' = hash_table s" "free_list s' = free_list s" "NR_BUFFERS s' = NR_BUFFERS s"
  using assms by (auto simp: same_links_def links_def)

lemma same_links_cache_ok: "same_links s s' \<Longrightarrow> cache_ok s' = cache_ok s"
  using same_linksD [of s s']
  by (simp add: cache_ok_def free_ring_def hash_chain_def hash_chain_but_def no_duplicates_def buf_hash_def)

lemma same_links_refl: "same_links s s" and same_links_trans: "same_links s t \<Longrightarrow> same_links t u \<Longrightarrow> same_links s u"
  by (auto simp: same_links_def)

lemma hashfn_less: "hashfn dev block < NR_HASH"
  by (simp add: hashfn_def)

lemma buf_hash_less: "buf_hash b s < NR_HASH"
  by (simp add: buf_hash_def hashfn_less)

section \<open>Finding a buffer\<close>

lemma find_loop_seg:
  "seg (\<lambda>b. b_next (bufs s b)) pv p h c None \<Longrightarrow>
   find_loop dev block h s = Some (List.find (\<lambda>b. is_block dev block (bufs s b)) c)"
proof (induction c arbitrary: p h)
  case (Cons b c)
  then show ?case by (subst find_loop.simps) auto
qed (simp add: find_loop.simps)

text \<open>The reference: a search through all the buffers.\<close>

definition cached :: "u32 \<Rightarrow> u32 \<Rightarrow> 'a cache_scheme \<Rightarrow> nat option" where
  "cached dev block s = List.find (\<lambda>b. is_block dev block (bufs s b)) [0..<NR_BUFFERS s]"

lemma ucast_u16_back [simp]: "(ucast (ucast (a :: u16) :: u32) :: u16) = a"
  by (rule bit_word_eqI) (auto simp: bit_simps)

lemma ucast_u16_inj [simp]: "(ucast (a :: u16) :: u32) = ucast b \<longleftrightarrow> a = b"
  by (metis ucast_u16_back)

lemma is_block_dev: "is_block dev block b \<Longrightarrow> dev \<noteq> 0 \<Longrightarrow> b_dev b \<noteq> 0"
  by (auto simp: is_block_def)

lemma is_block_unique:
  assumes "no_duplicates s" "dev \<noteq> 0" "a < NR_BUFFERS s" "b < NR_BUFFERS s"
    and "is_block dev block (bufs s a)" "is_block dev block (bufs s b)"
  shows "a = b"
proof -
  have "b_dev (bufs s a) = b_dev (bufs s b)"
    using assms(5,6) unfolding is_block_def by (metis ucast_u16_inj)
  moreover have "b_dev (bufs s a) \<noteq> 0" using is_block_dev [OF assms(5,2)] .
  ultimately show ?thesis using assms unfolding no_duplicates_def is_block_def by metis
qed

lemma find_buffer_char:
  assumes "cache_ok s" "dev \<noteq> 0"
  shows "find_buffer dev block s = Some (cached dev block s)
     \<and> (\<forall>b < NR_BUFFERS s. is_block dev block (bufs s b) \<longleftrightarrow> cached dev block s = Some b)"
proof -
  let ?P = "\<lambda>b. is_block dev block (bufs s b)"
  have nd: "no_duplicates s" using assms by (simp add: cache_ok_def)
  from assms obtain c where c: "hash_chain (hashfn dev block) c s"
    using hashfn_less [of dev block] unfolding cache_ok_def by blast
  then have "find_buffer dev block s = Some (List.find ?P c)"
    by (auto simp: find_buffer_def hash_chain_def hash_chain_but_def intro: find_loop_seg)
  moreover have in_c: "b \<in> set c \<longleftrightarrow> b < NR_BUFFERS s" if "?P b" for b
    using c that is_block_dev [OF that assms(2)] by (auto simp: hash_chain_def hash_chain_but_def buf_hash_def is_block_def)
  have *: "List.find ?P xs = Some b" if P: "?P b" "b \<in> set xs" "\<forall>x\<in>set xs. x < NR_BUFFERS s" for xs b
  proof -
    obtain a where a: "List.find ?P xs = Some a" using P(1,2) by (cases "List.find ?P xs") (auto simp: find_None_iff)
    then have "?P a" "a \<in> set xs" by (auto simp: find_Some_iff)
    with a that is_block_unique [OF nd assms(2)] show ?thesis by blast
  qed
  have "\<forall>x\<in>set c. x < NR_BUFFERS s" using c by (auto simp: hash_chain_def hash_chain_but_def)
  then have all: "cached dev block s = List.find ?P c \<and> (\<forall>b < NR_BUFFERS s. ?P b \<longleftrightarrow> cached dev block s = Some b)"
  proof (cases "\<exists>b < NR_BUFFERS s. ?P b")
    case True
    then obtain b where b: "b < NR_BUFFERS s" "?P b" by blast
    then have "cached dev block s = Some b" "List.find ?P c = Some b"
      using * [of b "[0..<NR_BUFFERS s]"] * [of b c] in_c \<open>\<forall>x\<in>set c. x < NR_BUFFERS s\<close>
      by (auto simp: cached_def)
    with b is_block_unique [OF nd assms(2)] show ?thesis by auto
  next
    case False
    then have "cached dev block s = None" "List.find ?P c = None"
      using \<open>\<forall>x\<in>set c. x < NR_BUFFERS s\<close> by (auto simp: cached_def find_None_iff)
    with False show ?thesis by auto
  qed
  ultimately show ?thesis by simp
qed

text \<open>
  C33. \<^verbatim>\<open>find_buffer\<close> looks only at one hash chain and still finds exactly what a search through
  all the buffers finds; it always ends.
\<close>

theorem find_buffer_correct:
  assumes "cache_ok s" "dev \<noteq> 0"
  shows "find_buffer dev block s = Some (cached dev block s)
     \<and> (\<forall>b < NR_BUFFERS s. is_block dev block (bufs s b) \<longleftrightarrow> cached dev block s = Some b)"
  by (rule find_buffer_char [OF assms])

section \<open>Moving a buffer\<close>

lemma mod_buf_cache [simp]:
  "hash_table (mod_buf b f s) = hash_table s" "free_list (mod_buf b f s) = free_list s"
  "NR_BUFFERS (mod_buf b f s) = NR_BUFFERS s"
  by (simp_all add: mod_buf_def)

lemma upd_if: "(f(a := x)) b = (if b = a then x else f b)"
  by simp

text \<open>What \<^verbatim>\<open>remove_from_queues\<close> leaves behind on the hash side.\<close>

definition unhashed :: "nat \<Rightarrow> 'a cache_scheme \<Rightarrow> bool" where
  "unhashed bh s \<longleftrightarrow> (\<forall>h<NR_HASH. \<exists>c. hash_chain_but {bh} h c s)
     \<and> (\<forall>b<NR_BUFFERS s. b \<noteq> bh \<longrightarrow> b_dev (bufs s b) = 0 \<longrightarrow> b_prev (bufs s b) = None \<and> b_next (bufs s b) = None)"

lemma unhash_frame:
  "b_dev (bufs (unhash bh s) b) = b_dev (bufs s b)" "b_blocknr (bufs (unhash bh s) b) = b_blocknr (bufs s b)"
  "b_count (bufs (unhash bh s) b) = b_count (bufs s b)"
  "b_uptodate (bufs (unhash bh s) b) = b_uptodate (bufs s b)" "b_lock (bufs (unhash bh s) b) = b_lock (bufs s b)"
  "b_prev_free (bufs (unhash bh s) b) = b_prev_free (bufs s b)"
  "b_next_free (bufs (unhash bh s) b) = b_next_free (bufs s b)"
  "free_list (unhash bh s) = free_list s" "NR_BUFFERS (unhash bh s) = NR_BUFFERS s"
  by (simp_all add: unhash_def Let_def split: option.split)

lemma unhash_buf_hash: "buf_hash b (unhash bh s) = buf_hash b s"
  by (simp add: buf_hash_def unhash_frame)

lemma unhash_links:
  assumes c: "hash_chain h (us @ bh # vs) s" and "h = buf_hash bh s"
  shows "b_next (bufs (unhash bh s) b) = (if us \<noteq> [] \<and> b = last us then b_next (bufs s bh) else b_next (bufs s b))"
    and "b_prev (bufs (unhash bh s) b) = (if vs \<noteq> [] \<and> b = hd vs then b_prev (bufs s bh) else b_prev (bufs s b))"
    and "hash_table (unhash bh s) = (if us = [] then (hash_table s)(h := b_next (bufs s bh)) else hash_table s)"
proof -
  let ?nx = "\<lambda>b. b_next (bufs s b)" and ?pv = "\<lambda>b. b_prev (bufs s b)"
  have d: "distinct (us @ bh # vs)" and sg: "seg ?nx ?pv None (hash_table s h) (us @ bh # vs) None"
    using c by (simp_all add: hash_chain_def hash_chain_but_def)
  have p: "?pv bh = (if us = [] then None else Some (last us))" and
    sv: "seg ?nx ?pv (Some bh) (?nx bh) vs None" and su: "seg ?nx ?pv None (hash_table s h) us (Some bh)"
    using sg unfolding seg_append by auto
  have n: "?nx bh = (if vs = [] then None else Some (hd vs))" using sv seg_hd by (cases vs) auto
  have hd: "hash_table s h = Some bh \<longleftrightarrow> us = []" using su d by (cases us) auto
  have ne: "vs \<noteq> [] \<Longrightarrow> hd vs \<noteq> bh" "us \<noteq> [] \<Longrightarrow> last us \<noteq> bh" "us \<noteq> [] \<Longrightarrow> vs \<noteq> [] \<Longrightarrow> last us \<noteq> hd vs"
    using d by (auto dest: last_in_set hd_in_set)
  define s1 where "s1 = (case ?nx bh of None \<Rightarrow> s | Some n \<Rightarrow> mod_buf n (\<lambda>b. b\<lparr>b_prev := ?pv bh\<rparr>) s)"
  have s1: "bufs s1 b = (if vs \<noteq> [] \<and> b = hd vs then (bufs s b)\<lparr>b_prev := ?pv bh\<rparr> else bufs s b)" for b
    by (simp add: n s1_def)
  have f1: "hash_table s1 = hash_table s" by (simp add: s1_def split: option.split)
  have r1: "bufs s1 bh = bufs s bh" using s1 [of bh] ne(1) by auto
  define s2 where "s2 = (case b_prev (bufs s1 bh) of None \<Rightarrow> s1 | Some p \<Rightarrow> mod_buf p (\<lambda>b. b\<lparr>b_next := b_next (bufs s1 bh)\<rparr>) s1)"
  have s2: "bufs s2 b = (if us \<noteq> [] \<and> b = last us then (bufs s1 b)\<lparr>b_next := ?nx bh\<rparr> else bufs s1 b)" for b
    by (simp add: p s2_def r1)
  have f2: "hash_table s2 = hash_table s" by (simp add: f1 s2_def split: option.split)
  have r2: "bufs s2 bh = bufs s bh" using s2 [of bh] r1 ne(2) by auto
  have h2: "buf_hash bh s2 = h" using r2 assms(2) by (simp add: buf_hash_def)
  have u: "unhash bh s = (if us = [] then s2\<lparr>hash_table := (hash_table s)(h := ?nx bh)\<rparr> else s2)"
    unfolding unhash_def Let_def s1_def [symmetric] s2_def [symmetric] h2 f2 r2 hd ..
  have b: "bufs (unhash bh s) b = bufs s2 b" for b unfolding u by simp
  show "b_next (bufs (unhash bh s) b) = (if us \<noteq> [] \<and> b = last us then b_next (bufs s bh) else b_next (bufs s b))"
    unfolding b s2 s1 by simp
  show "b_prev (bufs (unhash bh s) b) = (if vs \<noteq> [] \<and> b = hd vs then b_prev (bufs s bh) else b_prev (bufs s b))"
    unfolding b s2 s1 by simp
  show "hash_table (unhash bh s) = (if us = [] then (hash_table s)(h := b_next (bufs s bh)) else hash_table s)"
    unfolding u by (simp add: f2)
qed

lemma hash_chain_other:
  assumes "hash_chain_but X h c s" "NR_BUFFERS s' = NR_BUFFERS s" "hash_table s' h = hash_table s h"
    and "\<And>b. b \<in> set c \<Longrightarrow> b_next (bufs s' b) = b_next (bufs s b) \<and> b_prev (bufs s' b) = b_prev (bufs s b)"
    and "\<And>b. b < NR_BUFFERS s \<Longrightarrow> b \<notin> Y \<and> b_dev (bufs s' b) \<noteq> 0 \<and> buf_hash b s' = h
       \<longleftrightarrow> b \<notin> X \<and> b_dev (bufs s b) \<noteq> 0 \<and> buf_hash b s = h"
  shows "hash_chain_but Y h c s'"
proof -
  have "set c = {b. b < NR_BUFFERS s' \<and> b \<notin> Y \<and> b_dev (bufs s' b) \<noteq> 0 \<and> buf_hash b s' = h}"
    using assms by (auto simp: hash_chain_but_def)
  moreover have "seg (\<lambda>b. b_next (bufs s' b)) (\<lambda>b. b_prev (bufs s' b)) None (hash_table s' h) c None"
    using assms(1,3,4) by (subst seg_cong [where nx = "\<lambda>b. b_next (bufs s b)" and pv = "\<lambda>b. b_prev (bufs s b)"])
      (auto simp: hash_chain_but_def)
  ultimately show ?thesis using assms(1) by (simp add: hash_chain_but_def)
qed

lemma unhash_dev_chain:
  assumes c: "hash_chain h (us @ bh # vs) s" and h: "h = buf_hash bh s"
  shows "hash_chain_but {bh} h (us @ vs) (unhash bh s)"
proof -
  let ?nx = "\<lambda>b. b_next (bufs s b)" and ?pv = "\<lambda>b. b_prev (bufs s b)"
  let ?nx' = "\<lambda>b. b_next (bufs (unhash bh s) b)" and ?pv' = "\<lambda>b. b_prev (bufs (unhash bh s) b)"
  note L = unhash_links [OF c h]
  have d: "distinct (us @ bh # vs)" and sg: "seg ?nx ?pv None (hash_table s h) (us @ bh # vs) None"
    and st: "set (us @ bh # vs) = {b. b < NR_BUFFERS s \<and> b_dev (bufs s b) \<noteq> 0 \<and> buf_hash b s = h}"
    using c by (simp_all add: hash_chain_def hash_chain_but_def)
  have p: "?pv bh = (if us = [] then None else Some (last us))" and
    sv: "seg ?nx ?pv (Some bh) (?nx bh) vs None" and su: "seg ?nx ?pv None (hash_table s h) us (Some bh)"
    using sg unfolding seg_append by auto
  have disj: "set us \<inter> set vs = {}" using d by auto
  have U: "seg ?nx' ?pv' None (hash_table (unhash bh s) h) us (?nx bh)"
  proof (cases "us = []")
    case False
    have "hash_table s h = Some (hd us) \<and> ?pv (hd us) = None" using seg_hd [OF su False] by simp
    moreover have nv: "hd vs \<notin> set us" if "vs \<noteq> []" using disj that by (metis disjoint_iff hd_in_set)
    moreover have "hd us \<noteq> hd vs" if "vs \<noteq> []" using nv [OF that] hd_in_set [OF False] by metis
    ultimately show ?thesis
      using False d disj by (auto simp: L intro!: seg_retarget [OF su])
  qed (simp add: L)
  have V: "seg ?nx' ?pv' (?pv bh) (?nx bh) vs None"
  proof (cases "vs = []")
    case False
    have "?nx bh = Some (hd vs)" using seg_hd [OF sv False] by simp
    moreover have "?nx (last vs) = None" using seg_last [OF sv False] .
    moreover have nv: "last us \<notin> set vs" if "us \<noteq> []" using disj that by (metis disjoint_iff last_in_set)
    moreover have "last us \<noteq> last vs" if "us \<noteq> []" using nv [OF that] last_in_set [OF False] by metis
    ultimately show ?thesis
      using False d disj by (auto simp: L intro!: seg_retarget [OF sv])
  qed (use sv in simp)
  have "seg ?nx' ?pv' None (hash_table (unhash bh s) h) (us @ vs) None"
    using U V p by (cases vs) (auto simp: seg_append)
  moreover have "set (us @ vs) = {b. b < NR_BUFFERS (unhash bh s) \<and> b \<notin> {bh}
      \<and> b_dev (bufs (unhash bh s) b) \<noteq> 0 \<and> buf_hash b (unhash bh s) = h}"
    using st d by (auto simp: unhash_frame unhash_buf_hash)
  ultimately show ?thesis using d by (auto simp: hash_chain_but_def)
qed

lemma unhash_ok:
  assumes ok: "cache_ok s" and bh: "bh < NR_BUFFERS s"
  shows "unhashed bh (unhash bh s)"
proof (cases "b_dev (bufs s bh) = 0")
  case True
  then have "b_prev (bufs s bh) = None" "b_next (bufs s bh) = None" using ok bh by (auto simp: cache_ok_def)
  moreover obtain c where "hash_chain (buf_hash bh s) c s" using ok buf_hash_less [of bh s] unfolding cache_ok_def by blast
  then have "hash_table s (buf_hash bh s) \<noteq> Some bh"
    using True by (cases c) (auto simp: hash_chain_def hash_chain_but_def)
  ultimately have "unhash bh s = s" by (simp add: unhash_def Let_def)
  moreover have "hash_chain_but {bh} h c s" if "hash_chain h c s" for h c
    using that True by (auto simp: hash_chain_def hash_chain_but_def)
  ultimately show ?thesis using ok unfolding cache_ok_def unhashed_def by metis
next
  case dev: False
  let ?h = "buf_hash bh s"
  have ch: "\<exists>c. hash_chain h c s" if "h < NR_HASH" for h using ok that by (simp add: cache_ok_def)
  then obtain c where c: "hash_chain ?h c s" using buf_hash_less by blast
  then have "bh \<in> set c" using bh dev by (auto simp: hash_chain_def hash_chain_but_def)
  then obtain us vs where uv: "hash_chain ?h (us @ bh # vs) s" using c by (metis split_list)
  note L = unhash_links [OF uv refl]
  have sc: "b_dev (bufs s b) \<noteq> 0 \<and> buf_hash b s = ?h" if "b \<in> set us \<union> set vs" for b
    using uv that unfolding hash_chain_def hash_chain_but_def by auto
  have keep: "b_next (bufs (unhash bh s) b) = b_next (bufs s b) \<and> b_prev (bufs (unhash bh s) b) = b_prev (bufs s b)"
    if "b_dev (bufs s b) = 0 \<or> buf_hash b s \<noteq> ?h" for b
    using that sc [of b] by (auto simp: L)
  have "\<exists>c. hash_chain_but {bh} h c (unhash bh s)" if h: "h < NR_HASH" for h
  proof (cases "h = ?h")
    case True
    then show ?thesis using unhash_dev_chain [OF uv refl] by auto
  next
    case False
    obtain c where c: "hash_chain h c s" using ch [OF h] by blast
    have "hash_chain_but {bh} h c (unhash bh s)"
    proof (rule hash_chain_other [OF c [unfolded hash_chain_def]])
      fix b assume "b \<in> set c"
      then have "buf_hash b s \<noteq> ?h" using c False by (auto simp: hash_chain_def hash_chain_but_def)
      then show "b_next (bufs (unhash bh s) b) = b_next (bufs s b) \<and> b_prev (bufs (unhash bh s) b) = b_prev (bufs s b)"
        using keep by blast
    qed (use False in \<open>auto simp: unhash_frame unhash_buf_hash L\<close>)
    then show ?thesis by blast
  qed
  moreover have "b_prev (bufs (unhash bh s) b) = None \<and> b_next (bufs (unhash bh s) b) = None"
    if "b < NR_BUFFERS s" "b_dev (bufs s b) = 0" for b
    using keep [of b] that ok by (auto simp: cache_ok_def)
  ultimately show ?thesis by (simp add: unhashed_def unhash_frame)
qed

lemma free_ring_at:
  assumes "free_ring fl s" "b \<in> set fl" "2 \<le> NR_BUFFERS s"
  obtains us where "ring (\<lambda>b. b_next_free (bufs s b)) (\<lambda>b. b_prev_free (bufs s b)) (b # us)"
    "us \<noteq> []" "insert b (set us) = {..<NR_BUFFERS s}"
proof -
  from assms(2) obtain xs ys where fl: "fl = xs @ b # ys" by (meson split_list)
  then have r: "ring (\<lambda>b. b_next_free (bufs s b)) (\<lambda>b. b_prev_free (bufs s b)) (b # ys @ xs)"
    using assms(1) ring_rotate [where us = xs and vs = "b # ys"] by (simp add: free_ring_def)
  have s: "insert b (set (ys @ xs)) = {..<NR_BUFFERS s}" using assms(1) fl by (auto simp: free_ring_def)
  have "ys @ xs \<noteq> []"
  proof
    assume "ys @ xs = []"
    with arg_cong [OF s, of card] have "Suc 0 = NR_BUFFERS s" by simp
    with assms(3) show False by simp
  qed
  with r s that show ?thesis by blast
qed

lemma unfree_ok:
  assumes fr: "free_ring fl s" and bh: "bh < NR_BUFFERS s" and n: "2 \<le> NR_BUFFERS s"
  shows "\<exists>s' us f. unfree bh s = Some s'
     \<and> ring (\<lambda>b. b_next_free (bufs s' b)) (\<lambda>b. b_prev_free (bufs s' b)) us
     \<and> bh \<notin> set us \<and> insert bh (set us) = {..<NR_BUFFERS s} \<and> free_list s' = Some f \<and> f \<in> set us
     \<and> NR_BUFFERS s' = NR_BUFFERS s \<and> hash_table s' = hash_table s
     \<and> (\<forall>b. bufs s' b = (bufs s b)\<lparr>b_prev_free := b_prev_free (bufs s' b), b_next_free := b_next_free (bufs s' b)\<rparr>)"
proof -
  let ?nx = "\<lambda>b. b_next_free (bufs s b)" and ?pv = "\<lambda>b. b_prev_free (bufs s b)"
  obtain us where us: "ring ?nx ?pv (bh # us)" "us \<noteq> []" "insert bh (set us) = {..<NR_BUFFERS s}"
    using free_ring_at [OF fr _ n, of bh] bh fr by (auto simp: free_ring_def)
  then have l: "?pv bh = Some (last us)" "?nx bh = Some (hd us)" "distinct us" "bh \<notin> set us"
    "?nx (last us) = Some bh" "?pv (hd us) = Some bh"
    using seg_hd [of ?nx ?pv "Some bh" "?nx bh" us] seg_last [of ?nx ?pv "Some bh" "?nx bh" us]
    by (auto simp: ring_def)
  have ne: "last us \<noteq> bh" "hd us \<noteq> bh" using l(4) us(2) by auto
  obtain f0 where f0: "free_list s = Some f0" "f0 < NR_BUFFERS s"
    using fr by (auto simp: free_ring_def ring_def dest: hd_in_set)
  define s1 where "s1 = mod_buf (last us) (\<lambda>b. b\<lparr>b_next_free := Some (hd us)\<rparr>) s"
  define s2 where "s2 = mod_buf (hd us) (\<lambda>b. b\<lparr>b_prev_free := Some (last us)\<rparr>) s1"
  define s' where "s' = (if free_list s = Some bh then s2\<lparr>free_list := Some (hd us)\<rparr> else s2)"
  have b1: "bufs s1 b = (if b = last us then (bufs s b)\<lparr>b_next_free := Some (hd us)\<rparr> else bufs s b)" for b
    by (simp add: s1_def)
  have b2: "bufs s2 b = (if b = hd us then (bufs s1 b)\<lparr>b_prev_free := Some (last us)\<rparr> else bufs s1 b)" for b
    by (simp add: s2_def)
  have bb: "bufs s' b = bufs s2 b" for b by (simp add: s'_def)
  have fl: "free_list s1 = free_list s" "free_list s2 = free_list s" by (simp_all add: s1_def s2_def)
  have run: "unfree bh s = Some s'"
    using l(1,2) ne by (simp add: unfree_def s1_def [symmetric] b1 s2_def [symmetric] b2 fl s'_def)
  have "ring (\<lambda>b. b_next_free (bufs s' b)) (\<lambda>b. b_prev_free (bufs s' b)) us"
    by (rule ring_remove [OF us(1,2)]) (auto simp: bb b2 b1 l)
  moreover have "f0 = bh \<or> f0 \<in> set us" using f0(2) us(3) by auto
  then have "\<exists>f. free_list s' = Some f \<and> f \<in> set us"
    using f0(1) us(2) by (auto simp: s'_def fl)
  moreover have "NR_BUFFERS s' = NR_BUFFERS s" "hash_table s' = hash_table s"
    by (simp_all add: s'_def s2_def s1_def)
  moreover have "bufs s' b = (bufs s b)\<lparr>b_prev_free := b_prev_free (bufs s' b), b_next_free := b_next_free (bufs s' b)\<rparr>" for b
    by (simp add: bb b2 b1)
  ultimately show ?thesis using run us(3) l(4) by blast
qed

lemma put_free_ok:
  assumes r: "ring (\<lambda>b. b_next_free (bufs s b)) (\<lambda>b. b_prev_free (bufs s b)) us"
    and bh: "bh \<notin> set us" "insert bh (set us) = {..<NR_BUFFERS s}"
    and f: "free_list s = Some f" "f \<in> set us"
  shows "\<exists>s' fl. put_free bh s = Some s' \<and> free_ring fl s' \<and> last fl = bh
     \<and> NR_BUFFERS s' = NR_BUFFERS s \<and> hash_table s' = hash_table s
     \<and> (\<forall>b. bufs s' b = (bufs s b)\<lparr>b_prev_free := b_prev_free (bufs s' b), b_next_free := b_next_free (bufs s' b)\<rparr>)"
proof -
  let ?nx = "\<lambda>b. b_next_free (bufs s b)" and ?pv = "\<lambda>b. b_prev_free (bufs s b)"
  from f(2) obtain xs ys where xy: "us = xs @ f # ys" by (meson split_list)
  define vs where "vs = f # ys @ xs"
  have vs: "ring ?nx ?pv vs" "hd vs = f" "set vs = set us"
    using r ring_rotate [of ?nx ?pv xs "f # ys"] xy by (auto simp: vs_def)
  then have l: "vs \<noteq> []" "distinct vs" "?pv f = Some (last vs)" "?nx (last vs) = Some f" "f \<in> set vs" "last vs \<in> set vs"
    using seg_hd [of ?nx ?pv "Some (last vs)" "Some (hd vs)" vs] seg_last [of ?nx ?pv "Some (last vs)" "Some (hd vs)" vs]
    by (auto simp: ring_def)
  have ne: "bh \<noteq> f" "bh \<noteq> last vs" "bh \<notin> set vs" using bh(1) l(5,6) vs(3) by auto
  define s1 where "s1 = mod_buf bh (\<lambda>b. b\<lparr>b_next_free := Some f\<rparr>) s"
  define s2 where "s2 = mod_buf bh (\<lambda>b. b\<lparr>b_prev_free := Some (last vs)\<rparr>) s1"
  define s3 where "s3 = mod_buf (last vs) (\<lambda>b. b\<lparr>b_next_free := Some bh\<rparr>) s2"
  define s' where "s' = mod_buf f (\<lambda>b. b\<lparr>b_prev_free := Some bh\<rparr>) s3"
  have b1: "bufs s1 b = (if b = bh then (bufs s b)\<lparr>b_next_free := Some f\<rparr> else bufs s b)" for b
    by (simp add: s1_def)
  have b2: "bufs s2 b = (if b = bh then (bufs s1 b)\<lparr>b_prev_free := Some (last vs)\<rparr> else bufs s1 b)" for b
    by (simp add: s2_def)
  have b3: "bufs s3 b = (if b = last vs then (bufs s2 b)\<lparr>b_next_free := Some bh\<rparr> else bufs s2 b)" for b
    by (simp add: s3_def)
  have b4: "bufs s' b = (if b = f then (bufs s3 b)\<lparr>b_prev_free := Some bh\<rparr> else bufs s3 b)" for b
    by (simp add: s'_def)
  have run: "put_free bh s = Some s'"
    using l ne f(1) by (simp add: put_free_def s1_def [symmetric] b1 s2_def [symmetric] b2 s3_def [symmetric] s'_def)
  have R: "ring (\<lambda>b. b_next_free (bufs s' b)) (\<lambda>b. b_prev_free (bufs s' b)) (vs @ [bh])"
    using ne l by (intro ring_insert [OF vs(1)]) (auto simp: b4 b3 b2 b1 vs(2))
  have N: "NR_BUFFERS s' = NR_BUFFERS s" "hash_table s' = hash_table s" "free_list s' = free_list s"
    by (simp_all add: s'_def s3_def s2_def s1_def)
  have "free_ring (vs @ [bh]) s'"
    using R bh(2) vs(2,3) l(1) f(1) by (auto simp: free_ring_def N)
  moreover have "bufs s' b = (bufs s b)\<lparr>b_prev_free := b_prev_free (bufs s' b), b_next_free := b_next_free (bufs s' b)\<rparr>" for b
    by (simp add: b4 b3 b2 b1)
  ultimately show ?thesis using run N(1,2)
    by (intro exI [of _ s'] exI [of _ "vs @ [bh]"]) auto
qed

lemma put_hash_frame:
  "b_dev (bufs (put_hash bh s) b) = b_dev (bufs s b)" "b_blocknr (bufs (put_hash bh s) b) = b_blocknr (bufs s b)"
  "b_count (bufs (put_hash bh s) b) = b_count (bufs s b)" "b_uptodate (bufs (put_hash bh s) b) = b_uptodate (bufs s b)"
  "b_dirt (bufs (put_hash bh s) b) = b_dirt (bufs s b)" "b_lock (bufs (put_hash bh s) b) = b_lock (bufs s b)"
  "b_prev_free (bufs (put_hash bh s) b) = b_prev_free (bufs s b)"
  "b_next_free (bufs (put_hash bh s) b) = b_next_free (bufs s b)"
  "free_list (put_hash bh s) = free_list s" "NR_BUFFERS (put_hash bh s) = NR_BUFFERS s"
  by (simp_all add: put_hash_def Let_def split: option.split)

lemma put_hash_buf_hash: "buf_hash b (put_hash bh s) = buf_hash b s"
  by (simp add: buf_hash_def put_hash_frame)

lemma put_hash_links:
  assumes "b_dev (bufs s bh) \<noteq> 0" "hash_table s (buf_hash bh s) \<noteq> Some bh"
  shows "b_next (bufs (put_hash bh s) b) = (if b = bh then hash_table s (buf_hash bh s) else b_next (bufs s b))"
    and "b_prev (bufs (put_hash bh s) b) = (if b = bh then None
          else if hash_table s (buf_hash bh s) = Some b then Some bh else b_prev (bufs s b))"
    and "hash_table (put_hash bh s) = (hash_table s)(buf_hash bh s := Some bh)"
  using assms by (auto simp: put_hash_def Let_def buf_hash_def split: option.split)

lemma put_hash_ok:
  assumes u: "unhashed bh s" and bh: "bh < NR_BUFFERS s"
  shows "(\<forall>h<NR_HASH. \<exists>c. hash_chain h c (put_hash bh s))
     \<and> (\<forall>b<NR_BUFFERS s. b_dev (bufs s b) = 0 \<longrightarrow>
          b_prev (bufs (put_hash bh s) b) = None \<and> b_next (bufs (put_hash bh s) b) = None)"
proof (cases "b_dev (bufs s bh) = 0")
  case True
  then have ph: "put_hash bh s = mod_buf bh (\<lambda>b. b\<lparr>b_prev := None, b_next := None\<rparr>) s"
    by (simp add: put_hash_def)
  have "\<exists>c. hash_chain h c (put_hash bh s)" if h: "h < NR_HASH" for h
  proof -
    obtain c where c: "hash_chain_but {bh} h c s" using u h by (auto simp: unhashed_def)
    have "hash_chain h c (put_hash bh s)"
      unfolding hash_chain_def
    proof (rule hash_chain_other [OF c])
      fix b assume "b \<in> set c"
      then have "b \<noteq> bh" using c by (auto simp: hash_chain_but_def)
      then show "b_next (bufs (put_hash bh s) b) = b_next (bufs s b) \<and> b_prev (bufs (put_hash bh s) b) = b_prev (bufs s b)"
        by (simp add: ph)
    qed (use True in \<open>auto simp: put_hash_frame put_hash_buf_hash ph buf_hash_def\<close>)
    then show ?thesis by blast
  qed
  then show ?thesis using u by (auto simp: ph unhashed_def)
next
  case dev: False
  let ?h = "buf_hash bh s"
  obtain ch where ch: "hash_chain_but {bh} ?h ch s"
    using u buf_hash_less [of bh s] unfolding unhashed_def by blast
  have sg: "seg (\<lambda>b. b_next (bufs s b)) (\<lambda>b. b_prev (bufs s b)) None (hash_table s ?h) ch None" "bh \<notin> set ch" "distinct ch"
    using ch by (auto simp: hash_chain_but_def)
  have hd: "hash_table s ?h = (if ch = [] then None else Some (hd ch))" using sg(1) by (cases ch) auto
  then have "hash_table s ?h \<noteq> Some bh" using sg(2) by (cases ch) auto
  note L = put_hash_links [OF dev this]
  have "\<exists>c. hash_chain h c (put_hash bh s)" if h: "h < NR_HASH" for h
  proof (cases "h = ?h")
    case True
    have "seg (\<lambda>b. b_next (bufs (put_hash bh s) b)) (\<lambda>b. b_prev (bufs (put_hash bh s) b)) (Some bh)
        (hash_table s ?h) ch None"
    proof (cases "ch = []")
      case False
      then have e: "bh \<noteq> hd ch" "last ch \<noteq> bh" using sg(2) by auto
      have "seg (\<lambda>b. b_next (bufs (put_hash bh s) b)) (\<lambda>b. b_prev (bufs (put_hash bh s) b)) (Some bh)
          (Some (hd ch)) ch None"
        using False e sg seg_last [OF sg(1) False]
        by (intro seg_retarget [OF sg(1)]) (auto simp: L hd)
      then show ?thesis using False by (simp add: hd)
    qed (use hd in simp)
    then have "hash_chain ?h (bh # ch) (put_hash bh s)"
      using ch bh dev by (auto simp: hash_chain_def hash_chain_but_def put_hash_frame put_hash_buf_hash L)
    with True show ?thesis by blast
  next
    case False
    obtain c where c: "hash_chain_but {bh} h c s" using u h by (auto simp: unhashed_def)
    have "hash_chain h c (put_hash bh s)"
      unfolding hash_chain_def
    proof (rule hash_chain_other [OF c])
      fix b assume b: "b \<in> set c"
      have "b \<noteq> bh" using b c by (auto simp: hash_chain_but_def)
      moreover have "hash_table s ?h \<noteq> Some b"
        using b c ch False hd by (cases ch) (auto simp: hash_chain_but_def)
      ultimately show "b_next (bufs (put_hash bh s) b) = b_next (bufs s b) \<and> b_prev (bufs (put_hash bh s) b) = b_prev (bufs s b)"
        by (simp add: L)
    qed (use False in \<open>auto simp: put_hash_frame put_hash_buf_hash L\<close>)
    then show ?thesis by blast
  qed
  moreover have "b_prev (bufs (put_hash bh s) b) = None \<and> b_next (bufs (put_hash bh s) b) = None"
    if b: "b < NR_BUFFERS s" "b_dev (bufs s b) = 0" for b
  proof -
    have "b \<noteq> bh" using b dev by auto
    moreover have "hash_table s ?h \<noteq> Some b" using b ch hd by (cases ch) (auto simp: hash_chain_but_def)
    ultimately show ?thesis using u b by (simp add: L unhashed_def)
  qed
  ultimately show ?thesis by blast
qed

lemma unhashed_cong:
  assumes "unhashed bh s" "NR_BUFFERS s' = NR_BUFFERS s" "hash_table s' = hash_table s"
    and "\<And>b. b \<noteq> bh \<Longrightarrow> b_next (bufs s' b) = b_next (bufs s b) \<and> b_prev (bufs s' b) = b_prev (bufs s b)
       \<and> b_dev (bufs s' b) = b_dev (bufs s b) \<and> b_blocknr (bufs s' b) = b_blocknr (bufs s b)"
  shows "unhashed bh s'"
proof -
  have "hash_chain_but {bh} h c s'" if c: "hash_chain_but {bh} h c s" for h c
  proof (rule hash_chain_other [OF c])
    show "b_next (bufs s' b) = b_next (bufs s b) \<and> b_prev (bufs s' b) = b_prev (bufs s b)" if "b \<in> set c" for b
      using that c assms(4) by (auto simp: hash_chain_but_def)
  qed (use assms in \<open>auto simp: buf_hash_def\<close>)
  then show ?thesis using assms unfolding unhashed_def by metis
qed

lemma free_links_frame:
  assumes "x = y\<lparr>b_prev_free := p, b_next_free := n\<rparr>"
  shows "b_dev x = b_dev y" "b_blocknr x = b_blocknr y" "b_count x = b_count y" "b_uptodate x = b_uptodate y"
    "b_lock x = b_lock y" "b_prev x = b_prev y" "b_next x = b_next y"
  using assms by simp_all

text \<open>The buffer \<^verbatim>\<open>getblk\<close> takes for a block that is not in the cache.\<close>

lemma take_buffer_ok:
  assumes ok: "cache_ok s" and bh: "bh < NR_BUFFERS s" and dev: "ucast (ucast dev :: u16) = dev"
    and new: "\<forall>b<NR_BUFFERS s. \<not> is_block dev block (bufs s b)"
  shows "\<exists>s'. take_buffer dev block bh s = Some s' \<and> cache_ok s' \<and> NR_BUFFERS s' = NR_BUFFERS s
     \<and> is_block dev block (bufs s' bh) \<and> b_count (bufs s' bh) = 1
     \<and> b_uptodate (bufs s' bh) = 0 \<and> b_lock (bufs s' bh) = b_lock (bufs s bh)
     \<and> (\<forall>b. b \<noteq> bh \<longrightarrow> (\<forall>d n. is_block d n (bufs s' b) = is_block d n (bufs s b)) \<and> b_count (bufs s' b) = b_count (bufs s b))"
proof -
  define s1 where "s1 = mod_buf bh (\<lambda>b. b\<lparr>b_count := 1, b_dirt := 0, b_uptodate := 0\<rparr>) s"
  have ok1: "cache_ok s1" "NR_BUFFERS s1 = NR_BUFFERS s"
    using ok same_links_cache_ok [of s s1] by (auto simp: same_links_def s1_def links_def)
  define s2 where "s2 = unhash bh s1"
  have u2: "unhashed bh s2" using unhash_ok [OF ok1(1)] bh ok1(2) by (simp add: s2_def)
  obtain fl where fl: "free_ring fl s1" and two: "2 \<le> NR_BUFFERS s1" using ok1 by (auto simp: cache_ok_def)
  have fl2: "free_ring fl s2" using fl by (simp add: free_ring_def s2_def unhash_frame)
  have N2: "NR_BUFFERS s2 = NR_BUFFERS s" by (simp add: s2_def unhash_frame ok1)
  obtain s3 us f where s3: "unfree bh s2 = Some s3"
    "ring (\<lambda>b. b_next_free (bufs s3 b)) (\<lambda>b. b_prev_free (bufs s3 b)) us"
    "bh \<notin> set us" "insert bh (set us) = {..<NR_BUFFERS s2}" "free_list s3 = Some f" "f \<in> set us"
    "NR_BUFFERS s3 = NR_BUFFERS s2" "hash_table s3 = hash_table s2"
    and b3: "\<And>b. bufs s3 b = (bufs s2 b)\<lparr>b_prev_free := b_prev_free (bufs s3 b), b_next_free := b_next_free (bufs s3 b)\<rparr>"
    using unfree_ok [OF fl2, of bh] bh two N2 ok1(2) by auto
  define s4 where "s4 = mod_buf bh (\<lambda>b. b\<lparr>b_dev := ucast dev, b_blocknr := block\<rparr>) s3"
  have b4: "bufs s4 b = (if b = bh then (bufs s3 b)\<lparr>b_dev := ucast dev, b_blocknr := block\<rparr> else bufs s3 b)" for b
    by (simp add: s4_def)
  have r4: "ring (\<lambda>b. b_next_free (bufs s4 b)) (\<lambda>b. b_prev_free (bufs s4 b)) us"
    using s3(2) ring_cong [of us "\<lambda>b. b_next_free (bufs s4 b)" "\<lambda>b. b_next_free (bufs s3 b)"
      "\<lambda>b. b_prev_free (bufs s4 b)" "\<lambda>b. b_prev_free (bufs s3 b)"] by (simp add: b4)
  obtain s5 fl' where s5: "put_free bh s4 = Some s5" "free_ring fl' s5" "NR_BUFFERS s5 = NR_BUFFERS s4"
    "hash_table s5 = hash_table s4"
    and b5: "\<And>b. bufs s5 b = (bufs s4 b)\<lparr>b_prev_free := b_prev_free (bufs s5 b), b_next_free := b_next_free (bufs s5 b)\<rparr>"
    using put_free_ok [OF r4 s3(3), of f] s3(4-7) by (auto simp: s4_def)
  define s' where "s' = put_hash bh s5"
  have run: "take_buffer dev block bh s = Some s'"
    by (simp add: take_buffer_def s1_def [symmetric] remove_from_queues_def s2_def [symmetric] s3(1)
        s4_def [symmetric] insert_into_queues_def s5(1) s'_def)
  have N5: "NR_BUFFERS s5 = NR_BUFFERS s" by (simp add: s5 s4_def s3 N2)
  have same: "b_next (bufs s5 b) = b_next (bufs s2 b) \<and> b_prev (bufs s5 b) = b_prev (bufs s2 b)
      \<and> b_dev (bufs s5 b) = b_dev (bufs s b) \<and> b_blocknr (bufs s5 b) = b_blocknr (bufs s b)
      \<and> b_count (bufs s5 b) = b_count (bufs s b)" if "b \<noteq> bh" for b
    using that by (simp add: free_links_frame [OF b5] b4 free_links_frame [OF b3])
      (simp add: s2_def unhash_frame s1_def)
  have bh5: "b_dev (bufs s5 bh) = ucast dev" "b_blocknr (bufs s5 bh) = block"
    by (simp_all add: free_links_frame [OF b5] b4)
  have cnt: "b_count (bufs s5 bh) = 1" "b_uptodate (bufs s5 bh) = 0" "b_lock (bufs s5 bh) = b_lock (bufs s bh)"
    by (simp_all add: free_links_frame [OF b5] b4 free_links_frame [OF b3])
      (simp_all add: s2_def unhash_frame s1_def)
  have "unhashed bh s5"
    by (rule unhashed_cong [OF u2]) (use same in \<open>auto simp: s5 s4_def s3 s2_def unhash_frame s1_def\<close>)
  from put_hash_ok [OF this] bh N5 have ph: "\<forall>h<NR_HASH. \<exists>c. hash_chain h c s'"
    "\<forall>b<NR_BUFFERS s. b_dev (bufs s' b) = 0 \<longrightarrow> b_prev (bufs s' b) = None \<and> b_next (bufs s' b) = None"
    by (auto simp: s'_def put_hash_frame)
  have ring': "free_ring fl' s'" using s5(2) by (simp add: free_ring_def s'_def put_hash_frame)
  have F: "b_dev (bufs s' b) = b_dev (bufs s5 b)" "b_blocknr (bufs s' b) = b_blocknr (bufs s5 b)"
    "NR_BUFFERS s' = NR_BUFFERS s" "b_count (bufs s' b) = b_count (bufs s5 b)" for b
    by (simp_all add: s'_def put_hash_frame N5)
  have nd: "no_duplicates s'"
    unfolding no_duplicates_def F
  proof (intro allI impI)
    fix a b assume ab: "a < NR_BUFFERS s" "b < NR_BUFFERS s" "b_dev (bufs s5 a) \<noteq> 0"
      "b_dev (bufs s5 a) = b_dev (bufs s5 b)" "b_blocknr (bufs s5 a) = b_blocknr (bufs s5 b)"
    have fresh: "\<not> (b_dev (bufs s c) = ucast dev \<and> b_blocknr (bufs s c) = block)" if "c < NR_BUFFERS s" for c
      using new that dev by (auto simp: is_block_def)
    show "a = b"
    proof (cases "a = bh \<or> b = bh")
      case True
      moreover have "\<not> (b_dev (bufs s5 c) = ucast dev \<and> b_blocknr (bufs s5 c) = block)" if "c < NR_BUFFERS s" "c \<noteq> bh" for c
        using fresh [OF that(1)] same [OF that(2)] by simp
      ultimately show ?thesis using ab bh5 by metis
    next
      case False
      then show ?thesis using ab same [of a] same [of b] ok unfolding cache_ok_def no_duplicates_def by metis
    qed
  qed
  have "cache_ok s'" using ring' ph nd two ok1(2) F(3) by (auto simp: cache_ok_def)
  moreover have "is_block dev block (bufs s' bh)" using bh5 dev by (simp add: is_block_def F)
  moreover have "is_block d n (bufs s' b) = is_block d n (bufs s b) \<and> b_count (bufs s' b) = b_count (bufs s b)"
    if "b \<noteq> bh" for b d n using same [OF that] by (simp add: is_block_def F)
  ultimately show ?thesis using run cnt F(3) by (auto simp: s'_def put_hash_frame)
qed

section \<open>Choosing a buffer\<close>

text \<open>The loop of \<^verbatim>\<open>getblk\<close> ends after one turn around the ring with an unused buffer of the least
  badness, or with none when all are in use.\<close>

definition best_unused :: "nat set \<Rightarrow> nat option \<Rightarrow> 'a blk_scheme \<Rightarrow> bool" where
  "best_unused X r s \<longleftrightarrow> (case r of None \<Rightarrow> \<forall>x\<in>X. b_count (bufs s x) \<noteq> 0
     | Some b \<Rightarrow> b \<in> X \<and> b_count (bufs s b) = 0
         \<and> (\<forall>x\<in>X. b_count (bufs s x) = 0 \<longrightarrow> BADNESS (bufs s b) \<le> BADNESS (bufs s x)))"

lemma free_scan_best:
  assumes "seg (\<lambda>b. b_next_free (bufs s b)) pv p (Some t) (t # r) start" "\<forall>x\<in>set r. Some x \<noteq> start"
    and "best_unused X found s"
  shows "\<exists>res. free_scan start t found s = Some res
     \<and> (best_unused (X \<union> set (t # r)) res s
        \<or> (\<exists>b \<in> set (t # r). res = Some b \<and> b_count (bufs s b) = 0 \<and> BADNESS (bufs s b) = 0))"
  using assms
proof (induction r arbitrary: t p found X)
  case Nil
  then show ?case
    by (subst free_scan.simps) (auto simp: Let_def best_unused_def split: option.splits)
next
  case (Cons n r)
  define better where "better = (b_count (bufs s t) = 0
     \<and> (case found of None \<Rightarrow> True | Some bh \<Rightarrow> BADNESS (bufs s t) < BADNESS (bufs s bh)))"
  define found' where "found' = (if better then Some t else found)"
  have n: "b_next_free (bufs s t) = Some n" "Some n \<noteq> start" using Cons.prems by auto
  show ?case
  proof (cases "better \<and> BADNESS (bufs s t) = 0")
    case True
    then show ?thesis
      by (subst free_scan.simps) (auto simp: Let_def better_def)
  next
    case False
    have "free_scan start t found s = (if better \<and> BADNESS (bufs s t) = 0 then Some found'
        else if b_next_free (bufs s t) = start then Some found'
        else case b_next_free (bufs s t) of None \<Rightarrow> None | Some n \<Rightarrow> free_scan start n found' s)"
      unfolding better_def found'_def by (subst free_scan.simps) (simp only: Let_def)
    then have "free_scan start t found s = free_scan start n found' s"
      using False n by simp
    moreover have "best_unused (insert t X) found' s"
      using Cons.prems(3) by (auto simp: best_unused_def found'_def better_def split: option.splits if_splits)
    moreover have "seg (\<lambda>b. b_next_free (bufs s b)) pv (Some t) (Some n) (n # r) start" using Cons.prems(1) n by simp
    ultimately show ?thesis
      using Cons.IH [of "Some t" n "insert t X" found'] Cons.prems(2) by (simp add: insert_commute) blast
  qed
qed

lemma free_scan_ring:
  assumes "cache_ok s"
  shows "\<exists>f r. free_list s = Some f \<and> free_scan (Some f) f None s = Some r
     \<and> best_unused {..<NR_BUFFERS s} r s"
proof -
  obtain fl where fl: "free_ring fl s" using assms by (auto simp: cache_ok_def)
  then obtain f r where fr: "fl = f # r" by (cases fl) (auto simp: free_ring_def ring_def)
  have sg: "seg (\<lambda>b. b_next_free (bufs s b)) (\<lambda>b. b_prev_free (bufs s b)) (Some (last fl)) (Some f) (f # r) (Some f)"
    "f \<notin> set r" "set (f # r) = {..<NR_BUFFERS s}" "free_list s = Some f"
    using fl fr by (auto simp: free_ring_def ring_def)
  have "\<forall>x\<in>set r. Some x \<noteq> Some f" "best_unused {} None s" using sg(2) by (auto simp: best_unused_def)
  from free_scan_best [OF sg(1) this] obtain res where res: "free_scan (Some f) f None s = Some res"
    "best_unused (set (f # r)) res s
      \<or> (\<exists>b \<in> set (f # r). res = Some b \<and> b_count (bufs s b) = 0 \<and> BADNESS (bufs s b) = 0)"
    unfolding Un_empty_left by blast
  have "best_unused {..<NR_BUFFERS s} res s"
    using res(2) unfolding sg(3) by (auto simp: best_unused_def)
  with res(1) sg(4) show ?thesis by blast
qed

section \<open>Getting a block while others run\<close>

text \<open>\<open>rely w P\<close>: the rest of the system keeps \<open>P\<close>, and \<open>P\<close> looks only at the links of the cache.\<close>

definition rely :: "'a cache_scheme world \<Rightarrow> ('a cache_scheme \<Rightarrow> bool) \<Rightarrow> bool" where
  "rely w P \<longleftrightarrow> (\<forall>s s'. P s \<longrightarrow> same_links s s' \<longrightarrow> P s') \<and> (\<forall>n s. P s \<longrightarrow> P (w_run w n s))
     \<and> (\<forall>m s s'. P s \<longrightarrow> w_request w m s = Some s' \<longrightarrow> P s')
     \<and> (\<forall>s s'. P s \<longrightarrow> w_sync_inodes w s = Some s' \<longrightarrow> P s')"

lemma same_links_upd [simp]:
  "same_links s (s\<lparr>tstruct := ts\<rparr>)" "same_links s (s\<lparr>wq := q\<rparr>)" "same_links s (s\<lparr>current := c\<rparr>)"
  "same_links s (s\<lparr>n_switch := n\<rparr>)" "same_links s (mod_req r f s)" "same_links s (s\<lparr>current_request := cr\<rparr>)"
  "same_links s (s\<lparr>kmem := k\<rparr>)"
  by (auto simp: same_links_def mod_req_def)

lemma same_links_mod_buf: "(\<And>b. links (f b) = links b) \<Longrightarrow> same_links s (mod_buf bh f s)"
  by (simp add: same_links_def)

lemma links_upd [simp]:
  "links (b\<lparr>b_lock := x\<rparr>) = links b" "links (b\<lparr>b_count := c\<rparr>) = links b"
  "links (b\<lparr>b_dirt := d\<rparr>) = links b" "links (b\<lparr>b_uptodate := d\<rparr>) = links b"
  by (simp_all add: links_def)

lemma relyD:
  assumes "rely w P" "P s"
  shows "same_links s s' \<Longrightarrow> P s'" "P (w_run w n s)" "w_request w m s = Some s' \<Longrightarrow> P s'"
    "w_sync_inodes w s = Some s' \<Longrightarrow> P s'"
  using assms unfolding rely_def by blast+

lemma rely_stable:
  assumes "rely w P"
  shows "stable w P"
proof -
  note sl = relyD(1) [OF assms]
  have "P (s\<lparr>tstruct := ts\<rparr>)" if "P s" for s ts by (rule sl [OF that same_links_upd(1)])
  moreover have "P (s\<lparr>wq := q\<rparr>)" if "P s" for s q by (rule sl [OF that same_links_upd(2)])
  moreover have "P (s\<lparr>current := c\<rparr>)" if "P s" for s c by (rule sl [OF that same_links_upd(3)])
  moreover have "P (s\<lparr>n_switch := n\<rparr>)" if "P s" for s n by (rule sl [OF that same_links_upd(4)])
  moreover have "P (w_run w n s)" if "P s" for s n by (rule relyD(2) [OF assms that])
  ultimately show ?thesis unfolding stable_def by simp
qed

lemma rely_mod_buf: "rely w P \<Longrightarrow> P s \<Longrightarrow> (\<And>b. links (f b) = links b) \<Longrightarrow> P (mod_buf bh f s)"
  by (rule relyD(1) [OF _ _ same_links_mod_buf])

lemma wait_on_buffer_keeps:
  assumes "wait_on_buffer w bh s = Some s'" "rely w P" "P s"
  shows "P s' \<and> b_lock (bufs s' bh) = 0"
  using assms
proof (induction rule: wait_on_buffer.raw_induct [rotated, consumes 1, case_names step])
  case (step loop w bh s s')
  show ?case
  proof (cases "b_lock (bufs s bh) = 0")
    case False
    with step.hyps obtain u where "sleep_on w (B_wait bh) s = Some u" "loop w bh u = Some s'" by auto
    with step.IH step.prems show ?thesis using sleep_on_stable [OF _ rely_stable] by blast
  qed (use step in auto)
qed

lemma unlock_buffer_keeps: "rely w P \<Longrightarrow> P s \<Longrightarrow> P (unlock_buffer bh s)"
  unfolding unlock_buffer_def by (rule stableD(7) [OF rely_stable]) (auto intro: rely_mod_buf)

lemma add_request_keeps:
  assumes "add_request w dev req s = Some s'" "rely w P" "P s"
  shows "P s'"
proof -
  define s1 where "s1 = mod_req req (\<lambda>r. r\<lparr>rq_next := None\<rparr>) s"
  define s2 where "s2 = (case rq_bh (requests s1 req) of Some bh \<Rightarrow> mod_buf bh (\<lambda>b. b\<lparr>b_dirt := 0\<rparr>) s1 | None \<Rightarrow> s1)"
  have "P s1" using relyD(1) [OF assms(2,3)] by (simp add: s1_def)
  then have p2: "P s2" unfolding s2_def by (cases "rq_bh (requests s1 req)") (simp_all add: rely_mod_buf [OF assms(2)])
  show ?thesis
  proof (cases "current_request s2 dev")
    case None
    then have "w_request w dev (s2\<lparr>current_request := (current_request s2)(dev := Some req)\<rparr>) = Some s'"
      using assms(1) by (simp add: add_request_def s1_def [symmetric] s2_def [symmetric])
    then show ?thesis using relyD(3) [OF assms(2) relyD(1) [OF assms(2) p2 same_links_upd(6)]] by blast
  next
    case (Some tmp)
    then obtain t where "s' = mod_req t (\<lambda>r. r\<lparr>rq_next := Some req\<rparr>)
        (mod_req req (\<lambda>r. r\<lparr>rq_next := rq_next (requests s2 t)\<rparr>) s2)"
      using assms(1) by (auto simp: add_request_def s1_def [symmetric] s2_def [symmetric])
    then show ?thesis using relyD(1) [OF assms(2) relyD(1) [OF assms(2) p2 same_links_upd(5)] same_links_upd(5)] by simp
  qed
qed

lemma fill_request_keeps: "rely w P \<Longrightarrow> P s \<Longrightarrow> P (fill_request req rw bh s)"
  unfolding fill_request_def Let_def
  by (rule relyD(1) [OF _ relyD(1) [OF _ _ same_links_upd(2)] same_links_upd(5)])

lemma ll_rw_block_keeps:
  assumes "ll_rw_block w rw bh s = Some s'" "rely w P" "P s"
  shows "P s'"
proof -
  note st = rely_stable [OF assms(2)]
  have q: "P s'" if "queue_request w m rw' a bh u = Some s'" "P u" for m rw' a u
  proof -
    from that(1) obtain r v where v: "wait_request w (if rw' = READ then NR_REQUEST else NR_REQUEST * 2 div 3) a u = Some (r, v)"
      and fin: "(case r of None \<Rightarrow> Some (unlock_buffer bh v)
        | Some req \<Rightarrow> add_request w m req (fill_request req rw' bh v)) = Some s'"
      by (auto simp: queue_request_def)
    have "P v" using wait_request_result [OF st v that(2)] by simp
    with fin show ?thesis
      by (cases r) (auto intro: unlock_buffer_keeps [OF assms(2)] add_request_keeps [OF _ assms(2)]
          fill_request_keeps [OF assms(2)])
  qed
  have l: "P u" if "lock_buffer w bh s = Some u" for u
    using lock_buffer_stable [OF st _ that assms(3)] rely_mod_buf [OF assms(2)] by simp
  show ?thesis
  proof (cases "make_request w (MAJOR (ucast (b_dev (bufs s bh)))) rw bh s = Some s'")
    case True
    then show ?thesis
      using assms(3) q l unlock_buffer_keeps [OF assms(2)]
      unfolding make_request_def Let_def by (auto split: if_splits)
  qed (use assms(1,3) in \<open>auto simp: ll_rw_block_def Let_def split: if_splits\<close>)
qed

lemma sync_dev_buffers_keeps:
  "sync_dev_buffers w dev bs s = Some s' \<Longrightarrow> rely w P \<Longrightarrow> P s \<Longrightarrow> P s'"
proof (induction bs arbitrary: s)
  case (Cons b bs)
  show ?case
  proof (cases "ucast (b_dev (bufs s b)) = dev")
    case True
    with Cons.prems(1) obtain u v where u: "wait_on_buffer w b s = Some u"
      "(if ucast (b_dev (bufs u b)) = dev \<and> b_dirt (bufs u b) \<noteq> 0 then ll_rw_block w WRITE b u else Some u) = Some v"
      "sync_dev_buffers w dev bs v = Some s'"
      by (auto simp: bind_eq_Some_conv simp del: split_paired_Ex cong: if_cong split del: if_split)
    have "P u" using wait_on_buffer_keeps [OF u(1) Cons.prems(2,3)] by simp
    then have "P v" using u(2) ll_rw_block_keeps [OF _ Cons.prems(2)] by (auto split: if_splits)
    with Cons.IH [OF u(3) Cons.prems(2)] show ?thesis by simp
  qed (use Cons in auto)
qed simp

lemma sync_dev_keeps:
  assumes "sync_dev w dev s = Some s'" "rely w P" "P s"
  shows "P s'"
proof -
  from assms(1) obtain u v where u: "sync_dev_buffers w dev [0..<NR_BUFFERS s] s = Some u"
    "w_sync_inodes w u = Some v" "sync_dev_buffers w dev [0..<NR_BUFFERS v] v = Some s'"
    by (auto simp: sync_dev_def)
  show ?thesis
    using sync_dev_buffers_keeps [OF u(3) assms(2)] relyD(4) [OF assms(2) _ u(2)]
      sync_dev_buffers_keeps [OF u(1) assms(2,3)] by blast
qed

lemma clean_loop_keeps:
  assumes "clean_loop w bh s = Some r" "rely w P" "P s"
  shows "P (snd r)"
  using assms
proof (induction rule: clean_loop.raw_induct [rotated, consumes 1, case_names step])
  case (step loop w bh s r)
  show ?case
  proof (cases "b_dirt (bufs s bh) = 0")
    case False
    with step.hyps obtain u v where u: "sync_dev w (ucast (b_dev (bufs s bh))) s = Some u"
      "wait_on_buffer w bh u = Some v"
      "(if b_count (bufs v bh) \<noteq> 0 then Some (False, v) else loop w bh v) = Some r" by auto
    have "P v" using wait_on_buffer_keeps [OF u(2)] sync_dev_keeps [OF u(1)] step.prems by blast
    with u(3) step.IH step.prems show ?thesis by (auto split: if_splits)
  qed (use step in auto)
qed

text \<open>The cache is well-formed and keeps its \<open>n\<close> buffers.\<close>

definition cache_inv :: "nat \<Rightarrow> 'a cache_scheme \<Rightarrow> bool" where
  "cache_inv n s \<longleftrightarrow> cache_ok s \<and> NR_BUFFERS s = n"

lemma find_buffer_result:
  assumes "cache_inv n s" "dev \<noteq> 0" "find_buffer dev block s = Some r"
  shows "case r of None \<Rightarrow> \<forall>b<n. \<not> is_block dev block (bufs s b)
     | Some b \<Rightarrow> b < n \<and> is_block dev block (bufs s b)"
proof -
  from find_buffer_char [of s dev block] assms have r: "r = cached dev block s"
    "\<forall>b<n. is_block dev block (bufs s b) \<longleftrightarrow> cached dev block s = Some b"
    by (auto simp: cache_inv_def)
  have "b < n" if "cached dev block s = Some b" for b
    using that assms(1) by (auto simp: cached_def find_Some_iff cache_inv_def)
  with r show ?thesis by (auto split: option.split)
qed

lemma get_hash_table_keeps:
  assumes "get_hash_table w dev block s = Some r" "rely w (cache_inv n)" "cache_inv n s" "dev \<noteq> 0"
  shows "cache_inv n (snd r) \<and> (case fst r of None \<Rightarrow> True
     | Some b \<Rightarrow> b < n \<and> is_block dev block (bufs (snd r) b) \<and> b_lock (bufs (snd r) b) = 0)"
  using assms
proof (induction rule: get_hash_table.raw_induct [rotated, consumes 1, case_names step])
  case (step loop w dev block s r)
  from step.hyps obtain f where f: "find_buffer dev block s = Some f" by auto
  note keep = rely_mod_buf [OF step.prems(1)]
  show ?case
  proof (cases f)
    case None
    with step f show ?thesis by auto
  next
    case (Some bh)
    from step.hyps f Some obtain u where
      u: "wait_on_buffer w bh (mod_buf bh (\<lambda>b. b\<lparr>b_count := b_count b + 1\<rparr>) s) = Some u"
      and fin: "(if is_block dev block (bufs u bh) then Some (Some bh, u)
        else loop w dev block (mod_buf bh (\<lambda>b. b\<lparr>b_count := b_count b - 1\<rparr>) u)) = Some r" by auto
    have "cache_inv n (mod_buf bh (\<lambda>b. b\<lparr>b_count := b_count b + 1\<rparr>) s)" using keep step.prems(2) by simp
    note pu = wait_on_buffer_keeps [OF u step.prems(1) this]
    have "bh < n" using find_buffer_result [OF step.prems(2,3) f] Some by simp
    moreover have "cache_inv n (mod_buf bh (\<lambda>b. b\<lparr>b_count := b_count b - 1\<rparr>) u)" using keep pu by simp
    ultimately show ?thesis
      using fin pu step.IH [of w dev block "mod_buf bh (\<lambda>b. b\<lparr>b_count := b_count b - 1\<rparr>) u" r] step.prems
      by (auto split: if_splits)
  qed
qed

lemma getblk_keeps_aux:
  assumes "getblk w dev block s = Some r" "rely w (cache_inv n)" "cache_inv n s" "dev \<noteq> 0"
    and "ucast (ucast dev :: u16) = dev"
  shows "cache_inv n (snd r) \<and> fst r < n \<and> is_block dev block (bufs (snd r) (fst r))"
  using assms
proof (induction rule: getblk.raw_induct [rotated, consumes 1, case_names step])
  case (step loop w dev block s r)
  note again = step.IH [OF _ step.prems(1) _ step.prems(3,4)]
  from step.hyps obtain h u where h: "get_hash_table w dev block s = Some (h, u)" by auto
  note hk = get_hash_table_keeps [OF h step.prems(1-3)]
  show ?case
  proof (cases h)
    case (Some bh)
    with step.hyps h hk show ?thesis by auto
  next
    case None
    obtain f c where f: "free_list u = Some f" "free_scan (Some f) f None u = Some c"
      "best_unused {..<NR_BUFFERS u} c u"
      using free_scan_ring [of u] hk by (auto simp: cache_inv_def)
    show ?thesis
    proof (cases c)
      case None
      with step.hyps h \<open>h = None\<close> f obtain v where "sleep_on w Buffer_wait u = Some v" "loop w dev block v = Some r"
        by auto
      then show ?thesis using again sleep_on_stable [OF _ rely_stable [OF step.prems(1)]] hk by auto
    next
      case (Some bh)
      then have bh: "bh < n" using f(3) hk by (auto simp: best_unused_def cache_inv_def)
      from step.hyps h \<open>h = None\<close> f Some obtain v where v: "wait_on_buffer w bh u = Some v"
        and rest: "(if b_count (bufs v bh) \<noteq> 0 then loop w dev block v
          else do {
            (clean, s) \<leftarrow> clean_loop w bh v;
            if \<not> clean then loop w dev block s
            else do {
              r \<leftarrow> find_buffer dev block s;
              if r \<noteq> None then loop w dev block s
              else do { s \<leftarrow> take_buffer dev block bh s; Some (bh, s) }
            }
          }) = Some r" by auto
      have pv: "cache_inv n v" using wait_on_buffer_keeps [OF v step.prems(1)] hk by simp
      show ?thesis
      proof (cases "b_count (bufs v bh) = 0")
        case False
        with rest pv again show ?thesis by auto
      next
        case True
        with rest obtain cl x where x: "clean_loop w bh v = Some (cl, x)"
          "(if \<not> cl then loop w dev block x
            else do {
              r \<leftarrow> find_buffer dev block x;
              if r \<noteq> None then loop w dev block x
              else do { s \<leftarrow> take_buffer dev block bh x; Some (bh, s) }
            }) = Some r" by auto
        have px: "cache_inv n x" using clean_loop_keeps [OF x(1) step.prems(1) pv] by simp
        show ?thesis
        proof (cases "loop w dev block x = Some r")
          case True
          with px again show ?thesis by auto
        next
          case False
          with x(2) have fb: "find_buffer dev block x = Some None"
            and tk: "do { s \<leftarrow> take_buffer dev block bh x; Some (bh, s) } = Some r"
            by (auto split: if_splits)
          have "\<forall>b<n. \<not> is_block dev block (bufs x b)" using find_buffer_result [OF px step.prems(3) fb] by simp
          then show ?thesis
            using tk take_buffer_ok [of x bh dev block] px bh step.prems(4) by (auto simp: cache_inv_def)
        qed
      qed
    qed
  qed
qed

text \<open>
  C1. However often \<^verbatim>\<open>getblk\<close> sleeps and starts over, when it returns the cache is well-formed and
  the buffer is the buffer of the block; in particular no block is ever cached twice. The other
  tasks, the drivers and \<^verbatim>\<open>sync_inodes\<close> are assumed to keep the invariant as well.
\<close>

theorem getblk_no_duplicates:
  assumes "\<And>n s. cache_inv N s \<Longrightarrow> cache_inv N (w_run w n s)"
    and "\<And>m s s'. cache_inv N s \<Longrightarrow> w_request w m s = Some s' \<Longrightarrow> cache_inv N s'"
    and "\<And>s s'. cache_inv N s \<Longrightarrow> w_sync_inodes w s = Some s' \<Longrightarrow> cache_inv N s'"
    and "cache_inv N s" "dev \<noteq> 0" "ucast (ucast dev :: u16) = dev"
    and "getblk w dev block s = Some (bh, s')"
  shows "cache_inv N s' \<and> bh < N \<and> is_block dev block (bufs s' bh)"
proof -
  have "cache_inv N s'" if "cache_inv N s" "same_links s s'" for s s'
    using that same_links_cache_ok [OF that(2)] by (simp add: cache_inv_def same_linksD)
  then have "rely w (cache_inv N)" using assms(1-3) unfolding rely_def by blast
  from getblk_keeps_aux [OF assms(7) this assms(4-6)] show ?thesis by simp
qed

section \<open>The cache after booting\<close>

text \<open>The fields of buffer \<open>i\<close> as the loop of \<^verbatim>\<open>buffer_init\<close> sets them; \<open>e\<close> is the end of the buffer
  memory.\<close>

definition fresh_buffer :: "nat \<Rightarrow> nat \<Rightarrow> buffer_head \<Rightarrow> bool" where
  "fresh_buffer e i b \<longleftrightarrow> unat (b_data b) = e - 1024 * (i + 1) \<and> b_dev b = 0 \<and> b_uptodate b = 0 \<and> b_dirt b = 0
     \<and> b_count b = 0 \<and> b_lock b = 0 \<and> b_prev b = None \<and> b_next b = None"

lemma len_of_u32: "(2::nat) ^ LENGTH(32) = 2 ^ 32"
  by simp

lemma buffer_init_loop_ok:
  assumes "start_buffer s = LOW_MEM" "NR_BUFFERS s = h" "unat b = e - 1024 * h" "1024 * h \<le> e" "e < 2 ^ 32"
    and "0x300000 + 36 * h \<le> e - 1024 * h"
    and "\<forall>i<h. fresh_buffer e i (bufs s i) \<and> b_next_free (bufs s i) = Some (i + 1)
       \<and> (0 < i \<longrightarrow> b_prev_free (bufs s i) = Some (i - 1))"
  shows "\<exists>n s'. buffer_init_loop h b s = Some (n, s') \<and> NR_BUFFERS s' = n
     \<and> e - 1024 * (n + 1) < 0x300000 + 36 * (n + 1) \<and> 1024 * n \<le> e \<and> 0x300000 + 36 * n \<le> e - 1024 * n
     \<and> (\<forall>i<n. fresh_buffer e i (bufs s' i) \<and> b_next_free (bufs s' i) = Some (i + 1)
          \<and> (0 < i \<longrightarrow> b_prev_free (bufs s' i) = Some (i - 1)))"
  using assms
proof (induction "unat b" arbitrary: h b s rule: less_induct)
  case less
  let ?b = "b - 1024"
  have ge: "1024 \<le> unat b" using less.prems(3,6) by linarith
  then have ub: "unat ?b = unat b - 1024"
    by (simp add: unat_sub word_le_nat_alt)
  have hs: "h < 4194304" using less.prems(4,5) by simp
  have ua: "unat (LOW_MEM + of_nat (h + 1) * BH_SIZE) = 0x300000 + 36 * (h + 1)"
  proof -
    have "(LOW_MEM + of_nat (h + 1) * BH_SIZE :: u32) = of_nat (0x300000 + 36 * (h + 1))" by simp
    moreover have "0x300000 + 36 * (h + 1) < 2 ^ 32" using hs by simp
    ultimately show ?thesis by (metis unat_of_nat mod_less len_of_u32)
  qed
  show ?case
  proof (cases "?b < start_buffer s + of_nat (h + 1) * BH_SIZE")
    case True
    then have "unat b - 1024 < 0x300000 + 36 * (h + 1)"
      using ua ub less.prems(1) by (simp add: word_less_nat_alt)
    moreover have "buffer_init_loop h b s = Some (h, s)"
      using True by (subst buffer_init_loop.simps) (simp add: Let_def)
    ultimately show ?thesis using less.prems by (intro exI [of _ h] exI [of _ s]) auto
  next
    case False
    then have cont: "0x300000 + 36 * (h + 1) \<le> unat b - 1024"
      using ua ub less.prems(1) by (simp add: word_less_nat_alt)
    let ?s = "mod_buf h (\<lambda>x. \<lparr>b_data = ?b, b_blocknr = b_blocknr x, b_dev = 0, b_uptodate = 0, b_dirt = 0,
             b_count = 0, b_lock = 0, b_prev = None, b_next = None,
             b_prev_free = (if h = 0 then None else Some (h - 1)), b_next_free = Some (h + 1)\<rparr>)
          (s\<lparr>wq := (wq s)(B_wait h := 0), NR_BUFFERS := NR_BUFFERS s + 1\<rparr>)"
    have "buffer_init_loop h b s = buffer_init_loop (h + 1) ?b ?s"
      using False by (subst buffer_init_loop.simps) (simp add: Let_def)
    moreover have "\<exists>n s'. buffer_init_loop (h + 1) ?b ?s = Some (n, s') \<and> NR_BUFFERS s' = n
     \<and> e - 1024 * (n + 1) < 0x300000 + 36 * (n + 1) \<and> 1024 * n \<le> e \<and> 0x300000 + 36 * n \<le> e - 1024 * n
     \<and> (\<forall>i<n. fresh_buffer e i (bufs s' i) \<and> b_next_free (bufs s' i) = Some (i + 1)
          \<and> (0 < i \<longrightarrow> b_prev_free (bufs s' i) = Some (i - 1)))"
    proof (rule less.hyps)
      show "unat ?b < unat b" using ge ub by linarith
      show "unat ?b = e - 1024 * (h + 1)" using ub less.prems(3) by simp
      show "1024 * (h + 1) \<le> e" "0x300000 + 36 * (h + 1) \<le> e - 1024 * (h + 1)"
        using cont less.prems(3,4) by simp_all
      show "start_buffer ?s = LOW_MEM" "NR_BUFFERS ?s = h + 1" using less.prems(1,2) by (simp_all add: mod_buf_def)
      have "fresh_buffer e h (bufs ?s h)" using ub less.prems(3) by (simp add: fresh_buffer_def)
      then show "\<forall>i<h + 1. fresh_buffer e i (bufs ?s i) \<and> b_next_free (bufs ?s i) = Some (i + 1)
         \<and> (0 < i \<longrightarrow> b_prev_free (bufs ?s i) = Some (i - 1))"
        using less.prems(7) by (auto simp: less_Suc_eq)
    qed (fact less.prems(5))
    ultimately show ?thesis by simp
  qed
qed

lemma seg_upt:
  "\<lbrakk>\<And>i. a \<le> i \<Longrightarrow> i < b \<Longrightarrow> nx i = Some (if Suc i = b then q else Suc i);
    \<And>i. a < i \<Longrightarrow> i < b \<Longrightarrow> pv i = Some (i - 1); pv a = p; a < b\<rbrakk>
   \<Longrightarrow> seg nx pv p (Some a) [a..<b] (Some q)"
proof (induction "b - a" arbitrary: a p)
  case (Suc n)
  show ?case
  proof (cases "Suc a = b")
    case True
    then show ?thesis using Suc.prems by (simp add: upt_conv_Cons)
  next
    case False
    then have "seg nx pv (Some a) (Some (Suc a)) [Suc a..<b] (Some q)"
      using Suc by (intro Suc.hyps(1)) auto
    then show ?thesis using Suc.prems False by (simp add: upt_conv_Cons)
  qed
qed simp

lemma buffer_init_cache:
  assumes "0x300000 + 2 * (1024 + 36) \<le> unat buffer_end"
  shows "\<exists>s'. buffer_init buffer_end s = Some s' \<and> cache_ok s'
     \<and> (let n = NR_BUFFERS s'; e = unat buffer_end in
          (\<forall>i<n. unat (b_data (bufs s' i)) = e - 1024 * (i + 1) \<and> 0x300000 + 36 * n \<le> unat (b_data (bufs s' i))
             \<and> b_count (bufs s' i) = 0 \<and> b_lock (bufs s' i) = 0 \<and> b_dirt (bufs s' i) = 0 \<and> b_dev (bufs s' i) = 0)
          \<and> e - 1024 * (n + 1) < 0x300000 + 36 * (n + 1))"
proof -
  let ?e = "unat buffer_end"
  let ?s0 = "s\<lparr>start_buffer := LOW_MEM, wq := (wq s)(Buffer_wait := 0), NR_BUFFERS := 0\<rparr>"
  have "\<exists>n s'. buffer_init_loop 0 buffer_end ?s0 = Some (n, s') \<and> NR_BUFFERS s' = n
     \<and> ?e - 1024 * (n + 1) < 0x300000 + 36 * (n + 1) \<and> 1024 * n \<le> ?e \<and> 0x300000 + 36 * n \<le> ?e - 1024 * n
     \<and> (\<forall>i<n. fresh_buffer ?e i (bufs s' i) \<and> b_next_free (bufs s' i) = Some (i + 1)
          \<and> (0 < i \<longrightarrow> b_prev_free (bufs s' i) = Some (i - 1)))"
    using assms unsigned_less [of buffer_end] by (intro buffer_init_loop_ok) simp_all
  then obtain n u where u: "buffer_init_loop 0 buffer_end ?s0 = Some (n, u)" "NR_BUFFERS u = n"
    "?e - 1024 * (n + 1) < 0x300000 + 36 * (n + 1)" "1024 * n \<le> ?e" "0x300000 + 36 * n \<le> ?e - 1024 * n"
    and fr: "\<And>i. i < n \<Longrightarrow> fresh_buffer ?e i (bufs u i)"
    and ln: "\<And>i. i < n \<Longrightarrow> b_next_free (bufs u i) = Some (i + 1)" "\<And>i. 0 < i \<Longrightarrow> i < n \<Longrightarrow> b_prev_free (bufs u i) = Some (i - 1)"
    by blast
  have n: "2 \<le> n"
  proof (rule ccontr)
    assume "\<not> 2 \<le> n"
    then have "n = 0 \<or> n = 1" by auto
    with u(3) assms show False by auto
  qed
  define s' where "s' = (let s = u\<lparr>free_list := Some 0\<rparr>; s = mod_buf 0 (\<lambda>b. b\<lparr>b_prev_free := Some (n - 1)\<rparr>) s;
       s = mod_buf (n - 1) (\<lambda>b. b\<lparr>b_next_free := free_list s\<rparr>) s
     in s\<lparr>hash_table := (\<lambda>i. if i < NR_HASH then None else hash_table s i)\<rparr>)"
  have run: "buffer_init buffer_end s = Some s'"
    using n by (simp add: buffer_init_def u(1) s'_def Let_def)
  have B: "bufs s' i = (if i = n - 1 then (bufs u i)\<lparr>b_next_free := Some 0\<rparr>
      else if i = 0 then (bufs u i)\<lparr>b_prev_free := Some (n - 1)\<rparr> else bufs u i)" for i
    using n by (auto simp: s'_def Let_def)
  have F: "fresh_buffer ?e i (bufs s' i)" if "i < n" for i
    using fr [OF that] unfolding B by (auto simp: fresh_buffer_def)
  have N: "NR_BUFFERS s' = n" "free_list s' = Some 0" "h < NR_HASH \<Longrightarrow> hash_table s' h = None" for h
    by (simp_all add: s'_def Let_def u(2))
  have "seg (\<lambda>b. b_next_free (bufs s' b)) (\<lambda>b. b_prev_free (bufs s' b)) (Some (n - 1)) (Some 0) [0..<n] (Some 0)"
    using n ln by (intro seg_upt) (auto simp: B)
  then have "free_ring [0..<n] s'"
    using n by (auto simp: free_ring_def ring_def N)
  moreover have "hash_chain h [] s'" if "h < NR_HASH" for h
    using F that by (auto simp: hash_chain_def hash_chain_but_def N fresh_buffer_def)
  moreover have "no_duplicates s'" using F by (simp add: no_duplicates_def N fresh_buffer_def)
  ultimately have "cache_ok s'" using n F by (auto simp: cache_ok_def N fresh_buffer_def)
  moreover have "\<forall>i<n. unat (b_data (bufs s' i)) = ?e - 1024 * (i + 1) \<and> 0x300000 + 36 * n \<le> unat (b_data (bufs s' i))
      \<and> b_count (bufs s' i) = 0 \<and> b_lock (bufs s' i) = 0 \<and> b_dirt (bufs s' i) = 0 \<and> b_dev (bufs s' i) = 0"
    using F u(4,5) by (auto simp: fresh_buffer_def)
  ultimately show ?thesis using run u(3) by (auto simp: N Let_def)
qed

text \<open>
  C35. \<^verbatim>\<open>buffer_init\<close> ends and leaves a well-formed cache of unused buffers that fills the memory
  up to \<open>buffer_end\<close>: the blocks lie below it one after the other, above the array of buffer
  heads, and no further buffer would fit.
\<close>

theorem buffer_init_ok:
  assumes "0x300000 + 2 * (1024 + 36) \<le> unat buffer_end"
  shows "\<exists>s'. buffer_init buffer_end s = Some s' \<and> cache_ok s'
     \<and> (let n = NR_BUFFERS s'; e = unat buffer_end in
          (\<forall>i<n. unat (b_data (bufs s' i)) = e - 1024 * (i + 1) \<and> 0x300000 + 36 * n \<le> unat (b_data (bufs s' i))
             \<and> b_count (bufs s' i) = 0 \<and> b_lock (bufs s' i) = 0 \<and> b_dirt (bufs s' i) = 0 \<and> b_dev (bufs s' i) = 0)
          \<and> e - 1024 * (n + 1) < 0x300000 + 36 * (n + 1))"
  by (rule buffer_init_cache [OF assms])

lemma getblk_uncontended:
  assumes "cache_ok s" "dev \<noteq> 0" "ucast (ucast dev :: u16) = dev"
  shows "(\<forall>b. cached dev block s = Some b \<longrightarrow> b_lock (bufs s b) = 0 \<longrightarrow>
       getblk w dev block s = Some (b, mod_buf b (\<lambda>x. x\<lparr>b_count := b_count x + 1\<rparr>) s))
   \<and> (cached dev block s = None \<longrightarrow>
       (\<exists>b < NR_BUFFERS s. b_count (bufs s b) = 0 \<and> b_dirt (bufs s b) = 0 \<and> b_lock (bufs s b) = 0) \<longrightarrow>
       (\<exists>b s'. getblk w dev block s = Some (b, s') \<and> b_count (bufs s b) = 0 \<and> b_dirt (bufs s b) = 0
          \<and> cache_ok s' \<and> cached dev block s' = Some b \<and> b_count (bufs s' b) = 1 \<and> b_uptodate (bufs s' b) = 0
          \<and> (\<forall>c d n. c \<noteq> b \<longrightarrow> is_block d n (bufs s' c) = is_block d n (bufs s c))))"
proof (intro conjI allI impI)
  fix b assume b: "cached dev block s = Some b" "b_lock (bufs s b) = 0"
  have "is_block dev block (bufs s b)" using b(1) by (auto simp: cached_def find_Some_iff)
  then have "is_block dev block (bufs (mod_buf b (\<lambda>x. x\<lparr>b_count := b_count x + 1\<rparr>) s) b)"
    by (simp add: is_block_def)
  then have "get_hash_table w dev block s = Some (Some b, mod_buf b (\<lambda>x. x\<lparr>b_count := b_count x + 1\<rparr>) s)"
    using find_buffer_char [OF assms(1,2), of block] b
    by (subst get_hash_table.simps) (simp add: wait_on_buffer.simps)
  then show "getblk w dev block s = Some (b, mod_buf b (\<lambda>x. x\<lparr>b_count := b_count x + 1\<rparr>) s)"
    by (subst getblk.simps) simp
next
  assume none: "cached dev block s = None"
    and ex: "\<exists>b < NR_BUFFERS s. b_count (bufs s b) = 0 \<and> b_dirt (bufs s b) = 0 \<and> b_lock (bufs s b) = 0"
  have fb: "find_buffer dev block s = Some None" using find_buffer_char [OF assms(1,2), of block] none by simp
  obtain f r where f: "free_list s = Some f" "free_scan (Some f) f None s = Some r"
    "best_unused {..<NR_BUFFERS s} r s" using free_scan_ring [OF assms(1)] by blast
  then obtain b where b: "r = Some b" "b < NR_BUFFERS s" "b_count (bufs s b) = 0" "BADNESS (bufs s b) = 0"
    using ex by (cases r) (fastforce simp: best_unused_def BADNESS_def)+
  then have clean: "b_dirt (bufs s b) = 0" "b_lock (bufs s b) = 0"
    by (auto simp: BADNESS_def unat_eq_0)
  have new: "\<forall>b<NR_BUFFERS s. \<not> is_block dev block (bufs s b)"
    using none by (auto simp: cached_def find_None_iff)
  obtain s' where s': "take_buffer dev block b s = Some s'" "cache_ok s'" "NR_BUFFERS s' = NR_BUFFERS s"
     "is_block dev block (bufs s' b)" "b_count (bufs s' b) = 1" "b_uptodate (bufs s' b) = 0"
     "\<And>c d n. c \<noteq> b \<Longrightarrow> is_block d n (bufs s' c) = is_block d n (bufs s c)"
    using take_buffer_ok [OF assms(1) b(2) assms(3) new] by blast
  have g: "get_hash_table w dev block s = Some (None, s)"
    by (subst get_hash_table.simps) (simp add: fb)
  have "getblk w dev block s = Some (b, s')"
    using f b clean fb s'(1)
    by (subst getblk.simps) (simp add: g wait_on_buffer.simps clean_loop.simps)
  moreover have "cached dev block s' = Some b"
    using find_buffer_char [OF s'(2) assms(2), of block] s'(3,4) b(2) by auto
  ultimately show "\<exists>b s'. getblk w dev block s = Some (b, s') \<and> b_count (bufs s b) = 0 \<and> b_dirt (bufs s b) = 0
          \<and> cache_ok s' \<and> cached dev block s' = Some b \<and> b_count (bufs s' b) = 1 \<and> b_uptodate (bufs s' b) = 0
          \<and> (\<forall>c d n. c \<noteq> b \<longrightarrow> is_block d n (bufs s' c) = is_block d n (bufs s c))"
    using s' b(3) clean by blast
qed

text \<open>
  C34. \<^verbatim>\<open>getblk\<close> returns without sleeping when it can: a cached and unlocked block is returned with
  one more user; for a block that is not cached some unused, clean and unlocked buffer is taken,
  if there is one, and every other buffer keeps its block.
\<close>

theorem getblk_returns:
  assumes "cache_ok s" "dev \<noteq> 0" "ucast (ucast dev :: u16) = dev"
  shows "(\<forall>b. cached dev block s = Some b \<longrightarrow> b_lock (bufs s b) = 0 \<longrightarrow>
       getblk w dev block s = Some (b, mod_buf b (\<lambda>x. x\<lparr>b_count := b_count x + 1\<rparr>) s))
   \<and> (cached dev block s = None \<longrightarrow>
       (\<exists>b < NR_BUFFERS s. b_count (bufs s b) = 0 \<and> b_dirt (bufs s b) = 0 \<and> b_lock (bufs s b) = 0) \<longrightarrow>
       (\<exists>b s'. getblk w dev block s = Some (b, s') \<and> b_count (bufs s b) = 0 \<and> b_dirt (bufs s b) = 0
          \<and> cache_ok s' \<and> cached dev block s' = Some b \<and> b_count (bufs s' b) = 1 \<and> b_uptodate (bufs s' b) = 0
          \<and> (\<forall>c d n. c \<noteq> b \<longrightarrow> is_block d n (bufs s' c) = is_block d n (bufs s c))))"
  by (rule getblk_uncontended [OF assms])

section \<open>Examples\<close>

definition blank_inode :: m_inode where
  "blank_inode = \<lparr>i_mode = 0, i_uid = 0, i_size = 0, i_mtime = 0, i_gid = 0, i_nlinks = 0, i_zone = (\<lambda>_. 0),
     i_atime = 0, i_ctime = 0, i_dev = 0, i_num = 0, i_count = 0, i_lock = 0, i_dirt = 0, i_pipe = 0,
     i_mount = 0, i_seek = 0, i_update = 0\<rparr>"

definition blank_file :: file_struct where
  "blank_file = \<lparr>f_mode = 0, f_flags = 0, f_count = 0, f_inode = None, f_pos = 0\<rparr>"

definition blank_cache :: cache where
  "blank_cache = sys.extend (files.extend (mm.extend shared_page
       (files.fields (\<lambda>_. blank_inode) (\<lambda>_. blank_file) (\<lambda>_. 0)))
     (sys.fields 0 0 1 (\<lambda>_. 0))) (cache.fields 0 (\<lambda>_. None) None 0)"

text \<open>A cache of two unused buffers.\<close>

lemma two_buffers:
  obtains s where "buffer_init 0x300900 blank_cache = Some s" "cache_ok s" "0 < NR_BUFFERS s"
    "b_count (bufs s 0) = 0" "b_lock (bufs s 0) = 0" "b_dirt (bufs s 0) = 0" "cached 0x301 5 s = None"
proof -
  obtain s where s: "buffer_init 0x300900 blank_cache = Some s" "cache_ok s"
    "\<forall>i<NR_BUFFERS s. b_count (bufs s i) = 0 \<and> b_lock (bufs s i) = 0 \<and> b_dirt (bufs s i) = 0 \<and> b_dev (bufs s i) = 0"
    using buffer_init_cache [where buffer_end = "0x300900" and s = blank_cache] by (auto simp: Let_def)
  moreover have "0 < NR_BUFFERS s" using s(2) by (simp add: cache_ok_def)
  moreover have "cached 0x301 5 s = None"
    using s(3) is_block_dev [where dev = "0x301" and block = 5] by (auto simp: cached_def find_None_iff)
  ultimately show ?thesis using that by blast
qed

theorem buffer_init_ok_witness:
  "\<exists>s. buffer_init 0x300900 blank_cache = Some s \<and> cache_ok s"
  using buffer_init_ok [where buffer_end = "0x300900" and s = blank_cache] by auto

theorem find_buffer_correct_witness:
  "\<exists>s :: cache. find_buffer 0x301 5 s = Some (cached 0x301 5 s) \<and> cache_ok s"
  by (rule two_buffers) (use find_buffer_correct [where dev = "0x301" and block = 5] in auto)

theorem getblk_returns_witness:
  "\<exists>(s :: cache) b s'. cached 0x301 5 s = None \<and> getblk quiet 0x301 5 s = Some (b, s') \<and> cached 0x301 5 s' = Some b"
proof (rule two_buffers)
  fix s :: cache
  assume s: "cache_ok s" "0 < NR_BUFFERS s" "b_count (bufs s 0) = 0" "b_lock (bufs s 0) = 0"
    "b_dirt (bufs s 0) = 0" "cached 0x301 5 s = None"
  then show ?thesis
    using getblk_returns [where s = s and dev = "0x301" and block = 5 and w = quiet] by (simp add: conj_commute) blast
qed

theorem getblk_no_duplicates_witness:
  "\<exists>(s :: cache) b s'. getblk quiet 0x301 5 s = Some (b, s') \<and> is_block 0x301 5 (bufs s' b)"
proof (rule two_buffers)
  fix s :: cache
  assume s: "cache_ok s" "0 < NR_BUFFERS s" "b_count (bufs s 0) = 0" "b_lock (bufs s 0) = 0"
    "b_dirt (bufs s 0) = 0" "cached 0x301 5 s = None"
  then obtain b s' where g: "getblk quiet 0x301 5 s = Some (b, s')"
    using getblk_uncontended [where s = s and dev = "0x301" and block = 5 and w = quiet] by auto
  have "is_block 0x301 5 (bufs s' b)"
    using getblk_no_duplicates [where N = "NR_BUFFERS s" and w = quiet and s = s and dev = "0x301" and block = 5 and bh = b and s' = s'] g s(1)
    by (simp add: quiet_def cache_inv_def)
  with g show ?thesis by blast
qed

end
