(* ===== verification/Super.thy ===== *)
theory Super
  imports Buffer_Cache
begin

text \<open>
  The table of super blocks of \<^verbatim>\<open>fs/super.c\<close> and the on-disk layouts of \<^verbatim>\<open>include/linux/fs.h\<close>.
  A pointer to a super block is its index in \<^verbatim>\<open>super_block\<close>; the field \<^verbatim>\<open>s_wait\<close> of super block
  \<open>i\<close> is \<open>wq s (Other_wait i)\<close>.
\<close>

section \<open>State\<close>

abbreviation (input) NR_SUPER :: nat where "NR_SUPER \<equiv> 8"
abbreviation (input) I_MAP_SLOTS :: nat where "I_MAP_SLOTS \<equiv> 8"
abbreviation (input) Z_MAP_SLOTS :: nat where "Z_MAP_SLOTS \<equiv> 8"
abbreviation (input) SUPER_MAGIC :: u16 where "SUPER_MAGIC \<equiv> 0x137F"
abbreviation (input) ROOT_INO :: u16 where "ROOT_INO \<equiv> 1"
abbreviation (input) INODES_PER_BLOCK :: nat where "INODES_PER_BLOCK \<equiv> 32"

record super_block =
  s_ninodes :: u16
  s_nzones :: u16
  s_imap_blocks :: u16
  s_zmap_blocks :: u16
  s_firstdatazone :: u16
  s_log_zone_size :: u16
  s_max_size :: u32
  s_magic :: u16
  s_imap :: "nat \<Rightarrow> nat option"
  s_zmap :: "nat \<Rightarrow> nat option"
  s_dev :: u16
  s_isup :: "nat option"
  s_imount :: "nat option"
  s_time :: u32
  s_lock :: u8
  s_rd_only :: u8
  s_dirt :: u8

record fs = cache +
  super_blocks :: "nat \<Rightarrow> super_block"
  last_inode :: nat

definition mod_super :: "nat \<Rightarrow> (super_block \<Rightarrow> super_block) \<Rightarrow> 'a fs_scheme \<Rightarrow> 'a fs_scheme" where
  "mod_super i f s = s\<lparr>super_blocks := (super_blocks s)(i := f (super_blocks s i))\<rparr>"

text \<open>Kernel memory by bytes and by 16-bit words.\<close>

definition rdb :: "u32 \<Rightarrow> 'a sched_scheme \<Rightarrow> u8" where
  "rdb a s = kmem s a"

definition wrb :: "u32 \<Rightarrow> u8 \<Rightarrow> 'a sched_scheme \<Rightarrow> 'a sched_scheme" where
  "wrb a v s = s\<lparr>kmem := (kmem s)(a := v)\<rparr>"

definition rdw :: "u32 \<Rightarrow> 'a sched_scheme \<Rightarrow> u16" where
  "rdw a s = ld16 (kmem s) a"

definition wrw :: "u32 \<Rightarrow> u16 \<Rightarrow> 'a sched_scheme \<Rightarrow> 'a sched_scheme" where
  "wrw a v s = s\<lparr>kmem := st16 a v (kmem s)\<rparr>"

text \<open>The data of a buffer.\<close>

abbreviation (input) data_of :: "nat \<Rightarrow> 'a blk_scheme \<Rightarrow> u32" where
  "data_of bh s \<equiv> b_data (bufs s bh)"

section \<open>Locking and finding\<close>

partial_function (option) wait_on_super ::
  "'a fs_scheme world \<Rightarrow> nat \<Rightarrow> 'a fs_scheme \<Rightarrow> 'a fs_scheme option" where
  "wait_on_super w sb s =
     (if s_lock (super_blocks s sb) \<noteq> 0
      then do { s \<leftarrow> sleep_on w (Other_wait sb) s; wait_on_super w sb s }
      else Some s)"

definition lock_super :: "'a fs_scheme world \<Rightarrow> nat \<Rightarrow> 'a fs_scheme \<Rightarrow> 'a fs_scheme option" where
  "lock_super w sb s = do {
     s \<leftarrow> wait_on_super w sb s;
     Some (mod_super sb (\<lambda>x. x\<lparr>s_lock := 1\<rparr>) s)
   }"

definition free_super :: "nat \<Rightarrow> 'a fs_scheme \<Rightarrow> 'a fs_scheme" where
  "free_super sb s = wake_up (Other_wait sb) (mod_super sb (\<lambda>x. x\<lparr>s_lock := 0\<rparr>) s)"

text \<open>The loop of \<^verbatim>\<open>get_super\<close> from super block \<open>i\<close> on.\<close>

partial_function (option) get_super_loop ::
  "'a fs_scheme world \<Rightarrow> u32 \<Rightarrow> nat \<Rightarrow> 'a fs_scheme \<Rightarrow> (nat option \<times> 'a fs_scheme) option" where
  "get_super_loop w dev i s =
     (if i \<ge> NR_SUPER then Some (None, s)
      else if ucast (s_dev (super_blocks s i)) = dev
      then do {
        s \<leftarrow> wait_on_super w i s;
        if ucast (s_dev (super_blocks s i)) = dev then Some (Some i, s)
        else get_super_loop w dev 0 s
      }
      else get_super_loop w dev (i + 1) s)"

definition get_super :: "'a fs_scheme world \<Rightarrow> u32 \<Rightarrow> 'a fs_scheme \<Rightarrow> (nat option \<times> 'a fs_scheme) option" where
  "get_super w dev s = (if dev = 0 then Some (None, s) else get_super_loop w dev 0 s)"

text \<open>The loops that release the bitmaps.\<close>

fun release_slots ::
  "(super_block \<Rightarrow> nat \<Rightarrow> nat option) \<Rightarrow> 'a fs_scheme world \<Rightarrow> nat \<Rightarrow> nat list \<Rightarrow> 'a fs_scheme \<Rightarrow> 'a fs_scheme option" where
  "release_slots slots w sb [] s = Some s"
| "release_slots slots w sb (i # is) s = do {
     s \<leftarrow> brelse w (slots (super_blocks s sb) i) s;
     release_slots slots w sb is s
   }"

definition release_maps :: "'a fs_scheme world \<Rightarrow> nat \<Rightarrow> 'a fs_scheme \<Rightarrow> 'a fs_scheme option" where
  "release_maps w sb s = do {
     s \<leftarrow> release_slots s_imap w sb [0..<I_MAP_SLOTS] s;
     release_slots s_zmap w sb [0..<Z_MAP_SLOTS] s
   }"

definition put_super :: "'a fs_scheme world \<Rightarrow> u32 \<Rightarrow> 'a fs_scheme \<Rightarrow> 'a fs_scheme option" where
  "put_super w dev s =
     (if dev = ROOT_DEV s then Some s
      else do {
        (r, s) \<leftarrow> get_super w dev s;
        case r of None \<Rightarrow> Some s
        | Some sb \<Rightarrow>
            if s_imount (super_blocks s sb) \<noteq> None then Some s
            else do {
              s \<leftarrow> lock_super w sb s;
              s \<leftarrow> release_maps w sb (mod_super sb (\<lambda>x. x\<lparr>s_dev := 0\<rparr>) s);
              Some (free_super sb s)
            }
      })"

section \<open>Reading a super block\<close>

text \<open>\<^verbatim>\<open>*((struct d_super_block *) s) = *((struct d_super_block *) bh->b_data)\<close>.\<close>

definition load_super :: "u32 \<Rightarrow> nat \<Rightarrow> 'a fs_scheme \<Rightarrow> 'a fs_scheme" where
  "load_super a sb s = mod_super sb (\<lambda>x. x\<lparr>s_ninodes := rdw a s, s_nzones := rdw (a + 2) s,
     s_imap_blocks := rdw (a + 4) s, s_zmap_blocks := rdw (a + 6) s, s_firstdatazone := rdw (a + 8) s,
     s_log_zone_size := rdw (a + 10) s, s_max_size := rd (a + 12) s, s_magic := rdw (a + 16) s\<rparr>) s"

text \<open>The two loops that read the bitmaps, from slot \<open>i\<close> and \<open>block\<close> on. A count of more than 8
  blocks writes past the slots: \<open>None\<close>.\<close>

partial_function (option) read_imap ::
  "'a fs_scheme world \<Rightarrow> u32 \<Rightarrow> nat \<Rightarrow> nat \<Rightarrow> u32 \<Rightarrow> 'a fs_scheme \<Rightarrow> (u32 \<times> 'a fs_scheme) option" where
  "read_imap w dev sb i block s =
     (if \<not> i < unat (s_imap_blocks (super_blocks s sb)) then Some (block, s)
      else if i \<ge> I_MAP_SLOTS then None
      else do {
        (b, s) \<leftarrow> bread w dev block s;
        let s = mod_super sb (\<lambda>x. x\<lparr>s_imap := (s_imap x)(i := b)\<rparr>) s;
        if b \<noteq> None then read_imap w dev sb (i + 1) (block + 1) s else Some (block, s)
      })"

partial_function (option) read_zmap ::
  "'a fs_scheme world \<Rightarrow> u32 \<Rightarrow> nat \<Rightarrow> nat \<Rightarrow> u32 \<Rightarrow> 'a fs_scheme \<Rightarrow> (u32 \<times> 'a fs_scheme) option" where
  "read_zmap w dev sb i block s =
     (if \<not> i < unat (s_zmap_blocks (super_blocks s sb)) then Some (block, s)
      else if i \<ge> Z_MAP_SLOTS then None
      else do {
        (b, s) \<leftarrow> bread w dev block s;
        let s = mod_super sb (\<lambda>x. x\<lparr>s_zmap := (s_zmap x)(i := b)\<rparr>) s;
        if b \<noteq> None then read_zmap w dev sb (i + 1) (block + 1) s else Some (block, s)
      })"

definition or_first_byte :: "nat option \<Rightarrow> u8 \<Rightarrow> 'a blk_scheme \<Rightarrow> 'a blk_scheme option" where
  "or_first_byte bh v s = do { b \<leftarrow> bh; Some (wrb (data_of b s) (rdb (data_of b s) s OR v) s) }"

definition read_super :: "'a fs_scheme world \<Rightarrow> u32 \<Rightarrow> 'a fs_scheme \<Rightarrow> (nat option \<times> 'a fs_scheme) option" where
  "read_super w dev s =
     (if dev = 0 then Some (None, s)
      else do {
        (r, s) \<leftarrow> get_super w dev s;
        if r \<noteq> None then Some (r, s)
        else case List.find (\<lambda>i. s_dev (super_blocks s i) = 0) [0..<NR_SUPER] of
          None \<Rightarrow> Some (None, s)
        | Some sb \<Rightarrow> do {
            s \<leftarrow> lock_super w sb (mod_super sb (\<lambda>x. x\<lparr>s_dev := ucast dev, s_isup := None, s_imount := None,
                   s_time := 0, s_rd_only := 0, s_dirt := 0\<rparr>) s);
            (b, s) \<leftarrow> bread w dev 1 s;
            case b of None \<Rightarrow> Some (None, free_super sb (mod_super sb (\<lambda>x. x\<lparr>s_dev := 0\<rparr>) s))
            | Some bh \<Rightarrow> do {
                s \<leftarrow> brelse w (Some bh) (load_super (data_of bh s) sb s);
                if s_magic (super_blocks s sb) \<noteq> SUPER_MAGIC
                then Some (None, free_super sb (mod_super sb (\<lambda>x. x\<lparr>s_dev := 0\<rparr>) s))
                else do {
                  let s = mod_super sb (\<lambda>x. x\<lparr>s_imap := (\<lambda>i. if i < I_MAP_SLOTS then None else s_imap x i),
                            s_zmap := (\<lambda>i. if i < Z_MAP_SLOTS then None else s_zmap x i)\<rparr>) s;
                  (block, s) \<leftarrow> read_imap w dev sb 0 2 s;
                  (block, s) \<leftarrow> read_zmap w dev sb 0 block s;
                  if block \<noteq> 2 + ucast (s_imap_blocks (super_blocks s sb)) + ucast (s_zmap_blocks (super_blocks s sb))
                  then do {
                    s \<leftarrow> release_maps w sb s;
                    Some (None, free_super sb (mod_super sb (\<lambda>x. x\<lparr>s_dev := 0\<rparr>) s))
                  }
                  else do {
                    s \<leftarrow> or_first_byte (s_imap (super_blocks s sb) 0) 1 s;
                    s \<leftarrow> or_first_byte (s_zmap (super_blocks s sb) 0) 1 s;
                    Some (Some sb, free_super sb s)
                  }
                }
              }
          }
      })"

definition super_block_init :: "'a fs_scheme \<Rightarrow> 'a fs_scheme" where
  "super_block_init s =
     s\<lparr>super_blocks := (\<lambda>i. if i < NR_SUPER
         then \<lparr>s_ninodes = 0, s_nzones = 0, s_imap_blocks = 0, s_zmap_blocks = 0, s_firstdatazone = 0,
               s_log_zone_size = 0, s_max_size = 0, s_magic = 0,
               s_imap = (\<lambda>j. if j < I_MAP_SLOTS then None else s_imap (super_blocks s i) j),
               s_zmap = (\<lambda>j. if j < Z_MAP_SLOTS then None else s_zmap (super_blocks s i) j),
               s_dev = 0, s_isup = None, s_imount = None, s_time = 0, s_lock = 0, s_rd_only = 0, s_dirt = 0\<rparr>
         else super_blocks s i),
       wq := (\<lambda>q. case q of Other_wait i \<Rightarrow> if i < NR_SUPER then 0 else wq s q | _ \<Rightarrow> wq s q)\<rparr>"

end
