(* ===== verification/Bitmap.thy ===== *)
theory Bitmap
  imports Super
begin

text \<open>
  \<^verbatim>\<open>fs/bitmap.c\<close>: the bitmaps of blocks and inodes. Bit \<open>nr\<close> of a map is bit \<open>nr mod 8\<close> of its
  byte \<open>nr div 8\<close>, as the bit instructions of the 80386 address it.
\<close>

section \<open>Bits in memory\<close>

definition mem_bit :: "nat \<Rightarrow> u32 \<Rightarrow> bytes \<Rightarrow> bool" where
  "mem_bit nr addr m = bit (m (addr + of_nat (nr div 8))) (nr mod 8)"

definition put_bit :: "nat \<Rightarrow> u32 \<Rightarrow> bool \<Rightarrow> bytes \<Rightarrow> bytes" where
  "put_bit nr addr b m =
     (let a = addr + of_nat (nr div 8); v = push_bit (nr mod 8) 1
      in m(a := if b then m a OR v else m a AND NOT v))"

text \<open>\<^verbatim>\<open>set_bit\<close> returns the old bit, \<^verbatim>\<open>clear_bit\<close> (\<^verbatim>\<open>setnb\<close>) its negation.\<close>

definition set_bit_asm :: "nat \<Rightarrow> u32 \<Rightarrow> 'a sched_scheme \<Rightarrow> bool \<times> 'a sched_scheme" where
  "set_bit_asm nr addr s = (mem_bit nr addr (kmem s), s\<lparr>kmem := put_bit nr addr True (kmem s)\<rparr>)"

definition clear_bit_asm :: "nat \<Rightarrow> u32 \<Rightarrow> 'a sched_scheme \<Rightarrow> bool \<times> 'a sched_scheme" where
  "clear_bit_asm nr addr s = (\<not> mem_bit nr addr (kmem s), s\<lparr>kmem := put_bit nr addr False (kmem s)\<rparr>)"

text \<open>\<^verbatim>\<open>bsfl\<close>: the number of the lowest bit that is set.\<close>

definition bsf :: "u32 \<Rightarrow> nat" where
  "bsf v = length (takeWhile (\<lambda>n. \<not> bit v n) [0..<32])"

text \<open>The loop of \<^verbatim>\<open>find_first_zero\<close>; \<open>n\<close> words are left until \<^verbatim>\<open>ecx\<close> reaches 8192.\<close>

fun zero_loop :: "nat \<Rightarrow> nat \<Rightarrow> u32 \<Rightarrow> bytes \<Rightarrow> nat" where
  "zero_loop 0 ecx addr m = ecx"
| "zero_loop (Suc n) ecx addr m =
     (let eax = NOT (ld32 m addr) in
      if eax = 0 then zero_loop n (ecx + 32) (addr + 4) m else ecx + bsf eax)"

definition find_first_zero :: "u32 \<Rightarrow> bytes \<Rightarrow> nat" where
  "find_first_zero addr m = zero_loop 256 0 addr m"

definition clear_block :: "u32 \<Rightarrow> 'a sched_scheme \<Rightarrow> 'a sched_scheme" where
  "clear_block addr s = s\<lparr>kmem := fill_bytes BLOCK_SIZE 0 addr (kmem s)\<rparr>"

section \<open>Blocks\<close>

text \<open>\<^verbatim>\<open>sb->s_zmap[block/8192]\<close>; an empty slot or an index beyond the slots is \<open>None\<close>.\<close>

definition zmap_buffer :: "nat \<Rightarrow> u32 \<Rightarrow> 'a fs_scheme \<Rightarrow> nat option" where
  "zmap_buffer sb block s =
     (let i = unat block div 8192 in if i < Z_MAP_SLOTS then s_zmap (super_blocks s sb) i else None)"

definition free_block :: "'a fs_scheme world \<Rightarrow> u32 \<Rightarrow> u32 \<Rightarrow> 'a fs_scheme \<Rightarrow> (int \<times> 'a fs_scheme) option" where
  "free_block w dev block s = do {
     (r, s) \<leftarrow> get_super w dev s;
     sb \<leftarrow> r;
     if sint block < uint (s_firstdatazone (super_blocks s sb))
        \<or> sint block \<ge> uint (s_nzones (super_blocks s sb)) then None
     else do {
       (b, s) \<leftarrow> get_hash_table w dev block s;
       (busy, s) \<leftarrow> (case b of
           None \<Rightarrow> Some (False, s)
         | Some bh \<Rightarrow>
             if b_count (bufs s bh) > 1 then do { s \<leftarrow> brelse w (Some bh) s; Some (True, s) }
             else do {
               let s = mod_buf bh (\<lambda>x. x\<lparr>b_dirt := 0, b_uptodate := 0\<rparr>) s;
               s \<leftarrow> (if b_count (bufs s bh) \<noteq> 0 then brelse w (Some bh) s else Some s);
               Some (False, s)
             });
       if busy then Some (0, s)
       else do {
         let block = block - (ucast (s_firstdatazone (super_blocks s sb)) - 1);
         z \<leftarrow> zmap_buffer sb block s;
         let (was_clear, s) = clear_bit_asm (unat (block AND 8191)) (data_of z s) s;
         z \<leftarrow> zmap_buffer sb block s;
         Some (1, mod_buf z (\<lambda>x. x\<lparr>b_dirt := 1\<rparr>) s)
       }
     }
   }"

text \<open>The search loops of \<^verbatim>\<open>new_block\<close> and \<^verbatim>\<open>new_inode\<close>: the first map with a clear bit.\<close>

definition map_with_zero :: "(nat \<Rightarrow> nat option) \<Rightarrow> 'a blk_scheme \<Rightarrow> nat option" where
  "map_with_zero maps s =
     List.find (\<lambda>i. case maps i of None \<Rightarrow> False
        | Some bh \<Rightarrow> find_first_zero (data_of bh s) (kmem s) < 8192) [0..<8]"

definition new_block :: "'a fs_scheme world \<Rightarrow> u32 \<Rightarrow> 'a fs_scheme \<Rightarrow> (u32 \<times> 'a fs_scheme) option" where
  "new_block w dev s = do {
     (r, s) \<leftarrow> get_super w dev s;
     sb \<leftarrow> r;
     case map_with_zero (s_zmap (super_blocks s sb)) s of
       None \<Rightarrow> Some (0, s)
     | Some i \<Rightarrow> do {
         bh \<leftarrow> s_zmap (super_blocks s sb) i;
         let j = find_first_zero (data_of bh s) (kmem s);
         let (was_set, s) = set_bit_asm j (data_of bh s) s;
         if was_set then None
         else do {
           let s = mod_buf bh (\<lambda>x. x\<lparr>b_dirt := 1\<rparr>) s;
           let j = of_nat (j + i * 8192) + ucast (s_firstdatazone (super_blocks s sb)) - 1;
           if sint j \<ge> uint (s_nzones (super_blocks s sb)) then Some (0, s)
           else do {
             (bh, s) \<leftarrow> getblk w dev j s;
             if b_count (bufs s bh) \<noteq> 1 then None
             else do {
               s \<leftarrow> brelse w (Some bh) (mod_buf bh (\<lambda>x. x\<lparr>b_uptodate := 1, b_dirt := 1\<rparr>)
                      (clear_block (data_of bh s) s));
               Some (j, s)
             }
           }
         }
       }
   }"

section \<open>Freeing an inode\<close>

text \<open>\<^verbatim>\<open>memset(inode,0,sizeof(*inode))\<close>.\<close>

definition clear_inode :: "nat \<Rightarrow> 'a files_scheme \<Rightarrow> 'a files_scheme" where
  "clear_inode i s = mod_inode i (\<lambda>_. \<lparr>i_mode = 0, i_uid = 0, i_size = 0, i_mtime = 0, i_gid = 0,
       i_nlinks = 0, i_zone = (\<lambda>_. 0), i_atime = 0, i_ctime = 0, i_dev = 0, i_num = 0, i_count = 0,
       i_lock = 0, i_dirt = 0, i_pipe = 0, i_mount = 0, i_seek = 0, i_update = 0\<rparr>)
     (s\<lparr>wq := (wq s)(I_wait i := 0, I_wait2 i := 0)\<rparr>)"

definition free_inode :: "'a fs_scheme world \<Rightarrow> nat option \<Rightarrow> 'a fs_scheme \<Rightarrow> 'a fs_scheme option" where
  "free_inode w inode s =
     (case inode of None \<Rightarrow> Some s
      | Some n \<Rightarrow>
          let i = inode_table s n in
          if i_dev i = 0 then Some (clear_inode n s)
          else if i_count i > 1 \<or> i_nlinks i \<noteq> 0 then None
          else do {
            (r, s) \<leftarrow> get_super w (ucast (i_dev i)) s;
            sb \<leftarrow> r;
            let i = inode_table s n;
            if i_num i < 1 \<or> i_num i > s_ninodes (super_blocks s sb) then None
            else do {
              bh \<leftarrow> s_imap (super_blocks s sb) (unat (drop_bit 13 (i_num i)));
              let (was_clear, s) = clear_bit_asm (unat (i_num i AND 8191)) (data_of bh s) s;
              Some (clear_inode n (mod_buf bh (\<lambda>x. x\<lparr>b_dirt := 1\<rparr>) s))
            }
          })"

end
