(* ===== verification/Truncate.thy ===== *)
theory Truncate
  imports Bitmap
begin

text \<open>
  \<^verbatim>\<open>fs/truncate.c\<close>: giving back the blocks of a file, through the single and the double
  indirect block. A routine returns 0 while some block is still in use.
\<close>

section \<open>File types\<close>

definition S_IFMT_of :: "u16 \<Rightarrow> u16" where
  "S_IFMT_of m = m AND 0xF000"

definition S_ISLNK :: "u16 \<Rightarrow> bool" where "S_ISLNK m \<longleftrightarrow> S_IFMT_of m = 0xA000"
definition S_ISREG :: "u16 \<Rightarrow> bool" where "S_ISREG m \<longleftrightarrow> S_IFMT_of m = 0x8000"
definition S_ISDIR :: "u16 \<Rightarrow> bool" where "S_ISDIR m \<longleftrightarrow> S_IFMT_of m = 0x4000"
definition S_ISCHR :: "u16 \<Rightarrow> bool" where "S_ISCHR m \<longleftrightarrow> S_IFMT_of m = 0x2000"
definition S_ISBLK :: "u16 \<Rightarrow> bool" where "S_ISBLK m \<longleftrightarrow> S_IFMT_of m = 0x6000"
definition S_ISFIFO :: "u16 \<Rightarrow> bool" where "S_ISFIFO m \<longleftrightarrow> S_IFMT_of m = 0x1000"

section \<open>Indirect blocks\<close>

text \<open>The loop over the 512 entries at \<open>p\<close>; \<open>free_entry\<close> frees what an entry points to.\<close>

fun free_entries ::
  "(u32 \<Rightarrow> 'a fs_scheme \<Rightarrow> (int \<times> 'a fs_scheme) option) \<Rightarrow> nat \<Rightarrow> nat \<Rightarrow> u32 \<Rightarrow> bool \<Rightarrow> 'a fs_scheme
     \<Rightarrow> (bool \<times> 'a fs_scheme) option" where
  "free_entries free_entry bh 0 p busy s = Some (busy, s)"
| "free_entries free_entry bh (Suc n) p busy s =
     (if rdw p s = 0 then free_entries free_entry bh n (p + 2) busy s
      else do {
        (r, s) \<leftarrow> free_entry (ucast (rdw p s)) s;
        if r \<noteq> 0 then free_entries free_entry bh n (p + 2) busy (mod_buf bh (\<lambda>x. x\<lparr>b_dirt := 1\<rparr>) (wrw p 0 s))
        else free_entries free_entry bh n (p + 2) True s
      })"

text \<open>The common text of \<^verbatim>\<open>free_ind\<close> and \<^verbatim>\<open>free_dind\<close>.\<close>

definition free_tree ::
  "(u32 \<Rightarrow> 'a fs_scheme \<Rightarrow> (int \<times> 'a fs_scheme) option) \<Rightarrow> 'a fs_scheme world \<Rightarrow> u32 \<Rightarrow> u32 \<Rightarrow> 'a fs_scheme
     \<Rightarrow> (int \<times> 'a fs_scheme) option" where
  "free_tree free_entry w dev block s =
     (if block = 0 then Some (1, s)
      else do {
        (b, s) \<leftarrow> bread w dev block s;
        (busy, s) \<leftarrow> (case b of None \<Rightarrow> Some (False, s)
          | Some bh \<Rightarrow> do {
              (busy, s) \<leftarrow> free_entries free_entry bh 512 (data_of bh s) False s;
              s \<leftarrow> brelse w (Some bh) s;
              Some (busy, s)
            });
        if busy then Some (0, s) else free_block w dev block s
      })"

definition free_ind :: "'a fs_scheme world \<Rightarrow> u32 \<Rightarrow> u32 \<Rightarrow> 'a fs_scheme \<Rightarrow> (int \<times> 'a fs_scheme) option" where
  "free_ind w dev = free_tree (free_block w dev) w dev"

definition free_dind :: "'a fs_scheme world \<Rightarrow> u32 \<Rightarrow> u32 \<Rightarrow> 'a fs_scheme \<Rightarrow> (int \<times> 'a fs_scheme) option" where
  "free_dind w dev = free_tree (free_ind w dev) w dev"

section \<open>Truncating\<close>

abbreviation (input) zone :: "nat \<Rightarrow> nat \<Rightarrow> 'a files_scheme \<Rightarrow> u16" where
  "zone n i s \<equiv> i_zone (inode_table s n) i"

abbreviation (input) idev :: "nat \<Rightarrow> 'a files_scheme \<Rightarrow> u32" where
  "idev n s \<equiv> ucast (i_dev (inode_table s n))"

definition set_zone :: "nat \<Rightarrow> nat \<Rightarrow> u16 \<Rightarrow> 'a files_scheme \<Rightarrow> 'a files_scheme" where
  "set_zone n i v = mod_inode n (\<lambda>x. x\<lparr>i_zone := (i_zone x)(i := v)\<rparr>)"

fun truncate_direct ::
  "'a fs_scheme world \<Rightarrow> nat \<Rightarrow> nat list \<Rightarrow> bool \<Rightarrow> 'a fs_scheme \<Rightarrow> (bool \<times> 'a fs_scheme) option" where
  "truncate_direct w n [] busy s = Some (busy, s)"
| "truncate_direct w n (i # is) busy s =
     (if zone n i s = 0 then truncate_direct w n is busy s
      else do {
        (r, s) \<leftarrow> free_block w (idev n s) (ucast (zone n i s)) s;
        if r \<noteq> 0 then truncate_direct w n is busy (set_zone n i 0 s)
        else truncate_direct w n is True s
      })"

definition truncate_once :: "'a fs_scheme world \<Rightarrow> nat \<Rightarrow> 'a fs_scheme \<Rightarrow> (bool \<times> 'a fs_scheme) option" where
  "truncate_once w n s = do {
     (busy, s) \<leftarrow> truncate_direct w n [0..<7] False s;
     (r, s) \<leftarrow> free_ind w (idev n s) (ucast (zone n 7 s)) s;
     let busy = (busy \<or> r = 0);
     let s = (if r \<noteq> 0 then set_zone n 7 0 s else s);
     (r, s) \<leftarrow> free_dind w (idev n s) (ucast (zone n 8 s)) s;
     let busy = (busy \<or> r = 0);
     let s = (if r \<noteq> 0 then set_zone n 8 0 s else s);
     Some (busy, mod_inode n (\<lambda>x. x\<lparr>i_dirt := 1\<rparr>) s)
   }"

partial_function (option) truncate_loop :: "'a fs_scheme world \<Rightarrow> nat \<Rightarrow> 'a fs_scheme \<Rightarrow> 'a fs_scheme option" where
  "truncate_loop w n s = do {
     (busy, s) \<leftarrow> truncate_once w n s;
     if busy then do {
       s \<leftarrow> schedule w (mod_cur (\<lambda>t. t\<lparr>t_counter := 0\<rparr>) s);
       truncate_loop w n s
     }
     else Some (mod_inode n (\<lambda>x. x\<lparr>i_size := 0, i_mtime := CURRENT_TIME s, i_ctime := CURRENT_TIME s\<rparr>) s)
   }"

definition truncate :: "'a fs_scheme world \<Rightarrow> nat \<Rightarrow> 'a fs_scheme \<Rightarrow> 'a fs_scheme option" where
  "truncate w n s =
     (let m = i_mode (inode_table s n) in
      if \<not> (S_ISREG m \<or> S_ISDIR m \<or> S_ISLNK m) then Some s else truncate_loop w n s)"

end
