(* ===== verification/Inode.thy ===== *)
theory Inode
  imports Truncate
begin

text \<open>
  \<^verbatim>\<open>fs/inode.c\<close>: the table of inodes in memory, \<^verbatim>\<open>bmap\<close>, \<^verbatim>\<open>iget\<close> and \<^verbatim>\<open>iput\<close>; \<^verbatim>\<open>new_inode\<close> of
  \<^verbatim>\<open>fs/bitmap.c\<close> and \<^verbatim>\<open>mount_root\<close> of \<^verbatim>\<open>fs/super.c\<close>, which build on them. A pointer to an inode is
  its index in \<^verbatim>\<open>inode_table\<close>.
\<close>

section \<open>Locking\<close>

partial_function (option) wait_on_inode ::
  "'a files_scheme world \<Rightarrow> nat \<Rightarrow> 'a files_scheme \<Rightarrow> 'a files_scheme option" where
  "wait_on_inode w n s =
     (if i_lock (inode_table s n) \<noteq> 0
      then do { s \<leftarrow> sleep_on w (I_wait n) s; wait_on_inode w n s }
      else Some s)"

definition lock_inode :: "'a files_scheme world \<Rightarrow> nat \<Rightarrow> 'a files_scheme \<Rightarrow> 'a files_scheme option" where
  "lock_inode w n s = do {
     s \<leftarrow> wait_on_inode w n s;
     Some (mod_inode n (\<lambda>x. x\<lparr>i_lock := 1\<rparr>) s)
   }"

definition unlock_inode :: "nat \<Rightarrow> 'a files_scheme \<Rightarrow> 'a files_scheme" where
  "unlock_inode n s = wake_up (I_wait n) (mod_inode n (\<lambda>x. x\<lparr>i_lock := 0\<rparr>) s)"

fun invalidate_inodes_loop ::
  "'a files_scheme world \<Rightarrow> u32 \<Rightarrow> nat list \<Rightarrow> 'a files_scheme \<Rightarrow> 'a files_scheme option" where
  "invalidate_inodes_loop w dev [] s = Some s"
| "invalidate_inodes_loop w dev (n # ns) s = do {
     s \<leftarrow> wait_on_inode w n s;
     invalidate_inodes_loop w dev ns
       (if idev n s = dev then mod_inode n (\<lambda>x. x\<lparr>i_dirt := 0, i_dev := 0\<rparr>) s else s)
   }"

definition invalidate_inodes :: "'a files_scheme world \<Rightarrow> u32 \<Rightarrow> 'a files_scheme \<Rightarrow> 'a files_scheme option" where
  "invalidate_inodes w dev = invalidate_inodes_loop w dev [0..<NR_INODE]"

section \<open>Inodes on the disk\<close>

text \<open>\<^verbatim>\<open>struct d_inode\<close> is 32 bytes: mode, owner, size, time, group, links and nine zones.\<close>

definition load_dinode :: "u32 \<Rightarrow> nat \<Rightarrow> 'a files_scheme \<Rightarrow> 'a files_scheme" where
  "load_dinode a n s = mod_inode n (\<lambda>x. x\<lparr>i_mode := rdw a s, i_uid := rdw (a + 2) s, i_size := rd (a + 4) s,
     i_mtime := rd (a + 8) s, i_gid := rdb (a + 12) s, i_nlinks := rdb (a + 13) s,
     i_zone := (\<lambda>i. if i < 9 then rdw (a + 14 + 2 * of_nat i) s else i_zone x i)\<rparr>) s"

definition store_dinode :: "u32 \<Rightarrow> m_inode \<Rightarrow> 'a sched_scheme \<Rightarrow> 'a sched_scheme" where
  "store_dinode a x s =
     fold (\<lambda>i. wrw (a + 14 + 2 * of_nat i) (i_zone x i)) [0..<9]
       (wrb (a + 13) (i_nlinks x) (wrb (a + 12) (i_gid x) (wr (a + 8) (i_mtime x) (wr (a + 4) (i_size x)
         (wrw (a + 2) (i_uid x) (wrw a (i_mode x) s))))))"

text \<open>The block of an inode and its place in it.\<close>

definition inode_block :: "nat \<Rightarrow> nat \<Rightarrow> 'a fs_scheme \<Rightarrow> u32" where
  "inode_block sb n s =
     2 + ucast (s_imap_blocks (super_blocks s sb)) + ucast (s_zmap_blocks (super_blocks s sb))
       + of_int ((uint (i_num (inode_table s n)) - 1) sdiv int INODES_PER_BLOCK)"

definition inode_offset :: "nat \<Rightarrow> 'a files_scheme \<Rightarrow> u32" where
  "inode_offset n s = 32 * of_int ((uint (i_num (inode_table s n)) - 1) smod int INODES_PER_BLOCK)"

definition read_inode :: "'a fs_scheme world \<Rightarrow> nat \<Rightarrow> 'a fs_scheme \<Rightarrow> 'a fs_scheme option" where
  "read_inode w n s = do {
     s \<leftarrow> lock_inode w n s;
     (r, s) \<leftarrow> get_super w (idev n s) s;
     sb \<leftarrow> r;
     (b, s) \<leftarrow> bread w (idev n s) (inode_block sb n s) s;
     bh \<leftarrow> b;
     s \<leftarrow> brelse w (Some bh) (load_dinode (data_of bh s + inode_offset n s) n s);
     let s = (if S_ISBLK (i_mode (inode_table s n))
              then let i = ucast (zone n 0 s) :: u32 in
                mod_inode n (\<lambda>x. x\<lparr>i_size := (case blk_size s (MAJOR i) of
                    Some sizes \<Rightarrow> of_int (1024 * sizes (MINOR i)) | None \<Rightarrow> 0x7fffffff)\<rparr>) s
              else s);
     Some (unlock_inode n s)
   }"

definition write_inode :: "'a fs_scheme world \<Rightarrow> nat \<Rightarrow> 'a fs_scheme \<Rightarrow> 'a fs_scheme option" where
  "write_inode w n s = do {
     s \<leftarrow> lock_inode w n s;
     if i_dirt (inode_table s n) = 0 \<or> i_dev (inode_table s n) = 0 then Some (unlock_inode n s)
     else do {
       (r, s) \<leftarrow> get_super w (idev n s) s;
       sb \<leftarrow> r;
       (b, s) \<leftarrow> bread w (idev n s) (inode_block sb n s) s;
       bh \<leftarrow> b;
       let s = store_dinode (data_of bh s + inode_offset n s) (inode_table s n) s;
       s \<leftarrow> brelse w (Some bh) (mod_inode n (\<lambda>x. x\<lparr>i_dirt := 0\<rparr>) (mod_buf bh (\<lambda>x. x\<lparr>b_dirt := 1\<rparr>) s));
       Some (unlock_inode n s)
     }
   }"

fun sync_inodes_loop :: "'a fs_scheme world \<Rightarrow> nat list \<Rightarrow> 'a fs_scheme \<Rightarrow> 'a fs_scheme option" where
  "sync_inodes_loop w [] s = Some s"
| "sync_inodes_loop w (n # ns) s = do {
     s \<leftarrow> wait_on_inode w n s;
     s \<leftarrow> (if i_dirt (inode_table s n) \<noteq> 0 \<and> i_pipe (inode_table s n) = 0 then write_inode w n s else Some s);
     sync_inodes_loop w ns s
   }"

definition sync_inodes :: "'a fs_scheme world \<Rightarrow> 'a fs_scheme \<Rightarrow> 'a fs_scheme option" where
  "sync_inodes w = sync_inodes_loop w [0..<NR_INODE]"

section \<open>The blocks of a file\<close>

text \<open>\<^verbatim>\<open>if (create && !inode->i_zone[i])\<close> and the lines that follow.\<close>

definition make_zone :: "'a fs_scheme world \<Rightarrow> nat \<Rightarrow> nat \<Rightarrow> bool \<Rightarrow> 'a fs_scheme \<Rightarrow> 'a fs_scheme option" where
  "make_zone w n i create s =
     (if create \<and> zone n i s = 0
      then do {
        (b, s) \<leftarrow> new_block w (idev n s) s;
        let s = set_zone n i (ucast b) s;
        Some (if zone n i s \<noteq> 0
              then mod_inode n (\<lambda>x. x\<lparr>i_ctime := CURRENT_TIME s, i_dirt := 1\<rparr>) s else s)
      }
      else Some s)"

text \<open>Entry \<open>k\<close> of the indirect block in buffer \<open>bh\<close>, which is released.\<close>

definition ind_entry ::
  "'a fs_scheme world \<Rightarrow> nat \<Rightarrow> nat \<Rightarrow> nat \<Rightarrow> bool \<Rightarrow> 'a fs_scheme \<Rightarrow> (u32 \<times> 'a fs_scheme) option" where
  "ind_entry w n bh k create s = do {
     let a = (\<lambda>s. data_of bh s + 2 * of_nat k);
     let i = ucast (rdw (a s) s);
     (i, s) \<leftarrow> (if create \<and> i = 0
                then do {
                  (i, s) \<leftarrow> new_block w (idev n s) s;
                  Some (i, if i \<noteq> 0 then mod_buf bh (\<lambda>x. x\<lparr>b_dirt := 1\<rparr>) (wrw (a s) (ucast i) s) else s)
                }
                else Some (i, s));
     s \<leftarrow> brelse w (Some bh) s;
     Some (i, s)
   }"

definition bmap_base ::
  "'a fs_scheme world \<Rightarrow> nat \<Rightarrow> int \<Rightarrow> bool \<Rightarrow> 'a fs_scheme \<Rightarrow> (u32 \<times> 'a fs_scheme) option" where
  "bmap_base w n block create s =
     (if block < 0 \<or> block \<ge> 7 + 512 + 512 * 512 then None
      else let k = nat block in
      if k < 7 then do {
        s \<leftarrow> make_zone w n k create s;
        Some (ucast (zone n k s), s)
      }
      else if k - 7 < 512 then do {
        s \<leftarrow> make_zone w n 7 create s;
        if zone n 7 s = 0 then Some (0, s)
        else do {
          (b, s) \<leftarrow> bread w (idev n s) (ucast (zone n 7 s)) s;
          case b of None \<Rightarrow> Some (0, s) | Some bh \<Rightarrow> ind_entry w n bh (k - 7) create s
        }
      }
      else do {
        let k = k - 7 - 512;
        s \<leftarrow> make_zone w n 8 create s;
        if zone n 8 s = 0 then Some (0, s)
        else do {
          (b, s) \<leftarrow> bread w (idev n s) (ucast (zone n 8 s)) s;
          case b of None \<Rightarrow> Some (0, s)
          | Some bh \<Rightarrow> do {
              (i, s) \<leftarrow> ind_entry w n bh (k div 512) create s;
              if i = 0 then Some (0, s)
              else do {
                (b, s) \<leftarrow> bread w (idev n s) i s;
                case b of None \<Rightarrow> Some (0, s) | Some bh \<Rightarrow> ind_entry w n bh (k mod 512) create s
              }
            }
        }
      })"

definition bmap :: "'a fs_scheme world \<Rightarrow> nat \<Rightarrow> int \<Rightarrow> 'a fs_scheme \<Rightarrow> (u32 \<times> 'a fs_scheme) option" where
  "bmap w n block = bmap_base w n block False"

definition create_block :: "'a fs_scheme world \<Rightarrow> nat \<Rightarrow> int \<Rightarrow> 'a fs_scheme \<Rightarrow> (u32 \<times> 'a fs_scheme) option" where
  "create_block w n block = bmap_base w n block True"

section \<open>Releasing an inode\<close>

partial_function (option) iput_loop :: "'a fs_scheme world \<Rightarrow> nat \<Rightarrow> 'a fs_scheme \<Rightarrow> 'a fs_scheme option" where
  "iput_loop w n s =
     (let i = inode_table s n in
      if i_count i > 1 then Some (mod_inode n (\<lambda>x. x\<lparr>i_count := i_count x - 1\<rparr>) s)
      else if i_nlinks i = 0 then do { s \<leftarrow> truncate w n s; free_inode w (Some n) s }
      else if i_dirt i \<noteq> 0 then do { s \<leftarrow> write_inode w n s; s \<leftarrow> wait_on_inode w n s; iput_loop w n s }
      else Some (mod_inode n (\<lambda>x. x\<lparr>i_count := i_count x - 1\<rparr>) s))"

definition iput_pipe :: "nat \<Rightarrow> 'a files_scheme \<Rightarrow> 'a files_scheme option" where
  "iput_pipe n s = do {
     let s = wake_up (I_wait2 n) (wake_up (I_wait n) s);
     let s = mod_inode n (\<lambda>x. x\<lparr>i_count := i_count x - 1\<rparr>) s;
     if i_count (inode_table s n) \<noteq> 0 then Some s
     else do {
       s \<leftarrow> free_page (i_size (inode_table s n)) s;
       Some (mod_inode n (\<lambda>x. x\<lparr>i_count := 0, i_dirt := 0, i_pipe := 0\<rparr>) s)
     }
   }"

definition iput :: "'a fs_scheme world \<Rightarrow> nat option \<Rightarrow> 'a fs_scheme \<Rightarrow> 'a fs_scheme option" where
  "iput w inode s =
     (case inode of None \<Rightarrow> Some s
      | Some n \<Rightarrow> do {
          s \<leftarrow> wait_on_inode w n s;
          let i = inode_table s n;
          if i_count i = 0 then None
          else if i_pipe i \<noteq> 0 then iput_pipe n s
          else if i_dev i = 0 then Some (mod_inode n (\<lambda>x. x\<lparr>i_count := i_count x - 1\<rparr>) s)
          else do {
            s \<leftarrow> (if S_ISBLK (i_mode i)
                  then do { s \<leftarrow> sync_dev w (ucast (zone n 0 s)) s; wait_on_inode w n s }
                  else Some s);
            iput_loop w n s
          }
        })"

section \<open>Getting an inode\<close>

text \<open>The \<^verbatim>\<open>for\<close> loop of \<^verbatim>\<open>get_empty_inode\<close> with its static \<^verbatim>\<open>last_inode\<close>.\<close>

fun empty_inode_loop :: "nat \<Rightarrow> nat option \<Rightarrow> 'a fs_scheme \<Rightarrow> nat option \<times> 'a fs_scheme" where
  "empty_inode_loop 0 inode s = (inode, s)"
| "empty_inode_loop (Suc i) inode s =
     (let l = (if last_inode s + 1 \<ge> NR_INODE then 0 else last_inode s + 1);
          s = s\<lparr>last_inode := l\<rparr>; x = inode_table s l
      in if i_count x = 0
         then if i_dirt x = 0 \<and> i_lock x = 0 then (Some l, s) else empty_inode_loop i (Some l) s
         else empty_inode_loop i inode s)"

partial_function (option) clean_inode :: "'a fs_scheme world \<Rightarrow> nat \<Rightarrow> 'a fs_scheme \<Rightarrow> 'a fs_scheme option" where
  "clean_inode w n s =
     (if i_dirt (inode_table s n) = 0 then Some s
      else do { s \<leftarrow> write_inode w n s; s \<leftarrow> wait_on_inode w n s; clean_inode w n s })"

partial_function (option) get_empty_inode :: "'a fs_scheme world \<Rightarrow> 'a fs_scheme \<Rightarrow> (nat \<times> 'a fs_scheme) option" where
  "get_empty_inode w s = do {
     let (r, s) = empty_inode_loop NR_INODE None s;
     case r of None \<Rightarrow> None
     | Some n \<Rightarrow> do {
         s \<leftarrow> wait_on_inode w n s;
         s \<leftarrow> clean_inode w n s;
         if i_count (inode_table s n) \<noteq> 0 then get_empty_inode w s
         else Some (n, mod_inode n (\<lambda>x. x\<lparr>i_count := 1\<rparr>) (clear_inode n s))
       }
   }"

definition get_pipe_inode :: "'a fs_scheme world \<Rightarrow> 'a fs_scheme \<Rightarrow> (nat option \<times> 'a fs_scheme) option" where
  "get_pipe_inode w s = do {
     (n, s) \<leftarrow> get_empty_inode w s;
     (p, s) \<leftarrow> get_free_page w s;
     let s = mod_inode n (\<lambda>x. x\<lparr>i_size := p\<rparr>) s;
     if p = 0 then Some (None, mod_inode n (\<lambda>x. x\<lparr>i_count := 0\<rparr>) s)
     else Some (Some n, mod_inode n (\<lambda>x. x\<lparr>i_count := 2, i_zone := (i_zone x)(1 := 0, 0 := 0), i_pipe := 1\<rparr>) s)
   }"

text \<open>The \<^verbatim>\<open>while\<close> loop of \<^verbatim>\<open>iget\<close> from inode \<open>n\<close> on: \<open>Inl\<close> returns an inode, \<open>Inr\<close> is the device and
  number for which the loop ended.\<close>

partial_function (option) iget_loop ::
  "'a fs_scheme world \<Rightarrow> u32 \<Rightarrow> u32 \<Rightarrow> nat \<Rightarrow> 'a fs_scheme \<Rightarrow> ((nat + u32 \<times> u32) \<times> 'a fs_scheme) option" where
  "iget_loop w dev nr n s =
     (if n \<ge> NR_INODE then Some (Inr (dev, nr), s)
      else if idev n s \<noteq> dev \<or> ucast (i_num (inode_table s n)) \<noteq> nr then iget_loop w dev nr (n + 1) s
      else do {
        s \<leftarrow> wait_on_inode w n s;
        if idev n s \<noteq> dev \<or> ucast (i_num (inode_table s n)) \<noteq> nr then iget_loop w dev nr 0 s
        else do {
          let s = mod_inode n (\<lambda>x. x\<lparr>i_count := i_count x + 1\<rparr>) s;
          if i_mount (inode_table s n) \<noteq> 0
          then case List.find (\<lambda>i. s_imount (super_blocks s i) = Some n) [0..<NR_SUPER] of
              None \<Rightarrow> Some (Inl n, s)
            | Some i \<Rightarrow> do {
                s \<leftarrow> iput w (Some n) s;
                iget_loop w (ucast (s_dev (super_blocks s i))) (ucast ROOT_INO) 0 s
              }
          else Some (Inl n, s)
        }
      })"

definition iget :: "'a fs_scheme world \<Rightarrow> u32 \<Rightarrow> u32 \<Rightarrow> 'a fs_scheme \<Rightarrow> (nat \<times> 'a fs_scheme) option" where
  "iget w dev nr s =
     (if dev = 0 then None
      else do {
        (empty, s) \<leftarrow> get_empty_inode w s;
        (r, s) \<leftarrow> iget_loop w dev nr 0 s;
        case r of
          Inl n \<Rightarrow> do { s \<leftarrow> iput w (Some empty) s; Some (n, s) }
        | Inr (dev, nr) \<Rightarrow> do {
            s \<leftarrow> read_inode w empty (mod_inode empty (\<lambda>x. x\<lparr>i_dev := ucast dev, i_num := ucast nr\<rparr>) s);
            Some (empty, s)
          }
      })"

definition inode_table_init :: "'a files_scheme \<Rightarrow> 'a files_scheme" where
  "inode_table_init s =
     s\<lparr>inode_table := (\<lambda>i. if i < NR_INODE
         then \<lparr>i_mode = 0, i_uid = 0, i_size = 0, i_mtime = 0, i_gid = 0, i_nlinks = 0,
               i_zone = (\<lambda>j. if j < 9 then 0 else i_zone (inode_table s i) j),
               i_atime = 0, i_ctime = 0, i_dev = 0, i_num = 0, i_count = 0, i_lock = 0, i_dirt = 0,
               i_pipe = 0, i_mount = 0, i_seek = 0, i_update = 0\<rparr>
         else inode_table s i),
       wq := (\<lambda>q. case q of I_wait i \<Rightarrow> if i < NR_INODE then 0 else wq s q
                 | I_wait2 i \<Rightarrow> if i < NR_INODE then 0 else wq s q | _ \<Rightarrow> wq s q)\<rparr>"

section \<open>A new inode\<close>

definition new_inode :: "'a fs_scheme world \<Rightarrow> u32 \<Rightarrow> 'a fs_scheme \<Rightarrow> (nat option \<times> 'a fs_scheme) option" where
  "new_inode w dev s = do {
     (n, s) \<leftarrow> get_empty_inode w s;
     (r, s) \<leftarrow> get_super w dev s;
     sb \<leftarrow> r;
     let slot = map_with_zero (s_imap (super_blocks s sb)) s;
     let found = (case slot of None \<Rightarrow> None
        | Some i \<Rightarrow> (case s_imap (super_blocks s sb) i of None \<Rightarrow> None
            | Some bh \<Rightarrow>
                let j = find_first_zero (data_of bh s) (kmem s) in
                if j + i * 8192 > unat (s_ninodes (super_blocks s sb)) then None else Some (i, bh, j)));
     case found of None \<Rightarrow> do { s \<leftarrow> iput w (Some n) s; Some (None, s) }
     | Some (i, bh, j) \<Rightarrow> do {
         let (was_set, s) = set_bit_asm j (data_of bh s) s;
         if was_set then None
         else do {
           let s = mod_buf bh (\<lambda>x. x\<lparr>b_dirt := 1\<rparr>) s;
           Some (Some n, mod_inode n (\<lambda>x. x\<lparr>i_count := 1, i_nlinks := 1, i_dev := ucast dev,
               i_uid := t_euid (cur s), i_gid := ucast (t_egid (cur s)), i_dirt := 1,
               i_num := of_nat (j + i * 8192), i_ctime := CURRENT_TIME s, i_atime := CURRENT_TIME s,
               i_mtime := CURRENT_TIME s\<rparr>) s)
         }
       }
   }"

section \<open>Mounting the root\<close>

text \<open>The loop that reads the rest of the inode blocks into the cache.\<close>

fun read_ahead_blocks :: "'a fs_scheme world \<Rightarrow> nat \<Rightarrow> u32 \<Rightarrow> 'a fs_scheme \<Rightarrow> 'a fs_scheme option" where
  "read_ahead_blocks w 0 block s = Some s"
| "read_ahead_blocks w (Suc i) block s = do {
     (b, s) \<leftarrow> bread w (ROOT_DEV s) block s;
     bh \<leftarrow> b;
     s \<leftarrow> brelse w (Some bh) s;
     read_ahead_blocks w i (block + 1) s
   }"

text \<open>Only device 0x301 is accepted. Unlike \<^verbatim>\<open>read_super\<close>, a block that cannot be read is a panic; the
  counts of free blocks and inodes are only printed.\<close>

definition mount_root :: "'a fs_scheme world \<Rightarrow> 'a fs_scheme \<Rightarrow> 'a fs_scheme option" where
  "mount_root w s =
     (if ROOT_DEV s \<noteq> 0x0301 then None
      else do {
        s \<leftarrow> lock_super w 0 (mod_super 0 (\<lambda>x. x\<lparr>s_dev := ucast (ROOT_DEV s), s_isup := None,
               s_imount := None, s_time := 0, s_rd_only := 0, s_dirt := 0\<rparr>) s);
        (b, s) \<leftarrow> bread w (ROOT_DEV s) 1 s;
        bh \<leftarrow> b;
        s \<leftarrow> brelse w (Some bh) (load_super (data_of bh s) 0 s);
        if s_magic (super_blocks s 0) \<noteq> SUPER_MAGIC then None
        else do {
          (block, s) \<leftarrow> read_imap w (ROOT_DEV s) 0 0 2 s;
          if block \<noteq> 2 + ucast (s_imap_blocks (super_blocks s 0)) then None
          else do {
            (block, s) \<leftarrow> read_zmap w (ROOT_DEV s) 0 0 block s;
            if block \<noteq> 2 + ucast (s_imap_blocks (super_blocks s 0)) + ucast (s_zmap_blocks (super_blocks s 0))
            then None
            else do {
              s \<leftarrow> or_first_byte (s_imap (super_blocks s 0) 0) 3 s;
              s \<leftarrow> or_first_byte (s_zmap (super_blocks s 0) 0) 3 s;
              let s = mod_inode 0 (\<lambda>x. x\<lparr>i_count := 1, i_dev := ucast (ROOT_DEV s), i_num := ROOT_INO\<rparr>)
                        (free_super 0 s);
              (b, s) \<leftarrow> bread w (ROOT_DEV s) block s;
              bh \<leftarrow> b;
              s \<leftarrow> brelse w (Some bh) (load_dinode (data_of bh s) 0 s);
              let s = mod_inode 0 (\<lambda>x. x\<lparr>i_count := i_count x + 3\<rparr>) s;
              let s = mod_super 0 (\<lambda>x. x\<lparr>s_imount := Some 0, s_isup := Some 0\<rparr>) s;
              let s = mod_cur (\<lambda>t. t\<lparr>t_pwd := Some 0, t_root := Some 0\<rparr>) s;
              let count = nat (uint (s_firstdatazone (super_blocks s 0)) - sint (block + 1));
              read_ahead_blocks w (count + 1) (block + 1) s
            }
          }
        }
      })"

end
