(* ===== verification/Pipe.thy ===== *)
theory Pipe
  imports Inode
begin

text \<open>
  \<^verbatim>\<open>fs/pipe.c\<close>. The bytes of a pipe are in a ring of 4096 bytes, the page \<^verbatim>\<open>inode->i_size\<close>;
  \<^verbatim>\<open>PIPE_HEAD\<close> and \<^verbatim>\<open>PIPE_TAIL\<close> are the zones 0 and 1 of the inode. Readers sleep on
  \<^verbatim>\<open>PIPE_READ_WAIT\<close>, which is \<^verbatim>\<open>i_wait\<close>, and writers on \<^verbatim>\<open>PIPE_WRITE_WAIT\<close>, which is \<^verbatim>\<open>i_wait2\<close>.
\<close>

abbreviation (input) PAGE_SIZE :: nat where "PAGE_SIZE \<equiv> 4096"
abbreviation (input) SIGPIPE :: nat where "SIGPIPE \<equiv> 13"
abbreviation (input) FIONREAD :: u32 where "FIONREAD \<equiv> 0x541B"

abbreviation (input) PIPE_HEAD :: "nat \<Rightarrow> 'a files_scheme \<Rightarrow> u16" where "PIPE_HEAD n s \<equiv> zone n 0 s"
abbreviation (input) PIPE_TAIL :: "nat \<Rightarrow> 'a files_scheme \<Rightarrow> u16" where "PIPE_TAIL n s \<equiv> zone n 1 s"

definition PIPE_SIZE :: "nat \<Rightarrow> 'a files_scheme \<Rightarrow> nat" where
  "PIPE_SIZE n s = unat ((PIPE_HEAD n s - PIPE_TAIL n s) AND 0xFFF)"

definition PIPE_EMPTY :: "nat \<Rightarrow> 'a files_scheme \<Rightarrow> bool" where
  "PIPE_EMPTY n s \<longleftrightarrow> PIPE_HEAD n s = PIPE_TAIL n s"

definition PIPE_FULL :: "nat \<Rightarrow> 'a files_scheme \<Rightarrow> bool" where
  "PIPE_FULL n s \<longleftrightarrow> PIPE_SIZE n s = PAGE_SIZE - 1"

text \<open>A signal is pending that is not blocked.\<close>

abbreviation (input) signal_pending :: "'a sched_scheme \<Rightarrow> bool" where
  "signal_pending s \<equiv> t_signal (cur s) AND NOT (t_blocked (cur s)) \<noteq> 0"

section \<open>Reading\<close>

text \<open>The inner \<^verbatim>\<open>while\<close> loop: \<open>Inl\<close> is a value to return, \<open>Inr\<close> the number of bytes there are.\<close>

partial_function (option) read_wait ::
  "'a files_scheme world \<Rightarrow> nat \<Rightarrow> int \<Rightarrow> 'a files_scheme \<Rightarrow> ((int + nat) \<times> 'a files_scheme) option" where
  "read_wait w n done s =
     (if PIPE_SIZE n s \<noteq> 0 then Some (Inr (PIPE_SIZE n s), s)
      else let s = wake_up (I_wait2 n) s in
        if i_count (inode_table s n) \<noteq> 2 then Some (Inl done, s)
        else if signal_pending s then Some (Inl (if done \<noteq> 0 then done else - ERESTARTSYS), s)
        else do { s \<leftarrow> interruptible_sleep_on w (I_wait n) s; read_wait w n done s })"

text \<open>\<^verbatim>\<open>while (chars-->0) put_fs_byte(((char *)inode->i_size)[size++],buf++)\<close>.\<close>

fun bytes_to_fs :: "nat \<Rightarrow> u32 \<Rightarrow> u32 \<Rightarrow> 'a sched_scheme \<Rightarrow> 'a sched_scheme" where
  "bytes_to_fs 0 p buf s = s"
| "bytes_to_fs (Suc chars) p buf s = bytes_to_fs chars (p + 1) (buf + 1) (put_fs_byte (rdb p s) buf s)"

text \<open>One pass of the outer loop: \<open>chars\<close> bytes are taken from the tail.\<close>

definition pipe_take :: "nat \<Rightarrow> nat \<Rightarrow> u32 \<Rightarrow> 'a files_scheme \<Rightarrow> 'a files_scheme" where
  "pipe_take n chars buf s =
     (let sz = PIPE_TAIL n s;
          s = set_zone n 1 ((PIPE_TAIL n s + of_nat chars) AND 0xFFF) s
      in bytes_to_fs chars (i_size (inode_table s n) + ucast sz) buf s)"

partial_function (option) read_pipe_loop ::
  "'a files_scheme world \<Rightarrow> nat \<Rightarrow> u32 \<Rightarrow> int \<Rightarrow> int \<Rightarrow> 'a files_scheme \<Rightarrow> (int \<times> 'a files_scheme) option" where
  "read_pipe_loop w n buf count done s =
     (if count \<le> 0 then Some (done, wake_up (I_wait2 n) s)
      else do {
        (r, s) \<leftarrow> read_wait w n done s;
        case r of Inl rc \<Rightarrow> Some (rc, s)
        | Inr sz \<Rightarrow> do {
            let chars = min (min (int PAGE_SIZE - uint (PIPE_TAIL n s)) count) (int sz);
            read_pipe_loop w n (buf + of_int chars) (count - chars) (done + chars)
              (pipe_take n (nat chars) buf s)
          }
      })"

definition read_pipe :: "'a files_scheme world \<Rightarrow> nat \<Rightarrow> u32 \<Rightarrow> int \<Rightarrow> 'a files_scheme \<Rightarrow> (int \<times> 'a files_scheme) option" where
  "read_pipe w n buf count s = read_pipe_loop w n buf count 0 s"

section \<open>Writing\<close>

partial_function (option) write_wait ::
  "'a files_scheme world \<Rightarrow> nat \<Rightarrow> int \<Rightarrow> 'a files_scheme \<Rightarrow> ((int + nat) \<times> 'a files_scheme) option" where
  "write_wait w n done s =
     (let sz = PAGE_SIZE - 1 - PIPE_SIZE n s in
      if sz \<noteq> 0 then Some (Inr sz, s)
      else let s = wake_up (I_wait n) s in
        if i_count (inode_table s n) \<noteq> 2
        then Some (Inl (if done \<noteq> 0 then done else - 1),
                   mod_cur (\<lambda>t. t\<lparr>t_signal := t_signal t OR sigbit SIGPIPE\<rparr>) s)
        else do { s \<leftarrow> sleep_on w (I_wait2 n) s; write_wait w n done s })"

fun bytes_from_fs :: "nat \<Rightarrow> u32 \<Rightarrow> u32 \<Rightarrow> 'a sched_scheme \<Rightarrow> 'a sched_scheme" where
  "bytes_from_fs 0 p buf s = s"
| "bytes_from_fs (Suc chars) p buf s = bytes_from_fs chars (p + 1) (buf + 1) (wrb p (get_fs_byte buf s) s)"

definition pipe_put :: "nat \<Rightarrow> nat \<Rightarrow> u32 \<Rightarrow> 'a files_scheme \<Rightarrow> 'a files_scheme" where
  "pipe_put n chars buf s =
     (let sz = PIPE_HEAD n s;
          s = set_zone n 0 ((PIPE_HEAD n s + of_nat chars) AND 0xFFF) s
      in bytes_from_fs chars (i_size (inode_table s n) + ucast sz) buf s)"

partial_function (option) write_pipe_loop ::
  "'a files_scheme world \<Rightarrow> nat \<Rightarrow> u32 \<Rightarrow> int \<Rightarrow> int \<Rightarrow> 'a files_scheme \<Rightarrow> (int \<times> 'a files_scheme) option" where
  "write_pipe_loop w n buf count done s =
     (if count \<le> 0 then Some (done, wake_up (I_wait n) s)
      else do {
        (r, s) \<leftarrow> write_wait w n done s;
        case r of Inl rc \<Rightarrow> Some (rc, s)
        | Inr sz \<Rightarrow> do {
            let chars = min (min (int PAGE_SIZE - uint (PIPE_HEAD n s)) count) (int sz);
            write_pipe_loop w n (buf + of_int chars) (count - chars) (done + chars)
              (pipe_put n (nat chars) buf s)
          }
      })"

definition write_pipe :: "'a files_scheme world \<Rightarrow> nat \<Rightarrow> u32 \<Rightarrow> int \<Rightarrow> 'a files_scheme \<Rightarrow> (int \<times> 'a files_scheme) option" where
  "write_pipe w n buf count s = write_pipe_loop w n buf count 0 s"

section \<open>Making a pipe\<close>

text \<open>The first free entries of the file table and of the descriptors of the task; a single one is
  marked used and then free again, so that nothing changes.\<close>

definition free_files :: "'a files_scheme \<Rightarrow> nat list" where
  "free_files s = filter (\<lambda>i. f_count (file_table s i) = 0) [0..<NR_FILE]"

definition free_fds :: "'a sched_scheme \<Rightarrow> nat list" where
  "free_fds s = filter (\<lambda>i. t_filp (cur s) i = None) [0..<NR_OPEN]"

definition set_filp :: "nat \<Rightarrow> nat option \<Rightarrow> 'a sched_scheme \<Rightarrow> 'a sched_scheme" where
  "set_filp fd f = (\<lambda>s. mod_cur (\<lambda>t. t\<lparr>t_filp := (t_filp t)(fd := f)\<rparr>) s)"

definition sys_pipe :: "'a fs_scheme world \<Rightarrow> u32 \<Rightarrow> 'a fs_scheme \<Rightarrow> (int \<times> 'a fs_scheme) option" where
  "sys_pipe w fildes s =
     (case free_files s of f0 # f1 # _ \<Rightarrow> do {
          let count = (\<lambda>k. mod_file f1 (\<lambda>f. f\<lparr>f_count := k\<rparr>) \<circ> mod_file f0 (\<lambda>f. f\<lparr>f_count := k\<rparr>));
          let s = count 1 s;
          (case free_fds s of fd0 # fd1 # _ \<Rightarrow> do {
               (r, s) \<leftarrow> get_pipe_inode w (set_filp fd1 (Some f1) (set_filp fd0 (Some f0) s));
               case r of
                 None \<Rightarrow> Some (- 1, count 0 (set_filp fd1 None (set_filp fd0 None s)))
               | Some n \<Rightarrow> do {
                   let s = mod_file f0 (\<lambda>f. f\<lparr>f_mode := 1, f_inode := Some n, f_pos := 0\<rparr>) s;
                   let s = mod_file f1 (\<lambda>f. f\<lparr>f_mode := 2, f_inode := Some n, f_pos := 0\<rparr>) s;
                   Some (0, put_fs_long (of_nat fd1) (fildes + 4) (put_fs_long (of_nat fd0) fildes s))
                 }
             }
           | _ \<Rightarrow> Some (- 1, count 0 s))
        }
      | _ \<Rightarrow> Some (- 1, s))"

definition pipe_ioctl :: "'a files_scheme world \<Rightarrow> nat \<Rightarrow> u32 \<Rightarrow> u32 \<Rightarrow> 'a files_scheme \<Rightarrow> (int \<times> 'a files_scheme) option" where
  "pipe_ioctl w pino cmd arg s =
     (if cmd = FIONREAD
      then do { s \<leftarrow> verify_area w arg 4 s; Some (0, put_fs_long (of_nat (PIPE_SIZE pino s)) arg s) }
      else Some (- EINVAL, s))"

end
