(* ===== verification/Ring.thy ===== *)
theory Ring
  imports Prelude
begin

text \<open>
  Queues in circular buffers. The pipes and the queues of the terminals are both rings of \<open>N\<close>
  slots with a head, where bytes are put, and a tail, where they are taken; \<open>ring_items\<close> is the
  list of what such a ring holds. The locale \<open>ring\<close> gives the laws of moving a whole piece at
  once, for every \<open>N\<close>; the locale \<open>fifo\<close> is the interface of a queue that is used one element at a
  time, with what follows from it for a sequence of operations.
\<close>

section \<open>Rings\<close>

definition ring_count :: "nat \<Rightarrow> nat \<Rightarrow> nat \<Rightarrow> nat" where
  "ring_count N h t = (h + N - t) mod N"

definition ring_items :: "nat \<Rightarrow> (nat \<Rightarrow> 'b) \<Rightarrow> nat \<Rightarrow> nat \<Rightarrow> 'b list" where
  "ring_items N b h t = map (\<lambda>i. b ((t + i) mod N)) [0..<ring_count N h t]"

lemma length_ring_items [simp]: "length (ring_items N b h t) = ring_count N h t"
  by (simp add: ring_items_def)

lemma mod_once: "x < 2 * N \<Longrightarrow> x mod N = (if x < N then x else x - N)" for N :: nat
  by (simp add: mod_if)

locale ring =
  fixes N :: nat
  assumes size_pos: "1 < N"
begin

lemma count_less: "ring_count N h t < N"
  using size_pos by (simp add: ring_count_def)

lemma tail_plus_count: "h < N \<Longrightarrow> t < N \<Longrightarrow> (t + ring_count N h t) mod N = h"
  by (auto simp: ring_count_def mod_once)

lemma count_put: "h < N \<Longrightarrow> t < N \<Longrightarrow> ring_count N h t + k < N \<Longrightarrow>
    ring_count N ((h + k) mod N) t = ring_count N h t + k"
  by (auto simp: ring_count_def mod_once split: if_splits)

lemma count_take: "h < N \<Longrightarrow> t < N \<Longrightarrow> k \<le> ring_count N h t \<Longrightarrow>
    ring_count N h ((t + k) mod N) = ring_count N h t - k"
  by (auto simp: ring_count_def mod_once split: if_splits)

lemma slot_inj: "t < N \<Longrightarrow> i < N \<Longrightarrow> j < N \<Longrightarrow> (t + i) mod N = (t + j) mod N \<longleftrightarrow> i = j"
  by (auto simp: mod_once split: if_splits)

text \<open>A piece of \<open>k\<close> elements that fits, written from the head on without wrapping.\<close>

lemma put_piece:
  assumes "h < N" "t < N" "k \<le> N - h" "ring_count N h t + k < N"
  shows "ring_items N (\<lambda>i. if h \<le> i \<and> i < h + k then c (i - h) else b i) ((h + k) mod N) t
     = ring_items N b h t @ map c [0..<k]" (is "ring_items N ?b _ _ = _")
proof (rule nth_equalityI)
  let ?n = "ring_count N h t"
  have hk: "h + k \<le> N" using assms by simp
  show "length (ring_items N ?b ((h + k) mod N) t) = length (ring_items N b h t @ map c [0..<k])"
    using assms by (simp add: count_put)
  fix i assume "i < length (ring_items N ?b ((h + k) mod N) t)"
  then have i: "i < ?n + k" using assms by (simp add: count_put)
  have slot: "(t + (?n + j)) mod N = h + j" if "j < k" for j
  proof -
    have "(t + (?n + j)) mod N = ((t + ?n) mod N + j) mod N"
      unfolding mod_add_left_eq add.assoc ..
    then show ?thesis using that hk assms by (simp add: tail_plus_count)
  qed
  have L: "ring_items N ?b ((h + k) mod N) t ! i = ?b ((t + i) mod N)"
    using i assms by (simp add: ring_items_def count_put)
  show "ring_items N ?b ((h + k) mod N) t ! i = (ring_items N b h t @ map c [0..<k]) ! i"
  proof (cases "i < ?n")
    case True
    have "\<not> (h \<le> (t + i) mod N \<and> (t + i) mod N < h + k)"
    proof
      assume H: "h \<le> (t + i) mod N \<and> (t + i) mod N < h + k"
      define j where "j = (t + i) mod N - h"
      have j: "(t + i) mod N = h + j" "j < k" using H by (auto simp: j_def)
      then have "(t + i) mod N = (t + (?n + j)) mod N" using slot by simp
      then have "i = ?n + j" using slot_inj [of t i "?n + j"] assms True j by simp
      then show False using True by simp
    qed
    with True L show ?thesis by (auto simp: nth_append ring_items_def)
  next
    case False
    then obtain j where j: "i = ?n + j" "j < k" using i by (metis le_add_diff_inverse not_less add_less_cancel_left)
    with L slot [OF j(2)] show ?thesis by (simp add: nth_append)
  qed
qed

text \<open>A piece of \<open>k\<close> elements, taken from the tail on.\<close>

lemma take_piece:
  assumes "h < N" "t < N" "k \<le> ring_count N h t"
  shows "ring_items N b h ((t + k) mod N) = drop k (ring_items N b h t)"
proof (rule nth_equalityI)
  fix i assume "i < length (ring_items N b h ((t + k) mod N))"
  then have i: "i < ring_count N h t - k" using assms by (simp add: count_take)
  have "((t + k) mod N + i) mod N = (t + (k + i)) mod N"
    unfolding mod_add_left_eq add.assoc ..
  moreover have "k + i < ring_count N h t" using i by simp
  ultimately show "ring_items N b h ((t + k) mod N) ! i = drop k (ring_items N b h t) ! i"
    using i assms by (simp add: ring_items_def count_take)
qed (use assms in \<open>simp add: count_take\<close>)

lemma taken_piece:
  assumes "h < N" "t < N" "k \<le> ring_count N h t" "k \<le> N - t"
  shows "take k (ring_items N b h t) = map (\<lambda>i. b (t + i)) [0..<k]"
  using assms by (intro nth_equalityI) (auto simp: ring_items_def)

end

section \<open>Queues\<close>

text \<open>\<open>n\<close> elements taken one after the other.\<close>

fun deqs :: "('q \<Rightarrow> 'b \<times> 'q) \<Rightarrow> nat \<Rightarrow> 'q \<Rightarrow> 'b list \<times> 'q" where
  "deqs deq 0 q = ([], q)"
| "deqs deq (Suc n) q = (let (c, q) = deq q; (cs, q) = deqs deq n q in (c # cs, q))"

locale fifo =
  fixes ok :: "'q \<Rightarrow> bool" and items :: "'q \<Rightarrow> 'b list" and room :: "'q \<Rightarrow> nat"
    and enq :: "'b \<Rightarrow> 'q \<Rightarrow> 'q" and deq :: "'q \<Rightarrow> 'b \<times> 'q"
  assumes enq_ok: "ok q \<Longrightarrow> 0 < room q \<Longrightarrow> ok (enq c q)"
    and enq_items: "ok q \<Longrightarrow> 0 < room q \<Longrightarrow> items (enq c q) = items q @ [c]"
    and enq_room: "ok q \<Longrightarrow> 0 < room q \<Longrightarrow> room (enq c q) = room q - 1"
    and deq_ok: "ok q \<Longrightarrow> items q \<noteq> [] \<Longrightarrow> ok (snd (deq q))"
    and deq_items: "ok q \<Longrightarrow> items q \<noteq> [] \<Longrightarrow> items q = fst (deq q) # items (snd (deq q))"
    and deq_room: "ok q \<Longrightarrow> items q \<noteq> [] \<Longrightarrow> room (snd (deq q)) = room q + 1"
begin

lemma enqs:
  assumes "ok q" "length cs \<le> room q"
  shows "ok (fold enq cs q) \<and> items (fold enq cs q) = items q @ cs
     \<and> room (fold enq cs q) = room q - length cs"
  using assms by (induction cs arbitrary: q) (simp_all add: enq_ok enq_items enq_room)

lemma deqs:
  assumes "ok q" "n \<le> length (items q)"
  shows "fst (deqs deq n q) = take n (items q) \<and> items (snd (deqs deq n q)) = drop n (items q)
     \<and> ok (snd (deqs deq n q)) \<and> room (snd (deqs deq n q)) = room q + n"
  using assms
proof (induction n arbitrary: q)
  case (Suc n)
  then have ne: "items q \<noteq> []" by auto
  note d = deq_items [OF Suc.prems(1) ne]
  have "n \<le> length (items (snd (deq q)))" using Suc.prems(2) d by (metis Suc_le_mono length_Cons)
  with Suc.IH [OF deq_ok [OF Suc.prems(1) ne]] deq_room [OF Suc.prems(1) ne] d show ?case
    by (auto simp: split_beta)
qed simp

text \<open>What is put into an empty queue comes out in the same order, and leaves it empty.\<close>

lemma first_in_first_out:
  assumes "ok q" "items q = []" "length cs \<le> room q"
  shows "fst (deqs deq (length cs) (fold enq cs q)) = cs
     \<and> items (snd (deqs deq (length cs) (fold enq cs q))) = []"
  using deqs [of "fold enq cs q" "length cs"] enqs [OF assms(1,3)] assms(2) by simp

end

section \<open>Rings with word indices\<close>

lemma word_diff_low:
  fixes a b :: "'a::len word"
  assumes "k \<le> LENGTH('a)"
  shows "uint ((a - b) AND mask k) = (uint a - uint b) mod 2 ^ k"
proof -
  have d: "(2::int) ^ k dvd 2 ^ LENGTH('a)" using assms by (simp add: le_imp_power_dvd)
  have "uint ((a - b) AND mask k) = uint (a - b) mod 2 ^ k"
    by (simp add: unsigned_take_bit_eq flip: take_bit_eq_mask take_bit_eq_mod)
  also have "\<dots> = (uint a - uint b) mod 2 ^ k"
    by (simp add: uint_word_ariths mod_mod_cancel [OF d])
  finally show ?thesis .
qed

lemma word_sum_low:
  fixes a b :: "'a::len word"
  assumes "k \<le> LENGTH('a)"
  shows "unat ((a + b) AND mask k) = (unat a + unat b) mod 2 ^ k"
proof -
  have d: "(2::nat) ^ k dvd 2 ^ LENGTH('a)" using assms by (simp add: le_imp_power_dvd)
  have "unat ((a + b) AND mask k) = unat (a + b) mod 2 ^ k"
    by (simp add: unsigned_take_bit_eq flip: take_bit_eq_mask take_bit_eq_mod)
  also have "\<dots> = (unat a + unat b) mod 2 ^ k"
    by (simp add: unat_word_ariths mod_mod_cancel [OF d])
  finally show ?thesis .
qed

lemma word_count_low:
  fixes a b :: "'a::len word"
  assumes "k \<le> LENGTH('a)" "unat a < 2 ^ k" "unat b < 2 ^ k"
  shows "unat ((a - b) AND mask k) = ring_count (2 ^ k) (unat a) (unat b)"
proof -
  have "(uint a - uint b) mod 2 ^ k = (uint a + 2 ^ k - uint b) mod 2 ^ k"
    by (metis add_diff_eq diff_add_eq mod_add_self2)
  also have "\<dots> = int ((unat a + 2 ^ k - unat b) mod 2 ^ k)"
    using assms by (simp add: of_nat_diff zmod_int)
  finally show ?thesis
    using word_diff_low [OF assms(1), of a b] unfolding ring_count_def
    by (metis of_nat_eq_iff uint_nat)
qed

lemma ring_masks: "(0x3FF :: u32) = mask 10" "(0xFFF :: u16) = mask 12"
  by (simp_all add: mask_eq_exp_minus_1)

end
