(* ===== verification/Pipe_Queue.thy ===== *)
theory Pipe_Queue
  imports Pipe Ring
begin

text \<open>
  The ring of a pipe as the list of bytes it holds: a write appends the bytes of the user's buffer,
  a read takes the first ones, each in at most two pieces where the ring wraps around.
\<close>

interpretation pipe_ring: ring 4096
  by unfold_locales simp

definition pipe_ok :: "nat \<Rightarrow> 'a files_scheme \<Rightarrow> bool" where
  "pipe_ok n s \<longleftrightarrow> unat (PIPE_HEAD n s) < PAGE_SIZE \<and> unat (PIPE_TAIL n s) < PAGE_SIZE"

definition pipe_bytes :: "nat \<Rightarrow> 'a files_scheme \<Rightarrow> nat \<Rightarrow> u8" where
  "pipe_bytes n s i = rdb (i_size (inode_table s n) + of_nat i) s"

definition pipe_items :: "nat \<Rightarrow> 'a files_scheme \<Rightarrow> u8 list" where
  "pipe_items n s = ring_items PAGE_SIZE (pipe_bytes n s) (unat (PIPE_HEAD n s)) (unat (PIPE_TAIL n s))"

text \<open>The bytes of the user's memory at an address.\<close>

definition user_bytes :: "nat \<Rightarrow> u32 \<Rightarrow> 'a sched_scheme \<Rightarrow> u8 list" where
  "user_bytes k buf s = map (\<lambda>j. get_fs_byte (buf + of_nat j) s) [0..<k]"

lemma user_bytes_append: "user_bytes (j + k) buf s = user_bytes j buf s @ user_bytes k (buf + of_nat j) s"
proof -
  have "[0..<j + k] = [0..<j] @ map (\<lambda>i. i + j) [0..<k]"
    unfolding map_add_upt by (metis add.commute upt_add_eq_append zero_le)
  then show ?thesis by (simp add: user_bytes_def add_ac comp_def)
qed

lemma PIPE_SIZE_items: "pipe_ok n s \<Longrightarrow> PIPE_SIZE n s = length (pipe_items n s)"
  using word_count_low [of 12 "PIPE_HEAD n s" "PIPE_TAIL n s"]
  by (simp add: PIPE_SIZE_def pipe_ok_def pipe_items_def ring_masks)

lemma next_index: "unat ((a + of_nat k) AND 0xFFF :: u16) = (unat a + k) mod 4096"
proof -
  have "unat ((a + of_nat k) AND 0xFFF :: u16) = (unat a + unat (of_nat k :: u16)) mod 4096"
    using word_sum_low [of 12 a "of_nat k"] by (simp add: ring_masks)
  also have "\<dots> = (unat a + k) mod 4096"
    by (simp add: unat_of_nat mod_add_right_eq mod_mod_cancel flip: mod_add_right_eq [of _ "k mod 65536"])
  finally show ?thesis .
qed

section \<open>Copying\<close>

lemma unat_step: "unat (d :: u32) < Suc k \<longleftrightarrow> d = 0 \<or> unat (d - 1) < k"
proof (cases "d = 0")
  case False
  then have "unat (d - 1) = unat d - 1" "0 < unat d" by (simp_all add: unat_minus_one unat_gt_0)
  with False show ?thesis by linarith
qed simp

lemma bytes_from_fs_kmem:
  "kmem (bytes_from_fs k p buf s) a = (if unat (a - p) < k then get_fs_byte (buf + (a - p)) s else kmem s a)"
proof (induction k arbitrary: p buf s)
  case (Suc k)
  have "unat (a - p) < Suc k \<longleftrightarrow> a = p \<or> unat (a - (p + 1)) < k"
    using unat_step [of "a - p" k] by (simp add: diff_diff_eq)
  then show ?case
    by (auto simp: Suc wrb_def get_fs_byte_def algebra_simps)
qed simp

lemma bytes_from_fs_rest [simp]:
  "inode_table (bytes_from_fs k p buf s) = inode_table s" "fs_mem (bytes_from_fs k p buf s) = fs_mem s"
  by (induction k arbitrary: p buf s) (simp_all add: wrb_def)

lemma bytes_to_fs_mem:
  "fs_mem (bytes_to_fs k p buf s) a = (if unat (a - buf) < k then rdb (p + (a - buf)) s else fs_mem s a)"
proof (induction k arbitrary: p buf s)
  case (Suc k)
  have "unat (a - buf) < Suc k \<longleftrightarrow> a = buf \<or> unat (a - (buf + 1)) < k"
    using unat_step [of "a - buf" k] by (simp add: diff_diff_eq)
  then show ?case
    by (auto simp: Suc put_fs_byte_def rdb_def algebra_simps)
qed simp

lemma bytes_to_fs_rest [simp]:
  "inode_table (bytes_to_fs k p buf s) = inode_table s" "kmem (bytes_to_fs k p buf s) = kmem s"
  by (induction k arbitrary: p buf s) (simp_all add: put_fs_byte_def)

section \<open>One piece\<close>

lemma set_zone_simps [simp]:
  "kmem (set_zone n i v s) = kmem s" "fs_mem (set_zone n i v s) = fs_mem s"
  "i_size (inode_table (set_zone n i v s) n) = i_size (inode_table s n)"
  "i_count (inode_table (set_zone n i v s) n) = i_count (inode_table s n)"
  "zone n j (set_zone n i v s) = (if j = i then v else zone n j s)"
  by (simp_all add: set_zone_def mod_inode_def)

lemma slot_diff: "(of_nat i :: u32) - ucast (h :: u16) = (if unat h \<le> i then of_nat (i - unat h) else - of_nat (unat h - i))"
proof -
  have "(ucast h :: u32) = of_nat (unat h)" by simp
  then show ?thesis by (simp add: of_nat_diff)
qed

lemma slot_offset:
  assumes "i < 4096" "unat (h :: u16) < 4096" "k \<le> 4096 - unat h"
  shows "unat ((of_nat i :: u32) - ucast h) < k \<longleftrightarrow> unat h \<le> i \<and> i < unat h + k"
proof (cases "unat h \<le> i")
  case True
  then have "(of_nat i :: u32) - ucast h = of_nat (i - unat h)" unfolding slot_diff by (rule if_P)
  moreover have "unat (of_nat (i - unat h) :: u32) = i - unat h"
    using assms(1) unfolding unat_of_nat by (intro mod_less) simp
  ultimately show ?thesis using True assms by auto
next
  case False
  define m where "m = unat h - i"
  have m: "0 < m" "m < 4096" using False assms by (auto simp: m_def)
  have "(of_nat m :: u32) \<noteq> 0" using m by (simp add: word_unat_eq_iff unat_of_nat)
  then have "unat (- (of_nat m :: u32)) = 2 ^ 32 - m"
    using m unat_sub_if' [of 0 "of_nat m :: u32"] by (simp add: unat_of_nat)
  then have "unat ((of_nat i :: u32) - ucast h) = 2 ^ 32 - m" using False unfolding slot_diff m_def by simp
  then show ?thesis using False m assms by auto
qed

lemma pipe_put_items:
  assumes "pipe_ok n s" "k \<le> 4096 - unat (PIPE_HEAD n s)" "length (pipe_items n s) + k < 4096"
  shows "pipe_ok n (pipe_put n k buf s)" "pipe_items n (pipe_put n k buf s) = pipe_items n s @ user_bytes k buf s"
    "fs_mem (pipe_put n k buf s) = fs_mem s"
proof -
  let ?s' = "pipe_put n k buf s"
  let ?h = "unat (PIPE_HEAD n s)" and ?t = "unat (PIPE_TAIL n s)"
  have b: "?h < 4096" "?t < 4096" using assms(1) by (simp_all add: pipe_ok_def)
  have H: "unat (PIPE_HEAD n ?s') = (?h + k) mod 4096" "PIPE_TAIL n ?s' = PIPE_TAIL n s"
    by (simp_all add: pipe_put_def Let_def next_index)
  show "pipe_ok n ?s'" using H b by (simp add: pipe_ok_def)
  show "fs_mem ?s' = fs_mem s" by (simp add: pipe_put_def Let_def)
  have B: "pipe_bytes n ?s' i = (if ?h \<le> i \<and> i < ?h + k then get_fs_byte (buf + of_nat (i - ?h)) s else pipe_bytes n s i)"
    if "i < 4096" for i
  proof -
    let ?d = "of_nat i - ucast (PIPE_HEAD n s) :: u32"
    have v: "pipe_bytes n ?s' i = (if unat ?d < k then get_fs_byte (buf + ?d) s else pipe_bytes n s i)"
      by (simp add: pipe_put_def pipe_bytes_def Let_def rdb_def bytes_from_fs_kmem get_fs_byte_def)
    show ?thesis
    proof (cases "?h \<le> i \<and> i < ?h + k")
      case True
      then have "?d = of_nat (i - ?h)" unfolding slot_diff by (intro if_P) simp
      then show ?thesis using v slot_offset [OF that b(1) assms(2)] True by presburger
    next
      case False
      then show ?thesis using v slot_offset [OF that b(1) assms(2)] by presburger
    qed
  qed
  have "pipe_items n ?s' = ring_items 4096 (\<lambda>i. if ?h \<le> i \<and> i < ?h + k then get_fs_byte (buf + of_nat (i - ?h)) s else pipe_bytes n s i)
      ((?h + k) mod 4096) ?t"
    unfolding pipe_items_def H ring_items_def using B by simp
  also have "\<dots> = pipe_items n s @ user_bytes k buf s"
    using pipe_ring.put_piece [OF b assms(2), where c = "\<lambda>i. get_fs_byte (buf + of_nat i) s" and b = "pipe_bytes n s"] assms(3)
    by (simp add: pipe_items_def user_bytes_def)
  finally show "pipe_items n ?s' = pipe_items n s @ user_bytes k buf s" .
qed

lemma pipe_take_items:
  assumes "pipe_ok n s" "k \<le> 4096 - unat (PIPE_TAIL n s)" "k \<le> length (pipe_items n s)"
  shows "pipe_ok n (pipe_take n k buf s)" "pipe_items n (pipe_take n k buf s) = drop k (pipe_items n s)"
    "user_bytes k buf (pipe_take n k buf s) = take k (pipe_items n s)"
    "\<And>a. k \<le> unat (a - buf) \<Longrightarrow> fs_mem (pipe_take n k buf s) a = fs_mem s a"
proof -
  let ?s' = "pipe_take n k buf s"
  let ?h = "unat (PIPE_HEAD n s)" and ?t = "unat (PIPE_TAIL n s)"
  have b: "?h < 4096" "?t < 4096" using assms(1) by (simp_all add: pipe_ok_def)
  have k: "k \<le> ring_count 4096 ?h ?t" using assms(3) by (simp add: pipe_items_def)
  have H: "PIPE_HEAD n ?s' = PIPE_HEAD n s" "unat (PIPE_TAIL n ?s') = (?t + k) mod 4096"
    by (simp_all add: pipe_take_def Let_def next_index)
  show "pipe_ok n ?s'" using H b by (simp add: pipe_ok_def)
  have B: "pipe_bytes n ?s' = pipe_bytes n s"
    by (rule ext) (simp add: pipe_take_def pipe_bytes_def Let_def rdb_def)
  show "pipe_items n ?s' = drop k (pipe_items n s)"
    using pipe_ring.take_piece [OF b k, of "pipe_bytes n s"] unfolding pipe_items_def H B .
  show "fs_mem ?s' a = fs_mem s a" if "k \<le> unat (a - buf)" for a
    using that by (simp add: pipe_take_def Let_def bytes_to_fs_mem)
  have "get_fs_byte (buf + of_nat j) ?s' = pipe_bytes n s (?t + j)" if "j < k" for j
  proof -
    have "unat (of_nat j :: u32) = j" using that k pipe_ring.count_less [of ?h ?t] by (simp add: unat_of_nat)
    then show ?thesis using that
      by (simp add: pipe_take_def Let_def bytes_to_fs_mem get_fs_byte_def rdb_def pipe_bytes_def add_ac)
  qed
  then have "user_bytes k buf ?s' = map (\<lambda>i. pipe_bytes n s (?t + i)) [0..<k]" by (simp add: user_bytes_def)
  also have "\<dots> = take k (pipe_items n s)"
    using pipe_ring.taken_piece [OF b k assms(2), of "pipe_bytes n s"] by (simp add: pipe_items_def)
  finally show "user_bytes k buf ?s' = take k (pipe_items n s)" .
qed

section \<open>Whole transfers\<close>

lemma wake_up_pipe [simp]:
  "inode_table (wake_up q s) = inode_table s" "kmem (wake_up q s) = kmem s" "fs_mem (wake_up q s) = fs_mem s"
  by (simp_all add: wake_up_def set_state_def mod_task_def)

lemma pipe_same:
  assumes "inode_table s' = inode_table s" "kmem s' = kmem s"
  shows "pipe_ok n s' = pipe_ok n s" "pipe_items n s' = pipe_items n s"
proof -
  have "pipe_bytes n s' = pipe_bytes n s" by (rule ext) (simp add: pipe_bytes_def rdb_def assms)
  then show "pipe_ok n s' = pipe_ok n s" "pipe_items n s' = pipe_items n s"
    by (simp_all add: pipe_ok_def pipe_items_def assms)
qed

lemma pipe_wake_up [simp]: "pipe_ok n (wake_up q s) = pipe_ok n s" "pipe_items n (wake_up q s) = pipe_items n s"
  by (rule pipe_same; simp)+

lemma write_pipe_loop_appends:
  assumes "pipe_ok n s" "length (pipe_items n s) + k < 4096"
  shows "\<exists>s'. write_pipe_loop w n buf (int k) got s = Some (got + int k, s') \<and> pipe_ok n s'
     \<and> pipe_items n s' = pipe_items n s @ user_bytes k buf s \<and> fs_mem s' = fs_mem s"
  using assms
proof (induction k arbitrary: buf got s rule: less_induct)
  case (less k)
  show ?case
  proof (cases "k = 0")
    case True
    then show ?thesis using less.prems by (subst write_pipe_loop.simps) (simp add: user_bytes_def)
  next
    case False
    let ?room = "4095 - PIPE_SIZE n s"
    define j where "j = min (min (4096 - unat (PIPE_HEAD n s)) k) ?room"
    have sz: "PIPE_SIZE n s = length (pipe_items n s)" by (rule PIPE_SIZE_items [OF less.prems(1)])
    have h: "unat (PIPE_HEAD n s) < 4096" using less.prems(1) by (simp add: pipe_ok_def)
    have j: "0 < j" "j \<le> k" "j \<le> 4096 - unat (PIPE_HEAD n s)" "length (pipe_items n s) + j < 4096"
      using False h less.prems(2) sz by (auto simp: j_def)
    have wait: "write_wait w n got s = Some (Inr ?room, s)"
      using False less.prems(2) sz by (subst write_wait.simps) simp
    have chars: "min (min (int 4096 - uint (PIPE_HEAD n s)) (int k)) (int ?room) = int j"
      using h sz unfolding j_def uint_nat by linarith
    note p = pipe_put_items [OF less.prems(1) j(3,4), where buf = buf]
    have step: "write_pipe_loop w n buf (int k) got s
        = write_pipe_loop w n (buf + of_nat j) (int (k - j)) (got + int j) (pipe_put n j buf s)"
      using False wait chars j(2) by (subst write_pipe_loop.simps) (simp add: Let_def of_nat_diff)
    have "length (pipe_items n (pipe_put n j buf s)) + (k - j) < 4096"
      using p(2) j less.prems(2) by (simp add: user_bytes_def)
    with less.IH [of "k - j" "pipe_put n j buf s" "buf + of_nat j" "got + int j"] j p(1)
    obtain s' where s': "write_pipe_loop w n (buf + of_nat j) (int (k - j)) (got + int j) (pipe_put n j buf s)
        = Some (got + int j + int (k - j), s')" "pipe_ok n s'"
      "pipe_items n s' = pipe_items n (pipe_put n j buf s) @ user_bytes (k - j) (buf + of_nat j) (pipe_put n j buf s)"
      "fs_mem s' = fs_mem s"
      using p(3) False by auto
    have u: "user_bytes (k - j) (buf + of_nat j) (pipe_put n j buf s) = user_bytes (k - j) (buf + of_nat j) s"
      by (simp add: user_bytes_def get_fs_byte_def p(3))
    have "pipe_items n s' = pipe_items n s @ user_bytes k buf s"
      using s'(3) p(2) u user_bytes_append [of j "k - j" buf s] j(2) by simp
    then show ?thesis using step s' j(2) by simp
  qed
qed

lemma read_pipe_loop_takes:
  assumes "pipe_ok n s" "k \<le> length (pipe_items n s)"
  shows "\<exists>s'. read_pipe_loop w n buf (int k) got s = Some (got + int k, s') \<and> pipe_ok n s'
     \<and> pipe_items n s' = drop k (pipe_items n s) \<and> user_bytes k buf s' = take k (pipe_items n s)
     \<and> (\<forall>a. k \<le> unat (a - buf) \<longrightarrow> fs_mem s' a = fs_mem s a)"
  using assms
proof (induction k arbitrary: buf got s rule: less_induct)
  case (less k)
  show ?case
  proof (cases "k = 0")
    case True
    then show ?thesis using less.prems by (subst read_pipe_loop.simps) (simp add: user_bytes_def)
  next
    case False
    let ?n = "PIPE_SIZE n s"
    define j where "j = min (min (4096 - unat (PIPE_TAIL n s)) k) ?n"
    have sz: "?n = length (pipe_items n s)" by (rule PIPE_SIZE_items [OF less.prems(1)])
    have small: "length (pipe_items n s) < 4096" using pipe_ring.count_less by (simp add: pipe_items_def)
    have h: "unat (PIPE_TAIL n s) < 4096" using less.prems(1) by (simp add: pipe_ok_def)
    have j: "0 < j" "j \<le> k" "j \<le> 4096 - unat (PIPE_TAIL n s)" "j \<le> length (pipe_items n s)"
      using False h less.prems(2) sz by (auto simp: j_def)
    have wait: "read_wait w n got s = Some (Inr ?n, s)"
      using j(1,4) sz by (subst read_wait.simps) (cases "pipe_items n s"; simp)
    have chars: "min (min (int 4096 - uint (PIPE_TAIL n s)) (int k)) (int ?n) = int j"
      using h sz unfolding j_def uint_nat by linarith
    note p = pipe_take_items [OF less.prems(1) j(3,4), where buf = buf]
    have step: "read_pipe_loop w n buf (int k) got s
        = read_pipe_loop w n (buf + of_nat j) (int (k - j)) (got + int j) (pipe_take n j buf s)"
      using False wait chars j(2) by (subst read_pipe_loop.simps) (simp add: Let_def of_nat_diff)
    have "k - j \<le> length (pipe_items n (pipe_take n j buf s))" using p(2) j less.prems(2) by simp
    with less.IH [of "k - j" "pipe_take n j buf s" "buf + of_nat j" "got + int j"] j p(1)
    obtain s' where s': "read_pipe_loop w n (buf + of_nat j) (int (k - j)) (got + int j) (pipe_take n j buf s)
        = Some (got + int j + int (k - j), s')" "pipe_ok n s'"
      "pipe_items n s' = drop (k - j) (pipe_items n (pipe_take n j buf s))"
      "user_bytes (k - j) (buf + of_nat j) s' = take (k - j) (pipe_items n (pipe_take n j buf s))"
      "\<forall>a. k - j \<le> unat (a - (buf + of_nat j)) \<longrightarrow> fs_mem s' a = fs_mem (pipe_take n j buf s) a"
      using False by auto
    have off: "unat (of_nat i :: u32) = i" if "i \<le> k" for i
      using that less.prems(2) small by (simp add: unat_of_nat)
    have first: "user_bytes j buf s' = user_bytes j buf (pipe_take n j buf s)"
    proof -
      have "fs_mem s' (buf + of_nat i) = fs_mem (pipe_take n j buf s) (buf + of_nat i)" if "i < j" for i
      proof -
        have "unat (buf + of_nat i - (buf + of_nat j)) = unat (of_nat i - of_nat j :: u32)" by simp
        also have "\<dots> = i + 2 ^ 32 - j" using off [of i] off [of j] that j(2) by (simp add: unat_sub_if')
        finally show ?thesis using s'(5) that less.prems(2) small j by simp
      qed
      then show ?thesis by (simp add: user_bytes_def get_fs_byte_def)
    qed
    have all: "user_bytes k buf s' = take k (pipe_items n s)"
      using user_bytes_append [of j "k - j" buf s'] first p(2,3) s'(4) j(2) by (simp flip: take_add)
    have rest: "fs_mem s' a = fs_mem s a" if "k \<le> unat (a - buf)" for a
    proof -
      have "unat (a - buf - of_nat j) = unat (a - buf) - j" using that off [of j] j(2) by (simp add: unat_sub_if')
      then have "k - j \<le> unat (a - (buf + of_nat j))" using that by (simp add: diff_diff_eq)
      then show ?thesis using s'(5) p(4) that j(2) by simp
    qed
    show ?thesis using step s' all rest j(2) p(2) by simp
  qed
qed

text \<open>
  C8. A pipe passes bytes on in order: a \<^verbatim>\<open>write_pipe\<close> of \<open>k\<close> bytes for which there is room returns \<open>k\<close> at
  once and appends the bytes of the user's buffer to the bytes in the pipe; a \<^verbatim>\<open>read_pipe\<close> of at most the
  bytes that there are then returns its count at once, puts the first bytes of the pipe into the
  user's buffer in order, changes no other byte of the user's memory, and leaves the other bytes in the pipe.
\<close>

theorem pipe_first_in_first_out:
  assumes "pipe_ok n s" "length (pipe_items n s) + k < PAGE_SIZE" "r \<le> length (pipe_items n s) + k"
  shows "\<exists>s1 s2. write_pipe w n buf (int k) s = Some (int k, s1) \<and> read_pipe w n out (int r) s1 = Some (int r, s2)
     \<and> user_bytes r out s2 = take r (pipe_items n s @ user_bytes k buf s)
     \<and> pipe_items n s2 = drop r (pipe_items n s @ user_bytes k buf s)
     \<and> (\<forall>a. r \<le> unat (a - out) \<longrightarrow> fs_mem s2 a = fs_mem s a) \<and> pipe_ok n s2"
proof -
  obtain s1 where s1: "write_pipe w n buf (int k) s = Some (int k, s1)" "pipe_ok n s1"
    "pipe_items n s1 = pipe_items n s @ user_bytes k buf s" "fs_mem s1 = fs_mem s"
    using write_pipe_loop_appends [OF assms(1,2), where w = w and buf = buf and got = 0] by (auto simp: write_pipe_def)
  moreover have "r \<le> length (pipe_items n s1)" using assms(3) s1(3) by (simp add: user_bytes_def)
  ultimately show ?thesis
    using read_pipe_loop_takes [where w = w and buf = out and got = 0 and n = n and s = s1 and k = r]
    by (auto simp: read_pipe_def)
qed

text \<open>An empty pipe whose next write wraps around.\<close>

definition wrapping_pipe :: cache where
  "wrapping_pipe = blank_cache\<lparr>inode_table := (\<lambda>_. blank_inode\<lparr>i_zone := (\<lambda>_. 4094), i_size := 0x200000\<rparr>),
     fs_mem := (\<lambda>a. ucast a)\<rparr>"

theorem pipe_first_in_first_out_witness:
  "\<exists>s1 s2. write_pipe quiet 0 0x40 3 wrapping_pipe = Some (3, s1) \<and> read_pipe quiet 0 0x80 2 s1 = Some (2, s2)
     \<and> user_bytes 2 0x80 s2 = [0x40, 0x41] \<and> pipe_items 0 s2 = [0x42]"
proof -
  have "pipe_ok 0 wrapping_pipe" "pipe_items 0 wrapping_pipe = []"
    by (simp_all add: pipe_ok_def pipe_items_def ring_items_def ring_count_def wrapping_pipe_def)
  moreover have "user_bytes 3 0x40 wrapping_pipe = [0x40, 0x41, 0x42]"
    by (simp add: user_bytes_def wrapping_pipe_def get_fs_byte_def upt_rec)
  ultimately show ?thesis
    using pipe_first_in_first_out [of 0 wrapping_pipe 3 2 quiet "0x40" "0x80"] by auto
qed

end
