(* ===== verification/Namei.thy ===== *)
theory Namei
  imports Inode
begin

text \<open>
  \<^verbatim>\<open>fs/namei.c\<close>: from path names to inodes, and the system calls that change directories.

  A path name is read through the segment register \<^verbatim>\<open>fs\<close>, which is an argument here: 0x17 is the
  user segment of a system call, 0x10 the kernel's data segment, which \<^verbatim>\<open>follow_link\<close> selects to
  read the target of a symbolic link out of a buffer. \<^verbatim>\<open>follow_link\<close> and \<^verbatim>\<open>_namei\<close> call each other;
  since \<^verbatim>\<open>follow_link\<close> only resolves a link when \<^verbatim>\<open>fs\<close> is 0x17, the recursion is at most one level
  deep: \<open>inner\<close> stands for the \<^verbatim>\<open>_namei\<close> that \<^verbatim>\<open>follow_link\<close> calls, and \<open>namei_kernel\<close>, its value,
  never calls its own.

  A directory entry \<open>de\<close> is the address of a 16-byte \<^verbatim>\<open>struct dir_entry\<close>; a routine that returns a
  buffer and an entry through \<^verbatim>\<open>res_dir\<close> returns both. \<^verbatim>\<open>iget\<close> never returns NULL here (it panics
  without a free inode), so the branches for that have no counterpart.
\<close>

section \<open>Constants\<close>

abbreviation (input) NAME_LEN :: nat where "NAME_LEN \<equiv> 14"
abbreviation (input) DIR_ENTRIES_PER_BLOCK :: nat where "DIR_ENTRIES_PER_BLOCK \<equiv> 64"
abbreviation (input) MAY_EXEC :: u16 where "MAY_EXEC \<equiv> 1"
abbreviation (input) MAY_WRITE :: u16 where "MAY_WRITE \<equiv> 2"
abbreviation (input) MAY_READ :: u16 where "MAY_READ \<equiv> 4"
abbreviation (input) I_DIRECTORY :: u16 where "I_DIRECTORY \<equiv> 0x4000"
abbreviation (input) I_REGULAR :: u16 where "I_REGULAR \<equiv> 0x8000"
abbreviation (input) S_IFLNK :: u16 where "S_IFLNK \<equiv> 0xA000"
abbreviation (input) S_ISVTX :: u16 where "S_ISVTX \<equiv> 0x200"
abbreviation (input) O_ACCMODE :: u32 where "O_ACCMODE \<equiv> 3"
abbreviation (input) O_WRONLY :: u32 where "O_WRONLY \<equiv> 1"
abbreviation (input) O_CREAT :: u32 where "O_CREAT \<equiv> 0x40"
abbreviation (input) O_EXCL :: u32 where "O_EXCL \<equiv> 0x80"
abbreviation (input) O_NOCTTY :: u32 where "O_NOCTTY \<equiv> 0x100"
abbreviation (input) O_TRUNC :: u32 where "O_TRUNC \<equiv> 0x200"
abbreviation (input) O_APPEND :: u32 where "O_APPEND \<equiv> 0x400"
abbreviation (input) O_NONBLOCK :: u32 where "O_NONBLOCK \<equiv> 0x800"

abbreviation (input) ENOTBLK :: int where "ENOTBLK \<equiv> 15"
abbreviation (input) EBUSY :: int where "EBUSY \<equiv> 16"
abbreviation (input) EEXIST :: int where "EEXIST \<equiv> 17"
abbreviation (input) EXDEV :: int where "EXDEV \<equiv> 18"
abbreviation (input) ENOTDIR :: int where "ENOTDIR \<equiv> 20"
abbreviation (input) EISDIR :: int where "EISDIR \<equiv> 21"
abbreviation (input) ENOSPC :: int where "ENOSPC \<equiv> 28"
abbreviation (input) ENOSYS :: int where "ENOSYS \<equiv> 38"
abbreviation (input) ENOTEMPTY :: int where "ENOTEMPTY \<equiv> 39"

abbreviation (input) USER_FS :: u16 where "USER_FS \<equiv> 0x17"
abbreviation (input) KERNEL_FS :: u16 where "KERNEL_FS \<equiv> 0x10"

section \<open>Permissions and names\<close>

definition ACC_MODE :: "u32 \<Rightarrow> 'a files_scheme \<Rightarrow> u8" where
  "ACC_MODE x s = ACC_MODE_INFO s (unat (x AND O_ACCMODE))"

definition permission :: "nat \<Rightarrow> u16 \<Rightarrow> 'a files_scheme \<Rightarrow> bool" where
  "permission inode may s \<longleftrightarrow>
     (let i = inode_table s inode in
      if i_dev i \<noteq> 0 \<and> i_nlinks i = 0 then False
      else let mode = (if t_euid (cur s) = i_uid i then drop_bit 6 (i_mode i)
                       else if in_group_p (uint (i_gid i)) s then drop_bit 3 (i_mode i)
                       else i_mode i)
           in mode AND may AND 7 = may \<or> suser s)"

text \<open>\<^verbatim>\<open>get_fs_byte\<close> with the segment in \<^verbatim>\<open>fs\<close>.\<close>

definition name_byte :: "u16 \<Rightarrow> u32 \<Rightarrow> 'a sched_scheme \<Rightarrow> u8" where
  "name_byte fs addr s = (if fs = KERNEL_FS then kmem s addr else get_fs_byte addr s)"

text \<open>\<^verbatim>\<open>fs ; repe ; cmpsb\<close> on \<open>n\<close> bytes. With \<open>n = 0\<close> the zero flag is that of the test before it,
  which found the first byte of the entry to be zero.\<close>

fun repe_cmpsb :: "u16 \<Rightarrow> nat \<Rightarrow> u32 \<Rightarrow> u32 \<Rightarrow> 'a sched_scheme \<Rightarrow> bool" where
  "repe_cmpsb fs 0 si di s = True"
| "repe_cmpsb fs (Suc n) si di s =
     (if name_byte fs si s = rdb di s then repe_cmpsb fs n (si + 1) (di + 1) s else False)"

definition match :: "u16 \<Rightarrow> nat \<Rightarrow> u32 \<Rightarrow> u32 \<Rightarrow> 'a sched_scheme \<Rightarrow> bool" where
  "match fs len name de s \<longleftrightarrow>
     (if de = 0 \<or> rdw de s = 0 \<or> len > NAME_LEN then False
      else if len = 0 \<and> rdb (de + 2) s = 0x2E \<and> rdb (de + 3) s = 0 then True
      else if len < NAME_LEN \<and> rdb (de + 2 + of_nat len) s \<noteq> 0 then False
      else repe_cmpsb fs len name (de + 2) s)"

section \<open>Searching a directory\<close>

definition inc_count :: "nat \<Rightarrow> 'a files_scheme \<Rightarrow> 'a files_scheme" where
  "inc_count n = mod_inode n (\<lambda>x. x\<lparr>i_count := i_count x + 1\<rparr>)"

text \<open>\<^verbatim>\<open>BLOCK_SIZE+bh->b_data\<close>; with \<^verbatim>\<open>bh\<close> NULL the field is read at address 0.\<close>

definition buf_end :: "nat option \<Rightarrow> 'a blk_scheme \<Rightarrow> u32" where
  "buf_end bh s = 1024 + (case bh of None \<Rightarrow> rd 0 s | Some b \<Rightarrow> data_of b s)"

partial_function (option) find_entry_loop ::
  "'a fs_scheme world \<Rightarrow> u16 \<Rightarrow> nat \<Rightarrow> u32 \<Rightarrow> nat \<Rightarrow> nat \<Rightarrow> nat option \<Rightarrow> u32 \<Rightarrow> nat \<Rightarrow> 'a fs_scheme
     \<Rightarrow> ((nat option \<times> u32) \<times> 'a fs_scheme) option" where
  "find_entry_loop w fs dir name namelen entries bh de i s =
     (if \<not> i < entries then do { s \<leftarrow> brelse w bh s; Some ((None, 0), s) }
      else if de \<ge> buf_end bh s
      then do {
        s \<leftarrow> brelse w bh s;
        (block, s) \<leftarrow> bmap w dir (int (i div DIR_ENTRIES_PER_BLOCK)) s;
        (b, s) \<leftarrow> (if block = 0 then Some (None, s) else bread w (idev dir s) block s);
        case b of
          None \<Rightarrow> find_entry_loop w fs dir name namelen entries None de (i + DIR_ENTRIES_PER_BLOCK) s
        | Some bh \<Rightarrow>
            if match fs namelen name (data_of bh s) s then Some ((Some bh, data_of bh s), s)
            else find_entry_loop w fs dir name namelen entries (Some bh) (data_of bh s + 16) (i + 1) s
      }
      else if match fs namelen name de s then Some ((bh, de), s)
      else find_entry_loop w fs dir name namelen entries bh (de + 16) (i + 1) s)"

text \<open>The special cases of \<^verbatim>\<open>..\<close>: in the root of the process it means \<^verbatim>\<open>.\<close>, in the root of a mounted
  device the search goes on in the directory it is mounted on. The new name length and directory.\<close>

definition dotdot :: "'a fs_scheme world \<Rightarrow> u16 \<Rightarrow> nat \<Rightarrow> u32 \<Rightarrow> nat \<Rightarrow> 'a fs_scheme
    \<Rightarrow> (nat \<times> nat \<times> 'a fs_scheme) option" where
  "dotdot w fs dir name namelen s =
     (if namelen = 2 \<and> name_byte fs name s = 0x2E \<and> name_byte fs (name + 1) s = 0x2E
      then if t_root (cur s) = Some dir then Some (1, dir, s)
        else if i_num (inode_table s dir) = ROOT_INO
        then do {
          (r, s) \<leftarrow> get_super w (idev dir s) s;
          sb \<leftarrow> r;
          if s_imount (super_blocks s sb) = None then Some (namelen, dir, s)
          else do {
            s \<leftarrow> iput w (Some dir) s;
            d \<leftarrow> s_imount (super_blocks s sb);
            Some (namelen, d, inc_count d s)
          }
        }
        else Some (namelen, dir, s)
      else Some (namelen, dir, s))"

text \<open>The buffer and the entry (the buffer is NULL when there is none), and the directory.\<close>

definition find_entry :: "'a fs_scheme world \<Rightarrow> u16 \<Rightarrow> nat \<Rightarrow> u32 \<Rightarrow> nat \<Rightarrow> 'a fs_scheme
    \<Rightarrow> ((nat option \<times> u32) \<times> nat \<times> 'a fs_scheme) option" where
  "find_entry w fs dir name namelen0 s = do {
     let namelen = min namelen0 NAME_LEN;
     let entries = unat (i_size (inode_table s dir)) div 16;
     (namelen, dir, s) \<leftarrow> dotdot w fs dir name namelen s;
     if zone dir 0 s = 0 then Some ((None, 0), dir, s)
     else do {
       (b, s) \<leftarrow> bread w (idev dir s) (ucast (zone dir 0 s)) s;
       case b of None \<Rightarrow> Some ((None, 0), dir, s)
       | Some bh \<Rightarrow> do {
           (r, s) \<leftarrow> find_entry_loop w fs dir name namelen entries (Some bh) (data_of bh s) 0 s;
           Some (r, dir, s)
         }
     }
   }"

section \<open>Adding an entry\<close>

text \<open>The end of the loop body of \<^verbatim>\<open>add_entry\<close>: a new entry at the end of the directory is made
  free, and a free entry gets the name.\<close>

definition set_name :: "u16 \<Rightarrow> u32 \<Rightarrow> nat \<Rightarrow> u32 \<Rightarrow> 'a sched_scheme \<Rightarrow> 'a sched_scheme" where
  "set_name fs name namelen de s0 =
     fold (\<lambda>j s. wrb (de + 2 + of_nat j) (if j < namelen then name_byte fs (name + of_nat j) s else 0) s)
       [0..<NAME_LEN] s0"

definition use_entry :: "u16 \<Rightarrow> nat \<Rightarrow> u32 \<Rightarrow> nat \<Rightarrow> nat option \<Rightarrow> u32 \<Rightarrow> nat \<Rightarrow> 'a fs_scheme
    \<Rightarrow> (bool \<times> 'a fs_scheme) option" where
  "use_entry fs dir name namelen bh de i s = do {
     let s = (if of_nat i * 16 \<ge> i_size (inode_table s dir)
              then mod_inode dir (\<lambda>x. x\<lparr>i_size := of_nat (i + 1) * 16, i_dirt := 1, i_ctime := CURRENT_TIME s\<rparr>)
                     (wrw de 0 s)
              else s);
     if rdw de s \<noteq> 0 then Some (False, s)
     else do {
       let s = mod_inode dir (\<lambda>x. x\<lparr>i_mtime := CURRENT_TIME s\<rparr>) s;
       b \<leftarrow> bh;
       Some (True, mod_buf b (\<lambda>x. x\<lparr>b_dirt := 1\<rparr>) (set_name fs name namelen de s))
     }
   }"

partial_function (option) add_entry_loop ::
  "'a fs_scheme world \<Rightarrow> u16 \<Rightarrow> nat \<Rightarrow> u32 \<Rightarrow> nat \<Rightarrow> nat option \<Rightarrow> u32 \<Rightarrow> nat \<Rightarrow> 'a fs_scheme
     \<Rightarrow> ((nat option \<times> u32) \<times> 'a fs_scheme) option" where
  "add_entry_loop w fs dir name namelen bh de i s =
     (if de \<ge> buf_end bh s
      then do {
        s \<leftarrow> brelse w bh s;
        (block, s) \<leftarrow> create_block w dir (int (i div DIR_ENTRIES_PER_BLOCK)) s;
        if block = 0 then Some ((None, 0), s)
        else do {
          (b, s) \<leftarrow> bread w (idev dir s) block s;
          case b of
            None \<Rightarrow> add_entry_loop w fs dir name namelen None de (i + DIR_ENTRIES_PER_BLOCK) s
          | Some bh \<Rightarrow> do {
              let de = data_of bh s;
              (found, s) \<leftarrow> use_entry fs dir name namelen (Some bh) de i s;
              if found then Some ((Some bh, de), s)
              else add_entry_loop w fs dir name namelen (Some bh) (de + 16) (i + 1) s
            }
        }
      }
      else do {
        (found, s) \<leftarrow> use_entry fs dir name namelen bh de i s;
        if found then Some ((bh, de), s)
        else add_entry_loop w fs dir name namelen bh (de + 16) (i + 1) s
      })"

definition add_entry :: "'a fs_scheme world \<Rightarrow> u16 \<Rightarrow> nat \<Rightarrow> u32 \<Rightarrow> nat \<Rightarrow> 'a fs_scheme
    \<Rightarrow> ((nat option \<times> u32) \<times> 'a fs_scheme) option" where
  "add_entry w fs dir name namelen0 s = do {
     let namelen = min namelen0 NAME_LEN;
     if namelen = 0 \<or> zone dir 0 s = 0 then Some ((None, 0), s)
     else do {
       (b, s) \<leftarrow> bread w (idev dir s) (ucast (zone dir 0 s)) s;
       case b of None \<Rightarrow> Some ((None, 0), s)
       | Some bh \<Rightarrow> add_entry_loop w fs dir name namelen (Some bh) (data_of bh s) 0 s
     }
   }"

section \<open>Following a path\<close>

definition follow_link ::
  "(u32 \<Rightarrow> nat \<Rightarrow> 'a fs_scheme \<Rightarrow> (nat option \<times> 'a fs_scheme) option) \<Rightarrow> 'a fs_scheme world \<Rightarrow> u16
     \<Rightarrow> nat option \<Rightarrow> nat option \<Rightarrow> 'a fs_scheme \<Rightarrow> (nat option \<times> 'a fs_scheme) option" where
  "follow_link inner w fs dir inode s = do {
     (dir, s) \<leftarrow> (case dir of Some d \<Rightarrow> Some (d, s)
                | None \<Rightarrow> do { r \<leftarrow> t_root (cur s); Some (r, inc_count r s) });
     case inode of None \<Rightarrow> do { s \<leftarrow> iput w (Some dir) s; Some (None, s) }
     | Some n \<Rightarrow>
         if \<not> S_ISLNK (i_mode (inode_table s n)) then do { s \<leftarrow> iput w (Some dir) s; Some (Some n, s) }
         else do {
           (b, s) \<leftarrow> (if fs \<noteq> USER_FS \<or> zone n 0 s = 0 then Some (None, s)
                     else bread w (idev n s) (ucast (zone n 0 s)) s);
           case b of
             None \<Rightarrow> do { s \<leftarrow> iput w (Some dir) s; s \<leftarrow> iput w (Some n) s; Some (None, s) }
           | Some bh \<Rightarrow> do {
               s \<leftarrow> iput w (Some n) s;
               (r, s) \<leftarrow> inner (data_of bh s) dir s;
               s \<leftarrow> brelse w (Some bh) s;
               Some (r, s)
             }
         }
   }"

text \<open>The scan of one component: the byte that ended it, its length and the address behind.\<close>

partial_function (option) name_scan :: "u16 \<Rightarrow> u32 \<Rightarrow> nat \<Rightarrow> 'a sched_scheme \<Rightarrow> (u8 \<times> nat \<times> u32) option" where
  "name_scan fs p n s =
     (let c = name_byte fs p s in
      if c \<noteq> 0 \<and> c \<noteq> 0x2F then name_scan fs (p + 1) (n + 1) s else Some (c, n, p + 1))"

partial_function (option) get_dir_loop ::
  "(u32 \<Rightarrow> nat \<Rightarrow> 'a fs_scheme \<Rightarrow> (nat option \<times> 'a fs_scheme) option) \<Rightarrow> 'a fs_scheme world \<Rightarrow> u16
     \<Rightarrow> u32 \<Rightarrow> nat \<Rightarrow> 'a fs_scheme \<Rightarrow> (nat option \<times> 'a fs_scheme) option" where
  "get_dir_loop inner w fs pathname inode s =
     (if \<not> S_ISDIR (i_mode (inode_table s inode)) \<or> \<not> permission inode MAY_EXEC s
      then do { s \<leftarrow> iput w (Some inode) s; Some (None, s) }
      else do {
        (c, namelen, p) \<leftarrow> name_scan fs pathname 0 s;
        if c = 0 then Some (Some inode, s)
        else do {
          (e, inode, s) \<leftarrow> find_entry w fs inode pathname namelen s;
          if fst e = None then do { s \<leftarrow> iput w (Some inode) s; Some (None, s) }
          else do {
            let inr = ucast (rdw (snd e) s);
            s \<leftarrow> brelse w (fst e) s;
            (n, s) \<leftarrow> iget w (idev inode s) inr s;
            (r, s) \<leftarrow> follow_link inner w fs (Some inode) (Some n) s;
            case r of None \<Rightarrow> Some (None, s) | Some n \<Rightarrow> get_dir_loop inner w fs p n s
          }
        }
      })"

definition get_dir ::
  "(u32 \<Rightarrow> nat \<Rightarrow> 'a fs_scheme \<Rightarrow> (nat option \<times> 'a fs_scheme) option) \<Rightarrow> 'a fs_scheme world \<Rightarrow> u16
     \<Rightarrow> u32 \<Rightarrow> nat option \<Rightarrow> 'a fs_scheme \<Rightarrow> (nat option \<times> 'a fs_scheme) option" where
  "get_dir inner w fs pathname inode s = do {
     (n, s) \<leftarrow> (case inode of Some n \<Rightarrow> Some (n, s)
              | None \<Rightarrow> do { p \<leftarrow> t_pwd (cur s); Some (p, inc_count p s) });
     if name_byte fs pathname s = 0x2F
     then do {
       s \<leftarrow> iput w (Some n) s;
       r \<leftarrow> t_root (cur s);
       get_dir_loop inner w fs (pathname + 1) r (inc_count r s)
     }
     else get_dir_loop inner w fs pathname n s
   }"

text \<open>The last component: \<open>base\<close> is the address behind the last slash so far.\<close>

partial_function (option) base_scan :: "u16 \<Rightarrow> u32 \<Rightarrow> u32 \<Rightarrow> 'a sched_scheme \<Rightarrow> (u32 \<times> u32) option" where
  "base_scan fs p base s =
     (let c = name_byte fs p s in
      if c = 0 then Some (base, p + 1)
      else base_scan fs (p + 1) (if c = 0x2F then p + 1 else base) s)"

text \<open>The directory, the name within it and the length of the name.\<close>

definition dir_namei_with ::
  "(u32 \<Rightarrow> nat \<Rightarrow> 'a fs_scheme \<Rightarrow> (nat option \<times> 'a fs_scheme) option) \<Rightarrow> 'a fs_scheme world \<Rightarrow> u16
     \<Rightarrow> u32 \<Rightarrow> nat option \<Rightarrow> 'a fs_scheme \<Rightarrow> ((nat \<times> u32 \<times> nat) option \<times> 'a fs_scheme) option" where
  "dir_namei_with inner w fs pathname base s = do {
     (r, s) \<leftarrow> get_dir inner w fs pathname base s;
     case r of None \<Rightarrow> Some (None, s)
     | Some dir \<Rightarrow> do {
         (basename, p) \<leftarrow> base_scan fs pathname pathname s;
         Some (Some (dir, basename, unat (p - basename - 1)), s)
       }
   }"

definition namei_with ::
  "(u32 \<Rightarrow> nat \<Rightarrow> 'a fs_scheme \<Rightarrow> (nat option \<times> 'a fs_scheme) option) \<Rightarrow> 'a fs_scheme world \<Rightarrow> u16
     \<Rightarrow> u32 \<Rightarrow> nat option \<Rightarrow> bool \<Rightarrow> 'a fs_scheme \<Rightarrow> (nat option \<times> 'a fs_scheme) option" where
  "namei_with inner w fs pathname base follow_links s = do {
     (d, s) \<leftarrow> dir_namei_with inner w fs pathname base s;
     case d of None \<Rightarrow> Some (None, s)
     | Some (dir, basename, namelen) \<Rightarrow>
         if namelen = 0 then Some (Some dir, s)
         else do {
           (e, dir, s) \<leftarrow> find_entry w fs dir basename namelen s;
           if fst e = None then do { s \<leftarrow> iput w (Some dir) s; Some (None, s) }
           else do {
             let inr = ucast (rdw (snd e) s);
             s \<leftarrow> brelse w (fst e) s;
             (n, s) \<leftarrow> iget w (idev dir s) inr s;
             (r, s) \<leftarrow> (if follow_links then follow_link inner w fs (Some dir) (Some n) s
                       else do { s \<leftarrow> iput w (Some dir) s; Some (Some n, s) });
             n \<leftarrow> r;
             Some (Some n, mod_inode n (\<lambda>x. x\<lparr>i_atime := CURRENT_TIME s, i_dirt := 1\<rparr>) s)
           }
         }
   }"

text \<open>\<^verbatim>\<open>_namei\<close> as \<^verbatim>\<open>follow_link\<close> calls it, and as the system calls do.\<close>

definition namei_kernel :: "'a fs_scheme world \<Rightarrow> u32 \<Rightarrow> nat \<Rightarrow> 'a fs_scheme \<Rightarrow> (nat option \<times> 'a fs_scheme) option" where
  "namei_kernel w p dir s = namei_with (\<lambda>_ _ _. None) w KERNEL_FS p (Some dir) False s"

definition dir_namei :: "'a fs_scheme world \<Rightarrow> u32 \<Rightarrow> 'a fs_scheme \<Rightarrow> ((nat \<times> u32 \<times> nat) option \<times> 'a fs_scheme) option" where
  "dir_namei w pathname s = dir_namei_with (namei_kernel w) w USER_FS pathname None s"

definition lnamei :: "'a fs_scheme world \<Rightarrow> u32 \<Rightarrow> 'a fs_scheme \<Rightarrow> (nat option \<times> 'a fs_scheme) option" where
  "lnamei w pathname s = namei_with (namei_kernel w) w USER_FS pathname None False s"

definition namei :: "'a fs_scheme world \<Rightarrow> u32 \<Rightarrow> 'a fs_scheme \<Rightarrow> (nat option \<times> 'a fs_scheme) option" where
  "namei w pathname s = namei_with (namei_kernel w) w USER_FS pathname None True s"

end
