(* ===== verification/Directories.thy ===== *)
theory Directories
  imports Namei
begin

text \<open>
  The rest of \<^verbatim>\<open>fs/namei.c\<close>: \<^verbatim>\<open>open_namei\<close> and the system calls that make and remove directory
  entries; \<^verbatim>\<open>sys_mount\<close> and \<^verbatim>\<open>sys_umount\<close> of \<^verbatim>\<open>fs/super.c\<close>. Path names come from user space.
\<close>

section \<open>Giving up\<close>

text \<open>The ends of the error branches: release the inodes in order (then a buffer) and return the
  error.\<close>

fun iputs :: "'a fs_scheme world \<Rightarrow> nat list \<Rightarrow> 'a fs_scheme \<Rightarrow> 'a fs_scheme option" where
  "iputs w [] s = Some s"
| "iputs w (n # ns) s = do { s \<leftarrow> iput w (Some n) s; iputs w ns s }"

definition fail :: "'a fs_scheme world \<Rightarrow> nat list \<Rightarrow> int \<Rightarrow> 'a fs_scheme \<Rightarrow> (int \<times> 'a fs_scheme) option" where
  "fail w ns e s = do { s \<leftarrow> iputs w ns s; Some (- e, s) }"

definition fail_release ::
  "'a fs_scheme world \<Rightarrow> nat list \<Rightarrow> nat option \<Rightarrow> int \<Rightarrow> 'a fs_scheme \<Rightarrow> (int \<times> 'a fs_scheme) option" where
  "fail_release w ns bh e s = do { s \<leftarrow> iputs w ns s; s \<leftarrow> brelse w bh s; Some (- e, s) }"

text \<open>The small updates of an inode and of a buffer.\<close>

abbreviation (input) dec_links :: "nat \<Rightarrow> 'a files_scheme \<Rightarrow> 'a files_scheme" where
  "dec_links n \<equiv> mod_inode n (\<lambda>x. x\<lparr>i_nlinks := i_nlinks x - 1\<rparr>)"

abbreviation (input) set_links :: "u8 \<Rightarrow> nat \<Rightarrow> 'a files_scheme \<Rightarrow> 'a files_scheme" where
  "set_links k n \<equiv> mod_inode n (\<lambda>x. x\<lparr>i_nlinks := k\<rparr>)"

text \<open>\<^verbatim>\<open>de->inode = nr; bh->b_dirt = 1\<close>.\<close>

definition put_entry :: "nat option \<Rightarrow> u32 \<Rightarrow> u16 \<Rightarrow> 'a fs_scheme \<Rightarrow> 'a fs_scheme option" where
  "put_entry bh de nr s = do { b \<leftarrow> bh; Some (mod_buf b (\<lambda>x. x\<lparr>b_dirt := 1\<rparr>) (wrw de nr s)) }"

text \<open>\<^verbatim>\<open>mode & 0777 & ~current->umask\<close>.\<close>

definition masked_mode :: "u16 \<Rightarrow> 'a sched_scheme \<Rightarrow> u16" where
  "masked_mode mode s = mode AND 0x1FF AND NOT (t_umask (cur s))"

section \<open>Opening\<close>

definition open_namei ::
  "'a fs_scheme world \<Rightarrow> u32 \<Rightarrow> u32 \<Rightarrow> u16 \<Rightarrow> 'a fs_scheme \<Rightarrow> ((int \<times> nat option) \<times> 'a fs_scheme) option" where
  "open_namei w pathname flag0 mode0 s = do {
     let flag = (if flag0 AND O_TRUNC \<noteq> 0 \<and> flag0 AND O_ACCMODE = 0 then flag0 OR O_WRONLY else flag0);
     let mode = masked_mode mode0 s OR I_REGULAR;
     (d, s) \<leftarrow> dir_namei w pathname s;
     case d of None \<Rightarrow> Some ((- ENOENT, None), s)
     | Some (dir, basename, namelen) \<Rightarrow>
         if namelen = 0
         then if flag AND (O_ACCMODE OR O_CREAT OR O_TRUNC) = 0 then Some ((0, Some dir), s)
              else do { (e, s) \<leftarrow> fail w [dir] EISDIR s; Some ((e, None), s) }
         else do {
           (r, dir, s) \<leftarrow> find_entry w USER_FS dir basename namelen s;
           if fst r = None
           then if flag AND O_CREAT = 0 then do { (e, s) \<leftarrow> fail w [dir] ENOENT s; Some ((e, None), s) }
             else if \<not> permission dir MAY_WRITE s
             then do { (e, s) \<leftarrow> fail w [dir] EACCES s; Some ((e, None), s) }
             else do {
               (i, s) \<leftarrow> new_inode w (idev dir s) s;
               case i of None \<Rightarrow> do { (e, s) \<leftarrow> fail w [dir] ENOSPC s; Some ((e, None), s) }
               | Some n \<Rightarrow> do {
                   let s = mod_inode n (\<lambda>x. x\<lparr>i_uid := t_euid (cur s), i_mode := mode, i_dirt := 1\<rparr>) s;
                   ((bh, de), s) \<leftarrow> add_entry w USER_FS dir basename namelen s;
                   if bh = None
                   then do { (e, s) \<leftarrow> fail w [n, dir] ENOSPC (dec_links n s); Some ((e, None), s) }
                   else do {
                     s \<leftarrow> put_entry bh de (i_num (inode_table s n)) s;
                     s \<leftarrow> brelse w bh s;
                     s \<leftarrow> iput w (Some dir) s;
                     Some ((0, Some n), s)
                   }
                 }
             }
           else do {
             let inr = ucast (rdw (snd r) s);
             let dev = idev dir s;
             s \<leftarrow> brelse w (fst r) s;
             if flag AND O_EXCL \<noteq> 0 then do { (e, s) \<leftarrow> fail w [dir] EEXIST s; Some ((e, None), s) }
             else do {
               (n, s) \<leftarrow> iget w dev inr s;
               (i, s) \<leftarrow> follow_link (namei_kernel w) w USER_FS (Some dir) (Some n) s;
               case i of None \<Rightarrow> Some ((- EACCES, None), s)
               | Some n \<Rightarrow>
                   if S_ISDIR (i_mode (inode_table s n)) \<and> flag AND O_ACCMODE \<noteq> 0
                      \<or> \<not> permission n (ucast (ACC_MODE flag s)) s
                   then do { (e, s) \<leftarrow> fail w [n] EPERM s; Some ((e, None), s) }
                   else do {
                     let s = mod_inode n (\<lambda>x. x\<lparr>i_atime := CURRENT_TIME s\<rparr>) s;
                     s \<leftarrow> (if flag AND O_TRUNC \<noteq> 0 then truncate w n s else Some s);
                     Some ((0, Some n), s)
                   }
             }
           }
         }
   }"

section \<open>Making nodes\<close>

definition sys_mknod :: "'a fs_scheme world \<Rightarrow> u32 \<Rightarrow> u32 \<Rightarrow> u32 \<Rightarrow> 'a fs_scheme \<Rightarrow> (int \<times> 'a fs_scheme) option" where
  "sys_mknod w filename mode dev s =
     (if \<not> suser s then Some (- EPERM, s)
      else do {
        (d, s) \<leftarrow> dir_namei w filename s;
        case d of None \<Rightarrow> Some (- ENOENT, s)
        | Some (dir, basename, namelen) \<Rightarrow>
            if namelen = 0 then fail w [dir] ENOENT s
            else if \<not> permission dir MAY_WRITE s then fail w [dir] EPERM s
            else do {
              (r, dir, s) \<leftarrow> find_entry w USER_FS dir basename namelen s;
              if fst r \<noteq> None then do { s \<leftarrow> brelse w (fst r) s; fail w [dir] EEXIST s }
              else do {
                (i, s) \<leftarrow> new_inode w (idev dir s) s;
                case i of None \<Rightarrow> fail w [dir] ENOSPC s
                | Some n \<Rightarrow> do {
                    let s = mod_inode n (\<lambda>x. x\<lparr>i_mode := ucast mode\<rparr>) s;
                    let s = (if mode AND 0xF000 = 0x6000 \<or> mode AND 0xF000 = 0x2000
                             then set_zone n 0 (ucast dev) s else s);
                    let s = mod_inode n (\<lambda>x. x\<lparr>i_atime := CURRENT_TIME s, i_mtime := CURRENT_TIME s,
                              i_dirt := 1\<rparr>) s;
                    ((bh, de), s) \<leftarrow> add_entry w USER_FS dir basename namelen s;
                    if bh = None
                    then do { s \<leftarrow> iput w (Some dir) s; fail w [n] ENOSPC (set_links 0 n s) }
                    else do {
                      s \<leftarrow> put_entry bh de (i_num (inode_table s n)) s;
                      s \<leftarrow> iputs w [dir, n] s;
                      s \<leftarrow> brelse w bh s;
                      Some (0, s)
                    }
                  }
              }
            }
      })"

text \<open>The first block of a new directory: the entries \<^verbatim>\<open>.\<close> and \<^verbatim>\<open>..\<close>.\<close>

definition init_directory :: "u32 \<Rightarrow> u16 \<Rightarrow> u16 \<Rightarrow> 'a sched_scheme \<Rightarrow> 'a sched_scheme" where
  "init_directory de nr parent s =
     wrb (de + 20) 0 (wrb (de + 19) 0x2E (wrb (de + 18) 0x2E (wrw (de + 16) parent
       (wrb (de + 3) 0 (wrb (de + 2) 0x2E (wrw de nr s))))))"

definition sys_mkdir :: "'a fs_scheme world \<Rightarrow> u32 \<Rightarrow> u16 \<Rightarrow> 'a fs_scheme \<Rightarrow> (int \<times> 'a fs_scheme) option" where
  "sys_mkdir w pathname mode s = do {
     (d, s) \<leftarrow> dir_namei w pathname s;
     case d of None \<Rightarrow> Some (- ENOENT, s)
     | Some (dir, basename, namelen) \<Rightarrow>
         if namelen = 0 then fail w [dir] ENOENT s
         else if \<not> permission dir MAY_WRITE s then fail w [dir] EPERM s
         else do {
           (r, dir, s) \<leftarrow> find_entry w USER_FS dir basename namelen s;
           if fst r \<noteq> None then do { s \<leftarrow> brelse w (fst r) s; fail w [dir] EEXIST s }
           else do {
             (i, s) \<leftarrow> new_inode w (idev dir s) s;
             case i of None \<Rightarrow> fail w [dir] ENOSPC s
             | Some n \<Rightarrow> do {
                 let s = mod_inode n (\<lambda>x. x\<lparr>i_size := 32, i_dirt := 1, i_atime := CURRENT_TIME s,
                           i_mtime := CURRENT_TIME s\<rparr>) s;
                 (z, s) \<leftarrow> new_block w (idev n s) s;
                 let s = set_zone n 0 (ucast z) s;
                 if zone n 0 s = 0
                 then do { s \<leftarrow> iput w (Some dir) s; fail w [n] ENOSPC (dec_links n s) }
                 else do {
                   let s = mod_inode n (\<lambda>x. x\<lparr>i_dirt := 1\<rparr>) s;
                   (b, s) \<leftarrow> bread w (idev n s) (ucast (zone n 0 s)) s;
                   case b of
                     None \<Rightarrow> do { s \<leftarrow> iput w (Some dir) s; fail w [n] EERROR (dec_links n s) }
                   | Some dir_block \<Rightarrow> do {
                       let s = init_directory (data_of dir_block s) (i_num (inode_table s n))
                                 (i_num (inode_table s dir)) s;
                       let s = mod_buf dir_block (\<lambda>x. x\<lparr>b_dirt := 1\<rparr>) (set_links 2 n s);
                       s \<leftarrow> brelse w (Some dir_block) s;
                       let s = mod_inode n (\<lambda>x. x\<lparr>i_mode := I_DIRECTORY OR masked_mode mode s, i_dirt := 1\<rparr>) s;
                       ((bh, de), s) \<leftarrow> add_entry w USER_FS dir basename namelen s;
                       if bh = None
                       then do { s \<leftarrow> iput w (Some dir) s; fail w [n] ENOSPC (set_links 0 n s) }
                       else do {
                         s \<leftarrow> put_entry bh de (i_num (inode_table s n)) s;
                         let s = mod_inode dir (\<lambda>x. x\<lparr>i_nlinks := i_nlinks x + 1, i_dirt := 1\<rparr>) s;
                         s \<leftarrow> iputs w [dir, n] s;
                         s \<leftarrow> brelse w bh s;
                         Some (0, s)
                       }
                     }
                 }
               }
           }
         }
   }"

section \<open>Removing\<close>

text \<open>The loop of \<^verbatim>\<open>empty_dir\<close>. When a block is missing, the buffer of the block before stays in \<^verbatim>\<open>bh\<close>
  and is released again.\<close>

partial_function (option) empty_dir_loop ::
  "'a fs_scheme world \<Rightarrow> nat \<Rightarrow> nat \<Rightarrow> nat \<Rightarrow> u32 \<Rightarrow> nat \<Rightarrow> 'a fs_scheme \<Rightarrow> (bool \<times> 'a fs_scheme) option" where
  "empty_dir_loop w inode len bh de nr s =
     (if \<not> nr < len then do { s \<leftarrow> brelse w (Some bh) s; Some (True, s) }
      else if de \<ge> data_of bh s + 1024
      then do {
        s \<leftarrow> brelse w (Some bh) s;
        (block, s) \<leftarrow> bmap w inode (int (nr div DIR_ENTRIES_PER_BLOCK)) s;
        if block = 0 then empty_dir_loop w inode len bh de (nr + DIR_ENTRIES_PER_BLOCK) s
        else do {
          (b, s) \<leftarrow> bread w (idev inode s) block s;
          case b of None \<Rightarrow> Some (False, s)
          | Some bh \<Rightarrow>
              if rdw (data_of bh s) s \<noteq> 0 then do { s \<leftarrow> brelse w (Some bh) s; Some (False, s) }
              else empty_dir_loop w inode len bh (data_of bh s + 16) (nr + 1) s
        }
      }
      else if rdw de s \<noteq> 0 then do { s \<leftarrow> brelse w (Some bh) s; Some (False, s) }
      else empty_dir_loop w inode len bh (de + 16) (nr + 1) s)"

text \<open>The first two entries are \<^verbatim>\<open>.\<close> and \<^verbatim>\<open>..\<close>. A bad directory keeps its first buffer.\<close>

definition dot_entries :: "u32 \<Rightarrow> u16 \<Rightarrow> 'a sched_scheme \<Rightarrow> bool" where
  "dot_entries de nr s \<longleftrightarrow>
     rdw de s = nr \<and> rdw (de + 16) s \<noteq> 0
     \<and> rdb (de + 2) s = 0x2E \<and> rdb (de + 3) s = 0
     \<and> rdb (de + 18) s = 0x2E \<and> rdb (de + 19) s = 0x2E \<and> rdb (de + 20) s = 0"

definition empty_dir :: "'a fs_scheme world \<Rightarrow> nat \<Rightarrow> 'a fs_scheme \<Rightarrow> (bool \<times> 'a fs_scheme) option" where
  "empty_dir w inode s =
     (let len = unat (i_size (inode_table s inode)) div 16 in
      if len < 2 \<or> zone inode 0 s = 0 then Some (False, s)
      else do {
        (b, s) \<leftarrow> bread w (idev inode s) (ucast (zone inode 0 s)) s;
        case b of None \<Rightarrow> Some (False, s)
        | Some bh \<Rightarrow>
            if \<not> dot_entries (data_of bh s) (i_num (inode_table s inode)) s then Some (False, s)
            else empty_dir_loop w inode len bh (data_of bh s + 32) 2 s
      })"

definition sys_rmdir :: "'a fs_scheme world \<Rightarrow> u32 \<Rightarrow> 'a fs_scheme \<Rightarrow> (int \<times> 'a fs_scheme) option" where
  "sys_rmdir w name s = do {
     (d, s) \<leftarrow> dir_namei w name s;
     case d of None \<Rightarrow> Some (- ENOENT, s)
     | Some (dir, basename, namelen) \<Rightarrow>
         if namelen = 0 then fail w [dir] ENOENT s
         else if \<not> permission dir MAY_WRITE s then fail w [dir] EPERM s
         else do {
           ((bh, de), dir, s) \<leftarrow> find_entry w USER_FS dir basename namelen s;
           if bh = None then fail w [dir] ENOENT s
           else do {
             (n, s) \<leftarrow> iget w (idev dir s) (ucast (rdw de s)) s;
             let i = inode_table s n;
             let p = inode_table s dir;
             if i_mode p AND S_ISVTX \<noteq> 0 \<and> t_euid (cur s) \<noteq> 0 \<and> i_uid i \<noteq> t_euid (cur s)
             then fail_release w [dir, n] bh EPERM s
             else if i_dev i \<noteq> i_dev p \<or> i_count i > 1 then fail_release w [dir, n] bh EPERM s
             else if n = dir then fail_release w [n, dir] bh EPERM s
             else if \<not> S_ISDIR (i_mode i) then fail_release w [n, dir] bh ENOTDIR s
             else do {
               (empty, s) \<leftarrow> empty_dir w n s;
               if \<not> empty then fail_release w [n, dir] bh ENOTEMPTY s
               else do {
                 s \<leftarrow> put_entry bh de 0 s;
                 s \<leftarrow> brelse w bh s;
                 let s = mod_inode n (\<lambda>x. x\<lparr>i_nlinks := 0, i_dirt := 1\<rparr>) s;
                 let s = mod_inode dir (\<lambda>x. x\<lparr>i_nlinks := i_nlinks x - 1, i_mtime := CURRENT_TIME s,
                           i_ctime := CURRENT_TIME s, i_dirt := 1\<rparr>) s;
                 s \<leftarrow> iputs w [dir, n] s;
                 Some (0, s)
               }
             }
           }
         }
   }"

definition sys_unlink :: "'a fs_scheme world \<Rightarrow> u32 \<Rightarrow> 'a fs_scheme \<Rightarrow> (int \<times> 'a fs_scheme) option" where
  "sys_unlink w name s = do {
     (d, s) \<leftarrow> dir_namei w name s;
     case d of None \<Rightarrow> Some (- ENOENT, s)
     | Some (dir, basename, namelen) \<Rightarrow>
         if namelen = 0 then fail w [dir] ENOENT s
         else if \<not> permission dir MAY_WRITE s then fail w [dir] EPERM s
         else do {
           ((bh, de), dir, s) \<leftarrow> find_entry w USER_FS dir basename namelen s;
           if bh = None then fail w [dir] ENOENT s
           else do {
             (n, s) \<leftarrow> iget w (idev dir s) (ucast (rdw de s)) s;
             let i = inode_table s n;
             let p = inode_table s dir;
             if i_mode p AND S_ISVTX \<noteq> 0 \<and> \<not> suser s \<and> t_euid (cur s) \<noteq> i_uid i \<and> t_euid (cur s) \<noteq> i_uid p
             then fail_release w [dir, n] bh EPERM s
             else if S_ISDIR (i_mode i) then fail_release w [n, dir] bh EPERM s
             else do {
               let s = (if i_nlinks i = 0 then set_links 1 n s else s);
               s \<leftarrow> put_entry bh de 0 s;
               s \<leftarrow> brelse w bh s;
               let s = mod_inode n (\<lambda>x. x\<lparr>i_nlinks := i_nlinks x - 1, i_dirt := 1, i_ctime := CURRENT_TIME s\<rparr>) s;
               s \<leftarrow> iputs w [n, dir] s;
               Some (0, s)
             }
           }
         }
   }"

section \<open>Links\<close>

text \<open>The loop that copies the target of a symbolic link, of at most \<open>k\<close> more bytes.\<close>

fun copy_target :: "nat \<Rightarrow> nat \<Rightarrow> u32 \<Rightarrow> u32 \<Rightarrow> 'a sched_scheme \<Rightarrow> nat \<times> 'a sched_scheme" where
  "copy_target 0 i oldname data s = (i, s)"
| "copy_target (Suc k) i oldname data s =
     (let c = get_fs_byte oldname s in
      if c = 0 then (i, s) else copy_target k (i + 1) (oldname + 1) data (wrb (data + of_nat i) c s))"

definition sys_symlink :: "'a fs_scheme world \<Rightarrow> u32 \<Rightarrow> u32 \<Rightarrow> 'a fs_scheme \<Rightarrow> (int \<times> 'a fs_scheme) option" where
  "sys_symlink w oldname newname s = do {
     (d, s) \<leftarrow> dir_namei w newname s;
     case d of None \<Rightarrow> Some (- EACCES, s)
     | Some (dir, basename, namelen) \<Rightarrow>
         if namelen = 0 then fail w [dir] EPERM s
         else if \<not> permission dir MAY_WRITE s then fail w [dir] EACCES s
         else do {
           (i, s) \<leftarrow> new_inode w (idev dir s) s;
           case i of None \<Rightarrow> fail w [dir] ENOSPC s
           | Some n \<Rightarrow> do {
               let s = mod_inode n (\<lambda>x. x\<lparr>i_mode := S_IFLNK OR masked_mode 0x1FF s, i_dirt := 1\<rparr>) s;
               (z, s) \<leftarrow> new_block w (idev n s) s;
               let s = set_zone n 0 (ucast z) s;
               if zone n 0 s = 0 then do { s \<leftarrow> iput w (Some dir) s; fail w [n] ENOSPC (dec_links n s) }
               else do {
                 let s = mod_inode n (\<lambda>x. x\<lparr>i_dirt := 1\<rparr>) s;
                 (b, s) \<leftarrow> bread w (idev n s) (ucast (zone n 0 s)) s;
                 case b of None \<Rightarrow> do { s \<leftarrow> iput w (Some dir) s; fail w [n] EERROR (dec_links n s) }
                 | Some name_block \<Rightarrow> do {
                     let (i, s) = copy_target 1023 0 oldname (data_of name_block s) s;
                     let s = wrb (data_of name_block s + of_nat i) 0 s;
                     s \<leftarrow> brelse w (Some name_block) (mod_buf name_block (\<lambda>x. x\<lparr>b_dirt := 1\<rparr>) s);
                     let s = mod_inode n (\<lambda>x. x\<lparr>i_size := of_nat i, i_dirt := 1\<rparr>) s;
                     (r, dir, s) \<leftarrow> find_entry w USER_FS dir basename namelen s;
                     if fst r \<noteq> None
                     then do {
                       s \<leftarrow> iput w (Some n) (dec_links n s);
                       s \<leftarrow> brelse w (fst r) s;
                       fail w [dir] EEXIST s
                     }
                     else do {
                       ((bh, de), s) \<leftarrow> add_entry w USER_FS dir basename namelen s;
                       if bh = None then fail w [n, dir] ENOSPC (dec_links n s)
                       else do {
                         s \<leftarrow> put_entry bh de (i_num (inode_table s n)) s;
                         s \<leftarrow> brelse w bh s;
                         s \<leftarrow> iputs w [dir, n] s;
                         Some (0, s)
                       }
                     }
                   }
               }
             }
         }
   }"

definition sys_link :: "'a fs_scheme world \<Rightarrow> u32 \<Rightarrow> u32 \<Rightarrow> 'a fs_scheme \<Rightarrow> (int \<times> 'a fs_scheme) option" where
  "sys_link w oldname newname s = do {
     (r, s) \<leftarrow> namei w oldname s;
     case r of None \<Rightarrow> Some (- ENOENT, s)
     | Some oldinode \<Rightarrow>
         if S_ISDIR (i_mode (inode_table s oldinode)) then fail w [oldinode] EPERM s
         else do {
           (d, s) \<leftarrow> dir_namei w newname s;
           case d of None \<Rightarrow> fail w [oldinode] EACCES s
           | Some (dir, basename, namelen) \<Rightarrow>
               if namelen = 0 then fail w [oldinode, dir] EPERM s
               else if i_dev (inode_table s dir) \<noteq> i_dev (inode_table s oldinode)
               then fail w [dir, oldinode] EXDEV s
               else if \<not> permission dir MAY_WRITE s then fail w [dir, oldinode] EACCES s
               else do {
                 (r, dir, s) \<leftarrow> find_entry w USER_FS dir basename namelen s;
                 if fst r \<noteq> None then do { s \<leftarrow> brelse w (fst r) s; fail w [dir, oldinode] EEXIST s }
                 else do {
                   ((bh, de), s) \<leftarrow> add_entry w USER_FS dir basename namelen s;
                   if bh = None then fail w [dir, oldinode] ENOSPC s
                   else do {
                     s \<leftarrow> put_entry bh de (i_num (inode_table s oldinode)) s;
                     s \<leftarrow> brelse w bh s;
                     s \<leftarrow> iput w (Some dir) s;
                     s \<leftarrow> iput w (Some oldinode) (mod_inode oldinode (\<lambda>x. x\<lparr>i_nlinks := i_nlinks x + 1,
                            i_ctime := CURRENT_TIME s, i_dirt := 1\<rparr>) s);
                     Some (0, s)
                   }
                 }
               }
         }
   }"

section \<open>Mounting\<close>

definition sys_umount :: "'a fs_scheme world \<Rightarrow> u32 \<Rightarrow> 'a fs_scheme \<Rightarrow> (int \<times> 'a fs_scheme) option" where
  "sys_umount w dev_name s = do {
     (r, s) \<leftarrow> namei w dev_name s;
     case r of None \<Rightarrow> Some (- ENOENT, s)
     | Some n \<Rightarrow> do {
         let dev = (ucast (zone n 0 s) :: u32);
         if \<not> S_ISBLK (i_mode (inode_table s n)) then fail w [n] ENOTBLK s
         else do {
           s \<leftarrow> iput w (Some n) s;
           if dev = ROOT_DEV s then Some (- EBUSY, s)
           else do {
             (r, s) \<leftarrow> get_super w dev s;
             case r of None \<Rightarrow> Some (- ENOENT, s)
             | Some sb \<Rightarrow> (case s_imount (super_blocks s sb) of None \<Rightarrow> Some (- ENOENT, s)
                 | Some m \<Rightarrow>
                     if list_ex (\<lambda>i. idev i s = dev \<and> i_count (inode_table s i) \<noteq> 0) [0..<NR_INODE]
                     then Some (- EBUSY, s)
                     else do {
                       s \<leftarrow> iput w (Some m) (mod_inode m (\<lambda>x. x\<lparr>i_mount := 0\<rparr>) s);
                       let s = mod_super sb (\<lambda>x. x\<lparr>s_imount := None\<rparr>) s;
                       s \<leftarrow> iput w (s_isup (super_blocks s sb)) s;
                       s \<leftarrow> put_super w dev (mod_super sb (\<lambda>x. x\<lparr>s_isup := None\<rparr>) s);
                       s \<leftarrow> sync_dev w dev s;
                       Some (0, s)
                     })
           }
         }
       }
   }"

definition sys_mount :: "'a fs_scheme world \<Rightarrow> u32 \<Rightarrow> u32 \<Rightarrow> 'a fs_scheme \<Rightarrow> (int \<times> 'a fs_scheme) option" where
  "sys_mount w dev_name dir_name s = do {
     (r, s) \<leftarrow> namei w dev_name s;
     case r of None \<Rightarrow> Some (- ENOENT, s)
     | Some dev_i \<Rightarrow> do {
         let dev = ucast (zone dev_i 0 s);
         if \<not> S_ISBLK (i_mode (inode_table s dev_i)) then fail w [dev_i] EPERM s
         else do {
           s \<leftarrow> iput w (Some dev_i) s;
           (r, s) \<leftarrow> namei w dir_name s;
           case r of None \<Rightarrow> Some (- ENOENT, s)
           | Some dir_i \<Rightarrow>
               if i_count (inode_table s dir_i) \<noteq> 1 \<or> i_num (inode_table s dir_i) = ROOT_INO
               then fail w [dir_i] EBUSY s
               else if \<not> S_ISDIR (i_mode (inode_table s dir_i)) then fail w [dir_i] EPERM s
               else do {
                 (r, s) \<leftarrow> read_super w dev s;
                 case r of None \<Rightarrow> fail w [dir_i] EBUSY s
                 | Some sb \<Rightarrow>
                     if s_imount (super_blocks s sb) \<noteq> None then fail w [dir_i] EBUSY s
                     else if i_mount (inode_table s dir_i) \<noteq> 0 then fail w [dir_i] EPERM s
                     else Some (0, mod_inode dir_i (\<lambda>x. x\<lparr>i_mount := 1, i_dirt := 1\<rparr>)
                            (mod_super sb (\<lambda>x. x\<lparr>s_imount := Some dir_i\<rparr>) s))
               }
         }
       }
   }"

end
