(* ===== verification/Ctype.thy ===== *)
theory Ctype
  imports Prelude
begin

text \<open>
  \<^verbatim>\<open>include/ctype.h\<close> and the table of \<^verbatim>\<open>lib/ctype.c\<close>. The classes are read at index \<^verbatim>\<open>c + 1\<close>; a
  \<^verbatim>\<open>char\<close> is signed, so that \<^verbatim>\<open>tolower\<close> and \<^verbatim>\<open>toupper\<close> of a character above 127 read in front of the
  table (except for the last one, which is EOF): \<open>None\<close>.
\<close>

abbreviation (input) CT_U :: u8 where "CT_U \<equiv> 0x01"
abbreviation (input) CT_L :: u8 where "CT_L \<equiv> 0x02"
abbreviation (input) CT_D :: u8 where "CT_D \<equiv> 0x04"
abbreviation (input) CT_C :: u8 where "CT_C \<equiv> 0x08"
abbreviation (input) CT_P :: u8 where "CT_P \<equiv> 0x10"
abbreviation (input) CT_S :: u8 where "CT_S \<equiv> 0x20"
abbreviation (input) CT_X :: u8 where "CT_X \<equiv> 0x40"
abbreviation (input) CT_SP :: u8 where "CT_SP \<equiv> 0x80"

definition ctype_table :: "u8 list" where
  "ctype_table = [0] @
     [CT_C, CT_C, CT_C, CT_C, CT_C, CT_C, CT_C, CT_C] @
     [CT_C, CT_C OR CT_S, CT_C OR CT_S, CT_C OR CT_S, CT_C OR CT_S, CT_C OR CT_S, CT_C, CT_C] @
     [CT_C, CT_C, CT_C, CT_C, CT_C, CT_C, CT_C, CT_C] @
     [CT_C, CT_C, CT_C, CT_C, CT_C, CT_C, CT_C, CT_C] @
     [CT_S OR CT_SP, CT_P, CT_P, CT_P, CT_P, CT_P, CT_P, CT_P] @
     [CT_P, CT_P, CT_P, CT_P, CT_P, CT_P, CT_P, CT_P] @
     [CT_D, CT_D, CT_D, CT_D, CT_D, CT_D, CT_D, CT_D] @
     [CT_D, CT_D, CT_P, CT_P, CT_P, CT_P, CT_P, CT_P] @
     [CT_P, CT_U OR CT_X, CT_U OR CT_X, CT_U OR CT_X, CT_U OR CT_X, CT_U OR CT_X, CT_U OR CT_X, CT_U] @
     [CT_U, CT_U, CT_U, CT_U, CT_U, CT_U, CT_U, CT_U] @
     [CT_U, CT_U, CT_U, CT_U, CT_U, CT_U, CT_U, CT_U] @
     [CT_U, CT_U, CT_U, CT_P, CT_P, CT_P, CT_P, CT_P] @
     [CT_P, CT_L OR CT_X, CT_L OR CT_X, CT_L OR CT_X, CT_L OR CT_X, CT_L OR CT_X, CT_L OR CT_X, CT_L] @
     [CT_L, CT_L, CT_L, CT_L, CT_L, CT_L, CT_L, CT_L] @
     [CT_L, CT_L, CT_L, CT_L, CT_L, CT_L, CT_L, CT_L] @
     [CT_L, CT_L, CT_L, CT_P, CT_P, CT_P, CT_P, CT_C] @
     replicate 128 0"

definition ctype_at :: "int \<Rightarrow> u8 option" where
  "ctype_at c = (if - 1 \<le> c \<and> c < 256 then Some (ctype_table ! nat (c + 1)) else None)"

definition isclass :: "u8 \<Rightarrow> int \<Rightarrow> bool option" where
  "isclass m c = do { t \<leftarrow> ctype_at c; Some (t AND m \<noteq> 0) }"

definition isalnum :: "int \<Rightarrow> bool option" where "isalnum = isclass (CT_U OR CT_L OR CT_D)"
definition isalpha :: "int \<Rightarrow> bool option" where "isalpha = isclass (CT_U OR CT_L)"
definition iscntrl :: "int \<Rightarrow> bool option" where "iscntrl = isclass CT_C"
definition isdigit :: "int \<Rightarrow> bool option" where "isdigit = isclass CT_D"
definition isgraph :: "int \<Rightarrow> bool option" where "isgraph = isclass (CT_P OR CT_U OR CT_L OR CT_D)"
definition islower :: "int \<Rightarrow> bool option" where "islower = isclass CT_L"
definition isprint :: "int \<Rightarrow> bool option" where "isprint = isclass (CT_P OR CT_U OR CT_L OR CT_D OR CT_SP)"
definition ispunct :: "int \<Rightarrow> bool option" where "ispunct = isclass CT_P"
definition isspace :: "int \<Rightarrow> bool option" where "isspace = isclass CT_S"
definition isupper :: "int \<Rightarrow> bool option" where "isupper = isclass CT_U"
definition isxdigit :: "int \<Rightarrow> bool option" where "isxdigit = isclass (CT_D OR CT_X)"

text \<open>The macros go through the \<^verbatim>\<open>char\<close> variable \<^verbatim>\<open>_ctmp\<close>.\<close>

definition tolower :: "u8 \<Rightarrow> u8 option" where
  "tolower c = do { u \<leftarrow> isupper (sint c); Some (if u then c - (65 - 97) else c) }"

definition toupper :: "u8 \<Rightarrow> u8 option" where
  "toupper c = do { l \<leftarrow> islower (sint c); Some (if l then c - (97 - 65) else c) }"

end
