(* ===== verification/Console.thy ===== *)
theory Console
  imports Directories Ctype
begin

text \<open>
  The state of the terminals (\<^verbatim>\<open>include/linux/tty.h\<close>) with the ring buffers of characters, and the
  drivers that empty the write queues: \<^verbatim>\<open>kernel/chr_drv/console.c\<close>, which writes to the memory of the
  display, and \<^verbatim>\<open>kernel/chr_drv/serial.c\<close>. A pointer to a queue or a terminal is its index in
  \<^verbatim>\<open>tty_queues\<close> or \<^verbatim>\<open>tty_table\<close>; \<^verbatim>\<open>proc_list\<close> of queue \<open>q\<close> is \<open>wq s (Tty_queue_wait q)\<close>.
\<close>

section \<open>State\<close>

abbreviation (input) TTY_BUF_SIZE :: nat where "TTY_BUF_SIZE \<equiv> 1024"
abbreviation (input) MAX_CONSOLES :: nat where "MAX_CONSOLES \<equiv> 8"
abbreviation (input) NR_SERIALS :: nat where "NR_SERIALS \<equiv> 2"
abbreviation (input) QUEUES :: nat where "QUEUES \<equiv> 30"
abbreviation (input) NCCS :: nat where "NCCS \<equiv> 17"

text \<open>\<open>c_pad\<close> are the two bytes that fill \<^verbatim>\<open>struct termios\<close> up to 36 bytes.\<close>

record termios =
  c_iflag :: u32
  c_oflag :: u32
  c_cflag :: u32
  c_lflag :: u32
  c_line :: u8
  c_cc :: "nat \<Rightarrow> u8"
  c_pad :: "nat \<Rightarrow> u8"

record tty_queue =
  q_data :: u32
  q_head :: u32
  q_tail :: u32
  q_buf :: "u32 \<Rightarrow> u8"

datatype tty_driver = No_driver | Con_write | Rs_write

record tty_struct =
  t_termios :: termios
  tty_pgrp :: int
  tty_session :: int
  tty_stopped :: int
  tty_driver :: tty_driver
  read_q :: "nat option"
  write_q :: "nat option"
  secondary :: "nat option"

record console_struct =
  vc_video_erase_char :: u16
  vc_attr :: u8
  vc_origin :: u32
  vc_scr_end :: u32
  vc_pos :: u32
  vc_x :: u32
  vc_y :: u32
  vc_top :: u32
  vc_bottom :: u32
  vc_video_mem_start :: u32
  vc_video_mem_end :: u32
  vc_translate :: "nat \<Rightarrow> u8"

record tty_state = fs +
  tty_queues :: "nat \<Rightarrow> tty_queue"
  tty_table :: "nat \<Rightarrow> tty_struct"
  table_list :: "nat \<Rightarrow> nat"
  INIT_C_CC :: "nat \<Rightarrow> u8"
  cr_flag :: bool
  vc_cons :: "nat \<Rightarrow> console_struct"
  fg_console :: nat
  NR_CONSOLES :: nat
  video_num_columns :: u32
  video_mem_base :: u32
  video_mem_term :: u32
  video_size_row :: u32
  video_num_lines :: u32
  video_port_reg :: u16
  video_port_val :: u16

definition mod_queue :: "nat \<Rightarrow> (tty_queue \<Rightarrow> tty_queue) \<Rightarrow> 'a tty_state_scheme \<Rightarrow> 'a tty_state_scheme" where
  "mod_queue q f s = s\<lparr>tty_queues := (tty_queues s)(q := f (tty_queues s q))\<rparr>"

definition mod_tty :: "nat \<Rightarrow> (tty_struct \<Rightarrow> tty_struct) \<Rightarrow> 'a tty_state_scheme \<Rightarrow> 'a tty_state_scheme" where
  "mod_tty t f s = s\<lparr>tty_table := (tty_table s)(t := f (tty_table s t))\<rparr>"

definition mod_vc :: "nat \<Rightarrow> (console_struct \<Rightarrow> console_struct) \<Rightarrow> 'a tty_state_scheme \<Rightarrow> 'a tty_state_scheme" where
  "mod_vc c f s = s\<lparr>vc_cons := (vc_cons s)(c := f (vc_cons s c))\<rparr>"

section \<open>Queues\<close>

definition INC :: "u32 \<Rightarrow> u32" where "INC a = (a + 1) AND 0x3FF"
definition DEC :: "u32 \<Rightarrow> u32" where "DEC a = (a - 1) AND 0x3FF"

definition q_EMPTY :: "tty_queue \<Rightarrow> bool" where "q_EMPTY q \<longleftrightarrow> q_head q = q_tail q"
definition q_LEFT :: "tty_queue \<Rightarrow> u32" where "q_LEFT q = (q_tail q - q_head q - 1) AND 0x3FF"
definition q_LAST :: "tty_queue \<Rightarrow> u8" where "q_LAST q = q_buf q (0x3FF AND (q_head q - 1))"
definition q_FULL :: "tty_queue \<Rightarrow> bool" where "q_FULL q \<longleftrightarrow> q_LEFT q = 0"
definition q_CHARS :: "tty_queue \<Rightarrow> u32" where "q_CHARS q = (q_head q - q_tail q) AND 0x3FF"

definition q_get :: "tty_queue \<Rightarrow> u8 \<times> tty_queue" where
  "q_get q = (q_buf q (q_tail q), q\<lparr>q_tail := INC (q_tail q)\<rparr>)"

definition q_put :: "u8 \<Rightarrow> tty_queue \<Rightarrow> tty_queue" where
  "q_put c q = q\<lparr>q_buf := (q_buf q)(q_head q := c), q_head := INC (q_head q)\<rparr>"

definition GETCH :: "nat \<Rightarrow> 'a tty_state_scheme \<Rightarrow> u8 \<times> 'a tty_state_scheme" where
  "GETCH q s = (fst (q_get (tty_queues s q)), mod_queue q (\<lambda>x. snd (q_get x)) s)"

definition PUTCH :: "u8 \<Rightarrow> nat \<Rightarrow> 'a tty_state_scheme \<Rightarrow> 'a tty_state_scheme" where
  "PUTCH c q = mod_queue q (q_put c)"

section \<open>The console\<close>

text \<open>\<^verbatim>\<open>rep stosw\<close>.\<close>

fun stosw :: "nat \<Rightarrow> u16 \<Rightarrow> u32 \<Rightarrow> bytes \<Rightarrow> bytes" where
  "stosw 0 v di m = m"
| "stosw (Suc n) v di m = stosw n v (di + 2) (st16 di v m)"

definition get_init_pos :: "'a sched_scheme world \<Rightarrow> 'a sched_scheme \<Rightarrow> u16 \<times> 'a sched_scheme" where
  "get_init_pos w s =
     (let (bh, s) = inb w 0x3d5 (outb 14 0x3d4 s);
          (bl, s) = inb w 0x3d5 (outb 15 0x3d4 s)
      in (push_bit 8 (ucast bh) OR ucast bl, s))"

definition gotoxy :: "nat \<Rightarrow> u32 \<Rightarrow> u32 \<Rightarrow> 'a tty_state_scheme \<Rightarrow> 'a tty_state_scheme" where
  "gotoxy c new_x new_y s =
     (if new_x > video_num_columns s \<or> new_y \<ge> video_num_lines s then s
      else mod_vc c (\<lambda>v. v\<lparr>vc_pos := vc_origin v + new_y * video_size_row s + push_bit 1 new_x,
             vc_x := new_x, vc_y := new_y\<rparr>) s)"

text \<open>The common part of \<^verbatim>\<open>set_origin\<close> and \<^verbatim>\<open>set_cursor\<close>: a position in words goes to two registers of
  the display controller.\<close>

definition out_pos :: "u8 \<Rightarrow> u32 \<Rightarrow> 'a tty_state_scheme \<Rightarrow> 'a tty_state_scheme" where
  "out_pos reg addr s =
     (let p = (ucast (drop_bit 1 (addr - video_mem_base s)) :: u16);
          s = outb reg (video_port_reg s) s;
          s = outb (ucast (drop_bit 8 p)) (video_port_val s) s;
          s = outb (reg + 1) (video_port_reg s) s
      in outb (ucast p) (video_port_val s) s)"

definition set_origin :: "nat \<Rightarrow> 'a tty_state_scheme \<Rightarrow> 'a tty_state_scheme" where
  "set_origin c s = (if c \<noteq> fg_console s then s else out_pos 12 (vc_origin (vc_cons s c)) s)"

definition set_cursor :: "nat \<Rightarrow> 'a tty_state_scheme \<Rightarrow> 'a tty_state_scheme" where
  "set_cursor c s = (if c \<noteq> fg_console s then s else out_pos 14 (vc_pos (vc_cons s c)) s)"

definition scrup :: "nat \<Rightarrow> 'a tty_state_scheme \<Rightarrow> 'a tty_state_scheme" where
  "scrup c s =
     (let row = video_size_row s;
          s = mod_vc c (\<lambda>v. v\<lparr>vc_origin := vc_origin v + row, vc_pos := vc_pos v + row,
                vc_scr_end := vc_scr_end v + row\<rparr>) s;
          v = vc_cons s c
      in set_origin c
        (if vc_scr_end v > vc_video_mem_end v
         then let n = unat (drop_bit 1 ((video_num_lines s - 1) * video_num_columns s));
                  m = copy_bytes (4 * n) (vc_origin v) (vc_video_mem_start v) (kmem s);
                  m = stosw (unat (video_num_columns s)) (vc_video_erase_char v)
                        (vc_video_mem_start v + 4 * of_nat n) m;
                  d = vc_origin v - vc_video_mem_start v
              in mod_vc c (\<lambda>v. v\<lparr>vc_scr_end := vc_scr_end v - d, vc_pos := vc_pos v - d,
                     vc_origin := vc_video_mem_start v\<rparr>) (s\<lparr>kmem := m\<rparr>)
         else s\<lparr>kmem := stosw (unat (video_num_columns s)) (vc_video_erase_char v) (vc_scr_end v - row) (kmem s)\<rparr>))"

definition lf :: "nat \<Rightarrow> 'a tty_state_scheme \<Rightarrow> 'a tty_state_scheme" where
  "lf c s =
     (if vc_y (vc_cons s c) + 1 < vc_bottom (vc_cons s c)
      then mod_vc c (\<lambda>v. v\<lparr>vc_y := vc_y v + 1, vc_pos := vc_pos v + video_size_row s\<rparr>) s
      else scrup c s)"

definition cr :: "nat \<Rightarrow> 'a tty_state_scheme \<Rightarrow> 'a tty_state_scheme" where
  "cr c = mod_vc c (\<lambda>v. v\<lparr>vc_pos := vc_pos v - push_bit 1 (vc_x v), vc_x := 0\<rparr>)"

text \<open>At the end of a line the output goes on in the next one.\<close>

definition wrap_line :: "nat \<Rightarrow> 'a tty_state_scheme \<Rightarrow> 'a tty_state_scheme" where
  "wrap_line c s =
     (if vc_x (vc_cons s c) \<ge> video_num_columns s
      then lf c (mod_vc c (\<lambda>v. v\<lparr>vc_x := vc_x v - video_num_columns s,
              vc_pos := vc_pos v - video_size_row s\<rparr>) s)
      else s)"

definition ht :: "nat \<Rightarrow> 'a tty_state_scheme \<Rightarrow> 'a tty_state_scheme" where
  "ht c s =
     (let tmp = 4 - (vc_x (vc_cons s c) AND 3)
      in wrap_line c (mod_vc c (\<lambda>v. v\<lparr>vc_x := vc_x v + tmp, vc_pos := vc_pos v + push_bit 1 tmp\<rparr>) s))"

definition del :: "nat \<Rightarrow> 'a tty_state_scheme \<Rightarrow> 'a tty_state_scheme" where
  "del c s =
     (if vc_x (vc_cons s c) = 0 then s
      else let s = mod_vc c (\<lambda>v. v\<lparr>vc_pos := vc_pos v - 2, vc_x := vc_x v - 1\<rparr>) s
           in s\<lparr>kmem := st16 (vc_pos (vc_cons s c)) (vc_video_erase_char (vc_cons s c)) (kmem s)\<rparr>)"

definition csi_J :: "nat \<Rightarrow> int \<Rightarrow> 'a tty_state_scheme \<Rightarrow> 'a tty_state_scheme" where
  "csi_J c vpar s =
     (let v = vc_cons s c;
          fill = (\<lambda>count start. s\<lparr>kmem := stosw (unat count) (vc_video_erase_char v) start (kmem s)\<rparr>)
      in if vpar = 0 then fill (drop_bit 1 (vc_scr_end v - vc_pos v)) (vc_pos v)
         else if vpar = 1 then fill (drop_bit 1 (vc_pos v - vc_origin v)) (vc_origin v)
         else if vpar = 2 then fill (video_num_columns s * video_num_lines s) (vc_origin v)
         else s)"

definition csi_K :: "nat \<Rightarrow> int \<Rightarrow> 'a tty_state_scheme \<Rightarrow> 'a tty_state_scheme" where
  "csi_K c vpar s =
     (let v = vc_cons s c; cols = video_num_columns s; line = vc_pos v - push_bit 1 (vc_x v);
          fill = (\<lambda>count start. s\<lparr>kmem := stosw (unat count) (vc_video_erase_char v) start (kmem s)\<rparr>)
      in if vpar = 0 then if vc_x v \<ge> cols then s else fill (cols - vc_x v) (vc_pos v)
         else if vpar = 1 then fill (if vc_x v < cols then vc_x v else cols) line
         else if vpar = 2 then fill cols line
         else s)"

text \<open>A character and its attribute are written at the cursor, which moves on.\<close>

definition put_glyph :: "nat \<Rightarrow> u8 \<Rightarrow> 'a tty_state_scheme \<Rightarrow> 'a tty_state_scheme" where
  "put_glyph c ch s =
     (let v = vc_cons s c
      in mod_vc c (\<lambda>v. v\<lparr>vc_pos := vc_pos v + 2, vc_x := vc_x v + 1\<rparr>)
           (s\<lparr>kmem := st16 (vc_pos v) (push_bit 8 (ucast (vc_attr v)) OR ucast ch) (kmem s)\<rparr>))"

text \<open>The body of the loop of \<^verbatim>\<open>con_write\<close>, for the character \<open>ch\<close> (a signed \<^verbatim>\<open>char\<close>).\<close>

definition con_char :: "nat \<Rightarrow> u8 \<Rightarrow> 'a tty_state_scheme \<Rightarrow> 'a tty_state_scheme" where
  "con_char c ch s =
     (if sint ch > 31 \<and> sint ch < 127
      then let s = wrap_line c s in put_glyph c (vc_translate (vc_cons s c) (unat ch - 32)) s
      else if ch = 27 then s
      else if ch = 10 \<or> ch = 11 \<or> ch = 12 then lf c s
      else if ch = 13 then cr c s
      else if sint ch = uint (c_cc (t_termios (tty_table s c)) 2) then del c s
      else if ch = 8
      then if vc_x (vc_cons s c) \<noteq> 0
           then mod_vc c (\<lambda>v. v\<lparr>vc_x := vc_x v - 1, vc_pos := vc_pos v - 2\<rparr>) s else s
      else if ch = 9 then ht c s
      else s)"

fun con_loop :: "nat \<Rightarrow> nat \<Rightarrow> nat \<Rightarrow> 'a tty_state_scheme \<Rightarrow> 'a tty_state_scheme" where
  "con_loop tty q 0 s = s"
| "con_loop tty q (Suc nr) s =
     (if tty_stopped (tty_table s tty) \<noteq> 0 then s
      else let (ch, s) = GETCH q s in con_loop tty q nr (con_char tty ch s))"

definition con_write :: "nat \<Rightarrow> 'a tty_state_scheme \<Rightarrow> 'a tty_state_scheme option" where
  "con_write tty s =
     (if tty \<ge> MAX_CONSOLES then None
      else do {
        q \<leftarrow> write_q (tty_table s tty);
        Some (set_cursor tty (con_loop tty q (unat (q_CHARS (tty_queues s q))) s))
      })"

definition update_screen :: "'a tty_state_scheme \<Rightarrow> 'a tty_state_scheme" where
  "update_screen s = set_cursor (fg_console s) (set_origin (fg_console s) s)"

text \<open>The table of printable characters, \<^verbatim>\<open>translations\<close>, and the loop over the other consoles.\<close>

definition translation_table :: "nat \<Rightarrow> u8" where
  "translation_table i = (if i < 95 then of_nat (32 + i) else if i = 95 then 32 else 0)"

fun con_init_loop :: "nat list \<Rightarrow> u32 \<Rightarrow> u32 \<Rightarrow> u32 \<Rightarrow> 'a tty_state_scheme \<Rightarrow> 'a tty_state_scheme" where
  "con_init_loop [] memory base trm s = s"
| "con_init_loop (c # cs) memory base trm s =
     (let base = base + memory; trm = trm + memory;
          s = mod_vc c (\<lambda>_. (vc_cons s 0)\<lparr>vc_origin := base, vc_video_mem_start := base,
                vc_scr_end := base + video_num_lines s * video_size_row s, vc_video_mem_end := trm\<rparr>) s
      in con_init_loop cs memory base trm (gotoxy c 0 0 s))"

text \<open>\<^verbatim>\<open>EGAc\<close> is written into the right end of the second row.\<close>

definition con_init :: "'a tty_state_scheme world \<Rightarrow> 'a tty_state_scheme \<Rightarrow> 'a tty_state_scheme" where
  "con_init w s =
     (let s = s\<lparr>fg_console := 0, video_num_columns := 80, video_mem_base := 0xB8000,
                video_mem_term := 0xC0000, video_size_row := 160, video_num_lines := 25,
                video_port_reg := 0x3d4, video_port_val := 0x3d5\<rparr>;
          memory = video_mem_term s - video_mem_base s;
          n = unat (memory div (video_num_lines s * video_size_row s));
          n = (if n > MAX_CONSOLES then MAX_CONSOLES else n);
          n = (if n = 0 then 1 else n);
          memory = memory div of_nat n;
          s = s\<lparr>NR_CONSOLES := n\<rparr>;
          d = video_mem_base s + video_size_row s * 2 - 60;
          s = s\<lparr>kmem := (kmem s)(d := 0x45, d + 2 := 0x47, d + 4 := 0x41, d + 6 := 0x63)\<rparr>;
          base = video_mem_base s; trm = base + memory;
          (tmp, s) = get_init_pos w s;
          vy = (ucast tmp :: u32) div 80; vx = (ucast tmp :: u32) mod 80;
          s = mod_vc 0 (\<lambda>v. \<lparr>vc_video_erase_char = 0x0720, vc_attr = 7, vc_origin = base,
                vc_scr_end = base + video_num_lines s * video_size_row s,
                vc_pos = video_mem_base s + vy * video_size_row s + push_bit 1 vx,
                vc_x = vx, vc_y = vy, vc_top = 0, vc_bottom = video_num_lines s,
                vc_video_mem_start = base, vc_video_mem_end = trm, vc_translate = translation_table\<rparr>) s
      in update_screen (con_init_loop [1..<n] memory base trm s))"

text \<open>\<^verbatim>\<open>console_print\<close>, which \<^verbatim>\<open>printk\<close> calls with the formatted text.\<close>

partial_function (option) console_print_loop ::
  "nat \<Rightarrow> u32 \<Rightarrow> 'a tty_state_scheme \<Rightarrow> 'a tty_state_scheme option" where
  "console_print_loop c b s =
     (let ch = rdb b s in
      if ch = 0 then Some s
      else console_print_loop c (b + 1)
        (if ch = 10 then lf c (cr c s)
         else if ch = 13 then cr c s
         else if ch = 9 then ht c s
         else put_glyph c ch (wrap_line c s)))"

definition console_print :: "u32 \<Rightarrow> 'a tty_state_scheme \<Rightarrow> 'a tty_state_scheme option" where
  "console_print b s =
     do { s' \<leftarrow> console_print_loop (fg_console s) b s; Some (set_cursor (fg_console s) s') }"

section \<open>Serial lines\<close>

definition init_port :: "'a sched_scheme world \<Rightarrow> u16 \<Rightarrow> 'a sched_scheme \<Rightarrow> 'a sched_scheme" where
  "init_port w port s =
     (let s = outb 0x80 (port + 3) s; s = outb 0x30 port s; s = outb 0 (port + 1) s;
          s = outb 3 (port + 3) s; s = outb 0x0b (port + 4) s; s = outb 0x0d (port + 1) s
      in snd (inb w port s))"

definition rs_init :: "'a tty_state_scheme world \<Rightarrow> u32 \<Rightarrow> u32 \<Rightarrow> 'a tty_state_scheme \<Rightarrow> 'a tty_state_scheme option" where
  "rs_init w rs1_interrupt rs2_interrupt s = do {
     let s = s\<lparr>idt := set_intr_gate 0x23 rs2_interrupt (set_intr_gate 0x24 rs1_interrupt (idt s))\<rparr>;
     q \<leftarrow> read_q (tty_table s 64);
     let s = init_port w (ucast (q_data (tty_queues s q))) s;
     q \<leftarrow> read_q (tty_table s 65);
     let s = init_port w (ucast (q_data (tty_queues s q))) s;
     let (v, s) = inb w 0x21 s;
     Some (outb (v AND 0xE7) 0x21 s)
   }"

definition rs_write :: "'a tty_state_scheme world \<Rightarrow> nat \<Rightarrow> 'a tty_state_scheme \<Rightarrow> 'a tty_state_scheme option" where
  "rs_write w tty s = do {
     q \<leftarrow> write_q (tty_table s tty);
     if q_EMPTY (tty_queues s q) then Some s
     else do {
       let port = ucast (q_data (tty_queues s q) + 1);
       let (v, s) = inb w port s;
       Some (outb (v OR 2) port s)
     }
   }"

section \<open>Calling the driver\<close>

text \<open>\<^verbatim>\<open>tty->write(tty)\<close>; a terminal without driver has a NULL pointer there.\<close>

definition tty_flush :: "'a tty_state_scheme world \<Rightarrow> nat \<Rightarrow> 'a tty_state_scheme \<Rightarrow> 'a tty_state_scheme option" where
  "tty_flush w tty s =
     (case tty_driver (tty_table s tty) of
        Con_write \<Rightarrow> con_write tty s | Rs_write \<Rightarrow> rs_write w tty s | No_driver \<Rightarrow> None)"

end
