(* ===== verification/Tty.thy ===== *)
theory Tty
  imports Console
begin

text \<open>
  \<^verbatim>\<open>kernel/chr_drv/tty_io.c\<close> and \<^verbatim>\<open>kernel/chr_drv/tty_ioctl.c\<close>: the line discipline between the
  interrupt handlers, which fill \<^verbatim>\<open>read_q\<close> and empty \<^verbatim>\<open>write_q\<close>, and the tasks, which read
  \<^verbatim>\<open>secondary\<close> and fill \<^verbatim>\<open>write_q\<close>.
\<close>

section \<open>Constants\<close>

abbreviation (input) L_flag :: "u32 \<Rightarrow> nat \<Rightarrow> 'a tty_state_scheme \<Rightarrow> bool" where
  "L_flag f t s \<equiv> c_lflag (t_termios (tty_table s t)) AND f \<noteq> 0"
abbreviation (input) I_flag :: "u32 \<Rightarrow> nat \<Rightarrow> 'a tty_state_scheme \<Rightarrow> bool" where
  "I_flag f t s \<equiv> c_iflag (t_termios (tty_table s t)) AND f \<noteq> 0"
abbreviation (input) O_flag :: "u32 \<Rightarrow> nat \<Rightarrow> 'a tty_state_scheme \<Rightarrow> bool" where
  "O_flag f t s \<equiv> c_oflag (t_termios (tty_table s t)) AND f \<noteq> 0"

abbreviation (input) ISIG :: u32 where "ISIG \<equiv> 1"
abbreviation (input) ICANON :: u32 where "ICANON \<equiv> 2"
abbreviation (input) ECHO :: u32 where "ECHO \<equiv> 8"
abbreviation (input) TOSTOP :: u32 where "TOSTOP \<equiv> 0x100"
abbreviation (input) ECHOCTL :: u32 where "ECHOCTL \<equiv> 0x200"
abbreviation (input) ECHOKE :: u32 where "ECHOKE \<equiv> 0x800"
abbreviation (input) INLCR :: u32 where "INLCR \<equiv> 0x40"
abbreviation (input) IGNCR :: u32 where "IGNCR \<equiv> 0x80"
abbreviation (input) ICRNL :: u32 where "ICRNL \<equiv> 0x100"
abbreviation (input) IUCLC :: u32 where "IUCLC \<equiv> 0x200"
abbreviation (input) IXON :: u32 where "IXON \<equiv> 0x400"
abbreviation (input) OPOST :: u32 where "OPOST \<equiv> 1"
abbreviation (input) OLCUC :: u32 where "OLCUC \<equiv> 2"
abbreviation (input) ONLCR :: u32 where "ONLCR \<equiv> 4"
abbreviation (input) OCRNL :: u32 where "OCRNL \<equiv> 8"
abbreviation (input) ONLRET :: u32 where "ONLRET \<equiv> 0x20"
abbreviation (input) CBAUD :: u32 where "CBAUD \<equiv> 0xF"
abbreviation (input) VINTR :: nat where "VINTR \<equiv> 0"
abbreviation (input) VQUIT :: nat where "VQUIT \<equiv> 1"
abbreviation (input) VERASE :: nat where "VERASE \<equiv> 2"
abbreviation (input) VKILL :: nat where "VKILL \<equiv> 3"
abbreviation (input) VEOF :: nat where "VEOF \<equiv> 4"
abbreviation (input) VTIME :: nat where "VTIME \<equiv> 5"
abbreviation (input) VMIN :: nat where "VMIN \<equiv> 6"
abbreviation (input) VSTART :: nat where "VSTART \<equiv> 8"
abbreviation (input) VSTOP :: nat where "VSTOP \<equiv> 9"
abbreviation (input) VSUSP :: nat where "VSUSP \<equiv> 10"

definition cc :: "nat \<Rightarrow> nat \<Rightarrow> 'a tty_state_scheme \<Rightarrow> u8" where
  "cc k t s = c_cc (t_termios (tty_table s t)) k"

text \<open>\<^verbatim>\<open>X_CHAR(tty) != _POSIX_VDISABLE && c == X_CHAR(tty)\<close>: a signed \<^verbatim>\<open>char\<close> is compared with an
  unsigned one.\<close>

definition is_cc :: "nat \<Rightarrow> u8 \<Rightarrow> nat \<Rightarrow> 'a tty_state_scheme \<Rightarrow> bool" where
  "is_cc k c t s \<longleftrightarrow> cc k t s \<noteq> 0 \<and> sint c = uint (cc k t s)"

section \<open>Sleeping on a queue\<close>

partial_function (option) sleep_if_empty ::
  "'a tty_state_scheme world \<Rightarrow> nat \<Rightarrow> 'a tty_state_scheme \<Rightarrow> 'a tty_state_scheme option" where
  "sleep_if_empty w q s =
     (if t_signal (cur s) AND NOT (t_blocked (cur s)) = 0 \<and> q_EMPTY (tty_queues s q)
      then do { s \<leftarrow> interruptible_sleep_on w (Tty_queue_wait q) s; sleep_if_empty w q s }
      else Some s)"

partial_function (option) sleep_until_room ::
  "'a tty_state_scheme world \<Rightarrow> nat \<Rightarrow> 'a tty_state_scheme \<Rightarrow> 'a tty_state_scheme option" where
  "sleep_until_room w q s =
     (if t_signal (cur s) AND NOT (t_blocked (cur s)) = 0 \<and> q_LEFT (tty_queues s q) < 128
      then do { s \<leftarrow> interruptible_sleep_on w (Tty_queue_wait q) s; sleep_until_room w q s }
      else Some s)"

definition sleep_if_full ::
  "'a tty_state_scheme world \<Rightarrow> nat \<Rightarrow> 'a tty_state_scheme \<Rightarrow> 'a tty_state_scheme option" where
  "sleep_if_full w q s = (if \<not> q_FULL (tty_queues s q) then Some s else sleep_until_room w q s)"

definition wait_for_keypress :: "'a tty_state_scheme world \<Rightarrow> 'a tty_state_scheme \<Rightarrow> 'a tty_state_scheme option" where
  "wait_for_keypress w s = do {
     q \<leftarrow> secondary (tty_table s (fg_console s));
     sleep_if_empty w q s
   }"

definition change_console :: "nat \<Rightarrow> 'a tty_state_scheme \<Rightarrow> 'a tty_state_scheme" where
  "change_console new_console s =
     (if new_console = fg_console s \<or> new_console \<ge> NR_CONSOLES s then s
      else update_screen (s\<lparr>fg_console := new_console,
             table_list := (table_list s)(0 := new_console * 3, 1 := 1 + new_console * 3)\<rparr>))"

section \<open>Cooking the input\<close>

text \<open>\<^verbatim>\<open>PUTCH(127)\<close>, twice for a control character, and \<^verbatim>\<open>tty->write(tty)\<close>; \<open>DEC(head)\<close>.\<close>

definition echo_erase :: "'a tty_state_scheme world \<Rightarrow> nat \<Rightarrow> u8 \<Rightarrow> 'a tty_state_scheme \<Rightarrow> 'a tty_state_scheme option" where
  "echo_erase w tty c s =
     (if L_flag ECHO tty s
      then do {
        wq \<leftarrow> write_q (tty_table s tty);
        let s = (if sint c < 32 then PUTCH 127 wq s else s);
        tty_flush w tty (PUTCH 127 wq s)
      }
      else Some s)"

definition drop_last :: "nat \<Rightarrow> 'a tty_state_scheme \<Rightarrow> 'a tty_state_scheme" where
  "drop_last q = mod_queue q (\<lambda>x. x\<lparr>q_head := DEC (q_head x)\<rparr>)"

definition at_line_start :: "nat \<Rightarrow> nat \<Rightarrow> 'a tty_state_scheme \<Rightarrow> bool" where
  "at_line_start tty q s \<longleftrightarrow>
     (let x = tty_queues s q in q_EMPTY x \<or> q_LAST x = 10 \<or> is_cc VEOF (q_LAST x) tty s)"

partial_function (option) kill_line ::
  "'a tty_state_scheme world \<Rightarrow> nat \<Rightarrow> nat \<Rightarrow> 'a tty_state_scheme \<Rightarrow> 'a tty_state_scheme option" where
  "kill_line w tty q s =
     (if at_line_start tty q s then Some s
      else do {
        s \<leftarrow> echo_erase w tty (q_LAST (tty_queues s q)) s;
        kill_line w tty q (drop_last q s)
      })"

definition erase_char :: "'a tty_state_scheme world \<Rightarrow> nat \<Rightarrow> nat \<Rightarrow> 'a tty_state_scheme \<Rightarrow> 'a tty_state_scheme option" where
  "erase_char w tty q s =
     (if at_line_start tty q s then Some s
      else do {
        s \<leftarrow> echo_erase w tty (q_LAST (tty_queues s q)) s;
        Some (drop_last q s)
      })"

text \<open>The first conversions of a character; \<open>None\<close> inside means that it is dropped.\<close>

definition convert_input :: "nat \<Rightarrow> u8 \<Rightarrow> 'a tty_state_scheme \<Rightarrow> u8 option option" where
  "convert_input tty c s =
     (if c = 13 \<and> \<not> I_flag ICRNL tty s \<and> I_flag IGNCR tty s then Some None
      else do {
        let c = (if c = 13 then if I_flag ICRNL tty s then 10 else c
                 else if c = 10 \<and> I_flag INLCR tty s then 13 else c);
        c \<leftarrow> (if I_flag IUCLC tty s then tolower c else Some c);
        Some (Some c)
      })"

definition echo_char :: "'a tty_state_scheme world \<Rightarrow> nat \<Rightarrow> u8 \<Rightarrow> 'a tty_state_scheme \<Rightarrow> 'a tty_state_scheme option" where
  "echo_char w tty c s =
     (if L_flag ECHO tty s
      then do {
        wq \<leftarrow> write_q (tty_table s tty);
        tty_flush w tty
          (if c = 10 then PUTCH 13 wq (PUTCH 10 wq s)
           else if sint c < 32
           then if L_flag ECHOCTL tty s then PUTCH (c + 64) wq (PUTCH 0x5E wq s) else s
           else PUTCH c wq s)
      }
      else Some s)"

text \<open>The rest of the loop body of \<^verbatim>\<open>copy_to_cooked\<close>, for the character \<open>c\<close>; \<open>q\<close> is \<^verbatim>\<open>secondary\<close>.\<close>

definition cook_char :: "'a tty_state_scheme world \<Rightarrow> nat \<Rightarrow> nat \<Rightarrow> u8 \<Rightarrow> 'a tty_state_scheme \<Rightarrow> 'a tty_state_scheme option" where
  "cook_char w tty q c s =
     (if L_flag ICANON tty s \<and> is_cc VKILL c tty s then kill_line w tty q s
      else if L_flag ICANON tty s \<and> is_cc VERASE c tty s then erase_char w tty q s
      else if I_flag IXON tty s \<and> is_cc VSTOP c tty s
      then tty_flush w tty (mod_tty tty (\<lambda>t. t\<lparr>tty_stopped := 1\<rparr>) s)
      else if I_flag IXON tty s \<and> is_cc VSTART c tty s
      then tty_flush w tty (mod_tty tty (\<lambda>t. t\<lparr>tty_stopped := 0\<rparr>) s)
      else if L_flag ISIG tty s \<and> is_cc VINTR c tty s
      then do { (_, s) \<leftarrow> kill_pg (tty_pgrp (tty_table s tty)) (int SIGINT) True s; Some s }
      else if L_flag ISIG tty s \<and> is_cc VQUIT c tty s
      then do { (_, s) \<leftarrow> kill_pg (tty_pgrp (tty_table s tty)) (int SIGQUIT) True s; Some s }
      else if L_flag ISIG tty s \<and> is_cc VSUSP c tty s
      then if is_orphaned_pgrp (tty_pgrp (tty_table s tty)) s then Some s
           else do { (_, s) \<leftarrow> kill_pg (tty_pgrp (tty_table s tty)) (int SIGTSTP) True s; Some s }
      else do {
        let s = (if c = 10 \<or> is_cc VEOF c tty s then mod_queue q (\<lambda>x. x\<lparr>q_data := q_data x + 1\<rparr>) s else s);
        s \<leftarrow> echo_char w tty c s;
        Some (PUTCH c q s)
      })"

partial_function (option) cook_loop ::
  "'a tty_state_scheme world \<Rightarrow> nat \<Rightarrow> nat \<Rightarrow> nat \<Rightarrow> 'a tty_state_scheme \<Rightarrow> 'a tty_state_scheme option" where
  "cook_loop w tty rq q s =
     (if q_EMPTY (tty_queues s rq) \<or> q_FULL (tty_queues s q) then Some s
      else do {
        let (c, s) = GETCH rq s;
        r \<leftarrow> convert_input tty c s;
        s \<leftarrow> (case r of None \<Rightarrow> Some s | Some c \<Rightarrow> cook_char w tty q c s);
        cook_loop w tty rq q s
      })"

definition copy_to_cooked :: "'a tty_state_scheme world \<Rightarrow> nat \<Rightarrow> 'a tty_state_scheme \<Rightarrow> 'a tty_state_scheme option" where
  "copy_to_cooked w tty s =
     (let t = tty_table s tty in
      if read_q t = None \<and> write_q t = None \<and> secondary t = None then Some s
      else do {
        rq \<leftarrow> read_q t;
        q \<leftarrow> secondary t;
        s \<leftarrow> cook_loop w tty rq q s;
        Some (wake_up (Tty_queue_wait q) s)
      })"

section \<open>Reading and writing\<close>

text \<open>\<^verbatim>\<open>TTY_TABLE(nr)\<close>; an index beyond the table is \<open>None\<close>.\<close>

definition TTY_TABLE :: "nat \<Rightarrow> 'a tty_state_scheme \<Rightarrow> nat option" where
  "TTY_TABLE nr s =
     (let i = (if nr = 0 then fg_console s else if nr < 64 then nr - 1 else nr)
      in if i < 128 then Some i else None)"

definition do_tty_interrupt :: "'a tty_state_scheme world \<Rightarrow> nat \<Rightarrow> 'a tty_state_scheme \<Rightarrow> 'a tty_state_scheme option" where
  "do_tty_interrupt w tty s = do { t \<leftarrow> TTY_TABLE tty s; copy_to_cooked w t s }"

definition tty_signal :: "int \<Rightarrow> 'a tty_state_scheme \<Rightarrow> (int \<times> 'a tty_state_scheme) option" where
  "tty_signal sig s =
     (if is_orphaned_pgrp (t_pgrp (cur s)) s then Some (- EIO, s)
      else do {
        (_, s) \<leftarrow> kill_pg (t_pgrp (cur s)) sig True s;
        let handler = sa_handler (t_sigaction (cur s) (nat (sig - 1)));
        Some (if t_blocked (cur s) AND sigbit (nat sig) \<noteq> 0 \<or> handler = 1 then - EIO
              else if handler \<noteq> 0 then - EINTR else - ERESTARTSYS, s)
      })"

text \<open>The \<^verbatim>\<open>do\<close> loop of \<^verbatim>\<open>tty_read\<close>: the number of bytes read so far and the room left.\<close>

fun take_line :: "nat \<Rightarrow> nat \<Rightarrow> u32 \<Rightarrow> nat \<Rightarrow> nat \<Rightarrow> 'a tty_state_scheme \<Rightarrow> nat \<times> nat \<times> 'a tty_state_scheme" where
  "take_line tty q buf done 0 s = (done, 0, s)"
| "take_line tty q buf done (Suc nr) s =
     (let (c, s) = GETCH q s;
          eof = is_cc VEOF c tty s; canon = L_flag ICANON tty s;
          s = (if eof \<or> c = 10 then mod_queue q (\<lambda>x. x\<lparr>q_data := q_data x - 1\<rparr>) s else s)
      in if eof \<and> canon then (done, Suc nr, s)
         else let s = put_fs_byte c (buf + of_nat done) s in
           if nr = 0 \<or> c = 10 \<and> canon \<or> q_EMPTY (tty_queues s q) then (done + 1, nr, s)
           else take_line tty q buf (done + 1) nr s)"

partial_function (option) tty_read_loop ::
  "'a tty_state_scheme world \<Rightarrow> nat \<Rightarrow> nat option \<Rightarrow> int \<Rightarrow> u32 \<Rightarrow> u32 \<Rightarrow> nat \<Rightarrow> nat \<Rightarrow> 'a tty_state_scheme
     \<Rightarrow> (nat \<times> 'a tty_state_scheme) option" where
  "tty_read_loop w tty other minimum time buf done nr s =
     (if nr = 0 then Some (done, s)
      else do {
        s \<leftarrow> (case other of None \<Rightarrow> Some s | Some t \<Rightarrow> tty_flush w t s);
        q \<leftarrow> secondary (tty_table s tty);
        rq \<leftarrow> read_q (tty_table s tty);
        if q_EMPTY (tty_queues s q)
           \<or> L_flag ICANON tty s \<and> \<not> q_FULL (tty_queues s rq) \<and> q_data (tty_queues s q) = 0
        then if t_timeout (cur s) = 0 \<or> t_signal (cur s) AND NOT (t_blocked (cur s)) \<noteq> 0
             then Some (done, s)
             else do {
               s \<leftarrow> interruptible_sleep_on w (Tty_queue_wait q) s;
               tty_read_loop w tty other minimum time buf done nr s
             }
        else do {
          let (done, nr, s) = take_line tty q buf done nr s;
          let s = wake_up (Tty_queue_wait rq) s;
          let s = (if time \<noteq> 0 then mod_cur (\<lambda>t. t\<lparr>t_timeout := time + jiffies s\<rparr>) s else s);
          if L_flag ICANON tty s \<or> int done \<ge> minimum then Some (done, s)
          else tty_read_loop w tty other minimum time buf done nr s
        }
      })"

text \<open>\<^verbatim>\<open>minimum\<close> and \<^verbatim>\<open>time\<close>, with the timeout of the task set.\<close>

definition read_limits :: "nat \<Rightarrow> int \<Rightarrow> 'a tty_state_scheme \<Rightarrow> int \<times> u32 \<times> 'a tty_state_scheme" where
  "read_limits tty nr s =
     (let time = 10 * ucast (cc VTIME tty s); minimum = uint (cc VMIN tty s);
          timeout = (\<lambda>v. mod_cur (\<lambda>t. t\<lparr>t_timeout := v\<rparr>) s);
          (minimum, time, s) =
            (if L_flag ICANON tty s then (nr, 0, timeout 0xffffffff)
             else if minimum \<noteq> 0 then (minimum, time, timeout 0xffffffff)
             else (nr, 0, if time \<noteq> 0 then timeout (time + jiffies s) else s))
      in (min minimum nr, time, s))"

definition tty_read :: "'a tty_state_scheme world \<Rightarrow> nat \<Rightarrow> u32 \<Rightarrow> int \<Rightarrow> 'a tty_state_scheme \<Rightarrow> (int \<times> 'a tty_state_scheme) option" where
  "tty_read w channel buf nr s =
     (if channel > 255 then Some (- EIO, s)
      else do {
        tty \<leftarrow> TTY_TABLE channel s;
        let t = tty_table s tty;
        if write_q t = None \<and> read_q t = None \<and> secondary t = None then Some (- EIO, s)
        else if t_tty (cur s) = int channel \<and> tty_pgrp t \<noteq> t_pgrp (cur s) then tty_signal (int SIGTTIN) s
        else do {
          let other = (if channel AND 0x80 \<noteq> 0 then Some (channel XOR 0x40) else None);
          let (minimum, time, s) = read_limits tty nr s;
          (n, s) \<leftarrow> tty_read_loop w tty other minimum time buf 0 (nat nr) s;
          let s = mod_cur (\<lambda>t. t\<lparr>t_timeout := 0\<rparr>) s;
          Some (if t_signal (cur s) AND NOT (t_blocked (cur s)) \<noteq> 0 \<and> n = 0 then - ERESTARTSYS else int n, s)
        }
      })"

text \<open>The inner loop of \<^verbatim>\<open>tty_write\<close>, which fills the write queue: the address and the number of the
  bytes left.\<close>

partial_function (option) fill_write_q ::
  "nat \<Rightarrow> nat \<Rightarrow> u32 \<Rightarrow> nat \<Rightarrow> 'a tty_state_scheme \<Rightarrow> (u32 \<times> nat \<times> 'a tty_state_scheme) option" where
  "fill_write_q tty q b nr s =
     (if nr = 0 \<or> q_FULL (tty_queues s q) then Some (b, nr, s)
      else do {
        let c = get_fs_byte b s;
        let post = O_flag OPOST tty s;
        let c = (if post \<and> c = 13 \<and> O_flag OCRNL tty s then 10
                 else if post \<and> c = 10 \<and> O_flag ONLRET tty s then 13 else c);
        if post \<and> c = 10 \<and> \<not> cr_flag s \<and> O_flag ONLCR tty s
        then fill_write_q tty q b nr (PUTCH 13 q (s\<lparr>cr_flag := True\<rparr>))
        else do {
          c \<leftarrow> (if post \<and> O_flag OLCUC tty s then toupper c else Some c);
          fill_write_q tty q (b + 1) (nr - 1) (PUTCH c q (s\<lparr>cr_flag := False\<rparr>))
        }
      })"

partial_function (option) tty_write_loop ::
  "'a tty_state_scheme world \<Rightarrow> nat \<Rightarrow> u32 \<Rightarrow> nat \<Rightarrow> 'a tty_state_scheme \<Rightarrow> (u32 \<times> 'a tty_state_scheme) option" where
  "tty_write_loop w tty b nr s =
     (if nr = 0 then Some (b, s)
      else do {
        q \<leftarrow> write_q (tty_table s tty);
        s \<leftarrow> sleep_if_full w q s;
        if t_signal (cur s) AND NOT (t_blocked (cur s)) \<noteq> 0 then Some (b, s)
        else do {
          (b, nr, s) \<leftarrow> fill_write_q tty q b nr s;
          s \<leftarrow> tty_flush w tty s;
          s \<leftarrow> (if nr > 0 then schedule w s else Some s);
          tty_write_loop w tty b nr s
        }
      })"

definition tty_write :: "'a tty_state_scheme world \<Rightarrow> nat \<Rightarrow> u32 \<Rightarrow> int \<Rightarrow> 'a tty_state_scheme \<Rightarrow> (int \<times> 'a tty_state_scheme) option" where
  "tty_write w channel buf nr s =
     (if channel > 255 then Some (- EIO, s)
      else do {
        tty \<leftarrow> TTY_TABLE channel s;
        let t = tty_table s tty;
        if write_q t = None \<and> read_q t = None \<and> secondary t = None then Some (- EIO, s)
        else if L_flag TOSTOP tty s \<and> t_tty (cur s) = int channel \<and> tty_pgrp t \<noteq> t_pgrp (cur s)
        then tty_signal (int SIGTTOU) s
        else do {
          (b, s) \<leftarrow> tty_write_loop w tty buf (nat nr) s;
          Some (sint (b - buf), s)
        }
      })"

section \<open>Initialisation\<close>

definition chr_dev_init :: "'a sched_scheme world \<Rightarrow> u32 \<Rightarrow> 'a sched_scheme \<Rightarrow> 'a sched_scheme" where
  "chr_dev_init w keyboard_interrupt s =
     (let s = s\<lparr>idt := set_trap_gate 0x21 keyboard_interrupt (idt s)\<rparr>;
          (v, s) = inb w 0x21 s; s = outb (v AND 0xfd) 0x21 s;
          (a, s) = inb w 0x61 s; s = outb (a OR 0x80) 0x61 s
      in outb a 0x61 s)"

definition ORIG_INIT_C_CC :: "u8 list" where
  "ORIG_INIT_C_CC = [3, 28, 127, 21, 4, 0, 1, 0, 17, 19, 26, 0, 18, 15, 23, 22, 0]"

definition blank_tty :: "(nat \<Rightarrow> u8) \<Rightarrow> tty_struct \<Rightarrow> tty_struct" where
  "blank_tty init_cc t =
     \<lparr>t_termios = \<lparr>c_iflag = 0, c_oflag = 0, c_cflag = 0, c_lflag = 0, c_line = 0,
        c_cc = (\<lambda>i. if i < NCCS then init_cc i else c_cc (t_termios t) i), c_pad = c_pad (t_termios t)\<rparr>,
      tty_pgrp = 0, tty_session = 0, tty_stopped = 0, tty_driver = No_driver,
      read_q = None, write_q = None, secondary = None\<rparr>"

definition con_tty :: "nat \<Rightarrow> tty_struct \<Rightarrow> tty_struct" where
  "con_tty i t = t\<lparr>t_termios := (t_termios t)\<lparr>c_iflag := ICRNL, c_oflag := OPOST OR ONLCR,
       c_lflag := IXON OR ISIG OR ICANON OR ECHO OR ECHOCTL OR ECHOKE\<rparr>,
     tty_driver := Con_write, read_q := Some (3 * i), write_q := Some (1 + 3 * i), secondary := Some (2 + 3 * i)\<rparr>"

text \<open>\<^verbatim>\<open>B2400 | CS8\<close> is 0x3B; the queues of the serial lines come behind those of the consoles.\<close>

definition rs_tty :: "nat \<Rightarrow> tty_struct \<Rightarrow> tty_struct" where
  "rs_tty i t = t\<lparr>t_termios := (t_termios t)\<lparr>c_cflag := 0x3B\<rparr>,
     tty_driver := Rs_write, read_q := Some (24 + 3 * i), write_q := Some (25 + 3 * i),
     secondary := Some (26 + 3 * i)\<rparr>"

definition tty_init :: "'a tty_state_scheme world \<Rightarrow> u32 \<Rightarrow> u32 \<Rightarrow> 'a tty_state_scheme \<Rightarrow> 'a tty_state_scheme option" where
  "tty_init w rs1_interrupt rs2_interrupt s = do {
     let s = s\<lparr>INIT_C_CC := (\<lambda>i. if i < NCCS then ORIG_INIT_C_CC ! i else INIT_C_CC s i)\<rparr>;
     let s = s\<lparr>tty_queues := (\<lambda>i. if i < QUEUES
                 then \<lparr>q_data = (if i = 24 \<or> i = 25 then 0x3F8 else if i = 27 \<or> i = 28 then 0x2F8 else 0),
                       q_head = 0, q_tail = 0,
                       q_buf = (\<lambda>j. if j < 1024 then 0 else q_buf (tty_queues s i) j)\<rparr>
                 else tty_queues s i),
               wq := (\<lambda>q. case q of Tty_queue_wait i \<Rightarrow> if i < QUEUES then 0 else wq s q | _ \<Rightarrow> wq s q)\<rparr>;
     let s = s\<lparr>tty_table := (\<lambda>i. if i < 128 then blank_tty (INIT_C_CC s) (tty_table s i) else tty_table s i)\<rparr>;
     let s = fold (\<lambda>i. mod_tty i (con_tty i)) [0..<NR_CONSOLES s] s;
     let s = fold (\<lambda>i. mod_tty (64 + i) (rs_tty i)) [0..<NR_SERIALS] s;
     rs_init w rs1_interrupt rs2_interrupt s
   }"

end
