(* ===== verification/Tty_Ioctl.thy ===== *)
theory Tty_Ioctl
  imports Tty
begin

text \<open>\<^verbatim>\<open>kernel/chr_drv/tty_ioctl.c\<close>.\<close>

section \<open>The settings of a terminal as bytes\<close>

text \<open>\<^verbatim>\<open>struct termios\<close> as its 36 bytes: the 32-bit fields low byte first, \<^verbatim>\<open>c_line\<close>, \<^verbatim>\<open>c_cc\<close>, padding.\<close>

definition bytes32 :: "u32 \<Rightarrow> u8 list" where
  "bytes32 v = [ucast v, ucast (drop_bit 8 v), ucast (drop_bit 16 v), ucast (drop_bit 24 v)]"

definition word32 :: "u8 list \<Rightarrow> u32" where
  "word32 b = ucast (b ! 0) OR push_bit 8 (ucast (b ! 1)) OR push_bit 16 (ucast (b ! 2))
     OR push_bit 24 (ucast (b ! 3))"

definition termios_bytes :: "termios \<Rightarrow> u8 list" where
  "termios_bytes t = bytes32 (c_iflag t) @ bytes32 (c_oflag t) @ bytes32 (c_cflag t) @ bytes32 (c_lflag t)
     @ [c_line t] @ map (c_cc t) [0..<NCCS] @ map (c_pad t) [0..<2]"

definition set_termios_bytes :: "u8 list \<Rightarrow> termios \<Rightarrow> termios" where
  "set_termios_bytes b t =
     \<lparr>c_iflag = word32 b, c_oflag = word32 (drop 4 b), c_cflag = word32 (drop 8 b),
      c_lflag = word32 (drop 12 b), c_line = b ! 16,
      c_cc = (\<lambda>i. if i < NCCS then b ! (17 + i) else c_cc t i),
      c_pad = (\<lambda>i. if i < 2 then b ! (34 + i) else c_pad t i)\<rparr>"

fun put_fs_bytes :: "u8 list \<Rightarrow> u32 \<Rightarrow> 'a sched_scheme \<Rightarrow> 'a sched_scheme" where
  "put_fs_bytes [] a s = s"
| "put_fs_bytes (b # bs) a s = put_fs_bytes bs (a + 1) (put_fs_byte b a s)"

definition get_fs_bytes :: "nat \<Rightarrow> u32 \<Rightarrow> 'a sched_scheme \<Rightarrow> u8 list" where
  "get_fs_bytes n a s = map (\<lambda>i. get_fs_byte (a + of_nat i) s) [0..<n]"

section \<open>Settings\<close>

definition quotient :: "u16 list" where
  "quotient = [0, 2304, 1536, 1047, 857, 768, 576, 384, 192, 96, 64, 48, 24, 12, 6, 3]"

definition change_speed :: "nat \<Rightarrow> 'a tty_state_scheme \<Rightarrow> 'a tty_state_scheme option" where
  "change_speed tty s = do {
     q \<leftarrow> read_q (tty_table s tty);
     let port = (ucast (q_data (tty_queues s q)) :: u16);
     if port = 0 then Some s
     else do {
       let quot = quotient ! unat (c_cflag (t_termios (tty_table s tty)) AND CBAUD);
       let s = outb 0x80 (port + 3) s;
       let s = outb (ucast quot) port s;
       let s = outb (ucast (drop_bit 8 quot)) (port + 1) s;
       Some (outb 3 (port + 3) s)
     }
   }"

definition flush :: "nat option \<Rightarrow> 'a tty_state_scheme \<Rightarrow> 'a tty_state_scheme option" where
  "flush queue s = do { q \<leftarrow> queue; Some (mod_queue q (\<lambda>x. x\<lparr>q_head := q_tail x\<rparr>) s) }"

definition get_termios :: "'a tty_state_scheme world \<Rightarrow> nat \<Rightarrow> u32 \<Rightarrow> 'a tty_state_scheme \<Rightarrow> (int \<times> 'a tty_state_scheme) option" where
  "get_termios w tty p s = do {
     s \<leftarrow> verify_area w p 36 s;
     Some (0, put_fs_bytes (termios_bytes (t_termios (tty_table s tty))) p s)
   }"

definition set_termios :: "nat \<Rightarrow> u32 \<Rightarrow> int \<Rightarrow> 'a tty_state_scheme \<Rightarrow> (int \<times> 'a tty_state_scheme) option" where
  "set_termios tty p channel s = do {
     (retsig, s) \<leftarrow> (if t_tty (cur s) = channel \<and> tty_pgrp (tty_table s tty) \<noteq> t_pgrp (cur s)
                    then tty_signal (int SIGTTOU) s else Some (0, s));
     if retsig = - ERESTARTSYS \<or> retsig = - EINTR then Some (retsig, s)
     else do {
       let b = get_fs_bytes 36 p s;
       s \<leftarrow> change_speed tty (mod_tty tty (\<lambda>t. t\<lparr>t_termios := set_termios_bytes b (t_termios t)\<rparr>) s);
       Some (0, s)
     }
   }"

section \<open>The system call\<close>

text \<open>\<^verbatim>\<open>TCXONC\<close>.\<close>

definition tty_flow :: "'a tty_state_scheme world \<Rightarrow> nat \<Rightarrow> u32 \<Rightarrow> 'a tty_state_scheme \<Rightarrow> (int \<times> 'a tty_state_scheme) option" where
  "tty_flow w tty arg s =
     (let put = (\<lambda>c. if c = 0 then Some (0, s)
                  else do { q \<leftarrow> write_q (tty_table s tty); Some (0, PUTCH c q s) }) in
      if arg = 0 then do { s \<leftarrow> tty_flush w tty (mod_tty tty (\<lambda>t. t\<lparr>tty_stopped := 1\<rparr>) s); Some (0, s) }
      else if arg = 1 then do { s \<leftarrow> tty_flush w tty (mod_tty tty (\<lambda>t. t\<lparr>tty_stopped := 0\<rparr>) s); Some (0, s) }
      else if arg = 2 then put (cc VSTOP tty s)
      else if arg = 3 then put (cc VSTART tty s)
      else Some (- EINVAL, s))"

text \<open>\<^verbatim>\<open>TIOCSPGRP\<close>.\<close>

definition set_tty_pgrp :: "nat \<Rightarrow> int \<Rightarrow> u32 \<Rightarrow> 'a tty_state_scheme \<Rightarrow> int \<times> 'a tty_state_scheme" where
  "set_tty_pgrp tty dev arg s =
     (if t_tty (cur s) < 0 \<or> t_tty (cur s) \<noteq> dev \<or> tty_session (tty_table s tty) \<noteq> t_session (cur s)
      then (- ENOTTY, s)
      else let pgrp = sint (get_fs_long arg s) in
        if pgrp < 0 then (- EINVAL, s)
        else if session_of_pgrp pgrp s \<noteq> t_session (cur s) then (- EPERM, s)
        else (0, mod_tty tty (\<lambda>t. t\<lparr>tty_pgrp := pgrp\<rparr>) s))"

text \<open>\<^verbatim>\<open>verify_area\<close> and \<^verbatim>\<open>put_fs_long\<close> of a value.\<close>

definition answer :: "'a tty_state_scheme world \<Rightarrow> u32 \<Rightarrow> ('a tty_state_scheme \<Rightarrow> u32 option) \<Rightarrow> 'a tty_state_scheme \<Rightarrow> (int \<times> 'a tty_state_scheme) option" where
  "answer w arg v s = do { s \<leftarrow> verify_area w arg 4 s; x \<leftarrow> v s; Some (0, put_fs_long x arg s) }"

definition tty_ioctl :: "'a tty_state_scheme world \<Rightarrow> u32 \<Rightarrow> u32 \<Rightarrow> u32 \<Rightarrow> 'a tty_state_scheme \<Rightarrow> (int \<times> 'a tty_state_scheme) option" where
  "tty_ioctl w dev0 cmd arg s =
     (let dev = (if MAJOR dev0 = 5 then t_tty (cur s) else int (MINOR dev0)) in
      if dev < 0 then None
      else do {
        tty \<leftarrow> TTY_TABLE (nat dev) s;
        let t = tty_table s tty;
        if cmd = 0x5401 then get_termios w tty arg s
        else if cmd = 0x5404 then do { s \<leftarrow> flush (read_q t) s; set_termios tty arg dev s }
        else if cmd = 0x5403 \<or> cmd = 0x5402 then set_termios tty arg dev s
        else if cmd = 0x5408 then do { s \<leftarrow> flush (read_q t) s; Some (0, s) }
        else if cmd = 0x5407 \<or> cmd = 0x5409 then Some (0, s)
        else if cmd = 0x540A then tty_flow w tty arg s
        else if cmd = 0x540B
        then if arg = 0 then do { s \<leftarrow> flush (read_q t) s; Some (0, s) }
          else if arg = 1 then do { s \<leftarrow> flush (write_q t) s; Some (0, s) }
          else if arg = 2 then do { s \<leftarrow> flush (read_q t) s; s \<leftarrow> flush (write_q t) s; Some (0, s) }
          else Some (- EINVAL, s)
        else if cmd = 0x540F then answer w arg (\<lambda>s. Some (of_int (tty_pgrp (tty_table s tty)))) s
        else if cmd = 0x5410 then Some (set_tty_pgrp tty dev arg s)
        else if cmd = 0x5411
        then answer w arg (\<lambda>s. do { q \<leftarrow> write_q (tty_table s tty); Some (q_CHARS (tty_queues s q)) }) s
        else if cmd = 0x541B
        then answer w arg (\<lambda>s. do { q \<leftarrow> secondary (tty_table s tty); Some (q_CHARS (tty_queues s q)) }) s
        else Some (- EINVAL, s)
      })"

end
