(* ===== verification/File_IO.thy ===== *)
theory File_IO
  imports Pipe Tty_Ioctl
begin

text \<open>
  Reading and writing: \<^verbatim>\<open>fs/file_dev.c\<close>, \<^verbatim>\<open>fs/block_dev.c\<close>, \<^verbatim>\<open>fs/char_dev.c\<close> and the system calls of
  \<^verbatim>\<open>fs/read_write.c\<close>. The position \<^verbatim>\<open>f_pos\<close> of an open file is passed by the index \<open>f\<close> of its
  \<^verbatim>\<open>struct file\<close>.
\<close>

section \<open>Regular files\<close>

abbreviation (input) f_pos_of :: "nat \<Rightarrow> 'a files_scheme \<Rightarrow> int" where
  "f_pos_of f s \<equiv> f_pos (file_table s f)"

definition add_pos :: "nat \<Rightarrow> int \<Rightarrow> 'a files_scheme \<Rightarrow> 'a files_scheme" where
  "add_pos f n = mod_file f (\<lambda>x. x\<lparr>f_pos := s32 (f_pos x + n)\<rparr>)"

fun zeros_to_fs :: "nat \<Rightarrow> u32 \<Rightarrow> 'a sched_scheme \<Rightarrow> 'a sched_scheme" where
  "zeros_to_fs 0 buf s = s"
| "zeros_to_fs (Suc n) buf s = zeros_to_fs n (buf + 1) (put_fs_byte 0 buf s)"

text \<open>The loop of \<^verbatim>\<open>file_read\<close>; the number of bytes left.\<close>

partial_function (option) file_read_loop ::
  "'a fs_scheme world \<Rightarrow> nat \<Rightarrow> nat \<Rightarrow> u32 \<Rightarrow> int \<Rightarrow> 'a fs_scheme \<Rightarrow> (int \<times> 'a fs_scheme) option" where
  "file_read_loop w n f buf left s =
     (if left = 0 then Some (left, s)
      else do {
        (nr, s) \<leftarrow> bmap w n (f_pos_of f s sdiv 1024) s;
        (b, s) \<leftarrow> (if nr = 0 then Some (None, s) else bread w (idev n s) nr s);
        if nr \<noteq> 0 \<and> b = None then Some (left, s)
        else do {
          let off = f_pos_of f s smod 1024;
          let chars = min (1024 - off) left;
          let s = add_pos f chars s;
          s \<leftarrow> (case b of
                 None \<Rightarrow> Some (zeros_to_fs (nat chars) buf s)
               | Some bh \<Rightarrow> brelse w b (bytes_to_fs (nat chars) (data_of bh s + of_int off) buf s));
          file_read_loop w n f (buf + of_int chars) (left - chars) s
        }
      })"

definition file_read ::
  "'a fs_scheme world \<Rightarrow> nat \<Rightarrow> nat \<Rightarrow> u32 \<Rightarrow> int \<Rightarrow> 'a fs_scheme \<Rightarrow> (int \<times> 'a fs_scheme) option" where
  "file_read w n f buf count s =
     (if count \<le> 0 then Some (0, s)
      else do {
        (left, s) \<leftarrow> file_read_loop w n f buf count s;
        Some (if count - left \<noteq> 0 then count - left else - EERROR,
              mod_inode n (\<lambda>x. x\<lparr>i_atime := CURRENT_TIME s\<rparr>) s)
      })"

text \<open>The loop of \<^verbatim>\<open>file_write\<close>; the position and the number of bytes written.\<close>

partial_function (option) file_write_loop ::
  "'a fs_scheme world \<Rightarrow> nat \<Rightarrow> u32 \<Rightarrow> int \<Rightarrow> int \<Rightarrow> int \<Rightarrow> 'a fs_scheme \<Rightarrow> ((int \<times> int) \<times> 'a fs_scheme) option" where
  "file_write_loop w n buf count pos i s =
     (if \<not> i < count then Some ((pos, i), s)
      else do {
        (block, s) \<leftarrow> create_block w n (pos sdiv 1024) s;
        (b, s) \<leftarrow> (if block = 0 then Some (None, s) else bread w (idev n s) block s);
        case b of None \<Rightarrow> Some ((pos, i), s)
        | Some bh \<Rightarrow> do {
            let off = pos smod 1024;
            let s = mod_buf bh (\<lambda>x. x\<lparr>b_dirt := 1\<rparr>) s;
            let c = min (1024 - off) (count - i);
            let pos = s32 (pos + c);
            let s = (if of_int pos > i_size (inode_table s n)
                     then mod_inode n (\<lambda>x. x\<lparr>i_size := of_int pos, i_dirt := 1\<rparr>) s else s);
            s \<leftarrow> brelse w b (bytes_from_fs (nat c) (data_of bh s + of_int off) buf s);
            file_write_loop w n (buf + of_int c) count pos (i + c) s
          }
      })"

definition file_write ::
  "'a fs_scheme world \<Rightarrow> nat \<Rightarrow> nat \<Rightarrow> u32 \<Rightarrow> int \<Rightarrow> 'a fs_scheme \<Rightarrow> (int \<times> 'a fs_scheme) option" where
  "file_write w n f buf count s = do {
     let append = (\<lambda>s. f_flags (file_table s f) AND 0x400 \<noteq> 0);
     let pos = (if append s then sint (i_size (inode_table s n)) else f_pos_of f s);
     ((pos, i), s) \<leftarrow> file_write_loop w n buf count pos 0 s;
     let s = mod_inode n (\<lambda>x. x\<lparr>i_mtime := CURRENT_TIME s\<rparr>) s;
     let s = (if append s then s
              else mod_inode n (\<lambda>x. x\<lparr>i_ctime := CURRENT_TIME s\<rparr>) (mod_file f (\<lambda>x. x\<lparr>f_pos := pos\<rparr>) s));
     Some (if i \<noteq> 0 then i else - 1, s)
   }"

section \<open>Block devices\<close>

definition dev_blocks :: "u32 \<Rightarrow> 'a blk_scheme \<Rightarrow> int" where
  "dev_blocks dev s =
     (case blk_size s (MAJOR dev) of Some sizes \<Rightarrow> sizes (MINOR dev) | None \<Rightarrow> 0x7fffffff)"

partial_function (option) block_write_loop ::
  "'a fs_scheme world \<Rightarrow> u32 \<Rightarrow> nat \<Rightarrow> u32 \<Rightarrow> int \<Rightarrow> int \<Rightarrow> int \<Rightarrow> int \<Rightarrow> int \<Rightarrow> 'a fs_scheme \<Rightarrow> (int \<times> 'a fs_scheme) option" where
  "block_write_loop w dev f buf sz block offset count written s =
     (if count \<le> 0 then Some (written, s)
      else if block \<ge> sz then Some (if written \<noteq> 0 then written else - EIO, s)
      else do {
        let chars = min (1024 - offset) count;
        (b, s) \<leftarrow> (if chars = 1024 then do { (bh, s) \<leftarrow> getblk w dev (of_int block) s; Some (Some bh, s) }
                  else breada w dev (of_int block) [block + 1, block + 2, - 1] s);
        case b of None \<Rightarrow> Some (if written \<noteq> 0 then written else - EIO, s)
        | Some bh \<Rightarrow> do {
            let s = bytes_from_fs (nat chars) (data_of bh s + of_int offset) buf (add_pos f chars s);
            s \<leftarrow> brelse w b (mod_buf bh (\<lambda>x. x\<lparr>b_dirt := 1\<rparr>) s);
            block_write_loop w dev f (buf + of_int chars) sz (block + 1) 0 (count - chars) (written + chars) s
          }
      })"

definition block_write ::
  "'a fs_scheme world \<Rightarrow> u32 \<Rightarrow> nat \<Rightarrow> u32 \<Rightarrow> int \<Rightarrow> 'a fs_scheme \<Rightarrow> (int \<times> 'a fs_scheme) option" where
  "block_write w dev f buf count s =
     block_write_loop w dev f buf (dev_blocks dev s) (f_pos_of f s div 1024) (f_pos_of f s mod 1024) count 0 s"

partial_function (option) block_read_loop ::
  "'a fs_scheme world \<Rightarrow> u32 \<Rightarrow> nat \<Rightarrow> u32 \<Rightarrow> int \<Rightarrow> int \<Rightarrow> int \<Rightarrow> int \<Rightarrow> int \<Rightarrow> 'a fs_scheme \<Rightarrow> (int \<times> 'a fs_scheme) option" where
  "block_read_loop w dev f buf sz block offset count done s =
     (if count \<le> 0 then Some (done, s)
      else if block \<ge> sz then Some (if done \<noteq> 0 then done else - EIO, s)
      else do {
        let chars = min (1024 - offset) count;
        (b, s) \<leftarrow> breada w dev (of_int block) [block + 1, block + 2, - 1] s;
        case b of None \<Rightarrow> Some (if done \<noteq> 0 then done else - EIO, s)
        | Some bh \<Rightarrow> do {
            let s = bytes_to_fs (nat chars) (data_of bh s + of_int offset) buf (add_pos f chars s);
            s \<leftarrow> brelse w b s;
            block_read_loop w dev f (buf + of_int chars) sz (block + 1) 0 (count - chars) (done + chars) s
          }
      })"

text \<open>Here \<^verbatim>\<open>pos\<close> points to an \<^verbatim>\<open>unsigned int\<close>.\<close>

definition block_read ::
  "'a fs_scheme world \<Rightarrow> u32 \<Rightarrow> nat \<Rightarrow> u32 \<Rightarrow> int \<Rightarrow> 'a fs_scheme \<Rightarrow> (int \<times> 'a fs_scheme) option" where
  "block_read w dev f buf count s =
     (let pos = (of_int (f_pos_of f s) :: u32)
      in block_read_loop w dev f buf (dev_blocks dev s) (uint (drop_bit 10 pos)) (uint (pos AND 0x3FF)) count 0 s)"

section \<open>Character devices\<close>

definition rw_tty ::
  "'a tty_state_scheme world \<Rightarrow> int \<Rightarrow> nat \<Rightarrow> u32 \<Rightarrow> int \<Rightarrow> 'a tty_state_scheme \<Rightarrow> (int \<times> 'a tty_state_scheme) option" where
  "rw_tty w rw minr buf count s = (if rw = READ then tty_read w minr buf count s else tty_write w minr buf count s)"

text \<open>The loop of \<^verbatim>\<open>rw_port\<close> over the ports from \<open>i\<close> on.\<close>

fun port_loop :: "'a sched_scheme world \<Rightarrow> int \<Rightarrow> u32 \<Rightarrow> nat \<Rightarrow> int \<Rightarrow> 'a sched_scheme \<Rightarrow> int \<times> 'a sched_scheme" where
  "port_loop w rw buf 0 i s = (i, s)"
| "port_loop w rw buf (Suc count) i s =
     (if \<not> i < 65536 then (i, s)
      else port_loop w rw (buf + 1) count (i + 1)
        (if rw = READ then let (v, s) = inb w (of_int i) s in put_fs_byte v buf s
         else outb (get_fs_byte buf s) (of_int i) s))"

definition rw_port ::
  "'a files_scheme world \<Rightarrow> int \<Rightarrow> nat \<Rightarrow> u32 \<Rightarrow> int \<Rightarrow> 'a files_scheme \<Rightarrow> int \<times> 'a files_scheme" where
  "rw_port w rw f buf count s =
     (let (i, s') = port_loop w rw buf (nat count) (f_pos_of f s) s; n = i - f_pos_of f s
      in (n, add_pos f n s'))"

definition rw_memory ::
  "'a files_scheme world \<Rightarrow> int \<Rightarrow> nat \<Rightarrow> nat \<Rightarrow> u32 \<Rightarrow> int \<Rightarrow> 'a files_scheme \<Rightarrow> int \<times> 'a files_scheme" where
  "rw_memory w rw minr f buf count s =
     (if minr = 3 then (if rw = READ then 0 else count, s)
      else if minr = 4 then rw_port w rw f buf count s
      else (- EIO, s))"

text \<open>\<^verbatim>\<open>rw_char\<close> with its table \<^verbatim>\<open>crw_table\<close> of eight entries.\<close>

definition rw_char ::
  "'a tty_state_scheme world \<Rightarrow> int \<Rightarrow> u32 \<Rightarrow> nat \<Rightarrow> u32 \<Rightarrow> int \<Rightarrow> 'a tty_state_scheme \<Rightarrow> (int \<times> 'a tty_state_scheme) option" where
  "rw_char w rw dev f buf count s =
     (if MAJOR dev = 1 then Some (rw_memory w rw (MINOR dev) f buf count s)
      else if MAJOR dev = 4 then rw_tty w rw (MINOR dev) buf count s
      else if MAJOR dev = 5
      then if t_tty (cur s) < 0 then Some (- EPERM, s) else rw_tty w rw (nat (t_tty (cur s))) buf count s
      else Some (- ENODEV, s))"

section \<open>The system calls\<close>

text \<open>\<^verbatim>\<open>fd >= NR_OPEN || !(file=current->filp[fd])\<close> fails when this is \<open>None\<close>.\<close>

definition file_of_fd :: "nat \<Rightarrow> 'a sched_scheme \<Rightarrow> nat option" where
  "file_of_fd fd s = (if fd < NR_OPEN then t_filp (cur s) fd else None)"

definition sys_lseek :: "nat \<Rightarrow> int \<Rightarrow> int \<Rightarrow> 'a files_scheme \<Rightarrow> int \<times> 'a files_scheme" where
  "sys_lseek fd offset origin s =
     (case file_of_fd fd s of None \<Rightarrow> (- EBADF, s)
      | Some f \<Rightarrow> (case f_inode (file_table s f) of None \<Rightarrow> (- EBADF, s)
          | Some n \<Rightarrow>
              let major = MAJOR (idev n s);
                  seek = (\<lambda>pos. if pos < 0 then (- EINVAL, s)
                            else (pos, mod_file f (\<lambda>x. x\<lparr>f_pos := pos\<rparr>) s))
              in if \<not> (1 \<le> major \<and> major \<le> 3) then (- EBADF, s)
                 else if i_pipe (inode_table s n) \<noteq> 0 then (- ESPIPE, s)
                 else if origin = 0 then seek offset
                 else if origin = 1 then seek (s32 (f_pos_of f s + offset))
                 else if origin = 2 then seek (s32 (uint (i_size (inode_table s n)) + offset))
                 else (- EINVAL, s)))"

text \<open>In \<^verbatim>\<open>sys_read\<close> the count of a file or directory is cut at its end, in unsigned arithmetic.\<close>

definition sys_read :: "'a tty_state_scheme world \<Rightarrow> nat \<Rightarrow> u32 \<Rightarrow> int \<Rightarrow> 'a tty_state_scheme \<Rightarrow> (int \<times> 'a tty_state_scheme) option" where
  "sys_read w fd buf count s =
     (case (if count < 0 then None else file_of_fd fd s) of None \<Rightarrow> Some (- EINVAL, s)
      | Some f \<Rightarrow>
          if count = 0 then Some (0, s)
          else do {
            s \<leftarrow> verify_area w buf count s;
            n \<leftarrow> f_inode (file_table s f);
            let i = inode_table s n;
            let dev = (ucast (zone n 0 s) :: u32);
            if i_pipe i \<noteq> 0
            then if f_mode (file_table s f) AND 1 \<noteq> 0 then read_pipe w n buf count s else Some (- EIO, s)
            else if S_ISCHR (i_mode i) then rw_char w READ dev f buf count s
            else if S_ISBLK (i_mode i) then block_read w dev f buf count s
            else if S_ISDIR (i_mode i) \<or> S_ISREG (i_mode i)
            then let count = (if (of_int (count + f_pos_of f s) :: u32) > i_size i
                              then sint (i_size i - of_int (f_pos_of f s)) else count)
                 in if count \<le> 0 then Some (0, s) else file_read w n f buf count s
            else Some (- EINVAL, s)
          })"

definition sys_write :: "'a tty_state_scheme world \<Rightarrow> nat \<Rightarrow> u32 \<Rightarrow> int \<Rightarrow> 'a tty_state_scheme \<Rightarrow> (int \<times> 'a tty_state_scheme) option" where
  "sys_write w fd buf count s =
     (case (if count < 0 then None else file_of_fd fd s) of None \<Rightarrow> Some (- EINVAL, s)
      | Some f \<Rightarrow>
          if count = 0 then Some (0, s)
          else do {
            n \<leftarrow> f_inode (file_table s f);
            let i = inode_table s n;
            let dev = (ucast (zone n 0 s) :: u32);
            if i_pipe i \<noteq> 0
            then if f_mode (file_table s f) AND 2 \<noteq> 0 then write_pipe w n buf count s else Some (- EIO, s)
            else if S_ISCHR (i_mode i) then rw_char w WRITE dev f buf count s
            else if S_ISBLK (i_mode i) then block_write w dev f buf count s
            else if S_ISREG (i_mode i) then file_write w n f buf count s
            else Some (- EINVAL, s)
          })"

end
