(* ===== verification/File_Ops.thy ===== *)
theory File_Ops
  imports File_IO
begin

text \<open>
  The system calls on descriptors and on the attributes of files: \<^verbatim>\<open>fs/open.c\<close>, \<^verbatim>\<open>fs/fcntl.c\<close>,
  \<^verbatim>\<open>fs/stat.c\<close> and \<^verbatim>\<open>fs/ioctl.c\<close>.
\<close>

section \<open>Attributes\<close>

definition sys_ustat :: int where "sys_ustat = - ENOSYS"

definition sys_utime :: "'a fs_scheme world \<Rightarrow> u32 \<Rightarrow> u32 \<Rightarrow> 'a fs_scheme \<Rightarrow> (int \<times> 'a fs_scheme) option" where
  "sys_utime w filename utimbuf s = do {
     (r, s) \<leftarrow> namei w filename s;
     case r of None \<Rightarrow> Some (- ENOENT, s)
     | Some n \<Rightarrow> do {
         let actime = (if utimbuf \<noteq> 0 then get_fs_long utimbuf s else CURRENT_TIME s);
         let modtime = (if utimbuf \<noteq> 0 then get_fs_long (utimbuf + 4) s else CURRENT_TIME s);
         s \<leftarrow> iput w (Some n) (mod_inode n (\<lambda>x. x\<lparr>i_atime := actime, i_mtime := modtime, i_dirt := 1\<rparr>) s);
         Some (0, s)
       }
   }"

text \<open>\<^verbatim>\<open>sys_access\<close> shifts by 6 for the group too.\<close>

definition sys_access :: "'a fs_scheme world \<Rightarrow> u32 \<Rightarrow> u16 \<Rightarrow> 'a fs_scheme \<Rightarrow> (int \<times> 'a fs_scheme) option" where
  "sys_access w filename mode0 s = do {
     let mode = mode0 AND 7;
     (r, s) \<leftarrow> namei w filename s;
     case r of None \<Rightarrow> Some (- EACCES, s)
     | Some n \<Rightarrow> do {
         let imode = i_mode (inode_table s n) AND 0x1FF;
         s \<leftarrow> iput w (Some n) s;
         let res = (if t_uid (cur s) = i_uid (inode_table s n) then drop_bit 6 imode
                    else if t_gid (cur s) = ucast (i_gid (inode_table s n)) then drop_bit 6 imode else imode);
         Some (if res AND 7 AND mode = mode then 0
               else if t_uid (cur s) = 0 \<and> (mode AND 1 = 0 \<or> imode AND 0x49 \<noteq> 0) then 0
               else - EACCES, s)
       }
   }"

text \<open>The common text of \<^verbatim>\<open>sys_chdir\<close> and \<^verbatim>\<open>sys_chroot\<close>.\<close>

definition change_dir ::
  "(task_struct \<Rightarrow> nat option) \<Rightarrow> (nat option \<Rightarrow> task_struct \<Rightarrow> task_struct) \<Rightarrow> 'a fs_scheme world \<Rightarrow> u32
     \<Rightarrow> 'a fs_scheme \<Rightarrow> (int \<times> 'a fs_scheme) option" where
  "change_dir get upd w filename s = do {
     (r, s) \<leftarrow> namei w filename s;
     case r of None \<Rightarrow> Some (- ENOENT, s)
     | Some n \<Rightarrow>
         if \<not> S_ISDIR (i_mode (inode_table s n)) then fail w [n] ENOTDIR s
         else do { s \<leftarrow> iput w (get (cur s)) s; Some (0, mod_cur (upd (Some n)) s) }
   }"

definition sys_chdir :: "'a fs_scheme world \<Rightarrow> u32 \<Rightarrow> 'a fs_scheme \<Rightarrow> (int \<times> 'a fs_scheme) option" where
  "sys_chdir = change_dir t_pwd (\<lambda>n t. t\<lparr>t_pwd := n\<rparr>)"

definition sys_chroot :: "'a fs_scheme world \<Rightarrow> u32 \<Rightarrow> 'a fs_scheme \<Rightarrow> (int \<times> 'a fs_scheme) option" where
  "sys_chroot = change_dir t_root (\<lambda>n t. t\<lparr>t_root := n\<rparr>)"

definition sys_chmod :: "'a fs_scheme world \<Rightarrow> u32 \<Rightarrow> u16 \<Rightarrow> 'a fs_scheme \<Rightarrow> (int \<times> 'a fs_scheme) option" where
  "sys_chmod w filename mode s = do {
     (r, s) \<leftarrow> namei w filename s;
     case r of None \<Rightarrow> Some (- ENOENT, s)
     | Some n \<Rightarrow>
         if t_euid (cur s) \<noteq> i_uid (inode_table s n) \<and> \<not> suser s then fail w [n] EACCES s
         else do {
           s \<leftarrow> iput w (Some n) (mod_inode n (\<lambda>x. x\<lparr>i_mode := (mode AND 0xFFF) OR (i_mode x AND NOT 0xFFF),
                  i_dirt := 1\<rparr>) s);
           Some (0, s)
         }
   }"

definition sys_chown :: "'a fs_scheme world \<Rightarrow> u32 \<Rightarrow> int \<Rightarrow> int \<Rightarrow> 'a fs_scheme \<Rightarrow> (int \<times> 'a fs_scheme) option" where
  "sys_chown w filename uid gid s = do {
     (r, s) \<leftarrow> namei w filename s;
     case r of None \<Rightarrow> Some (- ENOENT, s)
     | Some n \<Rightarrow>
         if \<not> suser s then fail w [n] EACCES s
         else do {
           s \<leftarrow> iput w (Some n) (mod_inode n (\<lambda>x. x\<lparr>i_uid := of_int uid, i_gid := of_int gid, i_dirt := 1\<rparr>) s);
           Some (0, s)
         }
   }"

section \<open>Descriptors\<close>

definition close_on_exec_bit :: "nat \<Rightarrow> u32" where
  "close_on_exec_bit fd = push_bit fd 1"

abbreviation (input) clear_close_on_exec :: "nat \<Rightarrow> 'a sched_scheme \<Rightarrow> 'a sched_scheme" where
  "clear_close_on_exec fd s \<equiv>
     mod_cur (\<lambda>t. t\<lparr>t_close_on_exec := t_close_on_exec t AND NOT (close_on_exec_bit fd)\<rparr>) s"

definition sys_close :: "'a fs_scheme world \<Rightarrow> nat \<Rightarrow> 'a fs_scheme \<Rightarrow> (int \<times> 'a fs_scheme) option" where
  "sys_close w fd s0 =
     (if fd \<ge> NR_OPEN then Some (- EINVAL, s0)
      else let s = clear_close_on_exec fd s0 in
        (case t_filp (cur s) fd of None \<Rightarrow> Some (- EINVAL, s)
         | Some f \<Rightarrow>
             let s = set_filp fd None s in
             if f_count (file_table s f) = 0 then None
             else let s = mod_file f (\<lambda>x. x\<lparr>f_count := f_count x - 1\<rparr>) s in
               if f_count (file_table s f) \<noteq> 0 then Some (0, s)
               else do { s \<leftarrow> iput w (f_inode (file_table s f)) s; Some (0, s) }))"

definition dupfd :: "nat \<Rightarrow> nat \<Rightarrow> 'a files_scheme \<Rightarrow> int \<times> 'a files_scheme" where
  "dupfd fd arg s =
     (case file_of_fd fd s of None \<Rightarrow> (- EBADF, s)
      | Some f \<Rightarrow>
          if arg \<ge> NR_OPEN then (- EINVAL, s)
          else (case List.find (\<lambda>i. t_filp (cur s) i = None) [arg..<NR_OPEN] of
              None \<Rightarrow> (- EMFILE, s)
            | Some arg \<Rightarrow>
                (int arg, mod_file f (\<lambda>x. x\<lparr>f_count := f_count x + 1\<rparr>)
                   (set_filp arg (Some f) (clear_close_on_exec arg s)))))"

definition sys_dup2 :: "'a fs_scheme world \<Rightarrow> nat \<Rightarrow> nat \<Rightarrow> 'a fs_scheme \<Rightarrow> (int \<times> 'a fs_scheme) option" where
  "sys_dup2 w oldfd newfd s = do { (_, s) \<leftarrow> sys_close w newfd s; Some (dupfd oldfd newfd s) }"

definition sys_dup :: "nat \<Rightarrow> 'a files_scheme \<Rightarrow> int \<times> 'a files_scheme" where
  "sys_dup fildes s = dupfd fildes 0 s"

definition sys_fcntl :: "nat \<Rightarrow> nat \<Rightarrow> u32 \<Rightarrow> 'a files_scheme \<Rightarrow> int \<times> 'a files_scheme" where
  "sys_fcntl fd cmd arg s =
     (case file_of_fd fd s of None \<Rightarrow> (- EBADF, s)
      | Some f \<Rightarrow>
          if cmd = 0 then dupfd fd (unat arg) s
          else if cmd = 1 then (if t_close_on_exec (cur s) AND close_on_exec_bit fd \<noteq> 0 then 1 else 0, s)
          else if cmd = 2
          then (0, if arg AND 1 \<noteq> 0
                   then mod_cur (\<lambda>t. t\<lparr>t_close_on_exec := t_close_on_exec t OR close_on_exec_bit fd\<rparr>) s
                   else clear_close_on_exec fd s)
          else if cmd = 3 then (uint (f_flags (file_table s f)), s)
          else if cmd = 4
          then (0, mod_file f (\<lambda>x. x\<lparr>f_flags := (f_flags x AND NOT 0xC00) OR (ucast arg AND 0xC00)\<rparr>) s)
          else (- 1, s))"

section \<open>Opening\<close>

definition check_char_dev :: "u32 \<Rightarrow> u32 \<Rightarrow> 'a tty_state_scheme \<Rightarrow> (int \<times> 'a tty_state_scheme) option" where
  "check_char_dev dev flag s =
     (if MAJOR dev = 4 \<or> MAJOR dev = 5
      then let mn = (if MAJOR dev = 5 then t_tty (cur s) else int (MINOR dev)) in
        if mn < 0 then Some (- 1, s)
        else do {
          tty \<leftarrow> TTY_TABLE (nat mn) s;
          let s = (if flag AND O_NOCTTY = 0 \<and> t_leader (cur s) \<noteq> 0 \<and> t_tty (cur s) < 0
                      \<and> tty_session (tty_table s tty) = 0
                   then mod_tty tty (\<lambda>t. t\<lparr>tty_session := t_session (cur s), tty_pgrp := t_pgrp (cur s)\<rparr>)
                          (mod_cur (\<lambda>t. t\<lparr>t_tty := mn\<rparr>) s)
                   else s);
          Some (0, if flag AND O_NONBLOCK \<noteq> 0
                   then mod_tty tty (\<lambda>t. t\<lparr>t_termios := (t_termios t)\<lparr>
                          c_cc := (c_cc (t_termios t))(VMIN := 0, VTIME := 0),
                          c_lflag := c_lflag (t_termios t) AND NOT ICANON\<rparr>\<rparr>) s
                   else s)
        }
      else Some (0, s))"

text \<open>\<^verbatim>\<open>f_mode\<close> is set from the mode of the inode, not from the flags.\<close>

definition sys_open ::
  "'a tty_state_scheme world \<Rightarrow> u32 \<Rightarrow> u32 \<Rightarrow> u16 \<Rightarrow> 'a tty_state_scheme \<Rightarrow> (int \<times> 'a tty_state_scheme) option" where
  "sys_open w filename flag mode s =
     (case free_fds s of [] \<Rightarrow> Some (- EINVAL, s)
      | fd # _ \<Rightarrow>
          let mode = masked_mode mode s; s = clear_close_on_exec fd s in
          (case free_files s of [] \<Rightarrow> Some (- EINVAL, s)
           | f # _ \<Rightarrow> do {
               let unuse = (\<lambda>s. mod_file f (\<lambda>x. x\<lparr>f_count := 0\<rparr>) (set_filp fd None s));
               ((i, inode), s) \<leftarrow> open_namei w filename flag mode
                  (mod_file f (\<lambda>x. x\<lparr>f_count := f_count x + 1\<rparr>) (set_filp fd (Some f) s));
               if i < 0 then Some (i, unuse s)
               else do {
                 n \<leftarrow> inode;
                 (c, s) \<leftarrow> (if S_ISCHR (i_mode (inode_table s n)) then check_char_dev (ucast (zone n 0 s)) flag s
                           else Some (0, s));
                 if c \<noteq> 0 then do { s \<leftarrow> iput w (Some n) s; Some (- EAGAIN, unuse s) }
                 else Some (int fd, mod_file f (\<lambda>_. \<lparr>f_mode = i_mode (inode_table s n), f_flags = ucast flag,
                        f_count = 1, f_inode = Some n, f_pos = 0\<rparr>) s)
               }
             }))"

definition sys_creat :: "'a tty_state_scheme world \<Rightarrow> u32 \<Rightarrow> u16 \<Rightarrow> 'a tty_state_scheme \<Rightarrow> (int \<times> 'a tty_state_scheme) option" where
  "sys_creat w pathname mode s = sys_open w pathname (O_CREAT OR O_TRUNC) mode s"

section \<open>Status\<close>

definition bytes16 :: "u16 \<Rightarrow> u8 list" where
  "bytes16 v = [ucast v, ucast (drop_bit 8 v)]"

text \<open>The 32 bytes of \<^verbatim>\<open>struct stat\<close>; the three bytes of padding, \<open>pad\<close>, are whatever was on the
  kernel's stack.\<close>

definition stat_bytes :: "(nat \<Rightarrow> u8) \<Rightarrow> m_inode \<Rightarrow> u8 list" where
  "stat_bytes pad i = bytes16 (i_dev i) @ bytes16 (i_num i) @ bytes16 (i_mode i) @ [i_nlinks i, pad 0]
     @ bytes16 (i_uid i) @ bytes16 (ucast (i_gid i)) @ bytes16 (i_zone i 0) @ [pad 1, pad 2]
     @ bytes32 (i_size i) @ bytes32 (i_atime i) @ bytes32 (i_mtime i) @ bytes32 (i_ctime i)"

definition cp_stat :: "'a fs_scheme world \<Rightarrow> (nat \<Rightarrow> u8) \<Rightarrow> nat \<Rightarrow> u32 \<Rightarrow> 'a fs_scheme \<Rightarrow> 'a fs_scheme option" where
  "cp_stat w pad n statbuf s = do {
     s \<leftarrow> verify_area w statbuf 32 s;
     Some (put_fs_bytes (stat_bytes pad (inode_table s n)) statbuf s)
   }"

definition stat_inode ::
  "'a fs_scheme world \<Rightarrow> (nat \<Rightarrow> u8) \<Rightarrow> nat option \<Rightarrow> u32 \<Rightarrow> 'a fs_scheme \<Rightarrow> (int \<times> 'a fs_scheme) option" where
  "stat_inode w pad r statbuf s =
     (case r of None \<Rightarrow> Some (- ENOENT, s)
      | Some n \<Rightarrow> do { s \<leftarrow> cp_stat w pad n statbuf s; s \<leftarrow> iput w (Some n) s; Some (0, s) })"

definition sys_stat :: "'a fs_scheme world \<Rightarrow> (nat \<Rightarrow> u8) \<Rightarrow> u32 \<Rightarrow> u32 \<Rightarrow> 'a fs_scheme \<Rightarrow> (int \<times> 'a fs_scheme) option" where
  "sys_stat w pad filename statbuf s = do { (r, s) \<leftarrow> namei w filename s; stat_inode w pad r statbuf s }"

definition sys_lstat :: "'a fs_scheme world \<Rightarrow> (nat \<Rightarrow> u8) \<Rightarrow> u32 \<Rightarrow> u32 \<Rightarrow> 'a fs_scheme \<Rightarrow> (int \<times> 'a fs_scheme) option" where
  "sys_lstat w pad filename statbuf s = do { (r, s) \<leftarrow> lnamei w filename s; stat_inode w pad r statbuf s }"

definition sys_fstat :: "'a fs_scheme world \<Rightarrow> (nat \<Rightarrow> u8) \<Rightarrow> nat \<Rightarrow> u32 \<Rightarrow> 'a fs_scheme \<Rightarrow> (int \<times> 'a fs_scheme) option" where
  "sys_fstat w pad fd statbuf s =
     (case file_of_fd fd s of None \<Rightarrow> Some (- EBADF, s)
      | Some f \<Rightarrow> (case f_inode (file_table s f) of None \<Rightarrow> Some (- EBADF, s)
          | Some n \<Rightarrow> do { s \<leftarrow> cp_stat w pad n statbuf s; Some (0, s) }))"

text \<open>The loop of \<^verbatim>\<open>sys_readlink\<close>, of at most \<open>k\<close> more bytes.\<close>

fun readlink_loop :: "nat \<Rightarrow> nat \<Rightarrow> u32 \<Rightarrow> u32 \<Rightarrow> 'a sched_scheme \<Rightarrow> nat \<times> 'a sched_scheme" where
  "readlink_loop 0 i data buf s = (i, s)"
| "readlink_loop (Suc k) i data buf s =
     (let c = rdb (data + of_nat i) s in
      if c = 0 then (i, s) else readlink_loop k (i + 1) data (buf + 1) (put_fs_byte c buf s))"

definition sys_readlink ::
  "'a fs_scheme world \<Rightarrow> u32 \<Rightarrow> u32 \<Rightarrow> int \<Rightarrow> 'a fs_scheme \<Rightarrow> (int \<times> 'a fs_scheme) option" where
  "sys_readlink w path buf bufsiz0 s =
     (if bufsiz0 \<le> 0 then Some (- EBADF, s)
      else do {
        let bufsiz = min bufsiz0 1023;
        s \<leftarrow> verify_area w buf bufsiz s;
        (r, s) \<leftarrow> lnamei w path s;
        case r of None \<Rightarrow> Some (- ENOENT, s)
        | Some n \<Rightarrow> do {
            (b, s) \<leftarrow> (if zone n 0 s \<noteq> 0 then bread w (idev n s) (ucast (zone n 0 s)) s else Some (None, s));
            s \<leftarrow> iput w (Some n) s;
            case b of None \<Rightarrow> Some (0, s)
            | Some bh \<Rightarrow> do {
                let (i, s) = readlink_loop (nat bufsiz) 0 (data_of bh s) buf s;
                s \<leftarrow> brelse w b s;
                Some (int i, s)
              }
          }
      })"

section \<open>Control\<close>

text \<open>\<^verbatim>\<open>ioctl_table\<close> has eight entries, of which the terminals 4 and 5 are not NULL.\<close>

definition sys_ioctl ::
  "'a tty_state_scheme world \<Rightarrow> nat \<Rightarrow> u32 \<Rightarrow> u32 \<Rightarrow> 'a tty_state_scheme \<Rightarrow> (int \<times> 'a tty_state_scheme) option" where
  "sys_ioctl w fd cmd arg s =
     (case file_of_fd fd s of None \<Rightarrow> Some (- EBADF, s)
      | Some f \<Rightarrow> do {
          n \<leftarrow> f_inode (file_table s f);
          let i = inode_table s n;
          let dev = (ucast (zone n 0 s) :: u32);
          if i_pipe i \<noteq> 0
          then if f_mode (file_table s f) AND 1 \<noteq> 0 then pipe_ioctl w n cmd arg s else Some (- EBADF, s)
          else if \<not> S_ISCHR (i_mode i) \<and> \<not> S_ISBLK (i_mode i) then Some (- EINVAL, s)
          else if MAJOR dev \<ge> 8 then Some (- ENODEV, s)
          else if MAJOR dev \<noteq> 4 \<and> MAJOR dev \<noteq> 5 then Some (- ENOTTY, s)
          else tty_ioctl w dev cmd arg s
        })"

end
