(* ===== verification/Select.thy ===== *)
theory Select
  imports File_Ops
begin

text \<open>
  \<^verbatim>\<open>fs/select.c\<close>. The table of the queues a task waits on is the list of its entries: the queue and
  the task that was first in it before. The descriptor of \<^verbatim>\<open>select\<close> is a word with a bit for each file.
\<close>

type_synonym select_table = "(waitq \<times> task_ptr) list"

definition add_wait :: "waitq \<Rightarrow> select_table \<Rightarrow> 'a sched_scheme \<Rightarrow> select_table \<times> 'a sched_scheme" where
  "add_wait q p s =
     (if q \<in> fst ` set p then (p, s)
      else (p @ [(q, wq s q)], s\<lparr>wq := (wq s)(q := current s)\<rparr>))"

partial_function (option) free_wait_loop :: "'a sched_scheme world \<Rightarrow> waitq \<Rightarrow> 'a sched_scheme \<Rightarrow> 'a sched_scheme option" where
  "free_wait_loop w q s =
     (if wq s q \<noteq> 0 \<and> wq s q \<noteq> current s
      then do {
        let s = mod_task (wq s q) (\<lambda>t. t\<lparr>t_state := 0\<rparr>) s;
        s \<leftarrow> schedule w (mod_cur (\<lambda>t. t\<lparr>t_state := TASK_UNINTERRUPTIBLE\<rparr>) s);
        free_wait_loop w q s
      }
      else Some s)"

fun free_wait :: "'a sched_scheme world \<Rightarrow> select_table \<Rightarrow> 'a sched_scheme \<Rightarrow> 'a sched_scheme option" where
  "free_wait w [] s = Some s"
| "free_wait w ((q, old_task) # p) s = do {
     s \<leftarrow> free_wait_loop w q s;
     let s = s\<lparr>wq := (wq s)(q := old_task)\<rparr>;
     free_wait w p (if old_task \<noteq> 0 then mod_task old_task (\<lambda>t. t\<lparr>t_state := 0\<rparr>) s else s)
   }"

text \<open>\<open>None\<close> is an index beyond the table, \<open>Some None\<close> is \<^verbatim>\<open>NULL\<close>.\<close>

definition get_tty :: "nat \<Rightarrow> 'a tty_state_scheme \<Rightarrow> nat option option" where
  "get_tty n s =
     (let z = ucast (zone n 0 s) :: u32; minor = (if MAJOR z = 5 then t_tty (cur s) else int (MINOR z)) in
      if \<not> S_ISCHR (i_mode (inode_table s n)) then Some None
      else if MAJOR z \<noteq> 5 \<and> MAJOR z \<noteq> 4 then Some None
      else if minor < 0 then Some None
      else map_option Some (TTY_TABLE (nat minor) s))"

text \<open>The three checks: whether the file is ready, the table and the state.\<close>

definition check_in :: "nat \<Rightarrow> select_table \<Rightarrow> 'a tty_state_scheme \<Rightarrow> (bool \<times> select_table \<times> 'a tty_state_scheme) option" where
  "check_in n wait s = do {
     t \<leftarrow> get_tty n s;
     case t of
       Some tty \<Rightarrow> do {
         q \<leftarrow> secondary (tty_table s tty);
         if \<not> q_EMPTY (tty_queues s q) then Some (True, wait, s)
         else Some (False, add_wait (Tty_queue_wait q) wait s)
       }
     | None \<Rightarrow>
         if i_pipe (inode_table s n) \<noteq> 0
         then if \<not> PIPE_EMPTY n s then Some (True, wait, s) else Some (False, add_wait (I_wait n) wait s)
         else Some (False, wait, s)
   }"

definition check_out :: "nat \<Rightarrow> select_table \<Rightarrow> 'a tty_state_scheme \<Rightarrow> (bool \<times> select_table \<times> 'a tty_state_scheme) option" where
  "check_out n wait s = do {
     t \<leftarrow> get_tty n s;
     case t of
       Some tty \<Rightarrow> do {
         q \<leftarrow> write_q (tty_table s tty);
         if \<not> q_FULL (tty_queues s q) then Some (True, wait, s)
         else Some (False, add_wait (Tty_queue_wait q) wait s)
       }
     | None \<Rightarrow>
         if i_pipe (inode_table s n) \<noteq> 0
         then if \<not> PIPE_FULL n s then Some (True, wait, s) else Some (False, add_wait (I_wait n) wait s)
         else Some (False, wait, s)
   }"

definition check_ex :: "nat \<Rightarrow> select_table \<Rightarrow> 'a tty_state_scheme \<Rightarrow> (bool \<times> select_table \<times> 'a tty_state_scheme) option" where
  "check_ex n wait s = do {
     t \<leftarrow> get_tty n s;
     case t of
       Some tty \<Rightarrow> do { q \<leftarrow> write_q (tty_table s tty); Some (False, wait, s) }
     | None \<Rightarrow>
         if i_pipe (inode_table s n) \<noteq> 0
         then if i_count (inode_table s n) < 2 then Some (True, wait, s) else Some (False, add_wait (I_wait n) wait s)
         else Some (False, wait, s)
   }"

definition selectable :: "nat \<Rightarrow> 'a files_scheme \<Rightarrow> bool" where
  "selectable i s \<longleftrightarrow>
     (case t_filp (cur s) i of None \<Rightarrow> False
      | Some f \<Rightarrow>
        (case f_inode (file_table s f) of None \<Rightarrow> False
         | Some n \<Rightarrow> i_pipe (inode_table s n) \<noteq> 0 \<or> S_ISCHR (i_mode (inode_table s n)) \<or> S_ISFIFO (i_mode (inode_table s n))))"

text \<open>One check for descriptor \<open>i\<close>, if its bit is set in \<open>want\<close>: the result word and the count.\<close>

definition select_one ::
  "(nat \<Rightarrow> select_table \<Rightarrow> 'a tty_state_scheme \<Rightarrow> (bool \<times> select_table \<times> 'a tty_state_scheme) option)
     \<Rightarrow> u32 \<Rightarrow> nat \<Rightarrow> u32 \<times> nat \<times> select_table \<times> 'a tty_state_scheme \<Rightarrow> (u32 \<times> nat \<times> select_table \<times> 'a tty_state_scheme) option" where
  "select_one check want i = (\<lambda>(res, count, wait, s).
     if bit want i then do {
       f \<leftarrow> t_filp (cur s) i;
       n \<leftarrow> f_inode (file_table s f);
       (r, wait, s) \<leftarrow> check n wait s;
       Some (if r then (set_bit i res, count + 1, wait, s) else (res, count, wait, s))
     }
     else Some (res, count, wait, s))"

fun select_scan ::
  "u32 \<times> u32 \<times> u32 \<Rightarrow> nat list \<Rightarrow> u32 \<times> u32 \<times> u32 \<Rightarrow> nat \<Rightarrow> select_table \<Rightarrow> 'a tty_state_scheme
     \<Rightarrow> ((u32 \<times> u32 \<times> u32) \<times> nat \<times> select_table \<times> 'a tty_state_scheme) option" where
  "select_scan want [] res count wait s = Some (res, count, wait, s)"
| "select_scan (inw, outw, exw) (i # is) (inp, outp, exp) count wait s = do {
     (inp, count, wait, s) \<leftarrow> select_one check_in inw i (inp, count, wait, s);
     (outp, count, wait, s) \<leftarrow> select_one check_out outw i (outp, count, wait, s);
     (exp, count, wait, s) \<leftarrow> select_one check_ex exw i (exp, count, wait, s);
     select_scan (inw, outw, exw) is (inp, outp, exp) count wait s
   }"

partial_function (option) select_repeat ::
  "'a tty_state_scheme world \<Rightarrow> u32 \<times> u32 \<times> u32 \<Rightarrow> 'a tty_state_scheme
     \<Rightarrow> (nat \<times> (u32 \<times> u32 \<times> u32) \<times> 'a tty_state_scheme) option" where
  "select_repeat w want s = do {
     (res, count, wait, s) \<leftarrow> select_scan want [0..<NR_OPEN] (0, 0, 0) 0 [] s;
     if \<not> signal_pending s \<and> (wait \<noteq> [] \<or> t_timeout (cur s) \<noteq> 0) \<and> count = 0
     then do {
       s \<leftarrow> schedule w (mod_cur (\<lambda>t. t\<lparr>t_state := TASK_INTERRUPTIBLE\<rparr>) s);
       s \<leftarrow> free_wait w wait s;
       select_repeat w want s
     }
     else do { s \<leftarrow> free_wait w wait s; Some (count, res, s) }
   }"

definition do_select ::
  "'a tty_state_scheme world \<Rightarrow> u32 \<times> u32 \<times> u32 \<Rightarrow> 'a tty_state_scheme
     \<Rightarrow> (int \<times> (u32 \<times> u32 \<times> u32) \<times> 'a tty_state_scheme) option" where
  "do_select w want s =
     (case want of (inw, outw, exw) \<Rightarrow>
      if list_ex (\<lambda>i. bit (inw OR outw OR exw) i \<and> \<not> selectable i s) [0..<NR_OPEN] then Some (- EBADF, (0, 0, 0), s)
      else do { (count, res, s) \<leftarrow> select_repeat w want s; Some (int count, res, s) })"

text \<open>The shift instruction takes the number of descriptors modulo 32.\<close>

definition select_mask :: "u32 \<Rightarrow> u32" where
  "select_mask n = NOT (push_bit (unat (n AND 31)) (- 1))"

definition put_result :: "'a mm_scheme world \<Rightarrow> u32 \<Rightarrow> u32 \<Rightarrow> 'a mm_scheme \<Rightarrow> 'a mm_scheme option" where
  "put_result w addr v s =
     (if addr = 0 then Some s else do { s \<leftarrow> verify_area w addr 4 s; Some (put_fs_long v addr s) })"

definition sys_select :: "'a tty_state_scheme world \<Rightarrow> u32 \<Rightarrow> 'a tty_state_scheme \<Rightarrow> (int \<times> 'a tty_state_scheme) option" where
  "sys_select w buffer s =
     (let mask = select_mask (get_fs_long buffer s);
          inp = get_fs_long (buffer + 4) s; outp = get_fs_long (buffer + 8) s;
          exp = get_fs_long (buffer + 12) s; tvp = get_fs_long (buffer + 16) s;
          get = (\<lambda>p. if p \<noteq> 0 then mask AND get_fs_long p s else 0);
          timeout = (if tvp \<noteq> 0
                     then get_fs_long (tvp + 4) s div 10000 + get_fs_long tvp s * 100 + jiffies s
                     else 0xffffffff)
      in do {
        (i, (res_in, res_out, res_ex), s) \<leftarrow>
          do_select w (get inp, get outp, get exp) (mod_cur (\<lambda>t. t\<lparr>t_timeout := timeout\<rparr>) s);
        let timeout = (if t_timeout (cur s) > jiffies s then t_timeout (cur s) - jiffies s else 0);
        let s = mod_cur (\<lambda>t. t\<lparr>t_timeout := 0\<rparr>) s;
        if i < 0 then Some (i, s)
        else do {
          s \<leftarrow> put_result w inp res_in s;
          s \<leftarrow> put_result w outp res_out s;
          s \<leftarrow> put_result w exp res_ex s;
          s \<leftarrow> (if tvp \<noteq> 0
               then do {
                 s \<leftarrow> verify_area w tvp 8 s;
                 Some (put_fs_long (timeout mod 100 * 10000) (tvp + 4) (put_fs_long (timeout div 100) tvp s))
               }
               else Some s);
          Some (if i = 0 \<and> signal_pending s then - EINTR else i, s)
        }
      })"

end
