(* ===== verification/Malloc.thy ===== *)
theory Malloc
  imports Swap
begin

text \<open>
  \<^verbatim>\<open>lib/malloc.c\<close>: blocks of kernel memory in buckets, pages of objects of one size. The bucket
  descriptors are in kernel memory, 16 bytes each; \<open>chain i\<close> is \<^verbatim>\<open>bucket_dir[i].chain\<close>. Nothing in the
  kernel calls these routines, so their two variables extend the state of the memory manager only.
\<close>

record heap = mm +
  chain :: "nat \<Rightarrow> u32"
  free_bucket_desc :: u32

section \<open>Bucket descriptors\<close>

definition bucket_sizes :: "u32 list" where
  "bucket_sizes = [16, 32, 64, 128, 256, 512, 1024, 2048, 4096]"

definition bd_page :: "u32 \<Rightarrow> 'a sched_scheme \<Rightarrow> u32" where "bd_page b s = rd b s"
definition bd_next :: "u32 \<Rightarrow> 'a sched_scheme \<Rightarrow> u32" where "bd_next b s = rd (b + 4) s"
definition bd_freeptr :: "u32 \<Rightarrow> 'a sched_scheme \<Rightarrow> u32" where "bd_freeptr b s = rd (b + 8) s"
definition bd_refcnt :: "u32 \<Rightarrow> 'a sched_scheme \<Rightarrow> u16" where "bd_refcnt b s = ld16 (kmem s) (b + 12)"

definition set_bd_page :: "u32 \<Rightarrow> u32 \<Rightarrow> 'a sched_scheme \<Rightarrow> 'a sched_scheme" where "set_bd_page b v s = wr b v s"
definition set_bd_next :: "u32 \<Rightarrow> u32 \<Rightarrow> 'a sched_scheme \<Rightarrow> 'a sched_scheme" where "set_bd_next b v s = wr (b + 4) v s"
definition set_bd_freeptr :: "u32 \<Rightarrow> u32 \<Rightarrow> 'a sched_scheme \<Rightarrow> 'a sched_scheme" where "set_bd_freeptr b v s = wr (b + 8) v s"
definition set_bd_refcnt :: "u32 \<Rightarrow> u16 \<Rightarrow> 'a sched_scheme \<Rightarrow> 'a sched_scheme" where
  "set_bd_refcnt b v s = s\<lparr>kmem := st16 (b + 12) v (kmem s)\<rparr>"
definition set_bd_size :: "u32 \<Rightarrow> u16 \<Rightarrow> 'a sched_scheme \<Rightarrow> 'a sched_scheme" where
  "set_bd_size b v s = s\<lparr>kmem := st16 (b + 14) v (kmem s)\<rparr>"

text \<open>The loop of \<^verbatim>\<open>init_bucket_desc\<close>: the last descriptor and the state.\<close>

fun init_desc_loop :: "nat \<Rightarrow> u32 \<Rightarrow> 'a sched_scheme \<Rightarrow> u32 \<times> 'a sched_scheme" where
  "init_desc_loop 0 b s = (b, s)"
| "init_desc_loop (Suc i) b s = init_desc_loop i (b + 16) (set_bd_next b (b + 16) s)"

definition init_bucket_desc :: "'a heap_scheme world \<Rightarrow> 'a heap_scheme \<Rightarrow> 'a heap_scheme option" where
  "init_bucket_desc w s = do {
     (first, s) \<leftarrow> get_free_page w s;
     if first = 0 then None
     else do {
       let (b, s) = init_desc_loop 255 first s;
       Some ((set_bd_next b (free_bucket_desc s) s)\<lparr>free_bucket_desc := first\<rparr>)
     }
   }"

section \<open>Allocating\<close>

text \<open>The smallest bucket that fits; \<open>None\<close> is the \<^verbatim>\<open>panic\<close>.\<close>

definition bucket_for :: "u32 \<Rightarrow> nat option" where
  "bucket_for len = List.find (\<lambda>i. bucket_sizes ! i \<ge> len) [0..<9]"

text \<open>The first descriptor of a chain with a free object, or 0.\<close>

partial_function (option) find_bucket :: "u32 \<Rightarrow> 'a sched_scheme \<Rightarrow> u32 option" where
  "find_bucket b s =
     (if b = 0 then Some 0 else if bd_freeptr b s \<noteq> 0 then Some b else find_bucket (bd_next b s) s)"

text \<open>The chain of free objects in a new page.\<close>

fun free_chain :: "nat \<Rightarrow> u32 \<Rightarrow> u32 \<Rightarrow> 'a sched_scheme \<Rightarrow> 'a sched_scheme" where
  "free_chain 0 sz cp s = wr cp 0 s"
| "free_chain (Suc i) sz cp s = free_chain i sz (cp + sz) (wr cp (cp + sz) s)"

definition new_bucket :: "'a heap_scheme world \<Rightarrow> nat \<Rightarrow> 'a heap_scheme \<Rightarrow> (u32 \<times> 'a heap_scheme) option" where
  "new_bucket w d s = do {
     s \<leftarrow> (if free_bucket_desc s = 0 then init_bucket_desc w s else Some s);
     let b = free_bucket_desc s;
     let s = s\<lparr>free_bucket_desc := bd_next b s\<rparr>;
     let s = set_bd_size b (ucast (bucket_sizes ! d)) (set_bd_refcnt b 0 s);
     (cp, s) \<leftarrow> get_free_page w s;
     let s = set_bd_page b cp (set_bd_freeptr b cp s);
     if cp = 0 then None
     else do {
       let s = free_chain (4096 div unat (bucket_sizes ! d) - 1) (bucket_sizes ! d) cp s;
       let s = set_bd_next b (chain s d) s;
       Some (b, s\<lparr>chain := (chain s)(d := b)\<rparr>)
     }
   }"

definition take_object :: "u32 \<Rightarrow> 'a sched_scheme \<Rightarrow> u32 \<times> 'a sched_scheme" where
  "take_object b s =
     (let retval = bd_freeptr b s; s = set_bd_freeptr b (rd retval s) s
      in (retval, set_bd_refcnt b (bd_refcnt b s + 1) s))"

definition malloc :: "'a heap_scheme world \<Rightarrow> u32 \<Rightarrow> 'a heap_scheme \<Rightarrow> (u32 \<times> 'a heap_scheme) option" where
  "malloc w len s = do {
     d \<leftarrow> bucket_for len;
     b \<leftarrow> find_bucket (chain s d) s;
     (b, s) \<leftarrow> (if b = 0 then new_bucket w d s else Some (b, s));
     Some (take_object b s)
   }"

section \<open>Releasing\<close>

text \<open>The search in one chain for the descriptor of \<open>page\<close>: its predecessor and itself, or \<open>0\<close>.\<close>

partial_function (option) find_page :: "u32 \<Rightarrow> u32 \<Rightarrow> u32 \<Rightarrow> 'a sched_scheme \<Rightarrow> (u32 \<times> u32) option" where
  "find_page page prev b s =
     (if b = 0 then Some (prev, 0) else if bd_page b s = page then Some (prev, b)
      else find_page page b (bd_next b s) s)"

fun find_chain :: "u32 \<Rightarrow> int \<Rightarrow> nat list \<Rightarrow> 'a heap_scheme \<Rightarrow> (nat \<times> u32 \<times> u32) option" where
  "find_chain page sz [] s = None"
| "find_chain page sz (d # ds) s =
     (if uint (bucket_sizes ! d) < sz then find_chain page sz ds s
      else do {
        (prev, b) \<leftarrow> find_page page 0 (chain s d) s;
        if b \<noteq> 0 then Some (d, prev, b) else find_chain page sz ds s
      })"

partial_function (option) find_prev :: "u32 \<Rightarrow> u32 \<Rightarrow> 'a sched_scheme \<Rightarrow> u32 option" where
  "find_prev prev b s =
     (if prev = 0 then Some 0 else if bd_next prev s = b then Some prev else find_prev (bd_next prev s) b s)"

definition unlink_bucket :: "nat \<Rightarrow> u32 \<Rightarrow> u32 \<Rightarrow> 'a heap_scheme \<Rightarrow> 'a heap_scheme option" where
  "unlink_bucket d prev b s = do {
     prev \<leftarrow> (if prev \<noteq> 0 \<and> bd_next prev s \<noteq> b \<or> prev = 0 \<and> chain s d \<noteq> b
             then find_prev (chain s d) b s else Some prev);
     if prev \<noteq> 0 then Some (set_bd_next prev (bd_next b s) s)
     else if chain s d \<noteq> b then None
     else Some (s\<lparr>chain := (chain s)(d := bd_next b s)\<rparr>)
   }"

definition free_s :: "u32 \<Rightarrow> int \<Rightarrow> 'a heap_scheme \<Rightarrow> 'a heap_scheme option" where
  "free_s obj sz s = do {
     (d, prev, b) \<leftarrow> find_chain (obj AND 0xfffff000) sz [0..<9] s;
     let s = wr obj (bd_freeptr b s) s;
     let s = set_bd_freeptr b obj s;
     let s = set_bd_refcnt b (bd_refcnt b s - 1) s;
     if bd_refcnt b s \<noteq> 0 then Some s
     else do {
       s \<leftarrow> unlink_bucket d prev b s;
       s \<leftarrow> free_page (bd_page b s) s;
       Some ((set_bd_next b (free_bucket_desc s) s)\<lparr>free_bucket_desc := b\<rparr>)
     }
   }"

end
