(* ===== verification/Block_Alloc.thy ===== *)
theory Block_Alloc
  imports Bitmap Buffer_Cache
begin

text \<open>
  Allocating and freeing the blocks of a device (\<open>Bitmap\<close>) on top of the buffer cache (\<open>Buffer_Cache\<close>):
  the word-wise search for a clear bit finds the first one, \<^verbatim>\<open>new_block\<close> hands out a zeroed block whose
  bit was clear, and \<^verbatim>\<open>free_block\<close> takes it back.
\<close>

section \<open>The first clear bit\<close>

definition clear_bits :: "nat \<Rightarrow> u32 \<Rightarrow> bytes \<Rightarrow> nat" where
  "clear_bits n addr m = length (takeWhile (\<lambda>k. mem_bit k addr m) [0..<n])"

lemma takeWhile_upt:
  defines "L \<equiv> \<lambda>P n. length (takeWhile P [0..<n])"
  shows "L P n \<le> n" "k < L P n \<Longrightarrow> P k" "L P n < n \<Longrightarrow> \<not> P (L P n)"
proof -
  show "L P n \<le> n" using length_takeWhile_le [of P "[0..<n]"] by (simp add: L_def)
  show "P k" if "k < L P n"
  proof -
    have "takeWhile P [0..<n] ! k = k"
      using that \<open>L P n \<le> n\<close> by (simp add: takeWhile_nth L_def)
    moreover have "takeWhile P [0..<n] ! k \<in> set (takeWhile P [0..<n])" using that by (simp add: L_def)
    ultimately show "P k" by (metis set_takeWhileD)
  qed
  show "\<not> P (L P n)" if "L P n < n"
    using nth_length_takeWhile [of P "[0..<n]"] that by (simp add: L_def)
qed

lemma clear_bits_props:
  "clear_bits n addr m \<le> n" "k < clear_bits n addr m \<Longrightarrow> mem_bit k addr m"
  "clear_bits n addr m < n \<Longrightarrow> \<not> mem_bit (clear_bits n addr m) addr m"
  unfolding clear_bits_def by (rule takeWhile_upt; assumption)+

lemma clear_bits_unique:
  assumes "l \<le> n" "\<And>k. k < l \<Longrightarrow> mem_bit k addr m" "l < n \<Longrightarrow> \<not> mem_bit l addr m"
  shows "clear_bits n addr m = l"
  using clear_bits_props [where n = n and addr = addr and m = m] assms by (metis linorder_neqE_nat order_less_le_trans)

lemma bit_ld32: "k < 32 \<Longrightarrow> bit (ld32 m addr) k = mem_bit k addr m"
proof -
  assume k: "k < 32"
  then have "k div 8 = 0 \<or> k div 8 = 1 \<or> k div 8 = 2 \<or> k div 8 = 3" by auto
  then show ?thesis
  proof (elim disjE)
    assume "k div 8 = 0"
    then have "k < 8" by auto
    then show ?thesis by (simp add: ld32_def mem_bit_def bit_simps)
  next
    assume d: "k div 8 = 1"
    then have "8 \<le> k" "k < 16" "k mod 8 = k - 8" by (auto simp: modulo_nat_def)
    then show ?thesis using d by (auto simp: ld32_def mem_bit_def bit_simps dest: bit_imp_le_length)
  next
    assume d: "k div 8 = 2"
    then have "16 \<le> k" "k < 24" "k mod 8 = k - 16" by (auto simp: modulo_nat_def)
    then show ?thesis using d by (auto simp: ld32_def mem_bit_def bit_simps dest: bit_imp_le_length)
  next
    assume d: "k div 8 = 3"
    then have "24 \<le> k" "k mod 8 = k - 24" by (auto simp: modulo_nat_def)
    then show ?thesis using d k by (auto simp: ld32_def mem_bit_def bit_simps dest: bit_imp_le_length)
  qed
qed

lemma mem_bit_shift: "mem_bit (32 + k) addr m = mem_bit k (addr + 4) m"
proof -
  have "(32 + k) div 8 = 4 + k div 8" "(32 + k) mod 8 = k mod 8" by presburger+
  then show ?thesis by (simp add: mem_bit_def add.assoc)
qed

lemma clear_bits_split:
  "clear_bits (32 + n) addr m = (if clear_bits 32 addr m < 32 then clear_bits 32 addr m
     else 32 + clear_bits n (addr + 4) m)"
proof (cases "clear_bits 32 addr m < 32")
  case True
  then show ?thesis using clear_bits_props [where n = 32 and addr = addr and m = m] by (auto intro!: clear_bits_unique)
next
  case False
  have first: "mem_bit k addr m" if "k < 32" for k using clear_bits_props(2) [of k 32 addr m] that False by simp
  have "clear_bits (32 + n) addr m = 32 + clear_bits n (addr + 4) m"
  proof (rule clear_bits_unique)
    show "mem_bit k addr m" if "k < 32 + clear_bits n (addr + 4) m" for k
      using first [of k] clear_bits_props(2) [of "k - 32" n "addr + 4" m] that mem_bit_shift [of "k - 32" addr m]
      by (cases "k < 32") auto
  qed (use clear_bits_props [where n = n and addr = "addr + 4" and m = m] in \<open>auto simp: mem_bit_shift\<close>)
  with False show ?thesis by simp
qed

lemma bsf_not: "NOT (ld32 m addr) \<noteq> 0 \<Longrightarrow> bsf (NOT (ld32 m addr)) = clear_bits 32 addr m \<and> clear_bits 32 addr m < 32"
  and all_set: "NOT (ld32 m addr) = 0 \<Longrightarrow> clear_bits 32 addr m = 32"
proof -
  have b: "bit (NOT (ld32 m addr)) k = (\<not> mem_bit k addr m)" if "k < 32" for k
    using that by (simp add: bit_not_iff bit_ld32)
  have t: "takeWhile (\<lambda>k. \<not> bit (NOT (ld32 m addr)) k) [0..<32] = takeWhile (\<lambda>k. mem_bit k addr m) [0..<32]"
    by (rule takeWhile_cong) (auto simp: b)
  show "NOT (ld32 m addr) = 0 \<Longrightarrow> clear_bits 32 addr m = 32"
    using b by (intro clear_bits_unique) auto
  assume "NOT (ld32 m addr) \<noteq> 0"
  then obtain k where k: "bit (NOT (ld32 m addr)) k" by (auto simp: bit_eq_iff)
  then have "k < 32" using bit_imp_le_length by fastforce
  then have "clear_bits 32 addr m \<le> k" using clear_bits_props(2) [of k 32 addr m] b k not_less by blast
  with \<open>k < 32\<close> show "bsf (NOT (ld32 m addr)) = clear_bits 32 addr m \<and> clear_bits 32 addr m < 32"
    by (simp add: bsf_def t clear_bits_def)
qed

lemma zero_loop_clear: "zero_loop n ecx addr m = ecx + clear_bits (32 * n) addr m"
proof (induction n arbitrary: ecx addr)
  case (Suc n)
  have "32 * Suc n = 32 + 32 * n" by simp
  then show ?case
    using Suc bsf_not [of m addr] all_set [of m addr]
    unfolding zero_loop.simps Let_def by (simp only: clear_bits_split) auto
qed (simp add: clear_bits_def)

lemma find_first_zero_clear: "find_first_zero addr m = clear_bits 8192 addr m"
  by (simp add: find_first_zero_def zero_loop_clear)

section \<open>A buffer for the block\<close>

lemma getblk_takes:
  assumes "cache_ok s" "dev \<noteq> 0" "ucast (ucast dev :: u16) = dev" "cached dev block s = None"
    and ex: "\<exists>b < NR_BUFFERS s. b_count (bufs s b) = 0 \<and> b_dirt (bufs s b) = 0 \<and> b_lock (bufs s b) = 0"
  obtains b s' where "getblk w dev block s = Some (b, s')" "take_buffer dev block b s = Some s'" "b < NR_BUFFERS s"
    "b_count (bufs s b) = 0" "b_dirt (bufs s b) = 0" "b_lock (bufs s b) = 0"
proof -
  have fb: "find_buffer dev block s = Some None" using find_buffer_char [OF assms(1,2), of block] assms(4) by simp
  obtain f r where f: "free_list s = Some f" "free_scan (Some f) f None s = Some r"
    "best_unused {..<NR_BUFFERS s} r s" using free_scan_ring [OF assms(1)] by blast
  then obtain b where b: "r = Some b" "b < NR_BUFFERS s" "b_count (bufs s b) = 0" "BADNESS (bufs s b) = 0"
    using ex by (cases r) (fastforce simp: best_unused_def BADNESS_def)+
  then have clean: "b_dirt (bufs s b) = 0" "b_lock (bufs s b) = 0"
    by (auto simp: BADNESS_def unat_eq_0)
  have new: "\<forall>b<NR_BUFFERS s. \<not> is_block dev block (bufs s b)"
    using assms(4) by (auto simp: cached_def find_None_iff)
  obtain s' where s': "take_buffer dev block b s = Some s'"
    using take_buffer_ok [OF assms(1) b(2) assms(3) new] by blast
  have g: "get_hash_table w dev block s = Some (None, s)"
    by (subst get_hash_table.simps) (simp add: fb)
  have "getblk w dev block s = Some (b, s')"
    using f b clean fb s' by (subst getblk.simps) (simp add: g wait_on_buffer.simps clean_loop.simps)
  then show ?thesis using that s' b clean by blast
qed

text \<open>Moving a buffer in the queues changes no data and no super block.\<close>

definition same_data :: "'a fs_scheme \<Rightarrow> 'a fs_scheme \<Rightarrow> bool" where
  "same_data s s' \<longleftrightarrow> kmem s' = kmem s \<and> super_blocks s' = super_blocks s \<and> NR_BUFFERS s' = NR_BUFFERS s
     \<and> (\<forall>b. b_data (bufs s' b) = b_data (bufs s b) \<and> b_lock (bufs s' b) = b_lock (bufs s b))"

lemma same_data_trans: "same_data s t \<Longrightarrow> same_data t u \<Longrightarrow> same_data s u"
  by (simp add: same_data_def)

lemma same_data_unhash: "same_data s (unhash b s)"
  by (simp add: same_data_def unhash_def mod_buf_def Let_def split: option.split)

lemma same_data_unfree: "unfree b s = Some s' \<Longrightarrow> same_data s s'"
  by (auto simp: same_data_def unfree_def mod_buf_def Let_def bind_eq_Some_conv)

lemma same_data_put_free: "put_free b s = Some s' \<Longrightarrow> same_data s s'"
  by (auto simp: same_data_def put_free_def mod_buf_def Let_def bind_eq_Some_conv)

lemma same_data_put_hash: "same_data s (put_hash b s)"
  by (simp add: same_data_def put_hash_def mod_buf_def Let_def split: option.split)

lemma same_data_take_buffer:
  assumes "take_buffer dev block b s = Some s'"
  shows "same_data s s'"
proof -
  obtain s1 s2 where s1: "unfree b (unhash b (mod_buf b (\<lambda>x. x\<lparr>b_count := 1, b_dirt := 0, b_uptodate := 0\<rparr>) s)) = Some s1"
    and s2: "put_free b (mod_buf b (\<lambda>x. x\<lparr>b_dev := ucast dev, b_blocknr := block\<rparr>) s1) = Some s2"
    and s': "s' = put_hash b s2"
    using assms by (auto simp: take_buffer_def remove_from_queues_def insert_into_queues_def Let_def bind_eq_Some_conv)
  have "same_data s (mod_buf b (\<lambda>x. x\<lparr>b_count := 1, b_dirt := 0, b_uptodate := 0\<rparr>) s)"
    "same_data s1 (mod_buf b (\<lambda>x. x\<lparr>b_dev := ucast dev, b_blocknr := block\<rparr>) s1)"
    by (simp_all add: same_data_def mod_buf_def)
  then show ?thesis unfolding s'
    using same_data_unhash same_data_unfree [OF s1] same_data_put_free [OF s2] same_data_put_hash same_data_trans by meson
qed

text \<open>What \<^verbatim>\<open>getblk\<close> returns when it does not have to wait and nobody uses the block.\<close>

definition quiet_block :: "u32 \<Rightarrow> u32 \<Rightarrow> 'a cache_scheme \<Rightarrow> bool" where
  "quiet_block dev block s \<longleftrightarrow>
     (case cached dev block s of
        Some b \<Rightarrow> b_count (bufs s b) = 0 \<and> b_lock (bufs s b) = 0
      | None \<Rightarrow> \<exists>b < NR_BUFFERS s. b_count (bufs s b) = 0 \<and> b_dirt (bufs s b) = 0 \<and> b_lock (bufs s b) = 0)"

lemma getblk_quiet:
  fixes s :: "'a fs_scheme"
  assumes "cache_ok s" "dev \<noteq> 0" "ucast (ucast dev :: u16) = dev" "quiet_block dev block s"
  obtains b s' where "getblk w dev block s = Some (b, s')" "b < NR_BUFFERS s" "b_count (bufs s b) = 0"
    "b_lock (bufs s b) = 0" "b_count (bufs s' b) = 1" "is_block dev block (bufs s' b)" "cache_ok s'" "same_data s s'"
    "\<forall>c. c \<noteq> b \<longrightarrow> b_count (bufs s' c) = b_count (bufs s c)"
proof (cases "cached dev block s")
  case None
  then obtain b s' where g: "getblk w dev block s = Some (b, s')" "take_buffer dev block b s = Some s'" "b < NR_BUFFERS s"
    "b_count (bufs s b) = 0" "b_lock (bufs s b) = 0"
  proof -
    have "\<exists>b < NR_BUFFERS s. b_count (bufs s b) = 0 \<and> b_dirt (bufs s b) = 0 \<and> b_lock (bufs s b) = 0"
      using assms(4) None by (simp add: quiet_block_def)
    from getblk_takes [OF assms(1-3) None this, of w] that show ?thesis by blast
  qed
  have new: "\<forall>b<NR_BUFFERS s. \<not> is_block dev block (bufs s b)"
    using None by (auto simp: cached_def find_None_iff)
  have t: "cache_ok s'" "is_block dev block (bufs s' b)" "b_count (bufs s' b) = 1"
    "\<forall>c. c \<noteq> b \<longrightarrow> b_count (bufs s' c) = b_count (bufs s c)"
    using take_buffer_ok [OF assms(1) g(3) assms(3) new] unfolding g(2) by (simp_all only: option.inject) blast+
  show ?thesis by (rule that [OF g(1,3,4,5) t(3,2,1) same_data_take_buffer [OF g(2)] t(4)])
next
  case (Some b)
  then have b: "b_count (bufs s b) = 0" "b_lock (bufs s b) = 0" using assms(4) by (simp_all add: quiet_block_def)
  have blk: "is_block dev block (bufs s b)" "b < NR_BUFFERS s" using Some by (auto simp: cached_def find_Some_iff)
  let ?s' = "mod_buf b (\<lambda>x. x\<lparr>b_count := b_count x + 1\<rparr>) s"
  have g: "getblk w dev block s = Some (b, ?s')" using getblk_uncontended [OF assms(1-3)] Some b(2) by blast
  have c: "cache_ok ?s'"
    using assms(1) same_links_cache_ok [of s ?s'] by (simp add: same_links_def links_def mod_buf_def)
  show ?thesis
    by (rule that [OF g blk(2) b _ _ c]) (use b blk in \<open>auto simp: is_block_def same_data_def mod_buf_def\<close>)
qed

section \<open>Allocating and freeing\<close>

lemma get_super_quiet:
  assumes "sb < NR_SUPER" "ucast (s_dev (super_blocks s sb)) = dev" "s_lock (super_blocks s sb) = 0" "dev \<noteq> 0"
    "\<forall>i < sb. ucast (s_dev (super_blocks s i)) \<noteq> dev"
  shows "get_super w dev s = Some (Some sb, s)"
proof -
  have "get_super_loop w dev (sb - k) s = Some (Some sb, s)" if "k \<le> sb" for k
    using that
  proof (induction k)
    case 0
    then show ?case using assms by (subst get_super_loop.simps) (simp add: wait_on_super.simps)
  next
    case (Suc k)
    then have "sb - Suc k < sb" "sb - Suc k + 1 = sb - k" by auto
    then show ?case using Suc assms by (subst get_super_loop.simps) simp
  qed
  from this [of sb] show ?thesis using assms(4) by (simp add: get_super_def)
qed

lemma mem_bit_put_bit:
  assumes "\<forall>i j. i < 1024 \<longrightarrow> j < 1024 \<longrightarrow> a \<noteq> a' \<longrightarrow> a + of_nat i \<noteq> a' + of_nat j" "n < 8192" "k < 8192"
  shows "mem_bit k a' (put_bit n a v m) = (if a = a' \<and> k = n then v else mem_bit k a' m)"
proof -
  have d: "n div 8 < 1024" "k div 8 < 1024" using assms(2,3) by auto
  show ?thesis
  proof (cases "a + of_nat (n div 8) = a' + of_nat (k div 8)")
    case True
    then have a: "a = a'" using assms(1) d by metis
    then have "(of_nat (n div 8) :: u32) = of_nat (k div 8)" using True by simp
    moreover have "unat (of_nat (n div 8) :: u32) = n div 8" "unat (of_nat (k div 8) :: u32) = k div 8"
      using d by (simp_all add: unat_of_nat)
    ultimately have nk: "n div 8 = k div 8" by metis
    then have "k = n \<longleftrightarrow> k mod 8 = n mod 8" by (metis div_mult_mod_eq)
    then show ?thesis using a nk
      by (auto simp: mem_bit_def put_bit_def Let_def bit_simps)
  next
    case False
    then have "\<not> (a = a' \<and> k = n)" by auto
    then show ?thesis using False by (auto simp: mem_bit_def put_bit_def Let_def)
  qed
qed

lemma mem_bit_cong:
  assumes "\<forall>i<1024. m' (a + of_nat i) = m (a + of_nat i)" "k < 8192"
  shows "mem_bit k a m' = mem_bit k a m"
proof -
  have "k div 8 < 1024" using assms(2) by auto
  then show ?thesis using assms(1) by (simp add: mem_bit_def)
qed

text \<open>The super block of a device that is mounted and not locked, and its maps: pinned buffers of their own.\<close>

definition super_ready :: "nat \<Rightarrow> u32 \<Rightarrow> 'a fs_scheme \<Rightarrow> bool" where
  "super_ready sb dev s \<longleftrightarrow> sb < NR_SUPER \<and> ucast (s_dev (super_blocks s sb)) = dev \<and> s_lock (super_blocks s sb) = 0
     \<and> dev \<noteq> 0 \<and> (\<forall>i < sb. ucast (s_dev (super_blocks s i)) \<noteq> dev)"

definition maps_ready :: "nat \<Rightarrow> 'a fs_scheme \<Rightarrow> bool" where
  "maps_ready sb s \<longleftrightarrow> cache_ok s
     \<and> (\<forall>a<NR_BUFFERS s. \<forall>b<NR_BUFFERS s. \<forall>i<1024. \<forall>j<1024. a \<noteq> b \<longrightarrow> data_of a s + of_nat i \<noteq> data_of b s + of_nat j)
     \<and> (\<forall>i<8. \<forall>z. s_zmap (super_blocks s sb) i = Some z \<longrightarrow> z < NR_BUFFERS s \<and> b_count (bufs s z) > 0)
     \<and> (\<forall>i<8. \<forall>k<8. i \<noteq> k \<longrightarrow> s_zmap (super_blocks s sb) i \<noteq> None \<longrightarrow>
           s_zmap (super_blocks s sb) i \<noteq> s_zmap (super_blocks s sb) k)"

text \<open>Zone \<open>n\<close> of the maps is free.\<close>

definition zone_free :: "nat \<Rightarrow> nat \<Rightarrow> 'a fs_scheme \<Rightarrow> bool" where
  "zone_free sb n s \<longleftrightarrow>
     (case s_zmap (super_blocks s sb) (n div 8192) of None \<Rightarrow> False
      | Some z \<Rightarrow> \<not> mem_bit (n mod 8192) (data_of z s) (kmem s))"

lemma map_with_zero_first:
  assumes "n < 65536" "zone_free sb n s" "\<forall>k<n. \<not> zone_free sb k s"
  shows "map_with_zero (s_zmap (super_blocks s sb)) s = Some (n div 8192)"
    and "s_zmap (super_blocks s sb) (n div 8192) = Some z \<Longrightarrow> find_first_zero (data_of z s) (kmem s) = n mod 8192"
proof -
  have i: "n div 8192 < 8" using assms(1) by auto
  have n: "n = n div 8192 * 8192 + n mod 8192" by simp
  have eq: "find_first_zero (data_of z s) (kmem s) = n mod 8192"
    if z: "s_zmap (super_blocks s sb) (n div 8192) = Some z" for z
    unfolding find_first_zero_clear
  proof (rule clear_bits_unique)
    show "mem_bit k (data_of z s) (kmem s)" if "k < n mod 8192" for k
    proof -
      have "k < 8192" using that by (meson less_trans mod_less_divisor zero_less_numeral)
      then have "(n div 8192 * 8192 + k) div 8192 = n div 8192" "(n div 8192 * 8192 + k) mod 8192 = k" by auto
      moreover have "n div 8192 * 8192 + k < n" using n that by linarith
      ultimately show ?thesis using assms(3) z by (auto simp: zone_free_def dest!: spec [of _ "n div 8192 * 8192 + k"])
    qed
  qed (use assms(2) z in \<open>simp_all add: zone_free_def\<close>)
  then show "s_zmap (super_blocks s sb) (n div 8192) = Some z \<Longrightarrow> find_first_zero (data_of z s) (kmem s) = n mod 8192" .
  have full: "clear_bits 8192 (data_of z s) (kmem s) = 8192"
    if "k < n div 8192" "s_zmap (super_blocks s sb) k = Some z" for k z
  proof (rule clear_bits_unique)
    show "mem_bit j (data_of z s) (kmem s)" if "j < 8192" for j
    proof -
      have "(k * 8192 + j) div 8192 = k" "(k * 8192 + j) mod 8192 = j" using that by auto
      moreover have "k * 8192 + j < n div 8192 * 8192"
      proof -
        have "(k + 1) * 8192 \<le> n div 8192 * 8192" using \<open>k < n div 8192\<close> by (intro mult_right_mono) auto
        then show ?thesis using that by simp
      qed
      ultimately show ?thesis using assms(3) n \<open>s_zmap _ k = Some z\<close>
        by (auto simp: zone_free_def dest!: spec [of _ "k * 8192 + j"])
    qed
  qed simp_all
  obtain z where z: "s_zmap (super_blocks s sb) (n div 8192) = Some z" using assms(2) by (auto simp: zone_free_def split: option.splits)
  show "map_with_zero (s_zmap (super_blocks s sb)) s = Some (n div 8192)"
    unfolding map_with_zero_def find_Some_iff
  proof (intro exI [of _ "n div 8192"] conjI allI impI)
    fix k assume k: "k < n div 8192"
    then have "k < 8" using i by simp
    then show "\<not> (case s_zmap (super_blocks s sb) ([0..<8] ! k) of None \<Rightarrow> False
        | Some bh \<Rightarrow> find_first_zero (data_of bh s) (kmem s) < 8192)"
      using full [OF k] by (auto simp: find_first_zero_clear split: option.split)
  qed (use i z eq [OF z] in simp_all)
qed

lemma zone_number:
  fixes f :: u16
  assumes "n < 65536"
  shows "sint (of_nat n + ucast f - 1 :: u32) = int n + uint f - 1"
    and "(of_nat n + ucast f - 1 :: u32) - (ucast f - 1) = of_nat n"
    and "unat (of_nat n :: u32) = n" and "unat ((of_nat n :: u32) AND 8191) = n mod 8192"
proof -
  have f: "0 \<le> uint f" "uint f < 65536" using uint_range_size [of f] by (simp_all add: word_size)
  have "(ucast f :: u32) = word_of_int (uint f)" by (simp only: unsigned_word_eqI ucast_eq)
  then have "(of_nat n + ucast f - 1 :: u32) = word_of_int (int n + uint f - 1)" by simp
  moreover have "sint (word_of_int (int n + uint f - 1) :: u32) = int n + uint f - 1"
  proof -
    have "signed_take_bit 31 (int n + uint f - 1) = int n + uint f - 1"
      by (rule signed_take_bit_int_eq_self; simp; use assms f in linarith)
    then show "sint (word_of_int (int n + uint f - 1) :: u32) = int n + uint f - 1"
      by (simp only: sint_sbintrunc' len_num1 len_bit0) simp
  qed
  ultimately show "sint (of_nat n + ucast f - 1 :: u32) = int n + uint f - 1" by (simp only:)
  show "(of_nat n + ucast f - 1 :: u32) - (ucast f - 1) = of_nat n" by simp
  show u: "unat (of_nat n :: u32) = n" using assms by (simp add: unat_of_nat)
  have "(of_nat n :: u32) AND 8191 = take_bit 13 (of_nat n)" by (simp add: take_bit_eq_mask mask_eq_exp_minus_1)
  then have "unat ((of_nat n :: u32) AND 8191) = take_bit 13 (unat (of_nat n :: u32))"
    by (simp only: unsigned_take_bit_eq)
  then show "unat ((of_nat n :: u32) AND 8191) = n mod 8192" unfolding u by (simp add: take_bit_eq_mod)
qed

lemma quiet_block_cong:
  assumes "NR_BUFFERS s' = NR_BUFFERS s" "\<forall>b. is_block dev block (bufs s' b) = is_block dev block (bufs s b)"
    "\<forall>b. b_count (bufs s' b) = b_count (bufs s b) \<and> b_lock (bufs s' b) = b_lock (bufs s b)"
    "\<forall>b. b_count (bufs s b) = 0 \<longrightarrow> b_dirt (bufs s' b) = b_dirt (bufs s b)"
  shows "quiet_block dev block s' = quiet_block dev block s"
proof -
  have "cached dev block s' = cached dev block s" by (simp add: cached_def assms(1,2))
  then show ?thesis using assms by (auto simp: quiet_block_def split: option.split)
qed

lemma wake_up_fs [simp]:
  "kmem (wake_up q s) = kmem s" "super_blocks (wake_up q s) = super_blocks s" "NR_BUFFERS (wake_up q s) = NR_BUFFERS s"
  "hash_table (wake_up q s) = hash_table s" "free_list (wake_up q s) = free_list s"
  by (simp_all add: wake_up_def set_state_def mod_task_def)

lemma brelse_unlocked:
  assumes "b_lock (bufs s b) = 0" "b_count (bufs s b) \<noteq> 0"
  shows "brelse w (Some b) s = Some (wake_up Buffer_wait (mod_buf b (\<lambda>x. x\<lparr>b_count := b_count x - 1\<rparr>) s))"
  using assms by (simp add: brelse_def wait_on_buffer.simps Let_def)

lemma new_block_runs:
  assumes super: "super_ready sb dev s" and maps: "maps_ready sb s" and dev: "ucast (ucast dev :: u16) = dev"
    and n: "n < 65536" "zone_free sb n s" "\<forall>k<n. \<not> zone_free sb k s"
    and blk: "blk = of_nat n + ucast (s_firstdatazone (super_blocks s sb)) - 1"
    and range: "int n + uint (s_firstdatazone (super_blocks s sb)) - 1 < uint (s_nzones (super_blocks s sb))"
    and quiet: "quiet_block dev blk s"
  obtains s' b z where "new_block w dev s = Some (blk, s')" "b < NR_BUFFERS s" "is_block dev blk (bufs s' b)"
    "b_uptodate (bufs s' b) = 1" "b_dirt (bufs s' b) = 1" "b_count (bufs s' b) = 0" "b_lock (bufs s' b) = 0"
    "s_zmap (super_blocks s sb) (n div 8192) = Some z" "b_count (bufs s b) = 0"
    "kmem s' = fill_bytes 1024 0 (data_of b s) (put_bit (n mod 8192) (data_of z s) True (kmem s))"
    "super_blocks s' = super_blocks s" "NR_BUFFERS s' = NR_BUFFERS s" "cache_ok s'"
    "\<forall>c. data_of c s' = data_of c s" "\<forall>c. c \<noteq> b \<longrightarrow> b_count (bufs s' c) = b_count (bufs s c)"
proof -
  define i where "i = n div 8192"
  obtain z where z: "s_zmap (super_blocks s sb) i = Some z"
    using n(2) by (auto simp: zone_free_def i_def split: option.splits)
  have i: "i < 8" using n(1) by (simp add: i_def)
  have zb: "z < NR_BUFFERS s" "b_count (bufs s z) > 0" using maps z i by (auto simp: maps_ready_def)
  have sup: "get_super w dev s = Some (Some sb, s)"
    using get_super_quiet super unfolding super_ready_def by blast
  have mwz: "map_with_zero (s_zmap (super_blocks s sb)) s = Some i"
    and ffz: "find_first_zero (data_of z s) (kmem s) = n mod 8192"
    using map_with_zero_first [OF n] z by (simp_all add: i_def)
  have clear: "\<not> mem_bit (n mod 8192) (data_of z s) (kmem s)" using n(2) z by (simp add: zone_free_def i_def)
  have num: "of_nat (n mod 8192 + i * 8192) + ucast (s_firstdatazone (super_blocks s sb)) - 1 = blk"
    unfolding blk i_def by (metis mod_div_mult_eq)
  define s2 where "s2 = mod_buf z (\<lambda>x. x\<lparr>b_dirt := 1\<rparr>) (s\<lparr>kmem := put_bit (n mod 8192) (data_of z s) True (kmem s)\<rparr>)"
  have ok2: "cache_ok s2"
    using maps same_links_cache_ok [of s s2] by (simp add: maps_ready_def same_links_def s2_def links_def mod_buf_def)
  have q2: "quiet_block dev blk s2"
  proof -
    have "quiet_block dev blk s2 = quiet_block dev blk s"
      by (rule quiet_block_cong) (use zb(2) in \<open>auto simp: s2_def mod_buf_def is_block_def\<close>)
    then show ?thesis using quiet by simp
  qed
  have dev0: "dev \<noteq> 0" using super by (simp add: super_ready_def)
  obtain b s3 where b: "getblk w dev blk s2 = Some (b, s3)" "b < NR_BUFFERS s2" "b_count (bufs s2 b) = 0"
    "b_lock (bufs s2 b) = 0" "b_count (bufs s3 b) = 1" "is_block dev blk (bufs s3 b)" "cache_ok s3" "same_data s2 s3"
    "\<forall>c. c \<noteq> b \<longrightarrow> b_count (bufs s3 c) = b_count (bufs s2 c)"
    using getblk_quiet [OF ok2 dev0 dev q2] by blast
  define s4 where "s4 = mod_buf b (\<lambda>x. x\<lparr>b_uptodate := 1, b_dirt := 1\<rparr>) (clear_block (data_of b s3) s3)"
  define s' where "s' = wake_up Buffer_wait (mod_buf b (\<lambda>x. x\<lparr>b_count := b_count x - 1\<rparr>) s4)"
  have rel: "brelse w (Some b) s4 = Some s'"
    unfolding s'_def
    by (rule brelse_unlocked) (use b(4,5,8) in \<open>simp_all add: s4_def clear_block_def mod_buf_def same_data_def\<close>)
  have sint: "sint blk < uint (s_nzones (super_blocks s sb))" unfolding blk zone_number(1) [OF n(1)] by (rule range)
  have num': "of_nat (n mod 8192) + of_nat i * 8192 + ucast (s_firstdatazone (super_blocks s sb)) - 1 = blk"
    using num by simp
  have s2': "super_blocks s2 = super_blocks s" "NR_BUFFERS s2 = NR_BUFFERS s" "data_of c s2 = data_of c s"
    "b_count (bufs s2 c) = b_count (bufs s c)" "kmem s2 = put_bit (n mod 8192) (data_of z s) True (kmem s)" for c
    by (simp_all add: s2_def mod_buf_def)
  have "new_block w dev s = Some (blk, s')"
    using sup mwz z b(1,5) rel sint
    by (simp add: new_block_def set_bit_asm_def ffz clear Let_def s2_def [symmetric] s2' num' s4_def [symmetric])
  moreover have "cache_ok s'"
    using b(7) same_links_cache_ok [of s3 s'] by (simp add: same_links_def s'_def s4_def clear_block_def links_def mod_buf_def)
  ultimately show ?thesis
    by (intro that [of s' b z]) (use b z in \<open>simp_all add: i_def s'_def s4_def s2' clear_block_def mod_buf_def same_data_def is_block_def\<close>)
qed

lemma free_block_runs:
  assumes super: "super_ready sb dev s" and ok: "cache_ok s" and n: "0 < n" "n < 65536"
    and blk: "blk = of_nat n + ucast (s_firstdatazone (super_blocks s sb)) - 1"
    and range: "int n + uint (s_firstdatazone (super_blocks s sb)) - 1 < uint (s_nzones (super_blocks s sb))"
    and b: "b < NR_BUFFERS s" "is_block dev blk (bufs s b)" "b_count (bufs s b) = 0" "b_lock (bufs s b) = 0"
    and z: "s_zmap (super_blocks s sb) (n div 8192) = Some z"
  obtains s' where "free_block w dev blk s = Some (1, s')"
    "kmem s' = put_bit (n mod 8192) (data_of z s) False (kmem s)" "super_blocks s' = super_blocks s"
    "\<forall>c. data_of c s' = data_of c s"
proof -
  have sup: "get_super w dev s = Some (Some sb, s)" and dev0: "dev \<noteq> 0"
    using get_super_quiet super unfolding super_ready_def by blast+
  have "find_buffer dev blk s = Some (Some b)"
    using find_buffer_char [OF ok dev0, of blk] b(1,2) by auto
  then have g: "get_hash_table w dev blk s = Some (Some b, mod_buf b (\<lambda>x. x\<lparr>b_count := b_count x + 1\<rparr>) s)"
    using b by (subst get_hash_table.simps) (simp add: wait_on_buffer.simps is_block_def mod_buf_def)
  define s2 where "s2 = mod_buf b (\<lambda>x. x\<lparr>b_dirt := 0, b_uptodate := 0\<rparr>) (mod_buf b (\<lambda>x. x\<lparr>b_count := b_count x + 1\<rparr>) s)"
  define s3 where "s3 = wake_up Buffer_wait (mod_buf b (\<lambda>x. x\<lparr>b_count := b_count x - 1\<rparr>) s2)"
  have rel: "brelse w (Some b) s2 = Some s3"
    unfolding s3_def by (rule brelse_unlocked) (use b in \<open>simp_all add: s2_def mod_buf_def\<close>)
  have c2: "b_count (bufs s2 b) = 1" "b_count (bufs (mod_buf b (\<lambda>x. x\<lparr>b_count := b_count x + 1\<rparr>) s) b) = 1"
    using b(3) by (simp_all add: s2_def mod_buf_def)
  have s3: "super_blocks s3 = super_blocks s" "kmem s3 = kmem s" "data_of c s3 = data_of c s" for c
    by (simp_all add: s3_def s2_def mod_buf_def)
  have f: "blk - (ucast (s_firstdatazone (super_blocks s sb)) - 1) = of_nat n"
    unfolding blk by (rule zone_number(2) [OF n(2)])
  have i: "n div 8192 < 8" using n(2) by auto
  have zm: "zmap_buffer sb (of_nat n) x = Some z" if "super_blocks x = super_blocks s" for x :: "'a fs_scheme"
    using i z that by (simp add: zmap_buffer_def zone_number(3) [OF n(2)])
  have sint: "\<not> (sint blk < uint (s_firstdatazone (super_blocks s sb)) \<or> uint (s_nzones (super_blocks s sb)) \<le> sint blk)"
    unfolding blk zone_number(1) [OF n(2)] using range n(1) by simp
  define s4 where "s4 = s3\<lparr>kmem := put_bit (n mod 8192) (data_of z s) False (kmem s)\<rparr>"
  have "free_block w dev blk s = Some (1, mod_buf z (\<lambda>x. x\<lparr>b_dirt := 1\<rparr>) s4)"
    using sup g rel c2 sint
    by (simp add: free_block_def Let_def s2_def [symmetric] s3 f zm clear_bit_asm_def zone_number(4) [OF n(2)] s4_def)
  then show ?thesis by (rule that) (simp_all add: s4_def s3 mod_buf_def)
qed


lemma data_apart:
  assumes "maps_ready sb s" "a < NR_BUFFERS s" "b < NR_BUFFERS s" "a \<noteq> b" "i < 1024" "j < 1024"
  shows "data_of a s + of_nat i \<noteq> data_of b s + of_nat j"
  using assms by (simp add: maps_ready_def)

lemma zone_free_put_bit:
  assumes "maps_ready sb s" "s_zmap (super_blocks s sb) (n div 8192) = Some z" "n < 65536" "k < 65536"
  shows "zone_free sb k (s\<lparr>kmem := put_bit (n mod 8192) (data_of z s) v m\<rparr>)
     = (if k = n then \<not> v else zone_free sb k (s\<lparr>kmem := m\<rparr>))"
proof (cases "s_zmap (super_blocks s sb) (k div 8192)")
  case None
  then have "k \<noteq> n" using assms(2) by auto
  then show ?thesis using None by (simp add: zone_free_def)
next
  case (Some y)
  have d: "n div 8192 < 8" "k div 8192 < 8" using assms(3,4) by auto
  then have yz: "y < NR_BUFFERS s" "z < NR_BUFFERS s"
    using assms(1,2) Some by (auto simp: maps_ready_def)
  have eq: "y = z \<longleftrightarrow> k div 8192 = n div 8192"
    using assms(1,2) d Some unfolding maps_ready_def by (metis option.inject option.distinct(1))
  have da: "data_of z s = data_of y s \<longleftrightarrow> y = z"
    using data_apart [OF assms(1) yz(2,1), of 0 0] by auto
  have kn: "k = n \<longleftrightarrow> k div 8192 = n div 8192 \<and> k mod 8192 = n mod 8192" by (metis div_mult_mod_eq)
  have "mem_bit (k mod 8192) (data_of y s) (put_bit (n mod 8192) (data_of z s) v m)
      = (if data_of z s = data_of y s \<and> k mod 8192 = n mod 8192 then v else mem_bit (k mod 8192) (data_of y s) m)"
    by (rule mem_bit_put_bit) (use data_apart [OF assms(1) yz(2,1)] in auto)
  then show ?thesis using Some da eq kn by (simp add: zone_free_def)
qed

lemma zone_free_cong:
  assumes "super_blocks s' = super_blocks s" "\<forall>c. data_of c s' = data_of c s" "k < 65536"
    "\<And>z i. s_zmap (super_blocks s sb) (k div 8192) = Some z \<Longrightarrow> i < 1024 \<Longrightarrow>
       kmem s' (data_of z s + of_nat i) = kmem s (data_of z s + of_nat i)"
  shows "zone_free sb k s' = zone_free sb k s"
  using assms mem_bit_cong [where m' = "kmem s'" and m = "kmem s" and k = "k mod 8192"]
  by (auto simp: zone_free_def split: option.split)

lemma fill_block:
  assumes "maps_ready sb s" "b < NR_BUFFERS s"
  shows "i < 1024 \<Longrightarrow> fill_bytes 1024 0 (data_of b s) m (data_of b s + of_nat i) = 0"
    and "c < NR_BUFFERS s \<Longrightarrow> c \<noteq> b \<Longrightarrow> i < 1024 \<Longrightarrow>
       fill_bytes 1024 0 (data_of b s) m (data_of c s + of_nat i) = m (data_of c s + of_nat i)"
proof -
  show "fill_bytes 1024 0 (data_of b s) m (data_of b s + of_nat i) = 0" if "i < 1024"
    using that by (simp add: fill_bytes_apply unat_of_nat)
  assume c: "c < NR_BUFFERS s" "c \<noteq> b" "i < 1024"
  have "\<not> unat (data_of c s + of_nat i - data_of b s) < 1024"
  proof
    assume l: "unat (data_of c s + of_nat i - data_of b s) < 1024"
    have "data_of b s + of_nat (unat (data_of c s + of_nat i - data_of b s)) = data_of c s + of_nat i" by simp
    then show False using data_apart [OF assms(1) c(1) assms(2) c(2,3) l] by simp
  qed
  then show "fill_bytes 1024 0 (data_of b s) m (data_of c s + of_nat i) = m (data_of c s + of_nat i)"
    by (simp add: fill_bytes_apply)
qed

lemma put_bit_elsewhere:
  assumes "maps_ready sb s" "a < NR_BUFFERS s" "c < NR_BUFFERS s" "c \<noteq> a" "i < 1024" "n < 8192"
  shows "put_bit n (data_of a s) v m (data_of c s + of_nat i) = m (data_of c s + of_nat i)"
proof -
  have "n div 8 < 1024" using assms(6) by auto
  then show ?thesis using data_apart [OF assms(1-3) assms(4) [symmetric], of "n div 8" i] assms(5)
    by (simp add: put_bit_def Let_def)
qed

text \<open>
  C23. On a device whose super block and maps are in memory, \<^verbatim>\<open>new_block\<close> hands out the first free block:
  a buffer of the block is zeroed and marked dirty, its bit is set and no other bit changes, no buffer
  of another block but the map changes, and \<^verbatim>\<open>free_block\<close> of the block restores the maps exactly.
\<close>

theorem new_block_then_free_block:
  assumes super: "super_ready sb dev s" and maps: "maps_ready sb s" and dev: "ucast (ucast dev :: u16) = dev"
    and n: "0 < n" "n < 65536" "zone_free sb n s" "\<forall>k<n. \<not> zone_free sb k s"
    and blk: "blk = of_nat n + ucast (s_firstdatazone (super_blocks s sb)) - 1"
    and range: "int n + uint (s_firstdatazone (super_blocks s sb)) - 1 < uint (s_nzones (super_blocks s sb))"
    and quiet: "quiet_block dev blk s"
  shows "\<exists>b s'. new_block w dev s = Some (blk, s') \<and> is_block dev blk (bufs s' b) \<and> b_dirt (bufs s' b) = 1
     \<and> (\<forall>i<1024. kmem s' (data_of b s' + of_nat i) = 0)
     \<and> (\<forall>k<65536. zone_free sb k s' = (zone_free sb k s \<and> k \<noteq> n))
     \<and> (\<forall>c<NR_BUFFERS s. c \<noteq> b \<longrightarrow> s_zmap (super_blocks s sb) (n div 8192) \<noteq> Some c \<longrightarrow>
          (\<forall>i<1024. kmem s' (data_of c s + of_nat i) = kmem s (data_of c s + of_nat i)))
     \<and> (\<exists>s''. free_block w dev blk s' = Some (1, s'') \<and> (\<forall>k<65536. zone_free sb k s'' = zone_free sb k s))"
proof -
  let ?map = "s_zmap (super_blocks s sb)"
  obtain s' b z where r: "new_block w dev s = Some (blk, s')" "b < NR_BUFFERS s" "is_block dev blk (bufs s' b)"
    "b_uptodate (bufs s' b) = 1" "b_dirt (bufs s' b) = 1" "b_count (bufs s' b) = 0" "b_lock (bufs s' b) = 0"
    "?map (n div 8192) = Some z" "b_count (bufs s b) = 0"
    "kmem s' = fill_bytes 1024 0 (data_of b s) (put_bit (n mod 8192) (data_of z s) True (kmem s))"
    "super_blocks s' = super_blocks s" "NR_BUFFERS s' = NR_BUFFERS s" "cache_ok s'"
    "\<forall>c. data_of c s' = data_of c s" "\<forall>c. c \<noteq> b \<longrightarrow> b_count (bufs s' c) = b_count (bufs s c)"
    using new_block_runs [OF super maps dev n(2-4) blk range quiet] by blast
  have map: "y < NR_BUFFERS s \<and> y \<noteq> b" if "?map j = Some y" "j < 8" for j y
    using maps that r(9) by (auto simp: maps_ready_def)
  have z: "z < NR_BUFFERS s" "z \<noteq> b" using map [OF r(8)] n(2) by auto
  have filled: "zone_free sb k s' = zone_free sb k (s\<lparr>kmem := put_bit (n mod 8192) (data_of z s) True (kmem s)\<rparr>)"
    if "k < 65536" for k
    by (rule zone_free_cong) (use that r map fill_block(2) [OF maps r(2)] in auto)
  have zones: "zone_free sb k s' = (zone_free sb k s \<and> k \<noteq> n)" if "k < 65536" for k
    using filled [OF that] zone_free_put_bit [OF maps r(8) n(2) that] by (cases "k = n") simp_all
  have maps': "super_ready sb dev s'" "maps_ready sb s'"
  proof -
    show "super_ready sb dev s'" using super by (simp add: super_ready_def r(11))
    show "maps_ready sb s'" using maps map r(12-15) unfolding maps_ready_def r(11) by simp
  qed
  obtain s'' where f: "free_block w dev blk s' = Some (1, s'')"
    "kmem s'' = put_bit (n mod 8192) (data_of z s') False (kmem s')" "super_blocks s'' = super_blocks s'"
    "\<forall>c. data_of c s'' = data_of c s'"
    using free_block_runs [OF maps'(1) r(13) n(1,2), of blk b z w] blk range r by (auto simp: r(11,12))
  have zm: "s_zmap (super_blocks s' sb) (n div 8192) = Some z" using r(8) by (simp add: r(11))
  have restored: "zone_free sb k s'' = zone_free sb k s" if k: "k < 65536" for k
  proof -
    have "zone_free sb k s'' = zone_free sb k (s'\<lparr>kmem := put_bit (n mod 8192) (data_of z s') False (kmem s')\<rparr>)"
      by (rule zone_free_cong) (use k f in auto)
    then show ?thesis using zone_free_put_bit [OF maps'(2) zm n(2) k] zones [OF k] n(3) by simp
  qed
  have other: "kmem s' (data_of c s + of_nat i) = kmem s (data_of c s + of_nat i)"
    if "c < NR_BUFFERS s" "c \<noteq> b" "?map (n div 8192) \<noteq> Some c" "i < 1024" for c i
    using fill_block(2) [OF maps r(2) that(1,2,4)] put_bit_elsewhere [OF maps z(1) that(1) _ that(4)] that(3) r(8)
    by (simp add: r(10))
  have zero: "kmem s' (data_of b s' + of_nat i) = 0" if "i < 1024" for i
    using fill_block(1) [OF maps r(2) that] by (simp add: r(10,14))
  show ?thesis
    by (intro exI conjI allI impI; (rule r f | erule zero zones other restored)?) (use zero zones other restored in auto)
qed


section \<open>Examples\<close>

text \<open>A device whose only map is buffer 0, with the bit of zone 0 set.\<close>

definition small_super :: super_block where
  "small_super = \<lparr>s_ninodes = 32, s_nzones = 100, s_imap_blocks = 1, s_zmap_blocks = 1, s_firstdatazone = 10,
     s_log_zone_size = 0, s_max_size = 0, s_magic = 0x137F, s_imap = (\<lambda>_. None),
     s_zmap = (\<lambda>i. if i = 0 then Some 0 else None), s_dev = 0x301, s_isup = None, s_imount = None, s_time = 0,
     s_lock = 0, s_rd_only = 0, s_dirt = 0\<rparr>"

definition small_fs :: fs where
  "small_fs = cache.extend blank_cache (fs.fields (\<lambda>_. small_super) 0)"

lemma small_disk:
  obtains s :: fs where "super_ready 0 0x301 s" "maps_ready 0 s" "zone_free 0 1 s" "\<not> zone_free 0 0 s"
    "quiet_block 0x301 10 s" "super_blocks s = (\<lambda>_. small_super)"
proof -
  let ?P = "\<lambda>t :: fs. \<forall>i<NR_BUFFERS t. unat (data_of i t) = 3153920 - 1024 * (i + 1) \<and> 3145728 + 36 * NR_BUFFERS t \<le> unat (data_of i t)
    \<and> b_count (bufs t i) = 0 \<and> b_lock (bufs t i) = 0 \<and> b_dirt (bufs t i) = 0 \<and> b_dev (bufs t i) = 0"
  obtain t :: fs where t: "buffer_init 0x302000 small_fs = Some t" "cache_ok t" "?P t"
    "3153920 - 1024 * (NR_BUFFERS t + 1) < 3145728 + 36 * (NR_BUFFERS t + 1)"
    using buffer_init_cache [where buffer_end = "0x302000" and s = small_fs] by (auto simp: Let_def)
  have n: "2 \<le> NR_BUFFERS t" using t(4) by simp
  define s where "s = mod_buf 0 (\<lambda>x. x\<lparr>b_count := 1\<rparr>) (t\<lparr>kmem := (kmem t)(data_of 0 t := 1),
    super_blocks := (\<lambda>_. small_super)\<rparr>)"
  have addr: "unat (data_of a s + of_nat i) = 3153920 - 1024 * (a + 1) + i" if "a < NR_BUFFERS s" "i < 1024" for a i
  proof -
    have "unat (data_of a t) = 3153920 - 1024 * (a + 1)" using t(3) that by (simp add: s_def mod_buf_def)
    then have "unat (data_of a t) + i < 2 ^ 32" "unat (of_nat i :: u32) = i" using that by (simp_all add: unat_of_nat)
    then have "unat (data_of a t + of_nat i) = unat (data_of a t) + i" by (simp add: unat_word_ariths)
    moreover have "data_of a s = data_of a t" by (simp add: s_def mod_buf_def)
    ultimately show ?thesis using \<open>unat (data_of a t) = _\<close> by (simp only:)
  qed
  have low: "1024 * (a + 1) \<le> 3153920" if "a < NR_BUFFERS s" for a
  proof -
    have "unat (data_of a t) = 3153920 - 1024 * (a + 1)" "3145728 \<le> unat (data_of a t)"
      using t(3) that by (fastforce simp: s_def mod_buf_def)+
    then show ?thesis by linarith
  qed
  have apart: "data_of a s + of_nat i \<noteq> data_of b s + of_nat j"
    if "a < NR_BUFFERS s" "b < NR_BUFFERS s" "i < 1024" "j < 1024" "a \<noteq> b" for a b i j
  proof
    assume "data_of a s + of_nat i = data_of b s + of_nat j"
    then have "3153920 - 1024 * (a + 1) + i = 3153920 - 1024 * (b + 1) + j"
      using addr [OF that(1,3)] addr [OF that(2,4)] by simp
    moreover obtain x y where "3153920 = 1024 * (a + 1) + x" "3153920 = 1024 * (b + 1) + y"
      using low [of a] low [of b] \<open>a < _\<close> \<open>b < _\<close> by (metis le_Suc_ex)
    ultimately have "x + i = y + j" "1024 * (a + 1) + x = 1024 * (b + 1) + y" by (metis diff_add_inverse)+
    then have "1024 * b + i = 1024 * a + j" by (simp add: algebra_simps)
    then show False using that(3-5) by (cases a b rule: linorder_cases) linarith+
  qed
  have ok: "cache_ok s"
    using t(2) same_links_cache_ok [of t s] by (simp add: same_links_def s_def links_def mod_buf_def)
  have "maps_ready 0 s"
    unfolding maps_ready_def
    using ok apart n by (simp add: s_def mod_buf_def small_super_def)
  moreover have "super_ready 0 0x301 s" by (simp add: super_ready_def s_def mod_buf_def small_super_def)
  moreover have "quiet_block 0x301 10 s"
  proof -
    have "cached 0x301 10 s = None"
      using t(3) by (auto simp: cached_def find_None_iff s_def mod_buf_def is_block_def)
    moreover have "1 < NR_BUFFERS s \<and> b_count (bufs s 1) = 0 \<and> b_dirt (bufs s 1) = 0 \<and> b_lock (bufs s 1) = 0"
      using t(3) n by (simp add: s_def mod_buf_def)
    ultimately show ?thesis by (auto simp: quiet_block_def)
  qed
  moreover have "zone_free 0 1 s" "\<not> zone_free 0 0 s"
    by (simp_all add: zone_free_def s_def mod_buf_def small_super_def mem_bit_def bit_1_iff)
  moreover have "super_blocks s = (\<lambda>_. small_super)" by (simp add: s_def mod_buf_def)
  ultimately show ?thesis by (intro that)
qed

theorem new_block_then_free_block_witness:
  "\<exists>(s :: fs) b s' s''. new_block quiet 0x301 s = Some (10, s') \<and> is_block 0x301 10 (bufs s' b) \<and> \<not> zone_free 0 1 s'
     \<and> free_block quiet 0x301 10 s' = Some (1, s'') \<and> zone_free 0 1 s''"
proof (rule small_disk)
  fix s :: fs
  assume s: "super_ready 0 0x301 s" "maps_ready 0 s" "zone_free 0 1 s" "\<not> zone_free 0 0 s"
    "quiet_block 0x301 10 s" "super_blocks s = (\<lambda>_. small_super)"
  have least: "\<forall>k<1. \<not> zone_free 0 k s" using s(4) by simp
  have blk: "10 = of_nat 1 + ucast (s_firstdatazone (super_blocks s 0)) - (1 :: u32)"
    "int 1 + uint (s_firstdatazone (super_blocks s 0)) - 1 < uint (s_nzones (super_blocks s 0))"
    by (simp_all add: s(6) small_super_def)
  obtain b s' s'' where r: "new_block quiet 0x301 s = Some (10, s')" "is_block 0x301 10 (bufs s' b)"
    "\<forall>k<65536. zone_free 0 k s' = (zone_free 0 k s \<and> k \<noteq> 1)" "free_block quiet 0x301 10 s' = Some (1, s'')"
    "\<forall>k<65536. zone_free 0 k s'' = zone_free 0 k s"
    using new_block_then_free_block [OF s(1,2) _ _ _ s(3) least blk s(5), of quiet] by auto
  have "\<not> zone_free 0 1 s'" "zone_free 0 1 s''" using r(3,5) s(3) by simp_all
  with r(1,2,4) show ?thesis by blast
qed

end
