(* ===== verification/File_Counts.thy ===== *)
theory File_Counts
  imports File_Ops Block_Alloc
begin

text \<open>
  The open files: the reference count of an entry of the file table is the number of descriptors of all
  tasks that point to it. Duplicating, closing and inheriting descriptors keep this.
\<close>

section \<open>The references to a file\<close>

definition open_refs :: "'a files_scheme \<Rightarrow> nat \<Rightarrow> nat" where
  "open_refs s f = (\<Sum>i<NR_TASKS. if task s i = 0 then 0 else descriptors_of NR_OPEN (t_filp (tstruct s (task s i))) f)"

text \<open>The tables are well-formed: no task is in two slots, the current task has one, its descriptors name
  entries of the file table, and the counts are right.\<close>

definition files_ok :: "'a files_scheme \<Rightarrow> bool" where
  "files_ok s \<longleftrightarrow>
     (\<forall>i<NR_TASKS. \<forall>j<NR_TASKS. task s i = task s j \<longrightarrow> task s i \<noteq> 0 \<longrightarrow> i = j)
     \<and> current s \<noteq> 0 \<and> (\<exists>i<NR_TASKS. task s i = current s)
     \<and> (\<forall>i<NR_TASKS. task s i \<noteq> 0 \<longrightarrow>
          (\<forall>fd<NR_OPEN. \<forall>f. t_filp (tstruct s (task s i)) fd = Some f \<longrightarrow> f < NR_FILE))
     \<and> (\<forall>f<NR_FILE. unat (f_count (file_table s f)) = open_refs s f)"

lemma descriptors_of_le: "descriptors_of n filp f \<le> n"
  unfolding descriptors_of_def using length_filter_le [of _ "[0..<n]"] by simp

lemma refs_le: "open_refs s f \<le> NR_TASKS * NR_OPEN"
proof -
  have "open_refs s f \<le> (\<Sum>i<NR_TASKS. NR_OPEN)"
    unfolding open_refs_def by (rule sum_mono) (use descriptors_of_le [of NR_OPEN] in auto)
  then show ?thesis by simp
qed

lemma refs_pos:
  assumes "i < NR_TASKS" "task s i \<noteq> 0" "fd < NR_OPEN" "t_filp (tstruct s (task s i)) fd = Some f"
  shows "0 < open_refs s f"
proof -
  have "fd \<in> set (filter (\<lambda>j. t_filp (tstruct s (task s i)) j = Some f) [0..<NR_OPEN])" using assms by simp
  then have "0 < descriptors_of NR_OPEN (t_filp (tstruct s (task s i))) f"
    unfolding descriptors_of_def by (simp only: length_pos_if_in_set)
  then have "0 < (if task s i = 0 then 0 else descriptors_of NR_OPEN (t_filp (tstruct s (task s i))) f)"
    using assms by simp
  also have "\<dots> \<le> open_refs s f"
    unfolding open_refs_def by (rule member_le_sum) (use assms in auto)
  finally show ?thesis .
qed

lemma descriptors_of_upd:
  assumes "fd < n"
  shows "descriptors_of n (filp(fd := x)) f + (if filp fd = Some f then 1 else 0)
     = descriptors_of n filp f + (if x = Some f then 1 else 0)"
proof -
  have split: "[0..<n] = [0..<fd] @ fd # [Suc fd..<n]"
    using assms upt_add_eq_append [of 0 fd "n - fd"] by (simp add: upt_conv_Cons)
  have a: "filter (\<lambda>i. (filp(fd := x)) i = Some f) [0..<fd] = filter (\<lambda>i. filp i = Some f) [0..<fd]"
    "filter (\<lambda>i. (filp(fd := x)) i = Some f) [Suc fd..<n] = filter (\<lambda>i. filp i = Some f) [Suc fd..<n]"
    by (auto intro: filter_cong)
  show ?thesis unfolding descriptors_of_def split filter_append filter.simps a by simp
qed

lemma sum_one_differs:
  fixes g h :: "nat \<Rightarrow> nat"
  assumes "c < n" "\<And>i. i < n \<Longrightarrow> i \<noteq> c \<Longrightarrow> g i = h i" "g c + a = h c + b"
  shows "sum g {..<n} + a = sum h {..<n} + b"
proof -
  have "sum g {..<n} = g c + sum g ({..<n} - {c})" "sum h {..<n} = h c + sum h ({..<n} - {c})"
    by (rule sum.remove; use assms(1) in simp)+
  moreover have "sum g ({..<n} - {c}) = sum h ({..<n} - {c})"
    by (rule sum.cong) (use assms(2) in auto)
  ultimately show ?thesis using assms(3) by simp
qed

lemma files_okD:
  assumes "files_ok s"
  shows "i < NR_TASKS \<Longrightarrow> j < NR_TASKS \<Longrightarrow> task s i = task s j \<Longrightarrow> task s i \<noteq> 0 \<Longrightarrow> i = j"
    and "current s \<noteq> 0" and "\<exists>i<NR_TASKS. task s i = current s"
    and "i < NR_TASKS \<Longrightarrow> task s i \<noteq> 0 \<Longrightarrow> fd < NR_OPEN \<Longrightarrow> t_filp (tstruct s (task s i)) fd = Some f \<Longrightarrow> f < NR_FILE"
    and "f < NR_FILE \<Longrightarrow> unat (f_count (file_table s f)) = open_refs s f"
  using assms unfolding files_ok_def by blast+

lemma cur_filp:
  assumes "files_ok s" "fd < NR_OPEN" "t_filp (cur s) fd = Some f"
  shows "f < NR_FILE" "0 < open_refs s f"
proof -
  obtain c where "c < NR_TASKS" "task s c = current s" "current s \<noteq> 0" using files_okD(2,3) [OF assms(1)] by blast
  then show "f < NR_FILE" "0 < open_refs s f"
    using files_okD(4) [OF assms(1), of c fd f] refs_pos [of c s fd f] assms(2,3) by simp_all
qed

text \<open>A descriptor of the current task is set: the counts of the old and of the new file differ by one.\<close>

lemma refs_set_filp:
  assumes "files_ok s" "fd < NR_OPEN"
  shows "open_refs (set_filp fd x s) f + (if t_filp (cur s) fd = Some f then 1 else 0)
     = open_refs s f + (if x = Some f then 1 else 0)"
proof -
  obtain c where c: "c < NR_TASKS" "task s c = current s" "current s \<noteq> 0" using files_okD(2,3) [OF assms(1)] by blast
  show ?thesis
    unfolding open_refs_def
  proof (rule sum_one_differs [OF c(1)])
    fix i assume i: "i < NR_TASKS" "i \<noteq> c"
    then have "task s i \<noteq> current s \<or> task s i = 0" using files_okD(1) [OF assms(1) i(1) c(1)] c by auto
    then show "(if task (set_filp fd x s) i = 0 then 0
        else descriptors_of NR_OPEN (t_filp (tstruct (set_filp fd x s) (task (set_filp fd x s) i))) f)
      = (if task s i = 0 then 0 else descriptors_of NR_OPEN (t_filp (tstruct s (task s i))) f)"
      by (auto simp: set_filp_def mod_task_def)
  next
    show "(if task (set_filp fd x s) c = 0 then 0
        else descriptors_of NR_OPEN (t_filp (tstruct (set_filp fd x s) (task (set_filp fd x s) c))) f)
        + (if t_filp (cur s) fd = Some f then 1 else 0)
      = (if task s c = 0 then 0 else descriptors_of NR_OPEN (t_filp (tstruct s (task s c))) f)
        + (if x = Some f then 1 else 0)"
      using descriptors_of_upd [OF assms(2), of "t_filp (cur s)" x f] c by (simp add: set_filp_def mod_task_def)
  qed
qed


lemma refs_files_cong:
  assumes "task s' = task s" "\<And>p. t_filp (tstruct s' p) = t_filp (tstruct s p)"
  shows "open_refs s' f = open_refs s f"
  unfolding open_refs_def by (simp only: assms)

text \<open>A descriptor of the current task and the counts change together.\<close>

lemma files_ok_set_filp:
  assumes ok: "files_ok s" and fd: "fd < NR_OPEN" and x: "\<And>f. x = Some f \<Longrightarrow> f < NR_FILE"
    and s': "task s' = task s" "current s' = current s"
      "\<And>p. t_filp (tstruct s' p) = t_filp (tstruct (set_filp fd x s) p)"
    and count: "\<And>f. f < NR_FILE \<Longrightarrow> unat (f_count (file_table s' f)) + (if t_filp (cur s) fd = Some f then 1 else 0)
       = unat (f_count (file_table s f)) + (if x = Some f then 1 else 0)"
  shows "files_ok s'"
proof -
  have "open_refs s' f = open_refs (set_filp fd x s) f" for f
    by (rule refs_files_cong) (simp_all add: s' set_filp_def mod_task_def)
  then have "unat (f_count (file_table s' f)) = open_refs s' f" if "f < NR_FILE" for f
    using refs_set_filp [OF ok fd, of x f] count [OF that] files_okD(5) [OF ok that] by simp
  moreover have "g < NR_FILE" if "i < NR_TASKS" "task s i \<noteq> 0" "d < NR_OPEN" "t_filp (tstruct s' (task s i)) d = Some g" for i d g
    using that files_okD(4) [OF ok that(1-3)] x
    by (auto simp: s' set_filp_def mod_task_def split: if_splits)
  ultimately show ?thesis
    using ok unfolding files_ok_def s'(1,2) by blast
qed

lemma count_below:
  assumes "files_ok s" "f < NR_FILE"
  shows "unat (f_count (file_table s f) + 1) = unat (f_count (file_table s f)) + 1"
proof -
  have "unat (f_count (file_table s f)) \<le> NR_TASKS * NR_OPEN"
    using files_okD(5) [OF assms] refs_le by simp
  then have "unat (f_count (file_table s f)) + 1 < 2 ^ 16" by simp
  then show ?thesis by (simp add: unat_word_ariths)
qed

section \<open>Duplicating and closing\<close>

lemma dupfd_counts:
  assumes ok: "files_ok s"
  shows "files_ok (snd (dupfd fd arg s))"
proof (cases "file_of_fd fd s")
  case None
  then show ?thesis using ok by (simp add: dupfd_def)
next
  case (Some f)
  then have f: "f < NR_FILE" using cur_filp [OF ok, of fd f] by (simp add: file_of_fd_def split: if_splits)
  show ?thesis
  proof (cases "arg \<ge> NR_OPEN \<or> List.find (\<lambda>i. t_filp (cur s) i = None) [arg..<NR_OPEN] = None")
    case True
    then show ?thesis using Some ok by (auto simp: dupfd_def)
  next
    case False
    then obtain k where k: "List.find (\<lambda>i. t_filp (cur s) i = None) [arg..<NR_OPEN] = Some k" by auto
    then have free: "t_filp (cur s) k = None" "k < NR_OPEN" by (auto simp: find_Some_iff nth_upt)
    let ?s = "mod_file f (\<lambda>x. x\<lparr>f_count := f_count x + 1\<rparr>) (set_filp k (Some f) (clear_close_on_exec k s))"
    have "files_ok ?s"
    proof (rule files_ok_set_filp [OF ok free(2), of "Some f"])
      show "unat (f_count (file_table ?s g)) + (if t_filp (cur s) k = Some g then 1 else 0)
         = unat (f_count (file_table s g)) + (if Some f = Some g then 1 else 0)" if "g < NR_FILE" for g
        using count_below [OF ok f] free(1)
        by (cases "f = g") (simp_all add: mod_file_def set_filp_def mod_task_def)
    qed (use f in \<open>auto simp: mod_file_def set_filp_def mod_task_def\<close>)
    then show ?thesis using Some False k by (simp add: dupfd_def)
  qed
qed

text \<open>Closing does not run into the panic for a count of zero, and the inode is released with the last descriptor.\<close>

lemma sys_close_counts:
  assumes ok: "files_ok s"
  obtains r s' where "files_ok s'" "sys_close w fd s = Some (r, s')"
  | s' f where "files_ok s'" "open_refs s' f = 0" "sys_close w fd s = do { s \<leftarrow> iput w (f_inode (file_table s' f)) s'; Some (0, s) }"
proof (cases "fd < NR_OPEN \<and> t_filp (cur s) fd \<noteq> None")
  case False
  have "files_ok (clear_close_on_exec fd s)" if "fd < NR_OPEN" "t_filp (cur s) fd = None"
    by (rule files_ok_set_filp [OF ok that(1), of None])
      (use that in \<open>auto simp: set_filp_def mod_task_def\<close>)
  moreover have "t_filp (cur (clear_close_on_exec fd s)) fd = t_filp (cur s) fd"
    by (simp add: mod_task_def)
  ultimately show ?thesis using False ok that(1)
    by (cases "fd < NR_OPEN") (auto simp: sys_close_def Let_def)
next
  case True
  then obtain f where f: "t_filp (cur s) fd = Some f" "fd < NR_OPEN" by auto
  then have f': "f < NR_FILE" "0 < open_refs s f" using cur_filp [OF ok] by blast+
  let ?c = "f_count (file_table s f)"
  have c: "?c \<noteq> 0" using f' files_okD(5) [OF ok] by (metis less_irrefl unat_0)
  then have dec: "unat (?c - 1) + 1 = unat ?c" by (simp add: unat_minus_one Suc_leI unat_gt_0)
  define s' where "s' = mod_file f (\<lambda>x. x\<lparr>f_count := f_count x - 1\<rparr>) (set_filp fd None (clear_close_on_exec fd s))"
  have ok': "files_ok s'"
  proof (rule files_ok_set_filp [OF ok f(2), of None])
    show "unat (f_count (file_table s' g)) + (if t_filp (cur s) fd = Some g then 1 else 0)
       = unat (f_count (file_table s g)) + (if None = Some g then 1 else 0)" if "g < NR_FILE" for g
      using dec f(1) by (cases "f = g") (simp_all add: s'_def mod_file_def set_filp_def mod_task_def)
  qed (auto simp: s'_def mod_file_def set_filp_def mod_task_def)
  have filp: "t_filp (cur (clear_close_on_exec fd s)) fd = Some f"
    using f(1) by (simp add: mod_task_def)
  have tab: "file_table (set_filp fd None (clear_close_on_exec fd s)) f = file_table s f"
    by (simp add: set_filp_def mod_task_def)
  have close: "sys_close w fd s = (if f_count (file_table s' f) \<noteq> 0 then Some (0, s')
      else do { s \<leftarrow> iput w (f_inode (file_table s' f)) s'; Some (0, s) })"
    using f(2) filp c by (simp add: sys_close_def Let_def tab s'_def)
  show ?thesis
  proof (cases "f_count (file_table s' f) = 0")
    case True
    then have "open_refs s' f = 0" using files_okD(5) [OF ok' f'(1)] by simp
    then show ?thesis using that(2) [OF ok'] close True by simp
  next
    case False
    then show ?thesis using that(1) [OF ok'] close by simp
  qed
qed


section \<open>Opening and inheriting\<close>

lemma reserve_counts:
  assumes ok: "files_ok s" and fd: "fd \<in> set (free_fds s)" and f: "f \<in> set (free_files s)"
  shows "files_ok (mod_file f (\<lambda>x. x\<lparr>f_count := f_count x + 1\<rparr>) (set_filp fd (Some f) s))" (is "files_ok ?s")
proof -
  have free: "fd < NR_OPEN" "t_filp (cur s) fd = None" "f < NR_FILE" "f_count (file_table s f) = 0"
    using fd f by (auto simp: free_fds_def free_files_def)
  show ?thesis
  proof (rule files_ok_set_filp [OF ok free(1), of "Some f"])
    show "unat (f_count (file_table ?s g)) + (if t_filp (cur s) fd = Some g then 1 else 0)
       = unat (f_count (file_table s g)) + (if Some f = Some g then 1 else 0)" if "g < NR_FILE" for g
      using count_below [OF ok free(3)] free(2)
      by (cases "f = g") (simp_all add: mod_file_def set_filp_def mod_task_def)
  qed (use free in \<open>auto simp: mod_file_def set_filp_def mod_task_def\<close>)
qed

text \<open>The child as \<^verbatim>\<open>copy_process\<close> puts it into a free slot, before it counts what is shared. It
  is an auxiliary function of the statement on fork: the two steps are those of \<open>copy_process\<close>.\<close>

definition add_child :: "nat \<Rightarrow> task_ptr \<Rightarrow> fork_regs \<Rightarrow> 'a files_scheme \<Rightarrow> 'a files_scheme" where
  "add_child nr p r s =
     (let s = s\<lparr>task := (task s)(nr := p)\<rparr> in mod_task p (\<lambda>_. child_task nr p r s) s)"

lemma fork_counts:
  assumes ok: "files_ok s" and nr: "nr < NR_TASKS" "task s nr = 0" and p: "p \<noteq> 0" "\<forall>i<NR_TASKS. task s i \<noteq> p"
  shows "files_ok (share_files p (add_child nr p r s))"
proof -
  define s1 where "s1 = add_child nr p r s"
  obtain c where c: "c < NR_TASKS" "task s c = current s" "current s \<noteq> 0" using files_okD(2,3) [OF ok] by blast
  have s1: "task s1 = (task s)(nr := p)" "current s1 = current s" "file_table s1 = file_table s"
    "t_filp (tstruct s1 q) = (if q = p then t_filp (cur s) else t_filp (tstruct s q))" for q
    by (simp_all add: s1_def add_child_def mod_task_def child_task_def Let_def fun_eq_iff)
  let ?d = "\<lambda>f. descriptors_of NR_OPEN (t_filp (cur s)) f"
  have refs1: "open_refs s1 f = open_refs s f + ?d f" for f
  proof -
    have "open_refs s1 f + 0 = open_refs s f + ?d f"
      unfolding open_refs_def
    proof (rule sum_one_differs [OF nr(1)])
      fix i assume "i < NR_TASKS" "i \<noteq> nr"
      then show "(if task s1 i = 0 then 0 else descriptors_of NR_OPEN (t_filp (tstruct s1 (task s1 i))) f)
        = (if task s i = 0 then 0 else descriptors_of NR_OPEN (t_filp (tstruct s (task s i))) f)"
        using p(2) by (simp add: s1)
    qed (use nr p in \<open>simp add: s1\<close>)
    then show ?thesis by simp
  qed
  define s2 where "s2 = share_files p s1"
  have s2: "s2 = s1\<lparr>file_table := (\<lambda>f. (file_table s f)\<lparr>f_count := f_count (file_table s f) + of_nat (?d f)\<rparr>)\<rparr>"
    unfolding s2_def share_files_counts by (simp add: s1)
  have "files_ok s2"
    unfolding files_ok_def
  proof (intro conjI allI impI)
    fix i j assume "i < NR_TASKS" "j < NR_TASKS" "task s2 i = task s2 j" "task s2 i \<noteq> 0"
    then show "i = j" using files_okD(1) [OF ok, of i j] p(2) by (auto simp: s2 s1 split: if_splits)
  next
    show "current s2 \<noteq> 0" "\<exists>i<NR_TASKS. task s2 i = current s2"
      using c nr(2) by (auto simp: s2 s1 intro!: exI [of _ c])
  next
    fix i fd f
    assume a: "i < NR_TASKS" "task s2 i \<noteq> 0" "fd < NR_OPEN" "t_filp (tstruct s2 (task s2 i)) fd = Some f"
    show "f < NR_FILE"
    proof (cases "i = nr")
      case True
      then have "t_filp (cur s) fd = Some f" using a by (simp add: s2 s1)
      then show ?thesis using cur_filp(1) [OF ok a(3)] by blast
    next
      case False
      then show ?thesis using a p(2) files_okD(4) [OF ok a(1) _ a(3)] by (simp add: s2 s1)
    qed
  next
    fix f assume f: "f < NR_FILE"
    have "open_refs s2 f = open_refs s1 f" by (rule refs_files_cong) (simp_all add: s2)
    then have r: "open_refs s2 f = unat (f_count (file_table s f)) + ?d f" using refs1 files_okD(5) [OF ok f] by simp
    moreover have "open_refs s2 f < 2 ^ 16" using refs_le [of s2 f] by simp
    ultimately show "unat (f_count (file_table s2 f)) = open_refs s2 f"
      by (simp add: s2 unat_word_ariths unat_of_nat)
  qed
  then show ?thesis by (simp add: s2_def s1_def)
qed

text \<open>
  C3. The count of every entry of the file table is the number of descriptors of all tasks that point to
  it, and no descriptor points outside the table. Duplicating a descriptor, reserving one for
  \<^verbatim>\<open>open\<close> and handing all of them to a child keep this; closing one keeps it up to the release of
  the inode, which happens exactly when no descriptor is left, and never panics on a count of zero.
\<close>

theorem descriptors_counted:
  assumes "files_ok s"
  shows "files_ok (snd (dupfd fd arg s))
    \<and> (\<exists>s'. files_ok s' \<and> ((\<exists>r. sys_close w fd s = Some (r, s'))
         \<or> (\<exists>f. open_refs s' f = 0 \<and> sys_close w fd s = do { s \<leftarrow> iput w (f_inode (file_table s' f)) s'; Some (0, s) })))
    \<and> (\<forall>fd\<in>set (free_fds s). \<forall>f\<in>set (free_files s).
         files_ok (mod_file f (\<lambda>x. x\<lparr>f_count := f_count x + 1\<rparr>) (set_filp fd (Some f) s)))
    \<and> (\<forall>p r nr. nr < NR_TASKS \<and> task s nr = 0 \<and> p \<noteq> 0 \<and> (\<forall>i<NR_TASKS. task s i \<noteq> p) \<longrightarrow>
         files_ok (share_files p (add_child nr p r s)))"
proof (intro conjI)
  show "\<exists>s'. files_ok s' \<and> ((\<exists>r. sys_close w fd s = Some (r, s'))
      \<or> (\<exists>f. open_refs s' f = 0 \<and> sys_close w fd s = do { s \<leftarrow> iput w (f_inode (file_table s' f)) s'; Some (0, s) }))"
  proof (cases rule: sys_close_counts [OF assms, of w fd, case_names plain last])
    case (plain r s')
    then show ?thesis by blast
  next
    case (last s' f)
    then show ?thesis by blast
  qed
qed (use dupfd_counts [OF assms] reserve_counts [OF assms] fork_counts [OF assms] in simp_all)


section \<open>An example\<close>

text \<open>Task 0 alone, with descriptor 0 open on entry 0.\<close>

definition open_zero :: "'a files_scheme \<Rightarrow> 'a files_scheme" where
  "open_zero s = s\<lparr>task := (\<lambda>i. if i = 0 then 0x12000 else 0), current := 0x12000,
     tstruct := (\<lambda>_. (tstruct s 0)\<lparr>t_state := 0, t_counter := 15, t_signal := 0,
       t_filp := (\<lambda>fd. if fd = 0 then Some 0 else None)\<rparr>),
     file_table := (\<lambda>f. if f = 0 then blank_file\<lparr>f_count := 1\<rparr> else blank_file)\<rparr>"

lemma open_zero_refs: "open_refs (open_zero s) f = (if f = 0 then 1 else 0)"
proof -
  have "open_refs (open_zero s) f = (\<Sum>i<NR_TASKS. if i = 0 then descriptors_of NR_OPEN (\<lambda>fd. if fd = 0 then Some 0 else None) f else 0)"
    unfolding open_refs_def by (rule sum.cong) (simp_all add: open_zero_def)
  also have "\<dots> = descriptors_of NR_OPEN (\<lambda>fd. if fd = 0 then Some 0 else None) f" by simp
  also have "\<dots> = (if f = 0 then 1 else 0)" by (simp add: descriptors_of_def upt_conv_Cons)
  finally show ?thesis .
qed

lemma open_zero_ok: "files_ok (open_zero s)"
  unfolding files_ok_def open_zero_refs
  by (auto simp: open_zero_def blank_file_def split: if_splits)

lemma open_zero_free: "find (\<lambda>i. t_filp (cur (open_zero s)) i = None) [0..<20] = Some 1"
  by (simp add: open_zero_def upt_conv_Cons)

theorem descriptors_counted_witness:
  "files_ok (snd (dupfd 0 0 (open_zero small_fs))) \<and> fst (dupfd 0 0 (open_zero small_fs)) = 1
    \<and> f_count (file_table (snd (dupfd 0 0 (open_zero small_fs))) 0) = 2"
proof -
  have "dupfd 0 0 (open_zero small_fs) = (1, mod_file 0 (\<lambda>x. x\<lparr>f_count := f_count x + 1\<rparr>)
      (set_filp 1 (Some 0) (clear_close_on_exec 1 (open_zero small_fs))))"
    using open_zero_free [of small_fs] by (simp add: dupfd_def file_of_fd_def open_zero_def)
  moreover have "f_count (file_table (mod_file 0 (\<lambda>x. x\<lparr>f_count := f_count x + 1\<rparr>)
      (set_filp 1 (Some 0) (clear_close_on_exec 1 (open_zero small_fs)))) 0) = 2"
    by (simp add: open_zero_def mod_file_def set_filp_def mod_task_def)
  ultimately show ?thesis
    using descriptors_counted [OF open_zero_ok, of 0 0 small_fs] by simp
qed

end
