(* ===== verification/Tty_Queue.thy ===== *)
theory Tty_Queue
  imports Tty Ring
begin

text \<open>
  The queues of the terminals are rings of 1024 slots that hold at most 1023 characters, and
  first in, first out queues in the sense of the locale \<open>fifo\<close>. On a line without any processing
  of its input, as the serial lines are set up, the characters reach the reader in order.
\<close>

section \<open>The queues of the terminals\<close>

interpretation tty_ring: ring 1024 by unfold_locales simp

definition q_ok :: "tty_queue \<Rightarrow> bool" where
  "q_ok q \<longleftrightarrow> q_head q < 1024 \<and> q_tail q < 1024"

definition q_items :: "tty_queue \<Rightarrow> u8 list" where
  "q_items q = ring_items 1024 (\<lambda>i. q_buf q (of_nat i)) (unat (q_head q)) (unat (q_tail q))"

definition q_room :: "tty_queue \<Rightarrow> nat" where
  "q_room q = unat (q_LEFT q)"

lemma q_okD: "q_ok q \<Longrightarrow> unat (q_head q) < 1024" "q_ok q \<Longrightarrow> unat (q_tail q) < 1024"
  by (simp_all add: q_ok_def word_less_nat_alt)

lemma q_okI: "unat (q_head q) < 1024 \<Longrightarrow> unat (q_tail q) < 1024 \<Longrightarrow> q_ok q"
  by (simp add: q_ok_def word_less_nat_alt)

lemma unat_INC: "unat (INC a) = (unat a + 1) mod 1024"
  using word_sum_low [of 10 a 1] by (simp add: INC_def ring_masks)

lemma q_CHARS_items: "q_ok q \<Longrightarrow> unat (q_CHARS q) = length (q_items q)"
  using word_count_low [of 10 "q_head q" "q_tail q"] q_okD [of q]
  by (simp add: q_CHARS_def ring_masks q_items_def)

lemma q_room_items: "q_ok q \<Longrightarrow> q_room q = 1023 - length (q_items q)"
proof -
  assume ok: "q_ok q"
  let ?h = "unat (q_head q)" and ?t = "unat (q_tail q)"
  note b = q_okD [OF ok]
  have "unat (q_head q + 1) = ?h + 1" using b by (simp add: unat_word_ariths)
  then have h1: "uint (q_head q + 1) = int (?h + 1)" by (metis uint_nat)
  have "int (q_room q) = (uint (q_tail q) - uint (q_head q + 1)) mod 1024"
    using word_diff_low [of 10 "q_tail q" "q_head q + 1"]
    unfolding q_room_def q_LEFT_def ring_masks diff_diff_eq uint_nat [symmetric] by simp
  also have "\<dots> = (int ?t - int (?h + 1)) mod 1024"
    unfolding h1 by (simp only: uint_nat)
  also have "\<dots> = int (1023 - ring_count 1024 ?h ?t)"
  proof (cases "?t \<le> ?h")
    case True
    then have c: "ring_count 1024 ?h ?t = ?h - ?t" using b by (simp add: ring_count_def mod_once)
    have "(int ?t - int (?h + 1)) mod 1024 = (int ?t - int (?h + 1) + 1024) mod 1024"
      by (rule mod_add_self2 [symmetric])
    also have "\<dots> = int ?t - int (?h + 1) + 1024" using True b by (intro mod_pos_pos_trivial) linarith+
    also have "\<dots> = int (1023 - (?h - ?t))" using True b by linarith
    finally show ?thesis unfolding c .
  next
    case False
    then have c: "ring_count 1024 ?h ?t = ?h + 1024 - ?t" using b by (simp add: ring_count_def)
    have "(int ?t - int (?h + 1)) mod 1024 = int ?t - int (?h + 1)"
      using False b by (intro mod_pos_pos_trivial) linarith+
    also have "\<dots> = int (1023 - (?h + 1024 - ?t))" using False b by linarith
    finally show ?thesis unfolding c .
  qed
  finally show ?thesis by (simp add: q_items_def)
qed

lemma q_EMPTY_items: "q_ok q \<Longrightarrow> q_EMPTY q \<longleftrightarrow> q_items q = []"
proof -
  assume ok: "q_ok q"
  have "q_items q = [] \<longleftrightarrow> ring_count 1024 (unat (q_head q)) (unat (q_tail q)) = 0"
    unfolding q_items_def ring_items_def by simp
  also have "\<dots> \<longleftrightarrow> unat (q_head q) = unat (q_tail q)"
    using q_okD [OF ok] by (auto simp: ring_count_def mod_once split: if_splits)
  finally show ?thesis by (simp add: q_EMPTY_def word_unat_eq_iff)
qed

lemma q_FULL_room: "q_FULL q \<longleftrightarrow> q_room q = 0"
  by (simp add: q_FULL_def q_room_def unat_eq_0)

lemma q_put_items:
  assumes "q_ok q" "0 < q_room q"
  shows "q_items (q_put c q) = q_items q @ [c]"
proof -
  let ?h = "unat (q_head q)" and ?t = "unat (q_tail q)"
  note b = q_okD [OF assms(1)]
  have len: "ring_count 1024 ?h ?t + 1 < 1024"
    using q_room_items [OF assms(1)] assms(2) by (simp add: q_items_def)
  have same: "(of_nat i :: u32) = q_head q \<longleftrightarrow> i = ?h" if "i < 1024" for i
    using that by (auto simp: word_unat_eq_iff unat_of_nat)
  have "q_items (q_put c q) = ring_items 1024 (\<lambda>i. if ?h \<le> i \<and> i < ?h + 1 then c else q_buf q (of_nat i)) ((?h + 1) mod 1024) ?t"
    unfolding q_items_def ring_items_def q_put_def using same by (auto simp: unat_INC)
  also have "\<dots> = q_items q @ [c]"
    using tty_ring.put_piece [OF b _ len, where c = "\<lambda>_. c" and b = "\<lambda>i. q_buf q (of_nat i)"] b
    by (simp add: q_items_def)
  finally show ?thesis .
qed

lemma q_get_items:
  assumes "q_ok q" "q_items q \<noteq> []"
  shows "q_items q = fst (q_get q) # q_items (snd (q_get q))"
proof -
  let ?h = "unat (q_head q)" and ?t = "unat (q_tail q)"
  note b = q_okD [OF assms(1)]
  have k: "1 \<le> ring_count 1024 ?h ?t" using assms(2) by (simp add: q_items_def Suc_le_eq flip: length_greater_0_conv)
  have "take 1 (q_items q) = [q_buf q (q_tail q)]"
    using tty_ring.taken_piece [OF b k, of "\<lambda>i. q_buf q (of_nat i)"] b by (simp add: q_items_def Suc_le_eq)
  moreover have "drop 1 (q_items q) = q_items (snd (q_get q))"
    using tty_ring.take_piece [OF b k, of "\<lambda>i. q_buf q (of_nat i)"] by (simp add: q_items_def q_get_def unat_INC)
  ultimately show ?thesis
    by (metis append_Cons append_Nil append_take_drop_id fst_conv q_get_def)
qed

lemma q_ok_put: "q_ok q \<Longrightarrow> q_ok (q_put c q)" and q_ok_get: "q_ok q \<Longrightarrow> q_ok (snd (q_get q))"
  by (auto intro!: q_okI simp: q_put_def q_get_def unat_INC dest: q_okD)

interpretation ttyq: fifo q_ok q_items q_room q_put q_get
proof
  fix q c
  assume "q_ok q" "0 < q_room q"
  then show "q_ok (q_put c q)" "q_items (q_put c q) = q_items q @ [c]" "q_room (q_put c q) = q_room q - 1"
    by (simp_all add: q_ok_put q_put_items q_room_items)
next
  fix q
  assume "q_ok q" "q_items q \<noteq> []"
  then show "q_ok (snd (q_get q))" "q_items q = fst (q_get q) # q_items (snd (q_get q))"
    by (simp_all add: q_ok_get q_get_items [symmetric])
  then have "length (q_items q) = Suc (length (q_items (snd (q_get q))))" by (metis length_Cons)
  moreover have "length (q_items q) < 1024" using tty_ring.count_less by (simp add: q_items_def)
  ultimately show "q_room (snd (q_get q)) = q_room q + 1"
    using q_room_items \<open>q_ok q\<close> \<open>q_ok (snd (q_get q))\<close> by simp
qed

section \<open>Input without processing\<close>

lemma mod_queue_simps [simp]:
  "tty_queues (mod_queue q f s) = (tty_queues s)(q := f (tty_queues s q))"
  "tty_table (mod_queue q f s) = tty_table s" "tstruct (mod_queue q f s) = tstruct s"
  "current (mod_queue q f s) = current s" "fs_mem (mod_queue q f s) = fs_mem s"
  "wq (mod_queue q f s) = wq s" "jiffies (mod_queue q f s) = jiffies s"
  "fg_console (mod_queue q f s) = fg_console s"
  by (simp_all add: mod_queue_def)

lemma q_data_simps [simp]:
  "q_ok (x\<lparr>q_data := d\<rparr>) = q_ok x" "q_items (x\<lparr>q_data := d\<rparr>) = q_items x"
  "q_EMPTY (x\<lparr>q_data := d\<rparr>) = q_EMPTY x" "q_FULL (x\<lparr>q_data := d\<rparr>) = q_FULL x"
  "q_room (x\<lparr>q_data := d\<rparr>) = q_room x"
  "q_put c (x\<lparr>q_data := d\<rparr>) = (q_put c x)\<lparr>q_data := d\<rparr>"
  by (simp_all add: q_ok_def q_items_def q_EMPTY_def q_FULL_def q_LEFT_def q_room_def q_put_def)

lemma put_fs_byte_simps [simp]:
  "fs_mem (put_fs_byte v a s) = (fs_mem s)(a := v)" "tstruct (put_fs_byte v a s) = tstruct s"
  "current (put_fs_byte v a s) = current s" "jiffies (put_fs_byte v a s) = jiffies s"
  "wq (put_fs_byte v a s) = wq s"
  by (simp_all add: put_fs_byte_def)

lemma put_fs_byte_tty [simp]:
  "tty_queues (put_fs_byte v a s) = tty_queues s" "tty_table (put_fs_byte v a s) = tty_table s"
  by (simp_all add: put_fs_byte_def)

lemma of_nat_u32_neq_0: "0 < k \<Longrightarrow> k < 2 ^ 32 \<Longrightarrow> (of_nat k :: u32) \<noteq> 0"
  by (simp add: word_unat_eq_iff unat_of_nat)

lemma take_line_raw:
  assumes "c_lflag (t_termios (tty_table s tty)) AND ICANON = 0" "q_ok (tty_queues s q)"
    and "q_items (tty_queues s q) = cs" "cs \<noteq> []" "0 < nr"
  shows "\<exists>s'. take_line tty q buf done nr s = (done + min nr (length cs), nr - min nr (length cs), s')
     \<and> q_ok (tty_queues s' q) \<and> q_items (tty_queues s' q) = drop (min nr (length cs)) cs
     \<and> (\<forall>j < min nr (length cs). fs_mem s' (buf + of_nat (done + j)) = cs ! j)
     \<and> (\<forall>a. (\<forall>j < min nr (length cs). a \<noteq> buf + of_nat (done + j)) \<longrightarrow> fs_mem s' a = fs_mem s a)
     \<and> tty_table s' = tty_table s \<and> tstruct s' = tstruct s \<and> current s' = current s"
  using assms
proof (induction nr arbitrary: "done" s cs)
  case (Suc nr)
  let ?x = "tty_queues s q"
  obtain c cs' where cs: "cs = c # cs'" using Suc.prems(4) by (cases cs) auto
  note deq = ttyq.deq_items [OF Suc.prems(2)] ttyq.deq_ok [OF Suc.prems(2)]
  have c: "fst (q_get ?x) = c" and rest: "q_items (snd (q_get ?x)) = cs'" and ok: "q_ok (snd (q_get ?x))"
    using deq Suc.prems(3) cs by simp_all
  have len: "length cs < 1024"
    using tty_ring.count_less Suc.prems(3) by (auto simp: q_items_def)
  define s1 where "s1 = snd (GETCH q s)"
  define s2 where "s2 = (if is_cc VEOF c tty s1 \<or> c = 10
     then mod_queue q (\<lambda>x. x\<lparr>q_data := q_data x - 1\<rparr>) s1 else s1)"
  define s3 where "s3 = put_fs_byte c (buf + of_nat done) s2"
  have s2: "q_ok (tty_queues s2 q)" "q_items (tty_queues s2 q) = cs'" "tty_table s2 = tty_table s"
    "tstruct s2 = tstruct s" "current s2 = current s" "fs_mem s2 = fs_mem s"
    using ok rest by (auto simp: s2_def s1_def GETCH_def)
  have canon: "c_lflag (t_termios (tty_table s1 tty)) AND ICANON = 0"
    using Suc.prems(1) by (simp add: s1_def GETCH_def)
  have step: "take_line tty q buf done (Suc nr) s =
    (if nr = 0 \<or> cs' = [] then (done + 1, nr, s3) else take_line tty q buf (done + 1) nr s3)"
  proof -
    have g: "GETCH q s = (c, s1)" by (simp add: s1_def GETCH_def c)
    have e: "q_EMPTY (tty_queues s2 q) \<longleftrightarrow> cs' = []" using s2(1,2) by (simp add: q_EMPTY_items)
    show ?thesis unfolding take_line.simps g Let_def split s2_def [symmetric] s3_def [symmetric]
      using canon e by (simp add: s3_def)
  qed
  show ?case
  proof (cases "nr = 0 \<or> cs' = []")
    case True
    then have m: "min (Suc nr) (length cs) = 1" by (auto simp: cs)
    show ?thesis unfolding step m using True s2 by (simp add: cs s3_def)
  next
    case False
    then have nr: "0 < nr" "cs' \<noteq> []" by auto
    have prems: "c_lflag (t_termios (tty_table s3 tty)) AND ICANON = 0" "q_ok (tty_queues s3 q)"
      "q_items (tty_queues s3 q) = cs'"
      using s2 Suc.prems(1) by (simp_all add: s3_def)
    from Suc.IH [OF prems nr(2,1), of "done + 1"] obtain s'
      where IH: "take_line tty q buf (done + 1) nr s3
          = (done + 1 + min nr (length cs'), nr - min nr (length cs'), s')"
        "q_ok (tty_queues s' q)" "q_items (tty_queues s' q) = drop (min nr (length cs')) cs'"
        "\<forall>j < min nr (length cs'). fs_mem s' (buf + of_nat (done + 1 + j)) = cs' ! j"
        "\<forall>a. (\<forall>j < min nr (length cs'). a \<noteq> buf + of_nat (done + 1 + j)) \<longrightarrow> fs_mem s' a = fs_mem s3 a"
        "tty_table s' = tty_table s3" "tstruct s' = tstruct s3" "current s' = current s3"
      by auto
    have m: "min (Suc nr) (length cs) = Suc (min nr (length cs'))" by (simp add: cs)
    have apart: "buf + of_nat (done + 1 + j) \<noteq> buf + of_nat done" if "j < min nr (length cs')" for j
      using of_nat_u32_neq_0 [of "1 + j"] that len cs by (simp add: add.assoc)
    have first: "fs_mem s' (buf + of_nat done) = c" using IH(5) apart by (metis fun_upd_same put_fs_byte_simps(1) s3_def)
    have bytes: "fs_mem s' (buf + of_nat (done + j)) = cs ! j" if "j < Suc (min nr (length cs'))" for j
      using first IH(4) that by (cases j) (simp_all add: cs)
    have others: "fs_mem s' a = fs_mem s a" if A: "\<forall>j < Suc (min nr (length cs')). a \<noteq> buf + of_nat (done + j)" for a
    proof -
      have "a \<noteq> buf + of_nat done" using A by (metis add_0_right zero_less_Suc)
      moreover have "\<forall>j < min nr (length cs'). a \<noteq> buf + of_nat (done + 1 + j)"
        using A by (metis Suc_less_eq add_Suc_right add.assoc plus_1_eq_Suc)
      ultimately show ?thesis using IH(5) s2(6) by (simp add: s3_def)
    qed
    show ?thesis unfolding step m using False IH(1,2,3,6,7,8) bytes others s2 by (simp add: cs s3_def)
  qed
qed simp


lemma cook_char_raw:
  assumes "c_iflag (t_termios (tty_table s tty)) = 0" "c_lflag (t_termios (tty_table s tty)) = 0"
  shows "cook_char w tty q c s = Some (PUTCH c q
     (if c = 10 \<or> is_cc VEOF c tty s then mod_queue q (\<lambda>x. x\<lparr>q_data := q_data x + 1\<rparr>) s else s))"
  using assms by (simp add: cook_char_def echo_char_def)

lemma cook_loop_raw:
  assumes "rq \<noteq> q" "c_iflag (t_termios (tty_table s tty)) = 0" "c_lflag (t_termios (tty_table s tty)) = 0"
    and "q_ok (tty_queues s rq)" "q_ok (tty_queues s q)" "q_items (tty_queues s rq) = cs"
  shows "\<exists>s'. cook_loop w tty rq q s = Some s' \<and> q_ok (tty_queues s' rq) \<and> q_ok (tty_queues s' q)
     \<and> q_items (tty_queues s' rq) = drop (q_room (tty_queues s q)) cs
     \<and> q_items (tty_queues s' q) = q_items (tty_queues s q) @ take (q_room (tty_queues s q)) cs
     \<and> tty_table s' = tty_table s \<and> tstruct s' = tstruct s \<and> current s' = current s \<and> fs_mem s' = fs_mem s
     \<and> fg_console s' = fg_console s \<and> wq s' = wq s"
  using assms
proof (induction cs arbitrary: s)
  case Nil
  then show ?case by (subst cook_loop.simps) (simp add: q_EMPTY_items)
next
  case (Cons c cs)
  let ?r = "tty_queues s rq" and ?q = "tty_queues s q"
  show ?case
  proof (cases "q_room ?q = 0")
    case True
    then show ?thesis using Cons.prems by (subst cook_loop.simps) (simp add: q_FULL_room)
  next
    case False
    have ne: "q_items ?r \<noteq> []" using Cons.prems(6) by simp
    have c: "fst (q_get ?r) = c" "q_items (snd (q_get ?r)) = cs"
      using ttyq.deq_items [OF Cons.prems(4) ne] Cons.prems(6) by simp_all
    define s1 where "s1 = mod_queue rq (\<lambda>x. snd (q_get x)) s"
    define s2 where "s2 = PUTCH c q (if c = 10 \<or> is_cc VEOF c tty s1
       then mod_queue q (\<lambda>x. x\<lparr>q_data := q_data x + 1\<rparr>) s1 else s1)"
    have g: "GETCH rq s = (c, s1)" by (simp add: GETCH_def s1_def c)
    have cook: "cook_char w tty q c s1 = Some s2"
      unfolding s2_def by (rule cook_char_raw) (use Cons.prems in \<open>simp_all add: s1_def\<close>)
    have conv: "convert_input tty c s1 = Some (Some c)"
      using Cons.prems by (simp add: convert_input_def s1_def)
    have step: "cook_loop w tty rq q s = cook_loop w tty rq q s2"
      by (subst cook_loop.simps) (simp add: g conv cook q_EMPTY_items Cons.prems q_FULL_room False)
    have q2: "q_ok (tty_queues s2 q)" "q_items (tty_queues s2 q) = q_items ?q @ [c]"
      "q_room (tty_queues s2 q) = q_room ?q - 1"
      using Cons.prems False ttyq.enq_ok [of ?q c] ttyq.enq_items [of ?q c] ttyq.enq_room [of ?q c]
      by (simp_all add: s2_def s1_def PUTCH_def)
    have r2: "q_ok (tty_queues s2 rq)" "q_items (tty_queues s2 rq) = cs"
      using Cons.prems c q_ok_get by (simp_all add: s2_def s1_def PUTCH_def)
    have f2: "tty_table s2 = tty_table s" "tstruct s2 = tstruct s" "current s2 = current s"
      "fs_mem s2 = fs_mem s" "fg_console s2 = fg_console s" "wq s2 = wq s"
      by (simp_all add: s2_def s1_def PUTCH_def)
    from Cons.IH [OF Cons.prems(1) _ _ r2(1) q2(1) r2(2)] Cons.prems f2 obtain s'
      where "cook_loop w tty rq q s2 = Some s'" "q_ok (tty_queues s' rq)" "q_ok (tty_queues s' q)"
        "q_items (tty_queues s' rq) = drop (q_room (tty_queues s2 q)) cs"
        "q_items (tty_queues s' q) = q_items (tty_queues s2 q) @ take (q_room (tty_queues s2 q)) cs"
        "tty_table s' = tty_table s" "tstruct s' = tstruct s" "current s' = current s" "fs_mem s' = fs_mem s"
        "fg_console s' = fg_console s" "wq s' = wq s"
      by auto
    then show ?thesis unfolding step using q2 False by (cases "q_room ?q") simp_all
  qed
qed

lemma wake_up_simps [simp]:
  "fs_mem (wake_up q s) = fs_mem s" "current (wake_up q s) = current s" "wq (wake_up q s) = wq s"
  "jiffies (wake_up q s) = jiffies s"
  by (simp_all add: wake_up_def set_state_def mod_task_def)

lemma wake_up_tty [simp]:
  "tty_queues (wake_up q s) = tty_queues s" "tty_table (wake_up q s) = tty_table s"
  "fg_console (wake_up q s) = fg_console s"
  by (simp_all add: wake_up_def set_state_def mod_task_def)

lemma mod_task_tty [simp]:
  "tty_queues (mod_task p f s) = tty_queues s" "tty_table (mod_task p f s) = tty_table s"
  "fg_console (mod_task p f s) = fg_console s"
  by (simp_all add: mod_task_def)

text \<open>The fields that decide what a terminal lets a task do are not changed by a wake-up.\<close>

lemma wake_up_ids [simp]:
  "t_tty (tstruct (wake_up q s) p) = t_tty (tstruct s p)" "t_pgrp (tstruct (wake_up q s) p) = t_pgrp (tstruct s p)"
  "t_signal (tstruct (wake_up q s) p) = t_signal (tstruct s p)"
  "t_blocked (tstruct (wake_up q s) p) = t_blocked (tstruct s p)"
  by (simp_all add: wake_up_def)

lemma tty_read_raw:
  assumes "TTY_TABLE channel s = Some tty" "channel < 128"
    and "read_q (tty_table s tty) = Some rq" "secondary (tty_table s tty) = Some q"
    and "t_tty (cur s) \<noteq> int channel \<or> tty_pgrp (tty_table s tty) = t_pgrp (cur s)"
    and "c_lflag (t_termios (tty_table s tty)) = 0" "cc VMIN tty s \<noteq> 0"
    and "q_ok (tty_queues s q)" "q_items (tty_queues s q) = cs" "cs \<noteq> []"
    and "0 < nr" "min (unat (cc VMIN tty s)) nr \<le> length cs"
  shows "\<exists>s'. tty_read w channel buf (int nr) s = Some (int (min nr (length cs)), s')
     \<and> (\<forall>j < min nr (length cs). fs_mem s' (buf + of_nat j) = cs ! j)
     \<and> q_items (tty_queues s' q) = drop (min nr (length cs)) cs"
proof -
  let ?n = "min nr (length cs)"
  define minimum where "minimum = min (uint (cc VMIN tty s)) (int nr)"
  have min0: "uint (cc VMIN tty s) \<noteq> 0" using assms(7) by (metis uint_0_iff)
  obtain time s1 where lim: "read_limits tty (int nr) s = (minimum, time, s1)"
    and s1: "tty_queues s1 = tty_queues s" "tty_table s1 = tty_table s" "fs_mem s1 = fs_mem s"
    using assms(6) min0 that by (simp add: read_limits_def minimum_def Let_def)
  have e: "\<not> q_EMPTY (tty_queues s1 q)" using assms(8,9,10) s1 by (simp add: q_EMPTY_items)
  have "\<exists>s'. take_line tty q buf 0 nr s1 = (?n, nr - ?n, s')
     \<and> q_items (tty_queues s' q) = drop ?n cs \<and> tty_table s' = tty_table s1
     \<and> (\<forall>j < ?n. fs_mem s' (buf + of_nat j) = cs ! j)"
    using take_line_raw [of s1 tty q cs nr buf 0] assms s1 by auto
  then obtain s2 where take: "take_line tty q buf 0 nr s1 = (?n, nr - ?n, s2)"
    and s2: "q_items (tty_queues s2 q) = drop ?n cs" "tty_table s2 = tty_table s"
      "\<forall>j < ?n. fs_mem s2 (buf + of_nat j) = cs ! j"
    using s1 by auto
  define s3 where "s3 = (if time \<noteq> 0 then mod_cur (\<lambda>t. t\<lparr>t_timeout := time + jiffies (wake_up (Tty_queue_wait rq) s2)\<rparr>)
      (wake_up (Tty_queue_wait rq) s2) else wake_up (Tty_queue_wait rq) s2)"
  have s3: "tty_queues s3 = tty_queues s2" "tty_table s3 = tty_table s" "fs_mem s3 = fs_mem s2"
    using s2 by (simp_all add: s3_def)
  have "int ?n \<ge> minimum"
    using assms(12) unfolding minimum_def uint_nat by linarith
  then have loop: "tty_read_loop w tty None minimum time buf 0 nr s1 = Some (?n, s3)"
    using assms(3,4,6,11) s1 s3 e
    by (subst tty_read_loop.simps) (simp add: take s3_def [symmetric] Let_def del: of_nat_min)
  have high: "channel AND 0x80 = 0"
  proof -
    have "\<not> bit channel 7" using assms(2) by (simp add: bit_iff_odd)
    then have "channel AND 2 ^ 7 = 0" by (subst and_exp_eq_0_iff_not_bit)
    then show ?thesis by simp
  qed
  have job: "\<not> (t_tty (cur s) = int channel \<and> tty_pgrp (tty_table s tty) \<noteq> t_pgrp (cur s))" and n: "?n \<noteq> 0"
    using assms(5,10,11) by auto
  have "tty_read w channel buf (int nr) s = Some (int ?n, mod_cur (\<lambda>t. t\<lparr>t_timeout := 0\<rparr>) s3)"
    unfolding tty_read_def using assms(1-4) job lim loop high n
    by (simp only: Let_def bind.simps split simp_thms option.distinct if_False nat_int) auto
  then show ?thesis using s2 s3 by simp
qed

lemma room_of_empty: "q_ok x \<Longrightarrow> q_items x = [] \<Longrightarrow> q_room x = 1023"
  by (simp add: q_room_items)

lemma items_less: "length (q_items x) < 1024"
  using tty_ring.count_less by (simp add: q_items_def)

text \<open>
  C22. A terminal in raw mode passes its input on unchanged: when the interrupt routine has put the
  characters \<open>cs\<close> into the read queue, \<^verbatim>\<open>copy_to_cooked\<close> and a \<^verbatim>\<open>tty_read\<close> of \<open>nr\<close> characters, with at least
  the \<^verbatim>\<open>VMIN\<close> characters that it waits for, both return; the read delivers the first characters
  of \<open>cs\<close> in order to the user's buffer, returns their number, and leaves the others in the queue.
\<close>

theorem raw_line_delivers:
  assumes "TTY_TABLE channel s = Some tty" "channel < 128"
    and "read_q (tty_table s tty) = Some rq" "secondary (tty_table s tty) = Some q" "rq \<noteq> q"
    and "t_tty (cur s) \<noteq> int channel \<or> tty_pgrp (tty_table s tty) = t_pgrp (cur s)"
    and "c_iflag (t_termios (tty_table s tty)) = 0" "c_lflag (t_termios (tty_table s tty)) = 0"
    and "cc VMIN tty s \<noteq> 0"
    and "q_ok (tty_queues s rq)" "q_ok (tty_queues s q)" "q_items (tty_queues s q) = []"
    and "q_items (tty_queues s rq) = cs" "cs \<noteq> []"
    and "0 < nr" "min (unat (cc VMIN tty s)) nr \<le> length cs"
  shows "\<exists>s1 s2. copy_to_cooked w tty s = Some s1
     \<and> tty_read w channel buf (int nr) s1 = Some (int (min nr (length cs)), s2)
     \<and> (\<forall>j < min nr (length cs). fs_mem s2 (buf + of_nat j) = cs ! j)
     \<and> q_items (tty_queues s2 q) = drop (min nr (length cs)) cs"
proof -
  have room: "length cs \<le> q_room (tty_queues s q)"
    using items_less [of "tty_queues s rq"] room_of_empty assms(11-13) by simp
  obtain s' where s': "cook_loop w tty rq q s = Some s'" "q_ok (tty_queues s' q)" "q_items (tty_queues s' q) = cs"
    "tty_table s' = tty_table s" "tstruct s' = tstruct s" "current s' = current s" "fg_console s' = fg_console s"
    using cook_loop_raw [of rq q s tty cs w] assms room by auto
  let ?s1 = "wake_up (Tty_queue_wait q) s'"
  have "copy_to_cooked w tty s = Some ?s1" using assms s' by (simp add: copy_to_cooked_def)
  moreover have "\<exists>s2. tty_read w channel buf (int nr) ?s1 = Some (int (min nr (length cs)), s2)
     \<and> (\<forall>j < min nr (length cs). fs_mem s2 (buf + of_nat j) = cs ! j)
     \<and> q_items (tty_queues s2 q) = drop (min nr (length cs)) cs"
  proof (rule tty_read_raw)
    have "TTY_TABLE channel ?s1 = TTY_TABLE channel s" by (simp add: TTY_TABLE_def s')
    then show "TTY_TABLE channel ?s1 = Some tty" using assms(1) by simp
    show "cc VMIN tty ?s1 \<noteq> 0" "min (unat (cc VMIN tty ?s1)) nr \<le> length cs"
      using assms(9,16) s' by (simp_all add: cc_def)
  qed (use assms s' in simp_all)
  ultimately show ?thesis by blast
qed

text \<open>A terminal whose read queue holds two characters.\<close>

definition blank_super :: super_block where
  "blank_super = \<lparr>s_ninodes = 0, s_nzones = 0, s_imap_blocks = 0, s_zmap_blocks = 0, s_firstdatazone = 0,
     s_log_zone_size = 0, s_max_size = 0, s_magic = 0, s_imap = (\<lambda>_. None), s_zmap = (\<lambda>_. None), s_dev = 0,
     s_isup = None, s_imount = None, s_time = 0, s_lock = 0, s_rd_only = 0, s_dirt = 0\<rparr>"

definition blank_fs :: fs where
  "blank_fs = cache.extend blank_cache (fs.fields (\<lambda>_. blank_super) 0)"

definition empty_queue :: tty_queue where
  "empty_queue = \<lparr>q_data = 0, q_head = 0, q_tail = 0, q_buf = (\<lambda>_. 0)\<rparr>"

definition blank_console :: console_struct where
  "blank_console = \<lparr>vc_video_erase_char = 0x720, vc_attr = 7, vc_origin = 0, vc_scr_end = 0, vc_pos = 0,
     vc_x = 0, vc_y = 0, vc_top = 0, vc_bottom = 25, vc_video_mem_start = 0, vc_video_mem_end = 0,
     vc_translate = (\<lambda>_. 0)\<rparr>"

definition raw_tty :: tty_struct where
  "raw_tty = \<lparr>t_termios = \<lparr>c_iflag = 0, c_oflag = 0, c_cflag = 0, c_lflag = 0, c_line = 0, c_cc = (\<lambda>_. 1), c_pad = (\<lambda>_. 0)\<rparr>,
     tty_pgrp = 0, tty_session = 0, tty_stopped = 0, tty_driver = No_driver,
     read_q = Some 0, write_q = Some 1, secondary = Some 2\<rparr>"

definition typed_tty :: "u8 list \<Rightarrow> tty_state" where
  "typed_tty cs = fs.extend blank_fs
     (tty_state.fields ((\<lambda>_. empty_queue)(0 := fold q_put cs empty_queue)) (\<lambda>_. raw_tty)
        (\<lambda>i. i) (\<lambda>_. 1) False (\<lambda>_. blank_console) 0 1 80 0 0 160 25 0 0)"

lemma empty_queue_ok: "q_ok empty_queue" "q_items empty_queue = []" "q_room empty_queue = 1023"
proof -
  show a: "q_ok empty_queue" by (simp add: q_ok_def empty_queue_def)
  show b: "q_items empty_queue = []" using q_EMPTY_items [OF a] by (simp add: q_EMPTY_def empty_queue_def)
  show "q_room empty_queue = 1023" by (rule room_of_empty [OF a b])
qed

lemma typed_queue: "length cs \<le> 1023 \<Longrightarrow> q_ok (fold q_put cs empty_queue) \<and> q_items (fold q_put cs empty_queue) = cs"
proof (induction cs rule: rev_induct)
  case (snoc c cs)
  then show ?case by (simp add: q_ok_put q_put_items q_room_items)
qed (simp add: empty_queue_ok)

lemma typed_tty_simps [simp]:
  "tty_queues (typed_tty cs) = (\<lambda>_. empty_queue)(0 := fold q_put cs empty_queue)"
  "tty_table (typed_tty cs) = (\<lambda>_. raw_tty)" "fg_console (typed_tty cs) = 0"
  by (simp_all add: typed_tty_def fs.defs tty_state.defs)

lemma typed_tty_tasks [simp]: "tstruct (typed_tty cs) = (\<lambda>_. blank_task)"
  by (simp add: typed_tty_def blank_fs_def blank_cache_def shared_page_def blank_hd_def blank_blk_def blank_sched_def
      sched.defs blk.defs hd.defs mm.defs files.defs sys.defs cache.defs fs.defs)

theorem raw_line_delivers_witness:
  "\<exists>s1 s2. copy_to_cooked quiet 0 (typed_tty [65, 66]) = Some s1 \<and> tty_read quiet 0 0x4000 1 s1 = Some (1, s2)
     \<and> fs_mem s2 0x4000 = 65 \<and> q_items (tty_queues s2 2) = [66]"
  using raw_line_delivers [of 0 "typed_tty [65, 66]" 0 0 2 "[65, 66]" 1 quiet "0x4000"]
    typed_queue [of "[65, 66]"] empty_queue_ok
  by (simp add: TTY_TABLE_def raw_tty_def cc_def blank_task_def)

end
