(* ===== verification/Traps.thy ===== *)
theory Traps
  imports Sched
begin

text \<open>
  \<^verbatim>\<open>kernel/traps.c\<close>: the gates of the processor's exceptions. The handlers are assembly code; \<open>h\<close> gives
  their addresses.
\<close>

datatype trap_handler =
  Divide_error | Debug | Nmi | Int3 | Overflow | Bounds | Invalid_op | Device_not_available | Double_fault
  | Coprocessor_segment_overrun | Invalid_TSS | Segment_not_present | Stack_segment | General_protection
  | Page_fault | Reserved | Coprocessor_error | Alignment_check | Irq13 | Parallel_interrupt

text \<open>The calls of \<^verbatim>\<open>set_trap_gate\<close> and \<^verbatim>\<open>set_system_gate\<close> (which has a true flag) in their order.\<close>

definition trap_gates :: "(nat \<times> bool \<times> trap_handler) list" where
  "trap_gates =
     [(0, False, Divide_error), (1, False, Debug), (2, False, Nmi), (3, True, Int3), (4, True, Overflow),
      (5, True, Bounds), (6, False, Invalid_op), (7, False, Device_not_available), (8, False, Double_fault),
      (9, False, Coprocessor_segment_overrun), (10, False, Invalid_TSS), (11, False, Segment_not_present),
      (12, False, Stack_segment), (13, False, General_protection), (14, False, Page_fault), (15, False, Reserved),
      (16, False, Coprocessor_error), (17, False, Alignment_check)]
     @ map (\<lambda>i. (i, False, Reserved)) [18..<48] @ [(45, False, Irq13)]"

definition set_gate :: "(trap_handler \<Rightarrow> u32) \<Rightarrow> nat \<times> bool \<times> trap_handler \<Rightarrow> idt \<Rightarrow> idt" where
  "set_gate h g t = (case g of (n, sys, x) \<Rightarrow> if sys then set_system_gate n (h x) t else set_trap_gate n (h x) t)"

definition trap_init :: "'a sched_scheme world \<Rightarrow> (trap_handler \<Rightarrow> u32) \<Rightarrow> 'a sched_scheme \<Rightarrow> 'a sched_scheme" where
  "trap_init w h s =
     (let s = s\<lparr>idt := fold (set_gate h) trap_gates (idt s)\<rparr>;
          (a, s) = inb w 0x21 s; s = outb (a AND 0xfb) 0x21 s;
          (a, s) = inb w 0xA1 s; s = outb (a AND 0xdf) 0xA1 s
      in s\<lparr>idt := set_gate h (39, False, Parallel_interrupt) (idt s)\<rparr>)"

section \<open>The gates\<close>

text \<open>The last gate a list sets for a vector.\<close>

lemma fold_set_gate:
  "fold (set_gate h) gs t n = (case find (\<lambda>g. fst g = n) (rev gs) of None \<Rightarrow> t n | Some g \<Rightarrow> set_gate h g t n)"
proof (induction gs rule: rev_induct)
  case (snoc g gs)
  then show ?case
    by (cases g) (auto simp: set_gate_def set_system_gate_def set_trap_gate_def split: option.splits)
qed simp

text \<open>The handler of each vector, by the processor's numbers of its exceptions and the two
  interrupt lines that \<^verbatim>\<open>trap_init\<close> serves.\<close>

definition handler_of :: "nat \<Rightarrow> trap_handler" where
  "handler_of n =
     (if n < 18
      then [Divide_error, Debug, Nmi, Int3, Overflow, Bounds, Invalid_op, Device_not_available, Double_fault,
        Coprocessor_segment_overrun, Invalid_TSS, Segment_not_present, Stack_segment, General_protection,
        Page_fault, Reserved, Coprocessor_error, Alignment_check] ! n
      else if n = 39 then Parallel_interrupt else if n = 45 then Irq13 else Reserved)"

lemma trap_gates_apply:
  assumes "n < 48"
  shows "\<exists>t'. idt (trap_init w h s) n = set_gate h (n, n = 3 \<or> n = 4 \<or> n = 5, handler_of n) t' n"
proof -
  have idt: "idt (trap_init w h s) = set_gate h (39, False, Parallel_interrupt) (fold (set_gate h) trap_gates (idt s))"
    by (simp add: trap_init_def Let_def inb_def outb_def)
  have "find (\<lambda>g. fst g = n) (rev trap_gates) = Some (n, n = 3 \<or> n = 4 \<or> n = 5, if n = 39 then Reserved else handler_of n)"
  proof -
    have "\<forall>n\<in>set [0..<48]. find (\<lambda>g. fst g = n) (rev trap_gates)
        = Some (n, n = 3 \<or> n = 4 \<or> n = 5, if n = 39 then Reserved else handler_of n)"
      by code_simp
    then show ?thesis using assms by simp
  qed
  then show ?thesis
    unfolding idt using fold_set_gate [of h trap_gates "idt s" n]
    by (cases "n = 39") (auto simp: set_gate_def set_trap_gate_def set_system_gate_def handler_of_def)
qed

text \<open>
  After \<^verbatim>\<open>trap_init\<close> each of the first 48 vectors has a present gate to its own handler in the kernel
  code segment, vector 39 and 45 included, which are set twice; a user program can call only the
  three for breakpoints, overflow and bounds.
\<close>

theorem trap_init_gates:
  assumes "n < 48"
  shows "gate_offset (idt (trap_init w h s) n) = h (handler_of n) \<and> gate_selector (idt (trap_init w h s) n) = 8
     \<and> gate_present (idt (trap_init w h s) n) \<and> gate_type (idt (trap_init w h s) n) = 15
     \<and> gate_dpl (idt (trap_init w h s) n) = (if n = 3 \<or> n = 4 \<or> n = 5 then 3 else 0)"
proof -
  obtain t' where "idt (trap_init w h s) n = set_gate h (n, n = 3 \<or> n = 4 \<or> n = 5, handler_of n) t' n"
    using trap_gates_apply [OF assms] by blast
  then show ?thesis
    by (simp add: set_gate_def set_trap_gate_def set_system_gate_def gate_fields bit_iff_odd_drop_bit)
qed

theorem trap_init_gates_witness:
  "gate_offset (idt (trap_init quiet (\<lambda>x. if x = Irq13 then 0x1234 else 0) blank_sched) 45) = 0x1234"
  using trap_init_gates [of 45 quiet "\<lambda>x. if x = Irq13 then 0x1234 else 0" blank_sched] by (simp add: handler_of_def)

end
