(* ===== verification/Strings.thy ===== *)
theory Strings
  imports Prelude
begin

text \<open>
  The string functions of \<^verbatim>\<open>lib/string.c\<close>, which are loops of string instructions. They work on the
  memory of a segment, \<open>m\<close>, with wrapping addresses; a pointer that is \<open>0\<close> is \<^verbatim>\<open>NULL\<close>. A loop that ends
  only at a zero byte is a partial function.
\<close>

section \<open>String instructions\<close>

text \<open>\<^verbatim>\<open>repne; scasb\<close> with the count \<open>n\<close>: the address behind the byte where it stopped, the count that
  is left, and whether that byte is equal. With the count 0 nothing is compared, and the functions
  below come there with the zero flag clear, but for \<^verbatim>\<open>strstr\<close>.\<close>

function repne_scasb :: "nat \<Rightarrow> u8 \<Rightarrow> u32 \<Rightarrow> bytes \<Rightarrow> u32 \<times> nat \<times> bool" where
  "repne_scasb n al di m =
     (if n = 0 then (di, 0, False)
      else if m di = al then (di + 1, n - 1, True)
      else repne_scasb (n - 1) al (di + 1) m)"
  by pat_completeness auto
termination by (relation "measure fst") auto

declare repne_scasb.simps [simp del]

text \<open>\<^verbatim>\<open>repe; cmpsb\<close>: the address in \<open>si\<close> behind the last pair, and that pair.\<close>

function repe_cmpsb_pair :: "nat \<Rightarrow> u32 \<Rightarrow> u32 \<Rightarrow> bytes \<Rightarrow> (u32 \<times> u8 \<times> u8) option" where
  "repe_cmpsb_pair n si di m =
     (if n = 0 then None
      else if m si \<noteq> m di \<or> n = 1 then Some (si + 1, m si, m di)
      else repe_cmpsb_pair (n - 1) (si + 1) (di + 1) m)"
  by pat_completeness auto
termination by (relation "measure fst") auto

declare repe_cmpsb_pair.simps [simp del]

text \<open>How often \<^verbatim>\<open>1: decl c; js 2f\<close> enters the loop.\<close>

definition js_count :: "u32 \<Rightarrow> nat" where
  "js_count c = (if c = 0x80000000 then unat c else nat (sint c))"

text \<open>The flags of comparing \<open>a\<close> with \<open>b\<close>, as \<^verbatim>\<open>jl\<close> sees them: 1 if less, \<open>-1\<close> if not.\<close>

definition jl_result :: "u8 \<Rightarrow> u8 \<Rightarrow> int" where
  "jl_result a b = (if sint a < sint b then 1 else - 1)"

section \<open>Copying\<close>

partial_function (option) copy_string :: "u32 \<Rightarrow> u32 \<Rightarrow> bytes \<Rightarrow> bytes option" where
  "copy_string si di m =
     (let m' = m(di := m si) in if m si \<noteq> 0 then copy_string (si + 1) (di + 1) m' else Some m')"

definition strcpy :: "u32 \<Rightarrow> u32 \<Rightarrow> bytes \<Rightarrow> (u32 \<times> bytes) option" where
  "strcpy dest src m = do { m \<leftarrow> copy_string src dest m; Some (dest, m) }"

fun strncpy_loop :: "nat \<Rightarrow> u32 \<Rightarrow> u32 \<Rightarrow> bytes \<Rightarrow> bytes" where
  "strncpy_loop 0 si di m = m"
| "strncpy_loop (Suc n) si di m =
     (let m' = m(di := m si)
      in if m si \<noteq> 0 then strncpy_loop n (si + 1) (di + 1) m' else fill_bytes n 0 (di + 1) m')"

definition strncpy :: "u32 \<Rightarrow> u32 \<Rightarrow> u32 \<Rightarrow> bytes \<Rightarrow> u32 \<times> bytes" where
  "strncpy dest src count m = (dest, strncpy_loop (js_count count) src dest m)"

definition end_of_string :: "u32 \<Rightarrow> bytes \<Rightarrow> u32" where
  "end_of_string di m = fst (repne_scasb 0xffffffff 0 di m) - 1"

definition strcat :: "u32 \<Rightarrow> u32 \<Rightarrow> bytes \<Rightarrow> (u32 \<times> bytes) option" where
  "strcat dest src m = do { m \<leftarrow> copy_string src (end_of_string dest m) m; Some (dest, m) }"

fun strncat_loop :: "nat \<Rightarrow> u32 \<Rightarrow> u32 \<Rightarrow> bytes \<Rightarrow> bytes" where
  "strncat_loop 0 si di m = m(di := 0)"
| "strncat_loop (Suc n) si di m =
     (let m' = m(di := m si)
      in if m si \<noteq> 0 then strncat_loop n (si + 1) (di + 1) m' else m'(di + 1 := 0))"

definition strncat :: "u32 \<Rightarrow> u32 \<Rightarrow> u32 \<Rightarrow> bytes \<Rightarrow> u32 \<times> bytes" where
  "strncat dest src count m = (dest, strncat_loop (js_count count) src (end_of_string dest m) m)"

section \<open>Comparing\<close>

text \<open>\<^verbatim>\<open>lodsb\<close> reads from \<open>ct\<close>, \<^verbatim>\<open>scasb\<close> compares with the byte at \<open>cs\<close>.\<close>

partial_function (option) strcmp :: "u32 \<Rightarrow> u32 \<Rightarrow> bytes \<Rightarrow> int option" where
  "strcmp cs ct m =
     (if m ct \<noteq> m cs then Some (jl_result (m ct) (m cs))
      else if m ct \<noteq> 0 then strcmp (cs + 1) (ct + 1) m
      else Some 0)"

fun strncmp_loop :: "nat \<Rightarrow> u32 \<Rightarrow> u32 \<Rightarrow> bytes \<Rightarrow> int" where
  "strncmp_loop 0 cs ct m = 0"
| "strncmp_loop (Suc n) cs ct m =
     (if m ct \<noteq> m cs then jl_result (m ct) (m cs)
      else if m ct \<noteq> 0 then strncmp_loop n (cs + 1) (ct + 1) m
      else 0)"

definition strncmp :: "u32 \<Rightarrow> u32 \<Rightarrow> u32 \<Rightarrow> bytes \<Rightarrow> int" where
  "strncmp cs ct count m = strncmp_loop (js_count count) cs ct m"

section \<open>Searching\<close>

partial_function (option) strchr :: "u32 \<Rightarrow> u8 \<Rightarrow> bytes \<Rightarrow> u32 option" where
  "strchr s c m = (if m s = c then Some s else if m s \<noteq> 0 then strchr (s + 1) c m else Some 0)"

partial_function (option) strrchr_loop :: "u32 \<Rightarrow> u32 \<Rightarrow> u8 \<Rightarrow> bytes \<Rightarrow> u32 option" where
  "strrchr_loop res s c m =
     (let res = (if m s = c then s else res) in if m s \<noteq> 0 then strrchr_loop res (s + 1) c m else Some res)"

definition strrchr :: "u32 \<Rightarrow> u8 \<Rightarrow> bytes \<Rightarrow> u32 option" where
  "strrchr s c m = strrchr_loop 0 s c m"

text \<open>\<^verbatim>\<open>~ecx - 1\<close> after \<^verbatim>\<open>repne; scasb\<close> from \<^verbatim>\<open>0xffffffff\<close>.\<close>

definition strlen :: "u32 \<Rightarrow> bytes \<Rightarrow> u32" where
  "strlen s m = NOT (of_nat (fst (snd (repne_scasb 0xffffffff 0 s m)))) - 1"

definition in_set :: "u8 \<Rightarrow> u32 \<Rightarrow> bytes \<Rightarrow> bool" where
  "in_set c ct m = snd (snd (repne_scasb (unat (strlen ct m)) c ct m))"

text \<open>The first position whose byte is zero or not in (for \<open>want\<close> false: in) the set \<open>ct\<close>.\<close>

partial_function (option) span_end :: "bool \<Rightarrow> u32 \<Rightarrow> u32 \<Rightarrow> bytes \<Rightarrow> u32 option" where
  "span_end want si ct m =
     (if m si = 0 then Some si else if in_set (m si) ct m = want then span_end want (si + 1) ct m else Some si)"

definition strspn :: "u32 \<Rightarrow> u32 \<Rightarrow> bytes \<Rightarrow> u32 option" where
  "strspn cs ct m = do { e \<leftarrow> span_end True cs ct m; Some (e - cs) }"

definition strcspn :: "u32 \<Rightarrow> u32 \<Rightarrow> bytes \<Rightarrow> u32 option" where
  "strcspn cs ct m = do { e \<leftarrow> span_end False cs ct m; Some (e - cs) }"

definition strpbrk :: "u32 \<Rightarrow> u32 \<Rightarrow> bytes \<Rightarrow> u32 option" where
  "strpbrk cs ct m = do { e \<leftarrow> span_end False cs ct m; Some (if m e = 0 then 0 else e) }"

text \<open>With an empty \<open>ct\<close> the zero flag is set by \<^verbatim>\<open>decl\<close>, and the string is found at once.\<close>

partial_function (option) strstr_loop :: "nat \<Rightarrow> u32 \<Rightarrow> u32 \<Rightarrow> bytes \<Rightarrow> u32 option" where
  "strstr_loop n si ct m =
     (case repe_cmpsb_pair n si ct m of
        None \<Rightarrow> Some si
      | Some (e, a, b) \<Rightarrow>
          if a = b then Some si else if a \<noteq> 0 then strstr_loop n (si + 1) ct m else Some 0)"

definition strstr :: "u32 \<Rightarrow> u32 \<Rightarrow> bytes \<Rightarrow> u32 option" where
  "strstr cs ct m = strstr_loop (unat (strlen ct m)) cs ct m"

text \<open>The result, the new \<^verbatim>\<open>___strtok\<close> and the memory.\<close>

definition strtok :: "u32 \<Rightarrow> u32 \<Rightarrow> u32 \<Rightarrow> bytes \<Rightarrow> (u32 \<times> u32 \<times> bytes) option" where
  "strtok saved s ct m =
     (let start = (if s \<noteq> 0 then s else saved) in
      if start = 0 then Some (0, 0, m)
      else if strlen ct m = 0 then Some (0, 0, m)
      else do {
        b \<leftarrow> span_end True start ct m;
        if m b = 0 then Some (0, 0, m)
        else do {
          e \<leftarrow> span_end False b ct m;
          Some (if m e = 0 then (b, 0, m) else (b, e + 1, m(e := 0)))
        }
      })"

section \<open>Blocks of memory\<close>

definition memcpy :: "u32 \<Rightarrow> u32 \<Rightarrow> u32 \<Rightarrow> bytes \<Rightarrow> u32 \<times> bytes" where
  "memcpy dest src n m = (dest, copy_bytes (unat n) src dest m)"

text \<open>\<^verbatim>\<open>std; rep; movsb\<close>; the direction flag stays set.\<close>

fun copy_bytes_down :: "nat \<Rightarrow> u32 \<Rightarrow> u32 \<Rightarrow> bytes \<Rightarrow> bytes" where
  "copy_bytes_down 0 src dst m = m"
| "copy_bytes_down (Suc n) src dst m = copy_bytes_down n (src - 1) (dst - 1) (m(dst := m src))"

definition memmove :: "u32 \<Rightarrow> u32 \<Rightarrow> u32 \<Rightarrow> bytes \<Rightarrow> u32 \<times> bytes" where
  "memmove dest src n m =
     (dest, if dest < src then copy_bytes (unat n) src dest m
            else copy_bytes_down (unat n) (src + n - 1) (dest + n - 1) m)"

text \<open>With the count 0 the result depends on flags that nothing has set; that is \<open>None\<close>.\<close>

definition memcmp :: "u32 \<Rightarrow> u32 \<Rightarrow> u32 \<Rightarrow> bytes \<Rightarrow> int option" where
  "memcmp cs ct count m =
     (case repe_cmpsb_pair (unat count) ct cs m of
        None \<Rightarrow> None
      | Some (_, a, b) \<Rightarrow> Some (if a = b then 0 else jl_result a b))"

definition memchr :: "u32 \<Rightarrow> u8 \<Rightarrow> u32 \<Rightarrow> bytes \<Rightarrow> u32" where
  "memchr cs c count m =
     (if count = 0 then 0
      else case repne_scasb (unat count) c cs m of (di, _, found) \<Rightarrow> if found then di - 1 else 0)"

definition memset :: "u32 \<Rightarrow> u8 \<Rightarrow> u32 \<Rightarrow> bytes \<Rightarrow> u32 \<times> bytes" where
  "memset s c count m = (s, fill_bytes (unat count) c s m)"

section \<open>Moving memory\<close>

lemma distance_pred: "(x :: u32) \<noteq> d \<Longrightarrow> unat (d - x) = Suc (unat (d - 1 - x))"
  using unat_distance_Suc [of d x] by (simp add: algebra_simps)

text \<open>A forward copy is right unless the destination begins inside the source, a backward copy unless
  the source begins inside the destination.\<close>

lemma copy_bytes_forward:
  assumes "n < 2 ^ 32" "dst = src \<or> n \<le> unat (dst - src)"
  shows "copy_bytes n src dst m x = (if unat (x - dst) < n then m (src + (x - dst)) else m x)"
  using assms
proof (induction n arbitrary: src dst m)
  case (Suc n)
  have "dst + 1 = src + 1 \<or> n \<le> unat (dst + 1 - (src + 1))" using Suc.prems(2) by auto
  with Suc.IH Suc.prems(1) have IH: "copy_bytes n (src + 1) (dst + 1) (m(dst := m src)) x
      = (if unat (x - (dst + 1)) < n then (m(dst := m src)) (src + 1 + (x - (dst + 1))) else (m(dst := m src)) x)"
    by simp
  show ?case
  proof (cases "x = dst")
    case True
    have "unat (- 1 :: u32) = 2 ^ 32 - 1" by (simp add: unsigned_minus_1_eq_mask mask_eq_exp_minus_1)
    with True IH Suc.prems(1) show ?thesis by simp
  next
    case False
    have "src + (x - dst) = dst \<Longrightarrow> m src = m dst" if u: "unat (x - dst) < Suc n"
    proof -
      assume e: "src + (x - dst) = dst"
      then have "dst - src = x - dst" by (simp add: algebra_simps)
      with u Suc.prems(2) show "m src = m dst" by auto
    qed
    with False IH unat_distance_Suc [OF False] show ?thesis by (auto simp: algebra_simps)
  qed
qed simp

lemma copy_bytes_backward:
  assumes "n < 2 ^ 32" "dst = src \<or> n \<le> unat (src - dst)"
  shows "copy_bytes_down n src dst m x = (if unat (dst - x) < n then m (src - (dst - x)) else m x)"
  using assms
proof (induction n arbitrary: src dst m)
  case (Suc n)
  have "dst - 1 = src - 1 \<or> n \<le> unat (src - 1 - (dst - 1))" using Suc.prems(2) by auto
  with Suc.IH Suc.prems(1) have IH: "copy_bytes_down n (src - 1) (dst - 1) (m(dst := m src)) x
      = (if unat (dst - 1 - x) < n then (m(dst := m src)) (src - 1 - (dst - 1 - x)) else (m(dst := m src)) x)"
    by simp
  show ?case
  proof (cases "x = dst")
    case True
    have "unat (- 1 :: u32) = 2 ^ 32 - 1" by (simp add: unsigned_minus_1_eq_mask mask_eq_exp_minus_1)
    with True IH Suc.prems(1) show ?thesis by simp
  next
    case False
    have "src - (dst - x) = dst \<Longrightarrow> m src = m dst" if u: "unat (dst - x) < Suc n"
    proof -
      assume e: "src - (dst - x) = dst"
      then have "src - dst = dst - x" by (simp add: algebra_simps)
      with u Suc.prems(2) show "m src = m dst" by auto
    qed
    with False IH distance_pred [OF False] show ?thesis by (auto simp: algebra_simps)
  qed
qed simp

lemma reverse_distance:
  fixes y n :: u32
  assumes "n \<noteq> 0"
  shows "unat (n - 1 - y) < unat n \<longleftrightarrow> unat y < unat n"
proof -
  have u: "unat (n - 1) = unat n - 1" "0 < unat n" "unat y < 2 ^ 32"
    using assms unsigned_less [of y] by (simp_all add: unat_minus_one unat_gt_0)
  show ?thesis
    using u(2,3) unfolding unat_sub_if' u(1) by (auto split: if_split)
qed

text \<open>
  C32. \<^verbatim>\<open>memmove\<close> copies \<open>n\<close> bytes as they were, whatever the overlap of source and destination, and
  changes no other byte, when neither of the two blocks wraps around the end of memory.
\<close>

theorem memmove_moves:
  assumes "unat src + unat n \<le> 2 ^ 32" "unat dest + unat n \<le> 2 ^ 32"
  shows "fst (memmove dest src n m) = dest
     \<and> snd (memmove dest src n m) x = (if unat (x - dest) < unat n then m (src + (x - dest)) else m x)"
proof -
  have nl: "unat n < 2 ^ 32" using unsigned_less [of n] by simp
  show ?thesis
  proof (cases "dest < src")
  case True
  have "unat (dest - src) = unat dest + 2 ^ 32 - unat src"
    using True by (simp add: unat_sub_if' word_less_nat_alt)
  then have "unat n \<le> unat (dest - src)" using assms(1) by simp
  then show ?thesis using True nl copy_bytes_forward [of "unat n" dest src m x] by (simp add: memmove_def)
next
  case False
  have b: "dest = src \<or> unat n \<le> unat (src - dest)"
  proof (cases "dest = src")
    case no: False
    have "unat (src - dest) = unat src + 2 ^ 32 - unat dest"
      using False no by (simp add: unat_sub_if' word_less_nat_alt) (metis linorder_not_le nat_less_le word_unat_eq_iff)
    then have "unat n \<le> unat (src - dest)" using assms(2) by arith
    then show ?thesis ..
  qed simp
  have d: "unat (dest + n - 1 - x) < unat n \<longleftrightarrow> unat (x - dest) < unat n" for x
  proof (cases "n = 0")
    case nz: False
    have e: "dest + n - 1 - x = (n - 1) - (x - dest)" by simp
    show ?thesis unfolding e by (rule reverse_distance [OF nz])
  qed simp
  have s: "src + n - 1 - (dest + n - 1 - x) = src + (x - dest)" by simp
  have b': "dest + n - 1 = src + n - 1 \<or> unat n \<le> unat (src + n - 1 - (dest + n - 1))"
    using b by auto
  show ?thesis
    using False nl copy_bytes_backward [OF _ b', of m x] d [of x] s by (simp add: memmove_def)
  qed
qed

theorem memmove_moves_witness:
  "snd (memmove 0x102 0x100 4 (\<lambda>a. ucast a)) 0x105 = 3"
  using memmove_moves [of "0x100" 4 "0x102" "\<lambda>a. ucast a" "0x105"] by simp

section \<open>Strings as lists\<close>

text \<open>A string literal as bytes.\<close>

definition bytes_of :: "string \<Rightarrow> u8 list" where
  "bytes_of = map of_char"

text \<open>The bytes at \<open>p\<close> are \<open>cs\<close>.\<close>

definition holds :: "bytes \<Rightarrow> u32 \<Rightarrow> u8 list \<Rightarrow> bool" where
  "holds m p cs \<longleftrightarrow> (\<forall>k<length cs. m (p + of_nat k) = cs ! k)"

lemma holds_Cons: "holds m p (c # cs) \<longleftrightarrow> m p = c \<and> holds m (p + 1) cs"
  unfolding holds_def by (auto simp: less_Suc_eq_0_disj add.assoc)

lemma holds_Nil [simp]: "holds m p []"
  by (simp add: holds_def)

lemma strcmp_same:
  assumes "holds m a (x @ [0])" "holds m b (y @ [0])" "0 \<notin> set x" "0 \<notin> set y"
  shows "\<exists>r. strcmp a b m = Some r \<and> (r = 0 \<longleftrightarrow> x = y)"
  using assms
proof (induction x arbitrary: y a b)
  case Nil
  then show ?case
    by (cases y) (auto simp: holds_Cons strcmp.simps [of a b] jl_result_def)
next
  case (Cons c x)
  show ?case
  proof (cases y)
    case Nil
    then show ?thesis using Cons.prems by (auto simp: holds_Cons strcmp.simps [of a b] jl_result_def)
  next
    case y: (Cons d y')
    show ?thesis
    proof (cases "c = d")
      case True
      have "\<exists>r. strcmp (a + 1) (b + 1) m = Some r \<and> (r = 0 \<longleftrightarrow> x = y')"
        by (rule Cons.IH) (use Cons.prems y in \<open>auto simp: holds_Cons\<close>)
      then show ?thesis using Cons.prems y True by (auto simp: holds_Cons strcmp.simps [of a b])
    next
      case False
      then show ?thesis using Cons.prems y by (auto simp: holds_Cons strcmp.simps [of a b] jl_result_def)
    qed
  qed
qed

lemma strncmp_loop_prefix:
  assumes "holds m a (x @ [0])" "holds m b y" "0 \<notin> set x" "0 \<notin> set y"
  shows "strncmp_loop (length y) a b m = 0 \<longleftrightarrow> take (length y) x = y"
  using assms
proof (induction y arbitrary: x a b)
  case (Cons d y)
  show ?case
  proof (cases x)
    case Nil
    then show ?thesis using Cons.prems by (auto simp: holds_Cons jl_result_def)
  next
    case x: (Cons c x')
    have "strncmp_loop (length y) (a + 1) (b + 1) m = 0 \<longleftrightarrow> take (length y) x' = y"
      by (rule Cons.IH) (use Cons.prems x in \<open>auto simp: holds_Cons\<close>)
    then show ?thesis using Cons.prems x by (auto simp: holds_Cons jl_result_def)
  qed
qed simp

end
