(* ===== verification/Vsprintf.thy ===== *)
theory Vsprintf
  imports Strings
begin

text \<open>
  \<^verbatim>\<open>kernel/vsprintf.c\<close>: formatting numbers and strings. The functions return the list of bytes they
  write; a format is the list of its bytes without the final zero, and the variable arguments are the
  list of their 32-bit words. Strings of \<^verbatim>\<open>%s\<close> are read from the memory \<open>m\<close>.
\<close>

abbreviation (input) ZEROPAD :: u8 where "ZEROPAD \<equiv> 1"
abbreviation (input) SIGN :: u8 where "SIGN \<equiv> 2"
abbreviation (input) PLUS :: u8 where "PLUS \<equiv> 4"
abbreviation (input) SPACE :: u8 where "SPACE \<equiv> 8"
abbreviation (input) LEFT :: u8 where "LEFT \<equiv> 16"
abbreviation (input) SPECIAL :: u8 where "SPECIAL \<equiv> 32"
abbreviation (input) SMALL :: u8 where "SMALL \<equiv> 64"

section \<open>Numbers\<close>

definition is_digit :: "u8 \<Rightarrow> bool" where
  "is_digit c \<longleftrightarrow> 0x30 \<le> c \<and> c \<le> 0x39"

text \<open>\<^verbatim>\<open>skip_atoi\<close>: the number, in 32 bits, and the rest of the text.\<close>

fun skip_atoi :: "int \<Rightarrow> u8 list \<Rightarrow> int \<times> u8 list" where
  "skip_atoi i [] = (i, [])"
| "skip_atoi i (c # cs) = (if is_digit c then skip_atoi (s32 (i * 10 + uint c - 0x30)) cs else (i, c # cs))"

text \<open>The tables \<^verbatim>\<open>digits\<close>: the digits and then the letters.\<close>

definition digit :: "bool \<Rightarrow> nat \<Rightarrow> u8" where
  "digit small d = (if d < 10 then 0x30 + of_nat d else (if small then 0x61 else 0x41) + of_nat (d - 10))"

text \<open>The loop \<^verbatim>\<open>tmp[i++]=digits[do_div(num,base)]\<close>: the digits from the lowest one on.\<close>

fun low_digits :: "bool \<Rightarrow> nat \<Rightarrow> nat \<Rightarrow> u8 list" where
  "low_digits small b n = (if n = 0 \<or> b < 2 then [] else digit small (n mod b) # low_digits small b (n div b))"

declare low_digits.simps [simp del]

definition number_digits :: "bool \<Rightarrow> nat \<Rightarrow> u32 \<Rightarrow> u8 list" where
  "number_digits small b num = (if num = 0 then [0x30] else low_digits small b (unat num))"

text \<open>With a base out of range the code returns \<^verbatim>\<open>NULL\<close>; that is \<open>None\<close>.\<close>

definition number :: "u32 \<Rightarrow> nat \<Rightarrow> int \<Rightarrow> int \<Rightarrow> u8 \<Rightarrow> u8 list option" where
  "number num b sz precision type =
     (if b < 2 \<or> b > 36 then None
      else
        let small = (type AND SMALL \<noteq> 0); left = (type AND LEFT \<noteq> 0); zeropad = (type AND ZEROPAD \<noteq> 0 \<and> \<not> left);
            negative = (type AND SIGN \<noteq> 0 \<and> sint num < 0);
            sign = (if negative then [0x2D] else if type AND PLUS \<noteq> 0 then [0x2B] else if type AND SPACE \<noteq> 0 then [0x20] else []);
            prefix = (if type AND SPECIAL = 0 then [] else if b = 8 then [0x30]
                      else if b = 16 then [0x30, if small then 0x78 else 0x58] else []);
            tmp = number_digits small b (if negative then - num else num);
            precision = max (int (length tmp)) precision;
            pad = nat (sz - int (length sign) - int (length prefix) - precision)
        in Some ((if \<not> zeropad \<and> \<not> left then replicate pad 0x20 else []) @ sign @ prefix
             @ (if zeropad then replicate pad 0x30 else [])
             @ replicate (nat precision - length tmp) 0x30 @ rev tmp
             @ (if left then replicate pad 0x20 else [])))"

section \<open>Formats\<close>

fun parse_flags :: "u8 list \<Rightarrow> u8 \<Rightarrow> u8 \<times> u8 list" where
  "parse_flags [] flags = (flags, [])"
| "parse_flags (c # cs) flags =
     (if c = 0x2D then parse_flags cs (flags OR LEFT)
      else if c = 0x2B then parse_flags cs (flags OR PLUS)
      else if c = 0x20 then parse_flags cs (flags OR SPACE)
      else if c = 0x23 then parse_flags cs (flags OR SPECIAL)
      else if c = 0x30 then parse_flags cs (flags OR ZEROPAD)
      else (flags, c # cs))"

definition va_arg :: "u32 list \<Rightarrow> (u32 \<times> u32 list) option" where
  "va_arg args = (case args of [] \<Rightarrow> None | a # as \<Rightarrow> Some (a, as))"

text \<open>The field width with the flags; \<open>-1\<close> is none.\<close>

definition parse_width :: "u8 list \<Rightarrow> u8 \<Rightarrow> u32 list \<Rightarrow> (int \<times> u8 \<times> u8 list \<times> u32 list) option" where
  "parse_width fmt flags args =
     (case fmt of [] \<Rightarrow> Some (- 1, flags, [], args)
      | c # cs \<Rightarrow>
          if is_digit c then (case skip_atoi 0 (c # cs) of (n, rest) \<Rightarrow> Some (n, flags, rest, args))
          else if c = 0x2A then do {
            (a, args) \<leftarrow> va_arg args;
            Some (if sint a < 0 then (s32 (- sint a), flags OR LEFT, cs, args) else (sint a, flags, cs, args))
          }
          else Some (- 1, flags, c # cs, args))"

definition parse_precision :: "u8 list \<Rightarrow> u32 list \<Rightarrow> (int \<times> u8 list \<times> u32 list) option" where
  "parse_precision fmt args =
     (case fmt of [] \<Rightarrow> Some (- 1, [], args)
      | d # fmt' \<Rightarrow>
          if d \<noteq> 0x2E then Some (- 1, d # fmt', args)
          else do {
            (p, fmt, args) \<leftarrow>
              (case fmt' of [] \<Rightarrow> Some (- 1, [], args)
               | c # cs \<Rightarrow>
                   if is_digit c then (case skip_atoi 0 (c # cs) of (n, rest) \<Rightarrow> Some (n, rest, args))
                   else if c = 0x2A then do { (a, args) \<leftarrow> va_arg args; Some (sint a, cs, args) }
                   else Some (- 1, c # cs, args));
            Some (max 0 p, fmt, args)
          })"

definition skip_qualifier :: "u8 list \<Rightarrow> u8 list" where
  "skip_qualifier fmt =
     (case fmt of [] \<Rightarrow> [] | c # cs \<Rightarrow> if c = 0x68 \<or> c = 0x6C \<or> c = 0x4C then cs else c # cs)"

definition format_char :: "u8 \<Rightarrow> int \<Rightarrow> u8 \<Rightarrow> u8 list" where
  "format_char c field_width flags =
     (let pad = replicate (nat (field_width - 1)) 0x20 in if flags AND LEFT = 0 then pad @ [c] else c # pad)"

definition format_string :: "u32 \<Rightarrow> int \<Rightarrow> int \<Rightarrow> u8 \<Rightarrow> bytes \<Rightarrow> u8 list" where
  "format_string p field_width precision flags m =
     (let len = sint (strlen p m);
          len = (if 0 \<le> precision \<and> len > precision then precision else len);
          text = map (\<lambda>i. m (p + of_nat i)) [0..<nat len];
          pad = replicate (nat (field_width - len)) 0x20
      in if flags AND LEFT = 0 then pad @ text else text @ pad)"

text \<open>The \<^verbatim>\<open>switch\<close> on the conversion: the bytes written, and the memory, which \<^verbatim>\<open>%n\<close> changes;
  \<open>count\<close> is the number of bytes written before.\<close>

definition convert ::
  "u8 \<Rightarrow> int \<Rightarrow> int \<Rightarrow> u8 \<Rightarrow> nat \<Rightarrow> u32 list \<Rightarrow> bytes \<Rightarrow> (u8 list \<times> u32 list \<times> bytes) option" where
  "convert c field_width precision flags count args m =
     (if c = 0x63 then do { (a, args) \<leftarrow> va_arg args; Some (format_char (ucast a) field_width flags, args, m) }
      else if c = 0x73 then do { (p, args) \<leftarrow> va_arg args; Some (format_string p field_width precision flags m, args, m) }
      else if c = 0x6E then do { (p, args) \<leftarrow> va_arg args; Some ([], args, st32 p (of_nat count) m) }
      else if c \<in> set [0x6F, 0x70, 0x78, 0x58, 0x64, 0x69, 0x75] then do {
        (a, args) \<leftarrow> va_arg args;
        let p = (c = 0x70 \<and> field_width = - 1);
        let flags = (if p then flags OR ZEROPAD else if c = 0x78 then flags OR SMALL
                     else if c = 0x64 \<or> c = 0x69 then flags OR SIGN else flags);
        out \<leftarrow> number a (if c = 0x6F then 8 else if c = 0x70 \<or> c = 0x78 \<or> c = 0x58 then 16 else 10)
                 (if p then 8 else field_width) precision flags;
        Some (out, args, m)
      }
      else Some (if c = 0x25 then [c] else [0x25, c], args, m))"

text \<open>One specification behind \<^verbatim>\<open>%\<close>; at the end of the format the \<^verbatim>\<open>%\<close> itself is written.\<close>

definition format_one ::
  "u8 list \<Rightarrow> nat \<Rightarrow> u32 list \<Rightarrow> bytes \<Rightarrow> (u8 list \<times> u8 list \<times> u32 list \<times> bytes) option" where
  "format_one fmt count args m =
     (case parse_flags fmt 0 of (flags, fmt) \<Rightarrow> do {
        (field_width, flags, fmt, args) \<leftarrow> parse_width fmt flags args;
        (precision, fmt, args) \<leftarrow> parse_precision fmt args;
        case skip_qualifier fmt of
          [] \<Rightarrow> Some ([0x25], [], args, m)
        | c # cs \<Rightarrow> do {
            (out, args, m) \<leftarrow> convert c field_width precision flags count args m;
            Some (out, cs, args, m)
          }
      })"

lemma skip_atoi_length: "skip_atoi i cs = (n, rest) \<Longrightarrow> length rest \<le> length cs"
  by (induction i cs rule: skip_atoi.induct) (auto split: if_splits)

lemma parse_flags_length: "parse_flags cs fl = (fl', rest) \<Longrightarrow> length rest \<le> length cs"
  by (induction cs fl rule: parse_flags.induct) (auto split: if_splits)

lemma parse_width_length: "parse_width fmt fl args = Some (n, fl', rest, args') \<Longrightarrow> length rest \<le> length fmt"
  by (auto simp: parse_width_def bind_eq_Some_conv dest!: skip_atoi_length split: list.splits if_splits prod.splits)

lemma parse_precision_length: "parse_precision fmt args = Some (n, rest, args') \<Longrightarrow> length rest \<le> length fmt"
  by (auto simp: parse_precision_def bind_eq_Some_conv dest!: skip_atoi_length split: list.splits if_splits prod.splits)

lemma skip_qualifier_length: "length (skip_qualifier fmt) \<le> length fmt"
  by (simp add: skip_qualifier_def split: list.split)

lemma format_one_length:
  assumes "format_one fmt n args m = Some (out, rest, args', m')"
  shows "length rest \<le> length fmt"
proof -
  obtain fl f1 where 1: "parse_flags fmt 0 = (fl, f1)" by fastforce
  with assms obtain w fl2 f2 a2 p f3 a3 where 2: "parse_width f1 fl args = Some (w, fl2, f2, a2)"
    and 3: "parse_precision f2 a2 = Some (p, f3, a3)"
    and 4: "(case skip_qualifier f3 of [] \<Rightarrow> Some ([0x25], [], a3, m)
        | c # cs \<Rightarrow> do { (out, args, m) \<leftarrow> convert c w p fl2 n a3 m; Some (out, cs, args, m) })
      = Some (out, rest, args', m')"
    by (auto simp: format_one_def bind_eq_Some_conv)
  have 4: "length rest \<le> length (skip_qualifier f3)"
    using 4 by (cases "skip_qualifier f3") (auto simp: bind_eq_Some_conv)
  show ?thesis
    using parse_flags_length [OF 1] parse_width_length [OF 2] parse_precision_length [OF 3]
      skip_qualifier_length [of f3] 4 by simp
qed

function vsprintf_loop :: "u8 list \<Rightarrow> u8 list \<Rightarrow> u32 list \<Rightarrow> bytes \<Rightarrow> (u8 list \<times> bytes) option" where
  "vsprintf_loop [] out args m = Some (out, m)"
| "vsprintf_loop (c # fmt) out args m =
     (if c \<noteq> 0x25 then vsprintf_loop fmt (out @ [c]) args m
      else case format_one fmt (length out) args m of
             None \<Rightarrow> None
           | Some (text, rest, args, m) \<Rightarrow> vsprintf_loop rest (out @ text) args m)"
  by pat_completeness auto
termination
  by (relation "measure (\<lambda>(fmt, out, args, m). length fmt)") (auto dest: format_one_length)

text \<open>The length, and the memory with the text and a zero byte at \<open>buf\<close>; the buffer overlaps neither
  the format nor the strings.\<close>

fun store_bytes :: "u8 list \<Rightarrow> u32 \<Rightarrow> bytes \<Rightarrow> bytes" where
  "store_bytes [] a m = m"
| "store_bytes (c # cs) a m = store_bytes cs (a + 1) (m(a := c))"

definition vsprintf :: "u32 \<Rightarrow> u8 list \<Rightarrow> u32 list \<Rightarrow> bytes \<Rightarrow> (int \<times> bytes) option" where
  "vsprintf buf fmt args m = do {
     (out, m) \<leftarrow> vsprintf_loop fmt [] args m;
     Some (int (length out), store_bytes (out @ [0]) buf m)
   }"

section \<open>Printing and reading numbers\<close>

lemma digit_value: "d < 10 \<Longrightarrow> is_digit (digit small d) \<and> uint (digit small d) = 0x30 + int d"
proof -
  assume d: "d < 10"
  then have "unat (digit small d) = 0x30 + d" by (simp add: digit_def unat_word_ariths unat_of_nat)
  then show "is_digit (digit small d) \<and> uint (digit small d) = 0x30 + int d"
    using d by (simp add: is_digit_def word_le_nat_alt uint_nat)
qed

text \<open>The number that a list of decimal digits stands for.\<close>

definition digits_from :: "int \<Rightarrow> u8 list \<Rightarrow> int" where
  "digits_from i ds = foldl (\<lambda>a c. a * 10 + (uint c - 0x30)) i ds"

lemma digits_from_simps [simp]:
  "digits_from i [] = i" "digits_from i (c # ds) = digits_from (i * 10 + (uint c - 0x30)) ds"
  "digits_from i (ds @ es) = digits_from (digits_from i ds) es"
  by (simp_all add: digits_from_def)

lemma s32_step: "s32 (s32 x * 10 + d) = s32 (x * 10 + d)"
proof -
  define q where "q = (x + 2 ^ 31) div 2 ^ 32"
  have "s32 x = x + 2 ^ 32 * (- q)"
    unfolding s32_def q_def by (simp add: minus_mult_div_eq_mod [symmetric])
  then have e: "s32 x * 10 + d = x * 10 + d + 2 ^ 32 * (- 10 * q)" by simp
  have "s32 (y + 2 ^ 32 * k) = s32 y" for y k
  proof -
    have "(y + 2 ^ 32 * k + 2 ^ 31) mod 2 ^ 32 = ((y + 2 ^ 31) + 2 ^ 32 * k) mod 2 ^ 32" by (simp add: add_ac)
    then show ?thesis unfolding s32_def by (simp only: mod_mult_self2)
  qed
  then show ?thesis unfolding e .
qed

lemma skip_atoi_digits:
  assumes "\<forall>c\<in>set ds. is_digit c" "rest = [] \<or> \<not> is_digit (hd rest)"
  shows "skip_atoi (s32 i) (ds @ rest) = (s32 (digits_from i ds), rest)"
  using assms(1)
proof (induction ds arbitrary: i)
  case Nil
  then show ?case using assms(2) by (cases rest) auto
next
  case (Cons c ds)
  have "s32 (s32 i * 10 + uint c - 0x30) = s32 (i * 10 + (uint c - 0x30))"
    using s32_step [of i "uint c - 0x30"] by (simp add: algebra_simps)
  then show ?case using Cons by simp
qed

lemma low_digits_value:
  "digits_from 0 (rev (low_digits False 10 n)) = int n \<and> (\<forall>c\<in>set (low_digits False 10 n). is_digit c)"
proof (induction n rule: less_induct)
  case (less n)
  show ?case
  proof (cases "n = 0")
    case True
    then show ?thesis by (simp add: low_digits.simps)
  next
    case False
    have unfold: "low_digits False 10 n = digit False (n mod 10) # low_digits False 10 (n div 10)"
      using False by (subst low_digits.simps) simp
    have "digits_from 0 (rev (low_digits False 10 (n div 10))) = int (n div 10)"
      "\<forall>c\<in>set (low_digits False 10 (n div 10)). is_digit c"
      using less [of "n div 10"] False by auto
    moreover have "int (n div 10) * 10 + int (n mod 10) = int n"
      by (metis div_mult_mod_eq of_nat_add of_nat_mult of_nat_numeral)
    ultimately show ?thesis
      using digit_value [of "n mod 10" False] by (simp add: unfold)
  qed
qed

lemma number_digits_value:
  "digits_from 0 (rev (number_digits False 10 num)) = uint num \<and> (\<forall>c\<in>set (number_digits False 10 num). is_digit c)"
proof (cases "num = 0")
  case False
  then show ?thesis using low_digits_value [of "unat num"] by (simp add: number_digits_def)
qed (simp add: number_digits_def is_digit_def)

lemma leading_zeros [simp]: "digits_from 0 (replicate k 0x30) = 0"
  by (induction k) simp_all

lemma uint_abs: "uint (if sint num < 0 then - num else num) = \<bar>sint num\<bar>" for num :: u32
proof -
  have r: "- (2 ^ 31) \<le> sint num" "sint num < 2 ^ 31" using sint_range_size [of num] by (simp_all add: word_size)
  have u: "uint num = sint num mod 2 ^ 32" by (simp add: uint_sint take_bit_eq_mod)
  show ?thesis
  proof (cases "sint num < 0")
    case True
    have "uint (- num) = (- uint num) mod 2 ^ 32" by (simp add: uint_word_ariths)
    also have "\<dots> = (- sint num) mod 2 ^ 32" unfolding u by (simp only: mod_minus_eq)
    also have "\<dots> = - sint num" using True r by (intro mod_pos_pos_trivial) simp_all
    finally show ?thesis using True by simp
  next
    case False
    then have "uint num = sint num" unfolding u using r by (intro mod_pos_pos_trivial) simp_all
    then show ?thesis using False by simp
  qed
qed

text \<open>
  C31. A decimal number that \<^verbatim>\<open>vsprintf\<close> prints, padded with zeros to any width and precision, is read back
  by \<^verbatim>\<open>skip_atoi\<close> behind its sign: its digits are those of the absolute value (of \<open>- 2 ^ 31\<close> in 32 bits),
  and the reading stops where they end.
\<close>

theorem number_reads_back:
  assumes "rest = [] \<or> \<not> is_digit (hd rest)"
  shows "\<exists>out. number num 10 sz precision (SIGN OR ZEROPAD) = Some ((if sint num < 0 then [0x2D] else []) @ out)
     \<and> skip_atoi 0 (out @ rest) = (s32 \<bar>sint num\<bar>, rest)"
proof -
  define n where "n = (if sint num < 0 then - num else num)"
  define tmp where "tmp = number_digits False 10 n"
  have n: "uint n = \<bar>sint num\<bar>" unfolding n_def by (rule uint_abs)
  obtain j k where num: "number num 10 sz precision (SIGN OR ZEROPAD)
      = Some ((if sint num < 0 then [0x2D] else []) @ (replicate j 0x30 @ replicate k 0x30 @ rev tmp))"
    by (cases "sint num < 0") (simp_all add: number_def Let_def tmp_def n_def)
  let ?out = "replicate j 0x30 @ replicate k 0x30 @ rev tmp"
  have "\<forall>c\<in>set ?out. is_digit c"
    using number_digits_value [of n] by (auto simp: tmp_def is_digit_def)
  moreover have "digits_from 0 ?out = \<bar>sint num\<bar>"
    using number_digits_value [of n] n by (simp add: tmp_def)
  moreover have "s32 0 = 0" by (simp add: s32_def)
  ultimately have "skip_atoi 0 (?out @ rest) = (s32 \<bar>sint num\<bar>, rest)"
    using skip_atoi_digits [of ?out rest 0] assms by metis
  with num show ?thesis by blast
qed

theorem number_reads_back_witness:
  "\<exists>out. number (- 42) 10 5 (- 1) (SIGN OR ZEROPAD) = Some (0x2D # out) \<and> skip_atoi 0 (out @ [0x20]) = (42, [0x20])"
  using number_reads_back [of "[0x20]" "- 42" 5 "- 1"] by (simp add: is_digit_def)

end
