(* ===== verification/Mktime.thy ===== *)
theory Mktime
  imports Sched "HOL-Library.Signed_Division"
begin

text \<open>
  \<^verbatim>\<open>kernel/mktime.c\<close>: the time in seconds since 1970 from the date in the CMOS clock.
\<close>

abbreviation (input) MINUTE :: int where "MINUTE \<equiv> 60"
abbreviation (input) HOUR :: int where "HOUR \<equiv> 60 * MINUTE"
abbreviation (input) DAY :: int where "DAY \<equiv> 24 * HOUR"
abbreviation (input) YEAR :: int where "YEAR \<equiv> 365 * DAY"

record tm =
  tm_sec :: int
  tm_min :: int
  tm_hour :: int
  tm_mday :: int
  tm_mon :: int
  tm_year :: int

text \<open>The table \<^verbatim>\<open>month\<close>, in days: the months of a leap year.\<close>

definition month :: "int list" where
  "month = [0, 31, 60, 91, 121, 152, 182, 213, 244, 274, 305, 335]"

text \<open>A month outside the table is \<open>None\<close>. The result is the wrapped 32-bit number.\<close>

definition kernel_mktime :: "tm \<Rightarrow> int option" where
  "kernel_mktime tm =
     (let year = tm_year tm - 70 in
      if tm_mon tm < 0 \<or> tm_mon tm \<ge> 12 then None
      else Some (s32 (YEAR * year + DAY * ((year + 1) sdiv 4) + DAY * (month ! nat (tm_mon tm))
        - (if tm_mon tm > 1 \<and> (year + 2) smod 4 \<noteq> 0 then DAY else 0)
        + DAY * (tm_mday tm - 1) + HOUR * tm_hour tm + MINUTE * tm_min tm + tm_sec tm)))"

section \<open>The CMOS clock\<close>

definition CMOS_READ :: "'a sched_scheme world \<Rightarrow> u8 \<Rightarrow> 'a sched_scheme \<Rightarrow> u8 \<times> 'a sched_scheme" where
  "CMOS_READ w addr s = inb w 0x71 (outb (0x80 OR addr) 0x70 s)"

definition BCD_TO_BIN :: "u8 \<Rightarrow> int" where
  "BCD_TO_BIN val = uint (val AND 15) + uint (drop_bit 4 val) * 10"

text \<open>The bytes of the date, read again until the second stays the same.\<close>

partial_function (option) read_clock ::
  "'a sched_scheme world \<Rightarrow> 'a sched_scheme \<Rightarrow> ((u8 \<times> u8 \<times> u8 \<times> u8 \<times> u8 \<times> u8) \<times> 'a sched_scheme) option" where
  "read_clock w s =
     (let (sec, s) = CMOS_READ w 0 s; (mi, s) = CMOS_READ w 2 s; (hour, s) = CMOS_READ w 4 s;
          (mday, s) = CMOS_READ w 7 s; (mon, s) = CMOS_READ w 8 s; (year, s) = CMOS_READ w 9 s;
          (again, s) = CMOS_READ w 0 s
      in if sec \<noteq> again then read_clock w s else Some ((sec, mi, hour, mday, mon, year), s))"

definition time_init :: "'a sched_scheme world \<Rightarrow> 'a sched_scheme \<Rightarrow> 'a sched_scheme option" where
  "time_init w s = do {
     ((sec, mi, hour, mday, mon, year), s) \<leftarrow> read_clock w s;
     t \<leftarrow> kernel_mktime \<lparr>tm_sec = BCD_TO_BIN sec, tm_min = BCD_TO_BIN mi, tm_hour = BCD_TO_BIN hour,
            tm_mday = BCD_TO_BIN mday, tm_mon = BCD_TO_BIN mon - 1, tm_year = BCD_TO_BIN year\<rparr>;
     Some (s\<lparr>startup_time := of_int t\<rparr>)
   }"

section \<open>The calendar\<close>

text \<open>The Gregorian calendar as the reference: the seconds from the start of 1970 to a date.\<close>

definition is_leap :: "nat \<Rightarrow> bool" where
  "is_leap y \<longleftrightarrow> y mod 4 = 0 \<and> (y mod 100 \<noteq> 0 \<or> y mod 400 = 0)"

definition year_days :: "nat \<Rightarrow> nat" where
  "year_days y = (if is_leap y then 366 else 365)"

definition month_days :: "nat \<Rightarrow> nat list" where
  "month_days y = [31, if is_leap y then 29 else 28, 31, 30, 31, 30, 31, 31, 30, 31, 30, 31]"

definition days_since_1970 :: "nat \<Rightarrow> nat \<Rightarrow> nat \<Rightarrow> nat" where
  "days_since_1970 y m d = sum_list (map year_days [1970..<y]) + sum_list (take m (month_days y)) + (d - 1)"

lemma leap_years:
  assumes "n < 68"
  shows "is_leap (1970 + n) \<longleftrightarrow> (n + 2) mod 4 = 0"
proof -
  have "1970 + n = n + 2 + 492 * 4" by simp
  then have "(1970 + n) mod 4 = (n + 2) mod 4" by (metis mod_mult_self1)
  note four = this
  show ?thesis
  proof (cases "(1970 + n) mod 100 = 0")
    case True
    define q where "q = (1970 + n) div 100"
    have q: "1970 + n = 100 * q" using True mult_div_mod_eq [of 100 "1970 + n"] unfolding q_def by linarith
    with assms have "q = 20" by linarith
    then have "n = 30" using q by linarith
    then show ?thesis by (simp add: is_leap_def)
  next
    case False
    then show ?thesis unfolding is_leap_def four by blast
  qed
qed

lemma month_cases:
  "m < 12 \<Longrightarrow> m = 0 \<or> m = 1 \<or> m = 2 \<or> m = 3 \<or> m = 4 \<or> m = 5 \<or> m = 6 \<or> m = 7 \<or> m = 8 \<or> m = 9 \<or> m = 10 \<or> m = 11" for m :: nat
  by (auto simp: eval_nat_numeral less_Suc_eq)

lemma days_before_years: "n \<le> 68 \<Longrightarrow> sum_list (map year_days [1970..<1970 + n]) = 365 * n + (n + 1) div 4"
proof (induction n)
  case (Suc n)
  have "year_days (1970 + n) = (if (n + 2) mod 4 = 0 then 366 else 365)"
    using leap_years [of n] Suc.prems by (simp add: year_days_def)
  moreover have "[1970..<1970 + Suc n] = [1970..<1970 + n] @ [1970 + n]"
    unfolding add_Suc_right by (simp only: upt_Suc) simp
  moreover have "(Suc n + 1) div 4 = (n + 1) div 4 + (if (n + 2) mod 4 = 0 then 1 else 0)" by presburger
  ultimately show ?case using Suc by simp
qed simp

lemma days_before_months:
  assumes "n < 68" "m < 12"
  shows "int (sum_list (take m (month_days (1970 + n)))) = month ! m - (if m > 1 \<and> (n + 2) mod 4 \<noteq> 0 then 1 else 0)"
proof -
  have "is_leap (1970 + n) \<longleftrightarrow> (n + 2) mod 4 = 0" by (rule leap_years [OF assms(1)])
  then show ?thesis using month_cases [OF assms(2)] by (elim disjE) (simp_all add: month_days_def month_def)
qed

lemma month_days_less: "m < 12 \<Longrightarrow> sum_list (take m (month_days y)) + month_days y ! m \<le> 366"
proof -
  assume "m < 12"
  from month_cases [OF this] show ?thesis by (elim disjE) (simp_all add: month_days_def)
qed

text \<open>
  C30. \<^verbatim>\<open>kernel_mktime\<close> agrees with the Gregorian calendar for every date of the years 1970 to 2037 that is
  given with its years counted from 1900: the result is the number of seconds since the start of
  1970, and nothing overflows.
\<close>

theorem kernel_mktime_is_calendar:
  assumes "1970 \<le> y" "y \<le> 2037" "m < 12" "1 \<le> d" "d \<le> month_days y ! m" "h < 24" "mi < 60" "sec < 60"
  shows "kernel_mktime \<lparr>tm_sec = int sec, tm_min = int mi, tm_hour = int h, tm_mday = int d, tm_mon = int m, tm_year = int y - 1900\<rparr>
     = Some (86400 * int (days_since_1970 y m d) + 3600 * int h + 60 * int mi + int sec)"
proof -
  define n where "n = y - 1970"
  have y: "y = 1970 + n" "n < 68" "int y - 1900 - 70 = int n" using assms(1,2) by (simp_all add: n_def)
  have q: "(int n + 1) sdiv 4 = int ((n + 1) div 4)" "(int n + 2) smod 4 = int ((n + 2) mod 4)"
    by (simp_all add: signed_divide_int_def signed_modulo_int_def zdiv_int zmod_int sgn_if add.commute)
  have days: "int (days_since_1970 y m d) = 365 * int n + int ((n + 1) div 4) + month ! m
      - (if m > 1 \<and> (n + 2) mod 4 \<noteq> 0 then 1 else 0) + (int d - 1)"
    using days_before_years [of n] days_before_months [OF y(2) assms(3)] assms(4) y(2)
    by (simp add: days_since_1970_def y(1))
  have "days_since_1970 y m d < 365 * 67 + 17 + 366"
    using days_before_years [of n] month_days_less [OF assms(3), of y] assms(4,5) y(2)
    unfolding days_since_1970_def y(1) by linarith
  then have b: "86400 * int (days_since_1970 y m d) + 3600 * int h + 60 * int mi + int sec < 2 ^ 31"
    using assms(6-8) by simp
  define adj where "adj = (if m > 1 \<and> (n + 2) mod 4 \<noteq> 0 then 1 else 0 :: int)"
  let ?v = "86400 * int (days_since_1970 y m d) + 3600 * int h + 60 * int mi + int sec"
  let ?x = "31536000 * int n + 86400 * int ((n + 1) div 4) + 86400 * (month ! m) - 86400 * adj
      + 86400 * (int d - 1) + 3600 * int h + 60 * int mi + int sec"
  have "kernel_mktime \<lparr>tm_sec = int sec, tm_min = int mi, tm_hour = int h, tm_mday = int d, tm_mon = int m, tm_year = int y - 1900\<rparr>
     = Some (s32 ?x)"
    using assms(3) by (simp add: kernel_mktime_def Let_def y(3) q adj_def)
  also have "?x = ?v" unfolding days adj_def [symmetric] by (simp add: algebra_simps)
  also have "s32 ?v = ?v" using b by (intro s32_id) simp_all
  finally show ?thesis .
qed

theorem kernel_mktime_is_calendar_witness:
  "kernel_mktime \<lparr>tm_sec = 0, tm_min = 0, tm_hour = 12, tm_mday = 29, tm_mon = 1, tm_year = 100\<rparr> = Some 951825600"
  using kernel_mktime_is_calendar [of 2000 1 29 12 0 0]
  by (simp add: days_since_1970_def month_days_def is_leap_def year_days_def upt_rec)

end
