(* ===== verification/Setup.thy ===== *)
theory Setup
  imports File_Ops Vsprintf Mktime
begin

text \<open>
  \<^verbatim>\<open>kernel/printk.c\<close> and \<^verbatim>\<open>kernel/sys02.c\<close>: printing in the kernel and the system calls of this kernel
  that Linux does not have. \<open>pb\<close> is the address of the static \<^verbatim>\<open>buf\<close> of \<^verbatim>\<open>printk\<close>, \<open>lit x\<close> the address
  where the linker puts the string literal \<open>x\<close>. A panic and \<^verbatim>\<open>oom\<close>, which do not return, are \<open>None\<close>.
\<close>

section \<open>Printing\<close>

definition printk :: "u32 \<Rightarrow> u8 list \<Rightarrow> u32 list \<Rightarrow> 'a tty_state_scheme \<Rightarrow> (int \<times> 'a tty_state_scheme) option" where
  "printk pb fmt args s = do {
     (i, m) \<leftarrow> vsprintf pb fmt args (kmem s);
     s \<leftarrow> console_print pb (s\<lparr>kmem := m\<rparr>);
     Some (i, s)
   }"

abbreviation (input) nl :: string where "nl \<equiv> [CHR 0x0A]"
abbreviation (input) ret :: string where "ret \<equiv> [CHR 0x0D]"
abbreviation (input) tab :: string where "tab \<equiv> [CHR 0x09]"

text \<open>The calls whose result is not used, with the format as a literal and as a pointer.\<close>

definition prints :: "u32 \<Rightarrow> string \<Rightarrow> u32 list \<Rightarrow> 'a tty_state_scheme \<Rightarrow> 'a tty_state_scheme option" where
  "prints pb fmt args s = do { (_, s) \<leftarrow> printk pb (bytes_of fmt) args s; Some s }"

definition c_string :: "u32 \<Rightarrow> bytes \<Rightarrow> u8 list" where
  "c_string p m = map (\<lambda>i. m (p + of_nat i)) [0..<unat (strlen p m)]"

definition print_at :: "u32 \<Rightarrow> u32 \<Rightarrow> 'a tty_state_scheme \<Rightarrow> 'a tty_state_scheme option" where
  "print_at pb p s = do { (_, s) \<leftarrow> printk pb (c_string p (kmem s)) [] s; Some s }"

definition SHELL_INFO :: string where
  "SHELL_INFO = ''[root@dumpling]:#  ''"

section \<open>Information\<close>

definition sys_write_simple :: "'a tty_state_scheme world \<Rightarrow> u32 \<Rightarrow> int \<Rightarrow> 'a tty_state_scheme \<Rightarrow> (int \<times> 'a tty_state_scheme) option" where
  "sys_write_simple w buf count s = do { (_, s) \<leftarrow> tty_write w 0 buf count s; Some (100, s) }"

definition sys_print_sys_time :: "'a tty_state_scheme world \<Rightarrow> u32 \<Rightarrow> 'a tty_state_scheme \<Rightarrow> (int \<times> 'a tty_state_scheme) option" where
  "sys_print_sys_time w pb s = do {
     let (second, s) = CMOS_READ w 0 s;
     let (minute, s) = CMOS_READ w 2 s;
     let (hour, s) = CMOS_READ w 4 s;
     let (day, s) = CMOS_READ w 7 s;
     let (moon, s) = CMOS_READ w 8 s;
     let (year, s) = CMOS_READ w 9 s;
     s \<leftarrow> prints pb (tab @ ''the current time is: '') [] s;
     s \<leftarrow> prints pb (''%d-%d-%d   %d:%d:%d'' @ nl)
           (map of_int [BCD_TO_BIN year + 2000, BCD_TO_BIN moon, BCD_TO_BIN day,
                        BCD_TO_BIN hour, BCD_TO_BIN minute, BCD_TO_BIN second]) s;
     Some (100, s)
   }"

text \<open>A field of \<^verbatim>\<open>thisname\<close> that starts at byte \<open>off\<close>; \<open>None\<close> when no zero byte ends it inside the
  structure.\<close>

definition uts_string :: "nat \<Rightarrow> 'a sys_scheme \<Rightarrow> u8 list option" where
  "uts_string off s =
     (let b = map (thisname s) [off..<UTSNAME_SIZE]
      in if 0 \<in> set b then Some (takeWhile (\<lambda>c. c \<noteq> 0) b) else None)"

definition print_uts :: "u32 \<Rightarrow> string \<Rightarrow> nat \<Rightarrow> 'a tty_state_scheme \<Rightarrow> 'a tty_state_scheme option" where
  "print_uts pb label off s = do {
     s \<leftarrow> prints pb label [] s;
     fmt \<leftarrow> uts_string off s;
     (_, s) \<leftarrow> printk pb fmt [] s;
     Some s
   }"

definition sys_print_sys_info :: "u32 \<Rightarrow> 'a tty_state_scheme \<Rightarrow> (int \<times> 'a tty_state_scheme) option" where
  "sys_print_sys_info pb s = do {
     s \<leftarrow> print_uts pb (tab @ ''current system name: '') 0 s;
     s \<leftarrow> print_uts pb (nl @ tab @ ''current node name: '') 64 s;
     s \<leftarrow> print_uts pb (nl @ tab @ ''current release: '') 128 s;
     s \<leftarrow> print_uts pb (nl @ tab @ ''current version number: '') 192 s;
     s \<leftarrow> print_uts pb (nl @ tab @ ''current machine: '') 256 s;
     s \<leftarrow> prints pb nl [] s;
     Some (100, s)
   }"

fun start_consoles :: "u32 \<Rightarrow> nat list \<Rightarrow> 'a tty_state_scheme \<Rightarrow> 'a tty_state_scheme option" where
  "start_consoles pb [] s = Some s"
| "start_consoles pb (c # cs) s = do { s \<leftarrow> prints pb SHELL_INFO [] (change_console c s); start_consoles pb cs s }"

definition sys_start_shell :: "u32 \<Rightarrow> 'a tty_state_scheme \<Rightarrow> (int \<times> 'a tty_state_scheme) option" where
  "sys_start_shell pb s = do {
     s \<leftarrow> start_consoles pb [0..<NR_CONSOLES s] s;
     Some (100, change_console 0 s)
   }"

section \<open>Setting up the disks\<close>

definition make_dir :: "'a fs_scheme world \<Rightarrow> (string \<Rightarrow> u32) \<Rightarrow> string \<Rightarrow> 'a fs_scheme \<Rightarrow> (int \<times> 'a fs_scheme) option" where
  "make_dir w lit name s = sys_mkdir w (lit name) 0x41FF s"

fun make_dirs :: "'a fs_scheme world \<Rightarrow> (string \<Rightarrow> u32) \<Rightarrow> string list \<Rightarrow> bool \<Rightarrow> 'a fs_scheme \<Rightarrow> (bool \<times> 'a fs_scheme) option" where
  "make_dirs w lit [] res s = Some (res, s)"
| "make_dirs w lit (n # ns) res s = do { (i, s) \<leftarrow> make_dir w lit n s; make_dirs w lit ns (res \<or> i = 0) s }"

text \<open>True when at least one of the entries is new.\<close>

definition init_filedir_tree :: "'a fs_scheme world \<Rightarrow> (string \<Rightarrow> u32) \<Rightarrow> 'a fs_scheme \<Rightarrow> (bool \<times> 'a fs_scheme) option" where
  "init_filedir_tree w lit s = do {
     (res, s) \<leftarrow> make_dirs w lit [''bin'', ''boot'', ''var'', ''opt'', ''usr'', ''dev'', ''etc'', ''home''] False s;
     (i, s) \<leftarrow> sys_mknod w (lit ''/dev/hda'') 0x61FF 0x300 s;
     (j, s) \<leftarrow> sys_mknod w (lit ''/dev/tty1'') 0x21FF 0x400 s;
     Some (res \<or> i = 0 \<or> j = 0, s)
   }"

definition set_part :: "nat \<Rightarrow> int \<Rightarrow> int \<Rightarrow> 'a hd_scheme \<Rightarrow> 'a hd_scheme" where
  "set_part i start n s = s\<lparr>hd_part := (hd_part s)(i := \<lparr>start_sect = start, nr_sects = n\<rparr>)\<rparr>"

definition whole_disk :: "nat \<Rightarrow> 'a hd_scheme \<Rightarrow> 'a hd_scheme" where
  "whole_disk i s =
     (let x = hd_info s i in set_part (i * 5) 0 (s32 (uint (hi_head x) * uint (hi_sect x) * uint (hi_cyl x))) s)"

text \<open>The number of drives from the table of the BIOS, then from the CMOS.\<close>

definition count_disks :: "'a hd_scheme world \<Rightarrow> 'a hd_scheme \<Rightarrow> 'a hd_scheme" where
  "count_disks w s =
     (let s = s\<lparr>NR_HD := if hi_cyl (hd_info s 1) \<noteq> 0 then 2 else 1\<rparr>;
          s = fold whole_disk [0..<nat (NR_HD s)] s;
          (cmos_disks, s) = CMOS_READ w 0x12 s;
          s = s\<lparr>NR_HD := if cmos_disks AND 0xf0 \<noteq> 0 then if cmos_disks AND 0x0f \<noteq> 0 then 2 else 1 else 0\<rparr>
      in fold (\<lambda>i. set_part (i * 5) 0 0) [nat (NR_HD s)..<2] s)"

text \<open>The partition table in the boot block: an entry has 16 bytes and ends with the start and the
  number of sectors.\<close>

definition load_part :: "nat \<Rightarrow> u32 \<Rightarrow> nat \<Rightarrow> 'a hd_scheme \<Rightarrow> 'a hd_scheme" where
  "load_part drive d i s =
     (let p = d + 0x1BE + 16 * of_nat (i - 1) in set_part (i + 5 * drive) (sint (rd (p + 8) s)) (sint (rd (p + 12) s)) s)"

fun read_partitions :: "'a cache_scheme world \<Rightarrow> nat list \<Rightarrow> 'a cache_scheme \<Rightarrow> 'a cache_scheme option" where
  "read_partitions w [] s = Some s"
| "read_partitions w (drive # ds) s = do {
     (b, s) \<leftarrow> bread w (0x300 + of_nat drive * 5) 0 s;
     bh \<leftarrow> b;
     if rdb (data_of bh s + 510) s \<noteq> 0x55 \<or> rdb (data_of bh s + 511) s \<noteq> 0xAA then None
     else do {
       s \<leftarrow> brelse w (Some bh) (fold (load_part drive (data_of bh s)) [1..<5] s);
       read_partitions w ds s
     }
   }"

text \<open>\<^verbatim>\<open>blk_size[MAJOR_NR]\<close> points to \<^verbatim>\<open>hd_sizes\<close>, which does not change any more.\<close>

definition set_hd_sizes :: "'a hd_scheme \<Rightarrow> 'a hd_scheme" where
  "set_hd_sizes s =
     (let s = s\<lparr>hd_sizes := (\<lambda>i. if i < 10 then nr_sects (hd_part s i) div 2 else hd_sizes s i)\<rparr>
      in s\<lparr>blk_size := (blk_size s)(MAJOR_NR := Some (hd_sizes s))\<rparr>)"

text \<open>The end of \<^verbatim>\<open>mount_root\<close>: the clear bits 1 to \<open>n\<close> of a map.\<close>

fun count_free :: "(nat \<Rightarrow> nat option) \<Rightarrow> nat \<Rightarrow> 'a fs_scheme \<Rightarrow> nat option" where
  "count_free maps 0 s = Some 0"
| "count_free maps (Suc i) s = do {
     bh \<leftarrow> maps (Suc i div 8192);
     n \<leftarrow> count_free maps i s;
     Some (if mem_bit (Suc i mod 8192) (data_of bh s) (kmem s) then n else n + 1)
   }"

definition mount_report :: "u32 \<Rightarrow> 'a tty_state_scheme \<Rightarrow> 'a tty_state_scheme option" where
  "mount_report pb s = do {
     let p = super_blocks s 0;
     zones \<leftarrow> count_free (s_zmap p) (unat (s_nzones p)) s;
     s \<leftarrow> prints pb (tab @ ''%d/%d free blocks'' @ nl @ ret) [of_nat zones, ucast (s_nzones p)] s;
     inodes \<leftarrow> count_free (s_imap p) (unat (s_ninodes p)) s;
     prints pb (tab @ ''%d/%d free inodes'' @ nl) [of_nat inodes, ucast (s_ninodes p)] s
   }"

definition sys_setup ::
  "'a tty_state_scheme world \<Rightarrow> u32 \<Rightarrow> (string \<Rightarrow> u32) \<Rightarrow> 'a tty_state_scheme \<Rightarrow> (int \<times> 'a tty_state_scheme) option" where
  "sys_setup w pb lit s =
     (if callable s = 0 then Some (- 1, s)
      else do {
        let s = count_disks w (s\<lparr>callable := 0\<rparr>);
        s \<leftarrow> read_partitions w [0..<nat (NR_HD s)] s;
        let s = set_hd_sizes s;
        s \<leftarrow> (if NR_HD s \<noteq> 0
              then prints pb (''Partition table%s ok.'' @ nl @ ret) [if NR_HD s > 1 then lit ''s'' else lit ''''] s
              else Some s);
        s \<leftarrow> mount_root w s;
        s \<leftarrow> mount_report pb s;
        (sync_flags, s) \<leftarrow> init_filedir_tree w lit s;
        s \<leftarrow> (if sync_flags then do { (_, s) \<leftarrow> sys_sync w s; Some s } else Some s);
        Some (100, s)
      })"

section \<open>Listing a directory\<close>

text \<open>\<^verbatim>\<open>bh->b_data\<close>; with \<^verbatim>\<open>bh\<close> NULL the field is read at address 0.\<close>

definition data_at :: "nat option \<Rightarrow> 'a blk_scheme \<Rightarrow> u32" where
  "data_at bh s = (case bh of None \<Rightarrow> rd 0 s | Some b \<Rightarrow> data_of b s)"

definition ls_entry :: "u32 \<Rightarrow> bool \<Rightarrow> u32 \<Rightarrow> 'a tty_state_scheme \<Rightarrow> 'a tty_state_scheme option" where
  "ls_entry pb flags de s =
     (if rdw de s = 0 then Some s
      else if \<not> flags then do { s \<leftarrow> print_at pb (de + 2) s; prints pb tab [] s }
      else do {
        s \<leftarrow> prints pb (''directary entry name: %s'' @ tab @ tab) [de + 2] s;
        prints pb (''inode No: %d'' @ nl) [ucast (rdw de s)] s
      })"

partial_function (option) ls_loop ::
  "'a tty_state_scheme world \<Rightarrow> u32 \<Rightarrow> bool \<Rightarrow> nat \<Rightarrow> nat \<Rightarrow> nat option \<Rightarrow> u32 \<Rightarrow> nat \<Rightarrow> nat \<Rightarrow> 'a tty_state_scheme
     \<Rightarrow> (nat option \<times> 'a tty_state_scheme) option" where
  "ls_loop w pb flags dir entries bh de i j s =
     (if \<not> i < entries then Some (bh, s)
      else if j \<ge> DIR_ENTRIES_PER_BLOCK
      then do {
        s \<leftarrow> brelse w bh s;
        (block, s) \<leftarrow> bmap w dir (int (i div DIR_ENTRIES_PER_BLOCK)) s;
        if block = 0 then ls_loop w pb flags dir entries None de (i + DIR_ENTRIES_PER_BLOCK) j s
        else do {
          (b, s) \<leftarrow> bread w (idev dir s) block s;
          bh \<leftarrow> b;
          s' \<leftarrow> ls_entry pb flags (data_of bh s) s;
          ls_loop w pb flags dir entries (Some bh) (data_of bh s + 16) (i + 1) 1 s'
        }
      }
      else do {
        s \<leftarrow> ls_entry pb flags de s;
        ls_loop w pb flags dir entries bh (de + 16) (i + 1) (j + 1) s
      })"

definition sys_ls :: "'a tty_state_scheme world \<Rightarrow> u32 \<Rightarrow> int \<Rightarrow> 'a tty_state_scheme \<Rightarrow> (int \<times> 'a tty_state_scheme) option" where
  "sys_ls w pb flags s = do {
     dir \<leftarrow> t_pwd (cur s);
     let entries = unat (i_size (inode_table s dir)) div 16;
     let block = zone dir 0 s;
     if block = 0 then None
     else do {
       (b, s) \<leftarrow> bread w (idev dir s) (ucast block) s;
       bh \<leftarrow> b;
       (b, s) \<leftarrow> ls_loop w pb (flags \<noteq> 0) dir entries (Some bh) (data_of bh s) 0 0 s;
       s \<leftarrow> (if flags = 0 then prints pb nl [] s else Some s);
       s \<leftarrow> brelse w b s;
       Some (100, s)
     }
   }"

section \<open>The path of the working directory\<close>

partial_function (option) inum_loop ::
  "'a fs_scheme world \<Rightarrow> nat \<Rightarrow> u16 \<Rightarrow> nat \<Rightarrow> nat option \<Rightarrow> u32 \<Rightarrow> nat \<Rightarrow> nat \<Rightarrow> 'a fs_scheme
     \<Rightarrow> ((nat option \<times> u32) \<times> 'a fs_scheme) option" where
  "inum_loop w dir inum entries bh de i j s =
     (if \<not> i < entries then do { s \<leftarrow> brelse w bh s; Some ((None, 0), s) }
      else if j \<ge> DIR_ENTRIES_PER_BLOCK
      then do {
        s \<leftarrow> brelse w bh s;
        (block, s) \<leftarrow> bmap w dir (int (i div DIR_ENTRIES_PER_BLOCK)) s;
        (b, s) \<leftarrow> (if block = 0 then Some (None, s) else bread w (idev dir s) block s);
        case b of
          None \<Rightarrow> inum_loop w dir inum entries None de (i + DIR_ENTRIES_PER_BLOCK) j s
        | Some bh \<Rightarrow>
            if rdw (data_of bh s) s = inum then Some ((Some bh, data_of bh s), s)
            else inum_loop w dir inum entries (Some bh) (data_of bh s + 16) (i + 1) 1 s
      }
      else if rdw de s = inum then Some ((bh, de), s)
      else inum_loop w dir inum entries bh (de + 16) (i + 1) (j + 1) s)"

definition find_entry_by_inum ::
  "'a fs_scheme world \<Rightarrow> nat \<Rightarrow> u16 \<Rightarrow> 'a fs_scheme \<Rightarrow> ((nat option \<times> u32) \<times> 'a fs_scheme) option" where
  "find_entry_by_inum w dir inum s =
     (let entries = unat (i_size (inode_table s dir)) div 16 in
      if zone dir 0 s = 0 then Some ((None, 0), s)
      else do {
        (b, s) \<leftarrow> bread w (idev dir s) (ucast (zone dir 0 s)) s;
        case b of None \<Rightarrow> Some ((None, 0), s)
        | Some bh \<Rightarrow> inum_loop w dir inum entries (Some bh) (data_of bh s) 0 0 s
      })"

text \<open>The inode number in the second entry of a directory, its \<^verbatim>\<open>..\<close>, and the inode.\<close>

definition parent_of :: "'a fs_scheme world \<Rightarrow> nat \<Rightarrow> 'a fs_scheme \<Rightarrow> (u16 \<times> nat \<times> 'a fs_scheme) option" where
  "parent_of w dir s = do {
     let dev = idev dir s;
     (bh, s) \<leftarrow> bread w dev (ucast (zone dir 0 s)) s;
     let parent_i_num = rdw (data_at bh s + 16) s;
     s \<leftarrow> brelse w bh s;
     (parent, s) \<leftarrow> iget w dev (ucast parent_i_num) s;
     Some (parent_i_num, parent, s)
   }"

text \<open>The name is put in front of what is there, its last byte at index \<open>i\<close>.\<close>

fun put_name :: "nat \<Rightarrow> u32 \<Rightarrow> u32 \<Rightarrow> int \<Rightarrow> 'a sched_scheme \<Rightarrow> int \<times> 'a sched_scheme" where
  "put_name 0 name buf i s = (i, s)"
| "put_name (Suc n) name buf i s = put_name n name buf (i - 1) (wrb (buf + of_int i) (rdb (name + of_nat n) s) s)"

partial_function (option) pwd_loop ::
  "'a fs_scheme world \<Rightarrow> u32 \<Rightarrow> int \<Rightarrow> nat \<Rightarrow> nat \<Rightarrow> 'a fs_scheme \<Rightarrow> (int \<times> nat \<times> 'a fs_scheme) option" where
  "pwd_loop w buf i cur_dir parent_dir s = do {
     let child_i_num = i_num (inode_table s cur_dir);
     pwd \<leftarrow> t_pwd (cur s);
     s \<leftarrow> (if child_i_num \<noteq> i_num (inode_table s pwd) then iput w (Some cur_dir) s else Some s);
     let cur_dir = parent_dir;
     let cur_i_num = i_num (inode_table s cur_dir);
     (parent_i_num, parent_dir, s) \<leftarrow> parent_of w cur_dir s;
     ((b, de), s) \<leftarrow> find_entry_by_inum w cur_dir child_i_num s;
     bh \<leftarrow> b;
     let len = min NAME_LEN (unat (strlen (de + 2) (kmem s)));
     let (i, s) = put_name len (de + 2) buf i s;
     s \<leftarrow> brelse w (Some bh) (wrb (buf + of_int i) 0x2F s);
     if cur_i_num \<noteq> ROOT_INO \<or> parent_i_num \<noteq> ROOT_INO then pwd_loop w buf (i - 1) cur_dir parent_dir s
     else Some (i - 1, cur_dir, s)
   }"

definition sys_pwd :: "'a tty_state_scheme world \<Rightarrow> u32 \<Rightarrow> 'a tty_state_scheme \<Rightarrow> (int \<times> 'a tty_state_scheme) option" where
  "sys_pwd w pb s = do {
     (buf, s) \<leftarrow> get_free_page w s;
     let s = wrb (buf + 1023) 0 s;
     cur_dir \<leftarrow> t_pwd (cur s);
     s \<leftarrow> (if i_num (inode_table s cur_dir) = ROOT_INO
           then print_at pb (buf + 1022) (wrb (buf + 1022) 0x2F s)
           else do {
             (_, parent_dir, s) \<leftarrow> parent_of w cur_dir s;
             (i, cur_dir, s) \<leftarrow> pwd_loop w buf 1022 cur_dir parent_dir s;
             s \<leftarrow> iput w (Some cur_dir) s;
             s \<leftarrow> iput w (Some cur_dir) s;
             print_at pb (buf + of_int (i + 1)) s
           });
     s \<leftarrow> free_page buf s;
     Some (100, s)
   }"

section \<open>Pages and input for the shell\<close>

text \<open>The first page of the address space without a page; the first 16 entries of the page directory
  from \<open>base\<close> on are those of the process with the number that is also the number of its slot.\<close>

fun malloc_tables ::
  "'a mm_scheme world \<Rightarrow> u32 \<Rightarrow> u32 \<Rightarrow> nat list \<Rightarrow> 'a mm_scheme \<Rightarrow> (int \<times> 'a mm_scheme) option" where
  "malloc_tables w base addr [] s = None"
| "malloc_tables w base addr (i # is) s = do {
     s \<leftarrow> (if rd (base + 4 * of_nat i) s = 0
           then do {
             (page, s) \<leftarrow> get_free_page w s;
             if page = 0 then None else Some (wr (base + 4 * of_nat i) (page OR 7) s)
           }
           else Some s);
     let table = rd (base + 4 * of_nat i) s AND 0xFFFFF000;
     case find (\<lambda>j. rd (table + 4 * of_nat j) s = 0) [0..<1024] of
       None \<Rightarrow> malloc_tables w base addr is s
     | Some j \<Rightarrow> do {
         (page, s) \<leftarrow> get_free_page w s;
         if page = 0 then None
         else do {
           s \<leftarrow> verify_area w addr 4 (wr (table + 4 * of_nat j) (page OR 7) s);
           Some (100, put_fs_long (push_bit 22 (of_nat i) + push_bit 12 (of_nat j)) addr s)
         }
       }
   }"

definition sys_malloc_page :: "'a mm_scheme world \<Rightarrow> u32 \<Rightarrow> 'a mm_scheme \<Rightarrow> (int \<times> 'a mm_scheme) option" where
  "sys_malloc_page w addr s = malloc_tables w (of_int (t_pid (cur s)) * 0x40) addr [0..<16] s"

definition sys_wait_return :: "'a tty_state_scheme \<Rightarrow> int option" where
  "sys_wait_return s = do {
     q \<leftarrow> secondary (tty_table s (fg_console s));
     let queue = tty_queues s q;
     Some (if q_EMPTY queue then 0 else if q_LAST queue \<noteq> 10 then 0 else 100)
   }"

fun read_all :: "nat \<Rightarrow> nat \<Rightarrow> u32 \<Rightarrow> 'a tty_state_scheme \<Rightarrow> 'a tty_state_scheme" where
  "read_all 0 q buf s = s"
| "read_all (Suc n) q buf s = (let (c, s) = GETCH q s in read_all n q (buf + 1) (put_fs_byte c buf s))"

definition sys_read_simple :: "'a tty_state_scheme world \<Rightarrow> u32 \<Rightarrow> 'a tty_state_scheme \<Rightarrow> (int \<times> 'a tty_state_scheme) option" where
  "sys_read_simple w user_buf s = do {
     q \<leftarrow> secondary (tty_table s (fg_console s));
     let len = q_CHARS (tty_queues s q);
     s \<leftarrow> verify_area w user_buf (uint len) s;
     Some (uint len, read_all (unat len) q user_buf s)
   }"

text \<open>The function has no return statement: only the state.\<close>

definition sys_clear :: "u32 \<Rightarrow> 'a tty_state_scheme \<Rightarrow> 'a tty_state_scheme option" where
  "sys_clear pb s =
     (let s = csi_J (fg_console s) 1 s; s = gotoxy (fg_console s) 0 0 s; s = set_cursor (fg_console s) s
      in prints pb SHELL_INFO [] s)"

end
