(* ===== verification/Boot.thy ===== *)
theory Boot
  imports File_Counts Tty_Queue Traps Setup
begin

text \<open>
  \<^verbatim>\<open>init/main.c\<close>: \<^verbatim>\<open>start_kernel\<close> calls the initialisation of every part of the kernel, and
  \<^verbatim>\<open>system_info_init\<close> of \<^verbatim>\<open>kernel/sys.c\<close>. The model ends before \<^verbatim>\<open>move_to_user_mode\<close>: what follows are system
  calls of task 0. The addresses of the entry points in assembly code are parameters.
\<close>

section \<open>Starting the kernel\<close>

record entry_points =
  trap_entry :: "trap_handler \<Rightarrow> u32"
  timer_entry :: u32
  system_call_entry :: u32
  keyboard_entry :: u32
  rs1_entry :: u32
  rs2_entry :: u32
  hd_entry :: u32

definition UTS_SYSNAME :: string where "UTS_SYSNAME = ''Linux''"
definition UTS_NODENAME :: string where "UTS_NODENAME = ''Dumpling 1992''"
definition UTS_RELEASE :: string where "UTS_RELEASE = ''char study03''"
definition UTS_VERSION :: string where "UTS_VERSION = ''0.12''"
definition UTS_MACHINE :: string where "UTS_MACHINE = ''Intel i386 CPU''"

text \<open>\<^verbatim>\<open>strcpy\<close> of a literal to the field of \<^verbatim>\<open>thisname\<close> at byte \<open>off\<close>, of \<open>other\<close> when it is too long.\<close>

definition set_uts :: "nat \<Rightarrow> string \<Rightarrow> string \<Rightarrow> 'a sys_scheme \<Rightarrow> 'a sys_scheme" where
  "set_uts off name other s =
     (let b = bytes_of (if length name > 63 then other else name) @ [0]
      in s\<lparr>thisname := (\<lambda>i. if off \<le> i \<and> i < off + length b then b ! (i - off) else thisname s i)\<rparr>)"

definition system_info_init :: "'a sys_scheme \<Rightarrow> 'a sys_scheme" where
  "system_info_init s =
     (let s = s\<lparr>tz_minuteswest := push_bit 2 (360 - 120), tz_dsttime := 0\<rparr>;
          s = set_uts 0 UTS_SYSNAME ''Linux'' s; s = set_uts 64 UTS_NODENAME ''(none)'' s;
          s = set_uts 128 UTS_RELEASE ''0'' s; s = set_uts 192 UTS_VERSION ''0.12'' s
      in set_uts 256 UTS_MACHINE ''i386'' s)"

text \<open>The boot loader leaves the numbers of the devices at \<^verbatim>\<open>0x90000\<close> and \<^verbatim>\<open>0x90002\<close>.\<close>

definition kernel_init :: "'a tty_state_scheme world \<Rightarrow> entry_points \<Rightarrow> 'a tty_state_scheme \<Rightarrow> 'a tty_state_scheme option" where
  "kernel_init w e s = do {
     let s = s\<lparr>SWAP_DEV := ucast (rdw 0x90000 s), ROOT_DEV := ucast (rdw 0x90002 s)\<rparr>;
     let s = con_init w s;
     let s = mem_init 0xD00000 0x4000000 s;
     let s = trap_init w (trap_entry e) s;
     let s = blk_dev_init s;
     s \<leftarrow> tty_init w (rs1_entry e) (rs2_entry e) s;
     let s = chr_dev_init w (keyboard_entry e) s;
     s \<leftarrow> time_init w s;
     let s = sched_init w (timer_entry e) (system_call_entry e) s;
     s \<leftarrow> buffer_init 0xD00000 s;
     let s = hd_init w (hd_entry e) s;
     let s = inode_table_init s;
     let s = file_table_init s;
     let s = super_block_init s;
     let s = file_table_init s;
     Some (system_info_init s)
   }"

definition start_kernel ::
  "'a tty_state_scheme world \<Rightarrow> u32 \<Rightarrow> entry_points \<Rightarrow> 'a tty_state_scheme \<Rightarrow> 'a tty_state_scheme option" where
  "start_kernel w pb e s = do {
     s \<leftarrow> kernel_init w e s;
     s \<leftarrow> prints pb (tab @ ''welcome to Dumpling OS.'' @ nl) [] s;
     s \<leftarrow> prints pb (tab @ ''memory volume: %dM'' @ nl) [0x4000000 div 0x100000] s;
     Some (s\<lparr>sys_load_flags := 0\<rparr>)
   }"

section \<open>What an initialisation leaves alone\<close>

lemma read_clock_frame:
  assumes "read_clock w s = Some r"
  shows "\<exists>p n. snd r = s\<lparr>port_log := p, n_in := n\<rparr>"
  using assms
proof (induction rule: read_clock.raw_induct [rotated, consumes 1, case_names step])
  case (step loop w s r)
  define u where "u = snd (CMOS_READ w 0 (snd (CMOS_READ w 9 (snd (CMOS_READ w 8 (snd (CMOS_READ w 7
    (snd (CMOS_READ w 4 (snd (CMOS_READ w 2 (snd (CMOS_READ w 0 s)))))))))))))"
  obtain p n where u: "u = s\<lparr>port_log := p, n_in := n\<rparr>"
    by (simp add: u_def CMOS_READ_def inb_def outb_def)
  have "loop w u = Some r \<or> snd r = u"
    using step.hyps by (auto simp: u_def split: prod.splits if_splits)
  then show ?case
  proof
    assume "loop w u = Some r"
    then obtain p' n' where "snd r = u\<lparr>port_log := p', n_in := n'\<rparr>" using step.IH by blast
    then have "snd r = s\<lparr>port_log := p', n_in := n'\<rparr>" by (simp add: u)
    then show ?thesis by blast
  qed (use u in blast)
qed

lemma time_init_frame:
  assumes "time_init w s = Some s'"
  shows "\<exists>t p n. s' = s\<lparr>startup_time := t, port_log := p, n_in := n\<rparr>"
proof -
  obtain r t where r: "read_clock w s = Some r" and s': "s' = (snd r)\<lparr>startup_time := t\<rparr>"
    using assms by (auto simp: time_init_def bind_eq_Some_conv)
  obtain p n where "snd r = s\<lparr>port_log := p, n_in := n\<rparr>" using read_clock_frame [OF r] by blast
  then have "s' = s\<lparr>startup_time := t, port_log := p, n_in := n\<rparr>" by (simp add: s')
  then show ?thesis by blast
qed

lemma buffer_init_loop_frame:
  assumes "buffer_init_loop h b s = Some r"
  shows "\<exists>bs q n. snd r = s\<lparr>bufs := bs, wq := q, NR_BUFFERS := n\<rparr>"
  using assms
proof (induction rule: buffer_init_loop.raw_induct [rotated, consumes 1, case_names step])
  case (step loop h b s r)
  show ?case
  proof (cases "b - 1024 < start_buffer s + of_nat (h + 1) * BH_SIZE")
    case True
    then have "snd r = s\<lparr>bufs := bufs s, wq := wq s, NR_BUFFERS := NR_BUFFERS s\<rparr>"
      using step.hyps by (auto simp: Let_def)
    then show ?thesis by blast
  next
    case False
    then obtain u where "loop (h + 1) (b - 1024) u = Some r"
      and "u = s\<lparr>bufs := bufs u, wq := wq u, NR_BUFFERS := NR_BUFFERS u\<rparr>"
      using step.hyps by (simp add: Let_def mod_buf_def)
    then obtain bs q n where "loop (h + 1) (b - 1024) u = Some r"
      and u: "u = s\<lparr>bufs := bs, wq := q, NR_BUFFERS := n\<rparr>" by blast
    then obtain bs' q' n' where "snd r = u\<lparr>bufs := bs', wq := q', NR_BUFFERS := n'\<rparr>" using step.IH by blast
    then have "snd r = s\<lparr>bufs := bs', wq := q', NR_BUFFERS := n'\<rparr>" by (simp add: u)
    then show ?thesis by blast
  qed
qed

lemma buffer_init_frame:
  assumes "buffer_init e s = Some s'"
  shows "\<exists>bs q n st f h. s' = s\<lparr>start_buffer := st, wq := q, NR_BUFFERS := n, bufs := bs, free_list := f, hash_table := h\<rparr>"
proof -
  obtain r where r: "buffer_init_loop 0 e (s\<lparr>start_buffer := LOW_MEM, wq := (wq s)(Buffer_wait := 0), NR_BUFFERS := 0\<rparr>) = Some r"
    and s': "s' = (snd r)\<lparr>bufs := bufs s', free_list := free_list s', hash_table := hash_table s'\<rparr>"
    using assms by (auto simp: buffer_init_def mod_buf_def Let_def bind_eq_Some_conv split: if_splits)
  obtain bs q n where "snd r = s\<lparr>start_buffer := LOW_MEM, wq := (wq s)(Buffer_wait := 0), NR_BUFFERS := 0\<rparr>
      \<lparr>bufs := bs, wq := q, NR_BUFFERS := n\<rparr>"
    using buffer_init_loop_frame [OF r] by blast
  then have "s' = s\<lparr>start_buffer := LOW_MEM, wq := q, NR_BUFFERS := n, bufs := bufs s',
      free_list := free_list s', hash_table := hash_table s'\<rparr>"
    using s' by simp
  then show ?thesis by blast
qed

lemma fold_mod_tty: "\<exists>t. fold (\<lambda>i. mod_tty (g i) (f i)) xs s = s\<lparr>tty_table := t\<rparr>"
proof (induction xs arbitrary: s)
  case Nil
  have "s = s\<lparr>tty_table := tty_table s\<rparr>" by simp
  then show ?case unfolding fold_simps id_apply by blast
next
  case (Cons x xs)
  obtain t where "fold (\<lambda>i. mod_tty (g i) (f i)) xs (mod_tty (g x) (f x) s) = (mod_tty (g x) (f x) s)\<lparr>tty_table := t\<rparr>"
    using Cons by blast
  then have "fold (\<lambda>i. mod_tty (g i) (f i)) (x # xs) s = (mod_tty (g x) (f x) s)\<lparr>tty_table := t\<rparr>" by simp
  also have "\<dots> = s\<lparr>tty_table := t\<rparr>" by (simp add: mod_tty_def)
  finally show ?case by blast
qed

text \<open>The queues of \<^verbatim>\<open>tty_init\<close>.\<close>

definition fresh_queues :: "(nat \<Rightarrow> tty_queue) \<Rightarrow> nat \<Rightarrow> tty_queue" where
  "fresh_queues q i = (if i < QUEUES
     then \<lparr>q_data = (if i = 24 \<or> i = 25 then 0x3F8 else if i = 27 \<or> i = 28 then 0x2F8 else 0),
           q_head = 0, q_tail = 0, q_buf = (\<lambda>j. if j < 1024 then 0 else q_buf (q i) j)\<rparr>
     else q i)"

lemma tty_init_frame:
  "\<exists>c q t p n. tty_init w r1 r2 s = Some (s\<lparr>INIT_C_CC := c, tty_queues := fresh_queues (tty_queues s), wq := q,
     tty_table := t, idt := set_intr_gate 0x23 r2 (set_intr_gate 0x24 r1 (idt s)), n_in := n, port_log := p\<rparr>)"
proof -
  define s1 where "s1 = s\<lparr>INIT_C_CC := (\<lambda>i. if i < NCCS then ORIG_INIT_C_CC ! i else INIT_C_CC s i)\<rparr>"
  define s2 where "s2 = s1\<lparr>tty_queues := fresh_queues (tty_queues s1),
     wq := (\<lambda>q. case q of Tty_queue_wait i \<Rightarrow> if i < QUEUES then 0 else wq s1 q | _ \<Rightarrow> wq s1 q)\<rparr>"
  define s3 where "s3 = s2\<lparr>tty_table := (\<lambda>i. if i < 128 then blank_tty (INIT_C_CC s2) (tty_table s2 i) else tty_table s2 i)\<rparr>"
  obtain t where t: "fold (\<lambda>i. mod_tty i (con_tty i)) [0..<NR_CONSOLES s3] s3 = s3\<lparr>tty_table := t\<rparr>"
    using fold_mod_tty [of "\<lambda>i. i" con_tty] by blast
  define t' where "t' = tty_table (mod_tty 65 (rs_tty 1) (mod_tty 64 (rs_tty 0) (s3\<lparr>tty_table := t\<rparr>)))"
  have rs: "fold (\<lambda>i. mod_tty (64 + i) (rs_tty i)) [0..<NR_SERIALS] (s3\<lparr>tty_table := t\<rparr>) = s3\<lparr>tty_table := t'\<rparr>"
    by (simp add: upt_conv_Cons t'_def mod_tty_def)
  have q: "read_q (t' 64) = Some 24" "read_q (t' 65) = Some 27"
    by (simp_all add: t'_def mod_tty_def rs_tty_def)
  have "tty_init w r1 r2 s = rs_init w r1 r2
      (fold (\<lambda>i. mod_tty (64 + i) (rs_tty i)) [0..<NR_SERIALS] (fold (\<lambda>i. mod_tty i (con_tty i)) [0..<NR_CONSOLES s3] s3))"
    unfolding tty_init_def Let_def s3_def s2_def s1_def fresh_queues_def [abs_def] ..
  then have "tty_init w r1 r2 s = rs_init w r1 r2 (s3\<lparr>tty_table := t'\<rparr>)" by (simp only: t rs)
  moreover have "\<exists>p n. rs_init w r1 r2 (s3\<lparr>tty_table := t'\<rparr>)
      = Some (s3\<lparr>tty_table := t', idt := set_intr_gate 0x23 r2 (set_intr_gate 0x24 r1 (idt s3)), n_in := n, port_log := p\<rparr>)"
    using q by (auto simp: rs_init_def init_port_def inb_def outb_def Let_def)
  moreover have "s3 = s\<lparr>INIT_C_CC := INIT_C_CC s1, tty_queues := fresh_queues (tty_queues s), wq := wq s2, tty_table := tty_table s3\<rparr>"
    by (simp add: s1_def s2_def s3_def)
  ultimately obtain p n where "tty_init w r1 r2 s = Some (s\<lparr>INIT_C_CC := INIT_C_CC s1, tty_queues := fresh_queues (tty_queues s),
     wq := wq s2, tty_table := t', idt := set_intr_gate 0x23 r2 (set_intr_gate 0x24 r1 (idt s)), n_in := n, port_log := p\<rparr>)"
    by (auto simp: s1_def s2_def s3_def)
  then show ?thesis by blast
qed

section \<open>The state after the start\<close>

text \<open>The entry point the gate of a vector leads to.\<close>

definition boot_entry :: "entry_points \<Rightarrow> nat \<Rightarrow> u32" where
  "boot_entry e n =
     (if n = 0x20 then timer_entry e else if n = 0x21 then keyboard_entry e else if n = 0x23 then rs2_entry e
      else if n = 0x24 then rs1_entry e else if n = 0x2E then hd_entry e else trap_entry e (handler_of n))"

text \<open>The state behind \<^verbatim>\<open>blk_dev_init\<close>.\<close>

definition early_init :: "'a tty_state_scheme world \<Rightarrow> entry_points \<Rightarrow> 'a tty_state_scheme \<Rightarrow> 'a tty_state_scheme" where
  "early_init w e s = blk_dev_init (trap_init w (trap_entry e) (mem_init 0xD00000 0x4000000
     (con_init w (s\<lparr>SWAP_DEV := ucast (rdw 0x90000 s), ROOT_DEV := ucast (rdw 0x90002 s)\<rparr>))))"

lemma early_init_tables:
  "i < NR_BLK_DEV \<Longrightarrow> current_request (early_init w e s) i = None"
  "i < NR_REQUEST \<Longrightarrow> rq_dev (requests (early_init w e s) i) = - 1"
  "i < PAGING_PAGES \<Longrightarrow> mem_map (early_init w e s) i = (if i < 2560 then USED else 0)"
  "n < 48 \<Longrightarrow> gate_offset (idt (early_init w e s) n) = trap_entry e (handler_of n)"
proof -
  let ?s = "mem_init 0xD00000 0x4000000 (con_init w (s\<lparr>SWAP_DEV := ucast (rdw 0x90000 s), ROOT_DEV := ucast (rdw 0x90002 s)\<rparr>))"
  show "i < NR_BLK_DEV \<Longrightarrow> current_request (early_init w e s) i = None"
    "i < NR_REQUEST \<Longrightarrow> rq_dev (requests (early_init w e s) i) = - 1"
    by (simp_all add: early_init_def blk_dev_init_def)
  have "drop_bit 12 (0x3300000 :: u32) = 13056" "drop_bit 12 (0xA00000 :: u32) = 2560" by code_simp+
  then have "i < PAGING_PAGES \<Longrightarrow> mem_map ?s i = (if i < 2560 then USED else 0)"
    by (simp add: mem_init_def MAP_NR_def)
  moreover have "mem_map (early_init w e s) = mem_map ?s"
    by (simp add: early_init_def blk_dev_init_def trap_init_def inb_def outb_def Let_def)
  ultimately show "i < PAGING_PAGES \<Longrightarrow> mem_map (early_init w e s) i = (if i < 2560 then USED else 0)"
    by simp
  assume "n < 48"
  then obtain t' where "idt (trap_init w (trap_entry e) ?s) n
      = set_gate (trap_entry e) (n, n = 3 \<or> n = 4 \<or> n = 5, handler_of n) t' n"
    using trap_gates_apply by blast
  then show "gate_offset (idt (early_init w e s) n) = trap_entry e (handler_of n)"
    by (simp add: early_init_def blk_dev_init_def set_gate_def set_trap_gate_def set_system_gate_def gate_fields
        bit_iff_odd_drop_bit)
qed

lemma set_gate_other [simp]:
  "m \<noteq> n \<Longrightarrow> set_intr_gate n a t m = t m" "m \<noteq> n \<Longrightarrow> set_trap_gate n a t m = t m"
  "m \<noteq> n \<Longrightarrow> set_system_gate n a t m = t m"
  "gate_offset (set_intr_gate n a t n) = a" "gate_offset (set_trap_gate n a t n) = a"
  "gate_offset (set_system_gate n a t n) = a"
  by (simp_all add: set_intr_gate_def set_trap_gate_def set_system_gate_def gate_fields)

text \<open>The rest of the initialisation in terms of the early state.\<close>

text \<open>A task without relatives and open files, and the tables when it is the only one.\<close>

definition lone_task :: "task_struct \<Rightarrow> bool" where
  "lone_task t \<longleftrightarrow> p_pptr t = 0 \<and> p_cptr t = 0 \<and> p_ysptr t = 0 \<and> p_osptr t = 0 \<and> (\<forall>fd<NR_OPEN. t_filp t fd = None)"

lemma only_task_ok:
  assumes "task s 0 = p" "p \<noteq> 0" "\<forall>i\<in>{1..<NR_TASKS}. task s i = 0" "lone_task (tstruct s p)"
  shows "ptree_ok s"
    and "current s = p \<Longrightarrow> \<forall>f<NR_FILE. f_count (file_table s f) = 0 \<Longrightarrow> files_ok s"
proof -
  have slot: "i < NR_TASKS \<Longrightarrow> task s i = (if i = 0 then p else 0)" for i using assms(1,3) by auto
  have "audit_ptree s" using assms(3) by (simp add: audit_ptree_def list_all_iff)
  then show "ptree_ok s"
    using assms slot by (simp add: ptree_ok_def child_link_def root_alone_def older_siblings_def lone_task_def)
  assume c: "current s = p" "\<forall>f<NR_FILE. f_count (file_table s f) = 0"
  have "descriptors_of NR_OPEN (t_filp (tstruct s p)) f = 0" for f
    using assms(4) by (simp add: descriptors_of_def lone_task_def filter_empty_conv)
  then have "open_refs s f = 0" for f by (simp add: open_refs_def slot)
  then show "files_ok s"
    using c assms(2,4) slot unfolding files_ok_def by (auto simp: lone_task_def intro!: exI [of _ 0])
qed

lemma kernel_init_runs:
  assumes "\<forall>s. time_init w s \<noteq> None"
  obtains s1 s2 where
    "mem_map s1 = mem_map (early_init w e s)" "requests s1 = requests (early_init w e s)"
    "current_request s1 = current_request (early_init w e s)"
    "tty_queues s1 = fresh_queues (tty_queues (early_init w e s))"
    "idt s1 = set_system_gate 0x80 (system_call_entry e) (set_intr_gate 0x20 (timer_entry e)
       (set_trap_gate 0x21 (keyboard_entry e) (set_intr_gate 0x23 (rs2_entry e) (set_intr_gate 0x24 (rs1_entry e)
         (idt (early_init w e s))))))"
    "startup_time s1 = 0" "current s1 = 0x12000" "task s1 0 = 0x12000" "\<forall>i\<in>{1..<NR_TASKS}. task s1 i = 0"
    "t_state (tstruct s1 0x12000) = TASK_RUNNING \<and> t_pid (tstruct s1 0x12000) = 0" "lone_task (tstruct s1 0x12000)"
    "buffer_init 0xD00000 s1 = Some s2"
    "kernel_init w e s = Some (system_info_init (file_table_init (super_block_init (file_table_init
       (inode_table_init (hd_init w (hd_entry e) s2))))))"
proof -
  let ?s = "early_init w e s"
  obtain c q t p n where s5: "tty_init w (rs1_entry e) (rs2_entry e) ?s = Some (?s\<lparr>INIT_C_CC := c,
     tty_queues := fresh_queues (tty_queues ?s), wq := q, tty_table := t,
     idt := set_intr_gate 0x23 (rs2_entry e) (set_intr_gate 0x24 (rs1_entry e) (idt ?s)), n_in := n, port_log := p\<rparr>)"
    (is "_ = Some ?s5") using tty_init_frame by blast
  obtain s7 where s7: "time_init w (chr_dev_init w (keyboard_entry e) ?s5) = Some s7" using assms by blast
  obtain x p' n' where s7': "s7 = (chr_dev_init w (keyboard_entry e) ?s5)\<lparr>startup_time := x, port_log := p', n_in := n'\<rparr>"
    using time_init_frame [OF s7] by blast
  define s1 where "s1 = sched_init w (timer_entry e) (system_call_entry e) s7"
  have "(0x300000 :: nat) + 2 * (1024 + 36) \<le> unat (0xD00000 :: u32)" by simp
  then obtain s2 where s2: "buffer_init 0xD00000 s1 = Some s2" using buffer_init_cache by blast
  have "kernel_init w e s = Some (system_info_init (file_table_init (super_block_init (file_table_init
       (inode_table_init (hd_init w (hd_entry e) s2))))))"
    using s5 s7 s2 by (simp add: kernel_init_def early_init_def Let_def s1_def)
  moreover have "mem_map s1 = mem_map ?s" "requests s1 = requests ?s" "current_request s1 = current_request ?s"
    "tty_queues s1 = fresh_queues (tty_queues ?s)"
    "idt s1 = set_system_gate 0x80 (system_call_entry e) (set_intr_gate 0x20 (timer_entry e)
       (set_trap_gate 0x21 (keyboard_entry e) (set_intr_gate 0x23 (rs2_entry e) (set_intr_gate 0x24 (rs1_entry e) (idt ?s)))))"
    "startup_time s1 = 0" "current s1 = 0x12000" "task s1 0 = 0x12000" "\<forall>i\<in>{1..<NR_TASKS}. task s1 i = 0"
    "t_state (tstruct s1 0x12000) = TASK_RUNNING \<and> t_pid (tstruct s1 0x12000) = 0" "lone_task (tstruct s1 0x12000)"
    by (simp_all add: lone_task_def s1_def s7' sched_init_def chr_dev_init_def inb_def outb_def Let_def init_task_def mod_task_def)
  ultimately show ?thesis using that s2 by blast
qed

lemma below_pages:
  fixes d b i n :: nat
  assumes d: "d = 0xD00000 - 1024 * (b + 1) \<and> 0x300000 + 36 * n \<le> d" and "2560 \<le> i"
  shows "d + 1024 \<le> 0x300000 + 4096 * i"
proof -
  define x where "x = 1024 * (b + 1)"
  have "d = 0xD00000 - x" using d unfolding x_def by blast
  moreover have "0 < d" using d by linarith
  moreover have "1024 \<le> x" by (simp add: x_def)
  ultimately have "d + x = 0xD00000" by simp
  with \<open>1024 \<le> x\<close> assms(2) show ?thesis by linarith
qed

text \<open>
  C6. The kernel starts, whatever is in memory, when the clock can be read: afterwards only task 0 exists and runs;
  the buffer cache is well-formed and lies below the pages that \<^verbatim>\<open>get_free_page\<close> gives out, which are
  all free; no block is requested, no inode is in use, the file table and the process tree are
  well-formed, the queues of the terminals are
  empty, and each interrupt, exception and system call enters the routine meant for it.
\<close>

theorem kernel_init_ok:
  assumes "\<forall>s. time_init w s \<noteq> None"
  shows "\<exists>s'. kernel_init w e s = Some s'
    \<and> current s' = 0x12000 \<and> task s' 0 = 0x12000 \<and> (\<forall>i\<in>{1..<NR_TASKS}. task s' i = 0)
    \<and> t_state (cur s') = TASK_RUNNING \<and> t_pid (cur s') = 0
    \<and> cache_ok s' \<and> (\<forall>b<NR_BUFFERS s'. b_count (bufs s' b) = 0 \<and> b_dirt (bufs s' b) = 0)
    \<and> (\<forall>b<NR_BUFFERS s'. \<forall>i<PAGING_PAGES. mem_map s' i = 0 \<longrightarrow> unat (b_data (bufs s' b)) + 1024 \<le> unat (page_addr i))
    \<and> (\<forall>i<PAGING_PAGES. mem_map s' i = 0 \<longleftrightarrow> 2560 \<le> i)
    \<and> (\<forall>d<NR_BLK_DEV. current_request s' d = None) \<and> (\<forall>i<NR_REQUEST. rq_dev (requests s' i) = - 1)
    \<and> (\<forall>i<NR_INODE. i_count (inode_table s' i) = 0) \<and> files_ok s' \<and> ptree_ok s'
    \<and> (\<forall>q<QUEUES. q_EMPTY (tty_queues s' q))
    \<and> (\<forall>n<48. gate_offset (idt s' n) = boot_entry e n) \<and> gate_offset (idt s' 0x80) = system_call_entry e
    \<and> startup_time s' = 0"
proof -
  obtain s1 s2 where s1: "mem_map s1 = mem_map (early_init w e s)" "requests s1 = requests (early_init w e s)"
    "current_request s1 = current_request (early_init w e s)"
    "tty_queues s1 = fresh_queues (tty_queues (early_init w e s))"
    "idt s1 = set_system_gate 0x80 (system_call_entry e) (set_intr_gate 0x20 (timer_entry e)
       (set_trap_gate 0x21 (keyboard_entry e) (set_intr_gate 0x23 (rs2_entry e) (set_intr_gate 0x24 (rs1_entry e)
         (idt (early_init w e s))))))"
    "startup_time s1 = 0" "current s1 = 0x12000" "task s1 0 = 0x12000" "\<forall>i\<in>{1..<NR_TASKS}. task s1 i = 0"
    "t_state (tstruct s1 0x12000) = TASK_RUNNING \<and> t_pid (tstruct s1 0x12000) = 0" "lone_task (tstruct s1 0x12000)"
    and s2: "buffer_init 0xD00000 s1 = Some s2"
    and run: "kernel_init w e s = Some (system_info_init (file_table_init (super_block_init (file_table_init
       (inode_table_init (hd_init w (hd_entry e) s2))))))" (is "_ = Some ?s'")
    using kernel_init_runs [OF assms] by metis
  obtain bs q n st f h where fr: "s2 = s1\<lparr>start_buffer := st, wq := q, NR_BUFFERS := n, bufs := bs, free_list := f, hash_table := h\<rparr>"
    using buffer_init_frame [OF s2] by blast
  note inits = system_info_init_def set_uts_def file_table_init_def super_block_init_def inode_table_init_def
    hd_init_def inb_def outb_def Let_def
  have cache: "cache_ok s2" "\<forall>i<NR_BUFFERS s2. unat (b_data (bufs s2 i)) = 0xD00000 - 1024 * (i + 1)
       \<and> 0x300000 + 36 * NR_BUFFERS s2 \<le> unat (b_data (bufs s2 i))
       \<and> b_count (bufs s2 i) = 0 \<and> b_lock (bufs s2 i) = 0 \<and> b_dirt (bufs s2 i) = 0 \<and> b_dev (bufs s2 i) = 0"
    using buffer_init_cache [of "0xD00000" s1] s2 by (auto simp: Let_def)
  have same: "bufs ?s' = bufs s2" "NR_BUFFERS ?s' = NR_BUFFERS s2" "hash_table ?s' = hash_table s2"
    "free_list ?s' = free_list s2" "mem_map ?s' = mem_map s1" "requests ?s' = requests s1"
    "current_request ?s' = current_request s1" "tty_queues ?s' = tty_queues s1"
    "idt ?s' = set_intr_gate 0x2E (hd_entry e) (idt s1)" "task ?s' = task s1" "current ?s' = current s1"
    "startup_time ?s' = startup_time s1" "tstruct ?s' = tstruct s1"
    by (simp_all add: inits fr)
  have "cache_ok ?s'" using cache(1) same_links_cache_ok [of s2 ?s'] by (simp add: same_links_def same)
  moreover have "unat (b_data (bufs ?s' b)) + 1024 \<le> unat (page_addr i)"
    if "b < NR_BUFFERS ?s'" "i < PAGING_PAGES" "mem_map ?s' i = 0" for b i
  proof -
    have i: "2560 \<le> i" using early_init_tables(3) [OF that(2), of w e s] that(3) by (simp add: same s1 split: if_splits)
    have "unat (b_data (bufs s2 b)) = 0xD00000 - 1024 * (b + 1) \<and> 0x300000 + 36 * NR_BUFFERS s2 \<le> unat (b_data (bufs s2 b))"
      using cache(2) that(1) unfolding same by blast
    then show ?thesis
      unfolding same unat_page_addr [OF that(2)] using below_pages i by blast
  qed
  moreover have "\<forall>i<PAGING_PAGES. mem_map ?s' i = 0 \<longleftrightarrow> 2560 \<le> i"
    using early_init_tables(3) [of _ w e s] by (auto simp: same s1)
  moreover have "\<forall>n<48. gate_offset (idt ?s' n) = boot_entry e n"
    using early_init_tables(4) [of _ w e s] by (auto simp: same s1 boot_entry_def)
  moreover have "\<forall>i<NR_INODE. i_count (inode_table ?s' i) = 0" by (simp add: inits)
  moreover have "\<forall>q<QUEUES. q_EMPTY (tty_queues ?s' q)" by (simp add: same s1 fresh_queues_def q_EMPTY_def)
  moreover have "(\<forall>d<NR_BLK_DEV. current_request ?s' d = None) \<and> (\<forall>i<NR_REQUEST. rq_dev (requests ?s' i) = - 1)"
    by (simp add: same s1 early_init_tables(1,2))
  moreover have "gate_offset (idt ?s' 0x80) = system_call_entry e" by (simp add: same s1)
  moreover have "\<forall>b<NR_BUFFERS ?s'. b_count (bufs ?s' b) = 0 \<and> b_dirt (bufs ?s' b) = 0"
    using cache(2) by (simp add: same)
  moreover have "ptree_ok ?s'" "files_ok ?s'"
  proof -
    have lone: "task ?s' 0 = 0x12000" "(0x12000 :: u32) \<noteq> 0" "\<forall>i\<in>{1..<NR_TASKS}. task ?s' i = 0" "lone_task (tstruct ?s' 0x12000)"
      using s1(8,9,11) by (simp_all add: same)
    have "\<forall>f<NR_FILE. f_count (file_table ?s' f) = 0" by (simp add: inits)
    then show "ptree_ok ?s'" "files_ok ?s'" using only_task_ok [OF lone] s1(7) by (simp_all add: same)
  qed
  ultimately show ?thesis using run s1(6-10) by (simp add: same)
qed

definition boot_points :: entry_points where
  "boot_points = \<lparr>trap_entry = (\<lambda>_. 1), timer_entry = 2, system_call_entry = 3, keyboard_entry = 4,
     rs1_entry = 5, rs2_entry = 6, hd_entry = 7\<rparr>"

theorem kernel_init_ok_witness:
  "\<exists>s'. kernel_init (quiet\<lparr>w_in := \<lambda>_ _. 1\<rparr>) boot_points (typed_tty []) = Some s' \<and> cache_ok s'
     \<and> gate_offset (idt s' 0x2E) = 7 \<and> (\<forall>q<30. q_EMPTY (tty_queues s' q))"
proof -
  have "time_init (quiet\<lparr>w_in := \<lambda>_ _. 1\<rparr>) s \<noteq> None" for s :: tty_state
  proof -
    have "kernel_mktime \<lparr>tm_sec = BCD_TO_BIN 1, tm_min = BCD_TO_BIN 1, tm_hour = BCD_TO_BIN 1, tm_mday = BCD_TO_BIN 1,
       tm_mon = BCD_TO_BIN 1 - 1, tm_year = BCD_TO_BIN 1\<rparr> \<noteq> None"
      by (simp add: kernel_mktime_def BCD_TO_BIN_def Let_def)
    then show ?thesis
      by (subst time_init_def, subst read_clock.simps) (auto simp: CMOS_READ_def inb_def Let_def)
  qed
  then show ?thesis
    using kernel_init_ok [where w = "quiet\<lparr>w_in := \<lambda>_ _. 1\<rparr>" and s = "typed_tty []" and e = boot_points]
    by (auto simp: boot_points_def boot_entry_def)
qed

end
