(* ===== verification/Allocator.thy ===== *)
theory Allocator
  imports Memory
begin

text \<open>
  What the kernel hands out: physical pages (\<^verbatim>\<open>get_free_page\<close>, \<^verbatim>\<open>free_page\<close>) and pages of the swap device
  (\<^verbatim>\<open>get_swap_page\<close>, \<^verbatim>\<open>swap_free\<close>). Both keep one contract, the locale \<open>allocator\<close>, from which the behaviour
  of any sequence of calls follows.
\<close>

section \<open>The contract\<close>

text \<open>\<open>free s x\<close>: \<open>x\<close> may be handed out; \<open>held s x\<close>: \<open>x\<close> has one owner, who may give it back.\<close>

locale allocator =
  fixes good :: "'s \<Rightarrow> bool"
    and free :: "'s \<Rightarrow> 'a \<Rightarrow> bool"
    and held :: "'s \<Rightarrow> 'a \<Rightarrow> bool"
    and get :: "'s \<Rightarrow> ('a \<times> 's) option"
    and put :: "'a \<Rightarrow> 's \<Rightarrow> 's option"
  assumes get_law: "good s \<Longrightarrow> free s x \<Longrightarrow> \<exists>y s'. get s = Some (y, s') \<and> good s' \<and> free s y \<and> held s' y
      \<and> (\<forall>z. free s' z = (free s z \<and> z \<noteq> y)) \<and> (\<forall>z. z \<noteq> y \<longrightarrow> held s' z = held s z)"
    and put_law: "good s \<Longrightarrow> held s y \<Longrightarrow> \<exists>s'. put y s = Some s' \<and> good s'
      \<and> (\<forall>z. free s' z = (free s z \<or> z = y)) \<and> (\<forall>z. z \<noteq> y \<longrightarrow> held s' z = held s z)"

text \<open>\<open>n\<close> calls in a row, and giving back a list.\<close>

fun gets :: "('s \<Rightarrow> ('a \<times> 's) option) \<Rightarrow> nat \<Rightarrow> 's \<Rightarrow> ('a list \<times> 's) option" where
  "gets get 0 s = Some ([], s)"
| "gets get (Suc n) s = do { (y, s) \<leftarrow> get s; (ys, s) \<leftarrow> gets get n s; Some (y # ys, s) }"

fun puts :: "('a \<Rightarrow> 's \<Rightarrow> 's option) \<Rightarrow> 'a list \<Rightarrow> 's \<Rightarrow> 's option" where
  "puts put [] s = Some s"
| "puts put (y # ys) s = do { s \<leftarrow> put y s; puts put ys s }"

context allocator
begin

lemma gets_distinct:
  assumes "good s" "finite {x. free s x}" "n \<le> card {x. free s x}"
  shows "\<exists>ys s'. gets get n s = Some (ys, s') \<and> good s' \<and> distinct ys \<and> length ys = n
    \<and> (\<forall>y\<in>set ys. free s y \<and> held s' y) \<and> (\<forall>z. free s' z = (free s z \<and> z \<notin> set ys))
    \<and> (\<forall>z. z \<notin> set ys \<longrightarrow> held s' z = held s z)"
  using assms
proof (induction n arbitrary: s)
  case (Suc n)
  then have "{x. free s x} \<noteq> {}" by (metis card.empty not_less_eq_eq zero_le)
  then obtain x where "free s x" by blast
  then obtain y s1 where y: "get s = Some (y, s1)" "good s1" "free s y" "held s1 y"
    "\<And>z. free s1 z = (free s z \<and> z \<noteq> y)" "\<And>z. z \<noteq> y \<Longrightarrow> held s1 z = held s z"
    using get_law [OF Suc.prems(1)] by blast
  have less: "{x. free s1 x} = {x. free s x} - {y}" using y(5) by auto
  then have "finite {x. free s1 x}" "n \<le> card {x. free s1 x}" using Suc.prems(2,3) y(3) by simp_all
  then obtain ys s' where ys: "gets get n s1 = Some (ys, s')" "good s'" "distinct ys" "length ys = n"
    "\<And>z. z \<in> set ys \<Longrightarrow> free s1 z \<and> held s' z" "\<And>z. free s' z = (free s1 z \<and> z \<notin> set ys)"
    "\<And>z. z \<notin> set ys \<Longrightarrow> held s' z = held s1 z"
    using Suc.IH [OF y(2)] by blast
  have "y \<notin> set ys" using ys(5) y(5) by blast
  then show ?case using y ys by (intro exI [of _ "y # ys"] exI [of _ s']) auto
qed simp

lemma puts_free:
  assumes "good s" "distinct ys" "\<forall>y\<in>set ys. held s y"
  shows "\<exists>s'. puts put ys s = Some s' \<and> good s' \<and> (\<forall>z. free s' z = (free s z \<or> z \<in> set ys))"
  using assms
proof (induction ys arbitrary: s)
  case (Cons y ys)
  then obtain s1 where s1: "put y s = Some s1" "good s1" "\<And>z. free s1 z = (free s z \<or> z = y)"
    "\<And>z. z \<noteq> y \<Longrightarrow> held s1 z = held s z"
    using put_law [of s y] by auto
  then have "\<forall>z\<in>set ys. held s1 z" using Cons.prems(2,3) by (metis distinct.simps(2) list.set_intros(2))
  then obtain s' where "puts put ys s1 = Some s'" "good s'" "\<And>z. free s' z = (free s1 z \<or> z \<in> set ys)"
    using Cons.IH [OF s1(2)] Cons.prems(2) by auto
  then show ?case using s1 by auto
qed simp

text \<open>All that is handed out may be given back in any order.\<close>

lemma gets_then_puts:
  assumes "good s" "finite {x. free s x}" "n \<le> card {x. free s x}"
  shows "\<exists>ys s'. gets get n s = Some (ys, s') \<and> distinct ys \<and> length ys = n \<and> (\<forall>y\<in>set ys. free s y \<and> \<not> free s' y)
    \<and> (\<forall>qs. distinct qs \<and> set qs = set ys \<longrightarrow>
        (\<exists>s''. puts put qs s' = Some s'' \<and> (\<forall>z. free s'' z = free s z)))"
proof -
  obtain ys s' where ys: "gets get n s = Some (ys, s')" "good s'" "distinct ys" "length ys = n"
    "\<forall>y\<in>set ys. free s y \<and> held s' y" "\<forall>z. free s' z = (free s z \<and> z \<notin> set ys)"
    using gets_distinct [OF assms] by blast
  have "\<exists>s''. puts put qs s' = Some s'' \<and> (\<forall>z. free s'' z = free s z)" if "distinct qs" "set qs = set ys" for qs
    using puts_free [OF ys(2) that(1)] that(2) ys(5,6) by auto
  then show ?thesis using ys by (intro exI [of _ ys] exI [of _ s']) auto
qed

end

section \<open>Physical pages\<close>

definition page_free :: "'a mm_scheme \<Rightarrow> u32 \<Rightarrow> bool" where
  "page_free s p \<longleftrightarrow> (\<exists>i<PAGING_PAGES. p = page_addr i \<and> mem_map s i = 0)"

definition page_held :: "'a mm_scheme \<Rightarrow> u32 \<Rightarrow> bool" where
  "page_held s p \<longleftrightarrow> (\<exists>i<PAGING_PAGES. p = page_addr i \<and> mem_map s i = 1)"

text \<open>All pages are below the end of the memory, as \<^verbatim>\<open>mem_init\<close> leaves it.\<close>

definition all_memory :: "'a mm_scheme \<Rightarrow> bool" where
  "all_memory s \<longleftrightarrow> HIGH_MEMORY s = 0x4000000"

lemma page_addr_high: "i < PAGING_PAGES \<Longrightarrow> page_addr i < 0x4000000"
  by (simp add: word_less_nat_alt unat_page_addr)

lemma page_addr_inj: "i < PAGING_PAGES \<Longrightarrow> j < PAGING_PAGES \<Longrightarrow> page_addr i = page_addr j \<longleftrightarrow> i = j"
  using MAP_NR_page_addr by metis

lemma last_free_exists:
  assumes "i < PAGING_PAGES" "mem_map s i = 0"
  shows "\<exists>j. last_free s = Some j"
  using assms by (cases "last_free s") (auto simp: last_free_def find_None_iff)

lemma page_get_law:
  assumes "all_memory s" "page_free s p"
  shows "\<exists>q s'. get_free_page w s = Some (q, s') \<and> all_memory s' \<and> page_free s q \<and> page_held s' q
    \<and> (\<forall>z. page_free s' z = (page_free s z \<and> z \<noteq> q)) \<and> (\<forall>z. z \<noteq> q \<longrightarrow> page_held s' z = page_held s z)"
proof -
  obtain i where i: "last_free s = Some i" using assms(2) last_free_exists by (auto simp: page_free_def)
  note d = last_freeD(1,2) [OF i]
  have run: "get_free_page w s = Some (page_addr i, (set_map i 1 s)\<lparr>kmem := fill_bytes 4096 0 (page_addr i) (kmem s)\<rparr>)"
    using get_free_page_takes [OF i] page_addr_high [OF d(1)] assms(1) by (simp add: all_memory_def)
  show ?thesis
    unfolding run page_free_def page_held_def all_memory_def
    using d page_addr_inj assms(1) by (auto simp: set_map_def all_memory_def)
qed

lemma page_put_law:
  assumes "all_memory s" "page_held s p"
  shows "\<exists>s'. free_page p s = Some s' \<and> all_memory s'
    \<and> (\<forall>z. page_free s' z = (page_free s z \<or> z = p)) \<and> (\<forall>z. z \<noteq> p \<longrightarrow> page_held s' z = page_held s z)"
proof -
  obtain i where i: "i < PAGING_PAGES" "p = page_addr i" "mem_map s i = 1" using assms(2) by (auto simp: page_held_def)
  have run: "free_page (page_addr i) s = Some (set_map i 0 s)"
    using page_addr_high [OF i(1)] page_addr_low [OF i(1)] i assms(1)
    by (simp add: free_page_def all_memory_def not_le not_less Let_def)
  show ?thesis
    unfolding i(2) run page_free_def page_held_def all_memory_def
    using i(1) page_addr_inj assms(1) by (auto simp: set_map_def all_memory_def)
qed

interpretation pages: allocator all_memory page_free page_held "get_free_page w" free_page for w
  by unfold_locales (rule page_get_law, assumption+, rule page_put_law)

lemma free_pages_card: "card {p. page_free s p} = card {i. i < PAGING_PAGES \<and> mem_map s i = 0}"
proof -
  have "{p. page_free s p} = page_addr ` {i. i < PAGING_PAGES \<and> mem_map s i = 0}" by (auto simp: page_free_def)
  moreover have "inj_on page_addr {i. i < PAGING_PAGES \<and> mem_map s i = 0}"
    using page_addr_inj by (auto simp: inj_on_def)
  ultimately show ?thesis by (simp add: card_image)
qed


section \<open>Pages of the swap device\<close>

definition slot_free :: "'a mm_scheme \<Rightarrow> nat \<Rightarrow> bool" where
  "slot_free s n \<longleftrightarrow> 0 < n \<and> n < SWAP_BITS \<and> bitmap_bit (swap_bitmap s) n s"

definition slot_held :: "'a mm_scheme \<Rightarrow> nat \<Rightarrow> bool" where
  "slot_held s n \<longleftrightarrow> 0 < n \<and> n < SWAP_BITS"

definition swapping :: "'a mm_scheme \<Rightarrow> bool" where
  "swapping s \<longleftrightarrow> swap_bitmap s \<noteq> 0"

lemma swap_scan_finds:
  assumes "\<exists>n\<in>set nrs. bitmap_bit addr n s" "\<forall>n\<in>set nrs. n \<noteq> 0 \<and> n < 2 ^ 32"
  shows "fst (swap_scan_bits addr nrs s) \<noteq> 0"
  using assms
proof (induction nrs arbitrary: s)
  case (Cons n nrs)
  show ?case
  proof (cases "bitmap_bit addr n s")
    case True
    then show ?thesis using Cons.prems(2) by (simp add: clrbit_def Let_def)
  next
    case False
    then have "\<exists>m\<in>set nrs. bitmap_bit addr m (snd (clrbit addr n s))"
      using Cons.prems bitmap_bit_clrbit [of n _ addr s] by fastforce
    then have "fst (swap_scan_bits addr nrs (snd (clrbit addr n s))) \<noteq> 0" using Cons by simp
    then show ?thesis using False by (simp add: clrbit_def Let_def)
  qed
qed simp

lemma slot_get_law:
  assumes "swapping s" "slot_free s x"
  shows "\<exists>n s'. Some (get_swap_page s) = Some (n, s') \<and> swapping s' \<and> slot_free s n \<and> slot_held s' n
    \<and> (\<forall>z. slot_free s' z = (slot_free s z \<and> z \<noteq> n)) \<and> (\<forall>z. z \<noteq> n \<longrightarrow> slot_held s' z = slot_held s z)"
proof -
  obtain n s' where r: "swap_scan_bits (swap_bitmap s) [1..<32768] s = (n, s')" by fastforce
  have "\<forall>n\<in>set [1..<32768]. n \<noteq> 0 \<and> n < (2 ^ 32 :: nat)" by auto
  note facts = swap_scan_bits_spec [OF r this] swap_scan_finds [OF _ this, of "swap_bitmap s" s]
  have "x \<in> set [1..<32768]" "bitmap_bit (swap_bitmap s) x s" using assms(2) by (simp_all add: slot_free_def)
  then have "n \<noteq> 0" using facts(2) r by (metis fst_conv)
  then have n: "0 < n" "n < 32768" "bitmap_bit (swap_bitmap s) n s"
    "\<And>k. k < 2 ^ 32 \<Longrightarrow> bitmap_bit (swap_bitmap s) k s' = (bitmap_bit (swap_bitmap s) k s \<and> k \<noteq> n)"
    using facts(1) by auto
  have same: "swap_bitmap s' = swap_bitmap s" using r swap_scan_bits_bitmap by metis
  have "get_swap_page s = (n, s')" using assms(1) r by (simp add: get_swap_page_def swapping_def)
  moreover have "slot_free s' z = (slot_free s z \<and> z \<noteq> n)" for z
    using n(4) [of z] by (auto simp: slot_free_def same)
  ultimately show ?thesis
    using n assms(1) by (auto simp: slot_free_def slot_held_def swapping_def same)
qed

lemma slot_put_law:
  assumes "swapping s" "slot_held s n"
  shows "\<exists>s'. Some (swap_free n s) = Some s' \<and> swapping s' \<and> (\<forall>z. slot_free s' z = (slot_free s z \<or> z = n))
    \<and> (\<forall>z. z \<noteq> n \<longrightarrow> slot_held s' z = slot_held s z)"
proof -
  have run: "swap_free n s = snd (setbit (swap_bitmap s) n s)"
    using assms by (simp add: swap_free_def swapping_def slot_held_def)
  have same: "swap_bitmap (snd (setbit (swap_bitmap s) n s)) = swap_bitmap s" by (simp add: setbit_def Let_def)
  have "slot_free (swap_free n s) z = (slot_free s z \<or> z = n)" for z
    using bitmap_bit_setbit [of n z "swap_bitmap s" s] assms(2)
    by (cases "z < 2 ^ 32") (auto simp: slot_free_def slot_held_def run same)
  then show ?thesis using assms(1) by (simp add: slot_held_def swapping_def run same)
qed

interpretation slots: allocator swapping slot_free slot_held "\<lambda>s. Some (get_swap_page s)" "\<lambda>n s. Some (swap_free n s)"
  by unfold_locales (rule slot_get_law, assumption+, rule slot_put_law)

section \<open>Sequences of calls\<close>

text \<open>
  C24. While pages are free, any number of calls of \<^verbatim>\<open>get_free_page\<close> returns that many different pages, each of
  which was free and now has one owner; given back in any order, they leave exactly the pages free that were.
\<close>

theorem pages_given_out_once:
  assumes "HIGH_MEMORY s = 0x4000000" "n \<le> card {i. i < PAGING_PAGES \<and> mem_map s i = 0}"
  shows "\<exists>ps s'. gets (get_free_page w) n s = Some (ps, s') \<and> distinct ps \<and> length ps = n
    \<and> (\<forall>p\<in>set ps. \<exists>i<PAGING_PAGES. p = page_addr i \<and> mem_map s i = 0 \<and> mem_map s' i = 1)
    \<and> (\<forall>qs. distinct qs \<and> set qs = set ps \<longrightarrow>
        (\<exists>s''. puts free_page qs s' = Some s'' \<and> (\<forall>i<PAGING_PAGES. mem_map s'' i = 0 \<longleftrightarrow> mem_map s i = 0)))"
proof -
  have good: "all_memory s" using assms(1) by (simp add: all_memory_def)
  have card: "n \<le> card {p. page_free s p}" unfolding free_pages_card by (rule assms(2))
  have free: "page_free t (page_addr i) \<longleftrightarrow> mem_map t i = 0" if "i < PAGING_PAGES" for t :: "'a mm_scheme" and i
    using that page_addr_inj by (auto simp: page_free_def)
  obtain ps s' where ps: "gets (get_free_page w) n s = Some (ps, s')" "distinct ps" "length ps = n"
    "\<forall>p\<in>set ps. page_free s p \<and> page_held s' p"
    using pages.gets_distinct [OF good _ card, of w] by auto
  have returned: "\<exists>s''. puts free_page qs s' = Some s'' \<and> (\<forall>i<PAGING_PAGES. mem_map s'' i = 0 \<longleftrightarrow> mem_map s i = 0)"
    if qs: "distinct qs" "set qs = set ps" for qs
  proof -
    obtain s'' where "puts free_page qs s' = Some s''" "\<And>z. page_free s'' z = page_free s z"
      using pages.gets_then_puts [OF good _ card, of w] ps(1) qs by auto
    moreover from this have "mem_map s'' i = 0 \<longleftrightarrow> mem_map s i = 0" if "i < PAGING_PAGES" for i
      using free [OF that, of s''] free [OF that, of s] by simp
    ultimately show ?thesis by blast
  qed
  have owned: "\<exists>i<PAGING_PAGES. p = page_addr i \<and> mem_map s i = 0 \<and> mem_map s' i = 1" if "p \<in> set ps" for p
    using ps(4) that page_addr_inj by (fastforce simp: page_free_def page_held_def)
  show ?thesis
    by (rule exI [of _ ps], rule exI [of _ s']) (use ps(1-3) owned returned in blast)
qed

text \<open>
  C25. The pages of the swap device that are given out are different, were free and are not in the bitmap any
  more; given back in any order, they restore it.
\<close>

theorem swap_slots_given_out_once:
  assumes "swap_bitmap s \<noteq> 0" "n \<le> card {k. slot_free s k}"
  shows "\<exists>ns s'. gets (\<lambda>s. Some (get_swap_page s)) n s = Some (ns, s') \<and> distinct ns \<and> length ns = n
    \<and> (\<forall>k\<in>set ns. slot_free s k \<and> \<not> slot_free s' k)
    \<and> (\<forall>qs. distinct qs \<and> set qs = set ns \<longrightarrow>
        (\<exists>s''. puts (\<lambda>k s. Some (swap_free k s)) qs s' = Some s'' \<and> (\<forall>k. slot_free s'' k = slot_free s k)))"
proof -
  have "finite {k. slot_free s k}" by (rule finite_subset [of _ "{..<SWAP_BITS}"]) (auto simp: slot_free_def)
  then show ?thesis using slots.gets_then_puts [of s n] assms by (simp add: swapping_def)
qed


section \<open>Examples\<close>

definition empty_memory :: mm where
  "empty_memory = shared_page\<lparr>HIGH_MEMORY := 0x4000000, mem_map := (\<lambda>_. 0), swap_bitmap := 0x1000, kmem := (\<lambda>_. 0xFF)\<rparr>"

theorem pages_given_out_once_witness:
  "\<exists>p q s'. gets (get_free_page quiet) 2 empty_memory = Some ([p, q], s') \<and> p \<noteq> q"
proof -
  have "{i. i < PAGING_PAGES \<and> mem_map empty_memory i = 0} = {..<PAGING_PAGES}" by (auto simp: empty_memory_def)
  then obtain ps s' where "gets (get_free_page quiet) 2 empty_memory = Some (ps, s')" "distinct ps" "length ps = 2"
    using pages_given_out_once [of empty_memory 2 quiet] by (auto simp: empty_memory_def)
  moreover from this obtain p q where "ps = [p, q]" by (auto simp: length_Suc_conv numeral_2_eq_2)
  ultimately show ?thesis by auto
qed

theorem swap_slots_given_out_once_witness:
  "\<exists>m n s'. gets (\<lambda>s. Some (get_swap_page s)) 2 empty_memory = Some ([m, n], s') \<and> m \<noteq> n \<and> \<not> slot_free s' m"
proof -
  have "bit (255 :: u8) k" if "k < 8" for k
  proof -
    have "(255 :: u8) = mask 8" by (simp add: mask_eq_exp_minus_1)
    then show ?thesis using that by (simp only: bit_mask_iff) simp
  qed
  then have slots: "slot_free empty_memory k \<longleftrightarrow> 0 < k \<and> k < SWAP_BITS" for k
    by (simp add: slot_free_def empty_memory_def bitmap_bit_def)
  have "{k. slot_free empty_memory k} = {0<..<SWAP_BITS}"
    by (intro set_eqI) (simp only: mem_Collect_eq greaterThanLessThan_iff slots)
  then have "2 \<le> card {k. slot_free empty_memory k}" "swap_bitmap empty_memory \<noteq> 0" by (simp_all add: empty_memory_def)
  then obtain ns s' where "gets (\<lambda>s. Some (get_swap_page s)) 2 empty_memory = Some (ns, s')" "distinct ns" "length ns = 2"
    "\<forall>k\<in>set ns. \<not> slot_free s' k"
    using swap_slots_given_out_once [of empty_memory 2] by blast
  moreover from this obtain m n where "ns = [m, n]" by (auto simp: length_Suc_conv numeral_2_eq_2)
  ultimately show ?thesis by auto
qed

end
