(* ===== verification/Shell.thy ===== *)
theory Shell
  imports Vsprintf
begin

text \<open>
  \<^verbatim>\<open>API/shell.c\<close>: the command line of the shell task. \<open>buf\<close> is the page of \<^verbatim>\<open>malloc_page\<close>; the line that
  was typed starts at its byte 1024, and the command is put together at its start. \<open>lit x\<close> is the address
  of the string literal \<open>x\<close>. The shell runs as a user program: what it does is the list of system calls
  and outputs it makes.
\<close>

section \<open>The command line\<close>

abbreviation (input) CTYPE_CHAR :: nat where "CTYPE_CHAR \<equiv> 1"
abbreviation (input) CTYPE_SPACE :: nat where "CTYPE_SPACE \<equiv> 2"
abbreviation (input) CTYPE_END :: nat where "CTYPE_END \<equiv> 3"
abbreviation (input) CTYPE_ORIG :: nat where "CTYPE_ORIG \<equiv> 100"

text \<open>The first loop, with \<open>n\<close> characters left: \<open>None\<close> for a blank line; else the indices \<^verbatim>\<open>i\<close> and \<^verbatim>\<open>j\<close> and
  the type of the last character.\<close>

fun first_char :: "nat \<Rightarrow> u32 \<Rightarrow> nat \<Rightarrow> bytes \<Rightarrow> (nat \<times> nat \<times> nat \<times> bytes) option" where
  "first_char 0 buf j m = Some (0, j, CTYPE_ORIG, m)"
| "first_char (Suc n) buf j m =
     (let ch = m (buf + of_nat j) in
      if ch = 0x20 \<or> ch = 9 then first_char n buf (j + 1) m
      else if ch = 10 then None
      else Some (1, j + 1, CTYPE_CHAR, m(buf := ch)))"

definition char_type :: "u8 \<Rightarrow> nat" where
  "char_type ch = (if ch = 0x20 \<or> ch = 9 then CTYPE_SPACE else if ch \<noteq> 10 then CTYPE_CHAR else CTYPE_END)"

text \<open>The second loop; the result is the length, which without a newline stays what it was.\<close>

fun squeeze :: "nat \<Rightarrow> u32 \<Rightarrow> nat \<Rightarrow> nat \<Rightarrow> nat \<Rightarrow> int \<Rightarrow> bytes \<Rightarrow> int \<times> bytes" where
  "squeeze 0 buf i j t01 len m = (len, m)"
| "squeeze (Suc n) buf i j t01 len m =
     (let ch = m (buf + of_nat j); t02 = char_type ch in
      if t02 = CTYPE_SPACE then squeeze n buf i (j + 1) t02 len m
      else if t02 = CTYPE_END then (int i, m(buf + of_nat i := 0))
      else if t01 = CTYPE_CHAR then squeeze n buf (i + 1) (j + 1) t02 len (m(buf + of_nat i := ch))
      else squeeze n buf (i + 2) (j + 1) t02 len (m(buf + of_nat i := 0x20, buf + of_nat (i + 1) := ch)))"

definition format_cmd_buf :: "u32 \<Rightarrow> int \<Rightarrow> bytes \<Rightarrow> int \<times> bytes" where
  "format_cmd_buf buf len m =
     (case first_char (nat len) buf 1024 m of
        None \<Rightarrow> (0, m)
      | Some (i, j, t, m) \<Rightarrow> squeeze (nat (len + 1024 - int j)) buf i j t len m)"

section \<open>The commands\<close>

datatype shell_call =
  Show_mem | Print_sys_time | Print_sys_info | Show_state | Clear | Print_hd_info int | Ls int
  | Chdir u32 | Mkdir u32 u32 | Rmdir u32 | Kill int nat | Pause | Pwd | Reboot | Printf string

definition UNKNOWN_PARAMETER :: shell_call where
  "UNKNOWN_PARAMETER = Printf (''command is supported, and parameter is unknown.'' @ [CHR 0x0A])"

definition UNKNOWN_COMMAND :: shell_call where
  "UNKNOWN_COMMAND = Printf (''unknown command.'' @ [CHR 0x0A])"

definition PROMPT :: shell_call where
  "PROMPT = Printf ''[root@dumpling]:#  ''"

text \<open>\<^verbatim>\<open>!strcmp(p, x)\<close> and \<^verbatim>\<open>!strncmp(p, x, strlen(x))\<close> for a literal \<open>x\<close>.\<close>

definition same :: "(string \<Rightarrow> u32) \<Rightarrow> u32 \<Rightarrow> string \<Rightarrow> bytes \<Rightarrow> bool option" where
  "same lit p x m = do { r \<leftarrow> strcmp p (lit x) m; Some (r = 0) }"

definition starts :: "(string \<Rightarrow> u32) \<Rightarrow> u32 \<Rightarrow> string \<Rightarrow> bytes \<Rightarrow> bool" where
  "starts lit p x m \<longleftrightarrow> strncmp p (lit x) (of_nat (length x)) m = 0"

text \<open>\<^verbatim>\<open>!strcmp(p, x) || !strcmp(p, y) || ...\<close>\<close>

fun same_as_any :: "(string \<Rightarrow> u32) \<Rightarrow> u32 \<Rightarrow> string list \<Rightarrow> bytes \<Rightarrow> bool option" where
  "same_as_any lit p [] m = Some False"
| "same_as_any lit p (x # xs) m = do { b \<leftarrow> same lit p x m; if b then Some True else same_as_any lit p xs m }"

text \<open>\<^verbatim>\<open>ls\<close> and \<^verbatim>\<open>dir\<close>; \<open>k\<close> is the length of the command.\<close>

definition list_command :: "(string \<Rightarrow> u32) \<Rightarrow> u32 \<Rightarrow> u32 \<Rightarrow> bytes \<Rightarrow> shell_call list option" where
  "list_command lit cmd_buf k m =
     (if m (cmd_buf + k) = 0 then Some [Ls 0]
      else do {
        b \<leftarrow> same lit (cmd_buf + k) '' -l'' m;
        Some (if b then [Ls 1] else if m (cmd_buf + k) = 0x20 then [UNKNOWN_PARAMETER] else [UNKNOWN_COMMAND])
      })"

definition path_command :: "(string \<Rightarrow> u32) \<Rightarrow> u32 \<Rightarrow> bytes \<Rightarrow> shell_call list option" where
  "path_command lit cmd_buf m =
     (let arg = (\<lambda>x. starts lit cmd_buf x m \<and> m (cmd_buf + of_nat (length x)) \<noteq> 0) in
      if arg ''cd '' then Some [Chdir (cmd_buf + 3)]
      else if arg ''chdir '' then Some [Chdir (cmd_buf + 6)]
      else if arg ''mkdir '' then Some [Mkdir (cmd_buf + 6) 0x41FF, Kill 2 SIGCONT, Pause]
      else if arg ''rmdir '' then Some [Rmdir (cmd_buf + 6), Kill 2 SIGCONT, Pause]
      else do {
        b \<leftarrow> same lit cmd_buf ''pwd'' m;
        if b then Some [Pwd, Printf [CHR 0x0A]]
        else do {
          b \<leftarrow> same_as_any lit cmd_buf [''reboot'', ''reset''] m;
          Some [if b then Reboot else UNKNOWN_COMMAND]
        }
      })"

text \<open>The simple commands, in the order of the tests, and what they call.\<close>

definition simple_commands :: "(string list \<times> shell_call) list" where
  "simple_commands =
     [([''mem'', ''memory''], Show_mem), ([''time''], Print_sys_time), ([''system'', ''sys''], Print_sys_info),
      ([''task''], Show_state), ([''clear'', ''cls''], Clear), ([''hd0''], Print_hd_info 0), ([''hd1''], Print_hd_info 1)]"

fun simple_command :: "(string \<Rightarrow> u32) \<Rightarrow> u32 \<Rightarrow> (string list \<times> shell_call) list \<Rightarrow> bytes \<Rightarrow> shell_call option option" where
  "simple_command lit p [] m = Some None"
| "simple_command lit p ((xs, c) # cs) m = do {
     b \<leftarrow> same_as_any lit p xs m;
     if b then Some (Some c) else simple_command lit p cs m
   }"

definition shell_command :: "(string \<Rightarrow> u32) \<Rightarrow> u32 \<Rightarrow> bytes \<Rightarrow> shell_call list option" where
  "shell_command lit cmd_buf m = do {
     c \<leftarrow> simple_command lit cmd_buf simple_commands m;
     case c of
       Some Clear \<Rightarrow> Some [Clear]
     | Some c \<Rightarrow> Some [c, PROMPT]
     | None \<Rightarrow> do {
         cs \<leftarrow> (if starts lit cmd_buf ''ls'' m then list_command lit cmd_buf 2 m
                else if starts lit cmd_buf ''dir'' m then list_command lit cmd_buf 3 m
                else path_command lit cmd_buf m);
         Some (cs @ [PROMPT])
       }
   }"

definition shell_manage :: "(string \<Rightarrow> u32) \<Rightarrow> u32 \<Rightarrow> int \<Rightarrow> bytes \<Rightarrow> (shell_call list \<times> bytes) option" where
  "shell_manage lit cmd_buf len m =
     (let (len, m) = format_cmd_buf cmd_buf len m in
      if len = 0 then Some ([PROMPT], m)
      else do { cs \<leftarrow> shell_command lit cmd_buf m; Some (cs, m) })"

section \<open>Words\<close>

text \<open>The reference: the words of the line, separated by single blanks.\<close>

definition blank :: "u8 \<Rightarrow> bool" where
  "blank c \<longleftrightarrow> c = 0x20 \<or> c = 9"

function words :: "u8 list \<Rightarrow> u8 list list" where
  "words cs =
     (let cs = dropWhile blank cs in
      if cs = [] then [] else takeWhile (\<lambda>c. \<not> blank c) cs # words (dropWhile (\<lambda>c. \<not> blank c) cs))"
  by pat_completeness auto
termination
proof (relation "measure length")
  fix cs x :: "u8 list"
  assume x: "x = dropWhile blank cs" "x \<noteq> []"
  from x(2) obtain c ds where d: "x = c # ds" by (cases x) simp_all
  have "\<not> blank c" using d x hd_dropWhile [of blank cs] by simp
  then have "length (dropWhile (\<lambda>c. \<not> blank c) x) \<le> length ds" by (simp add: d length_dropWhile_le)
  also have "\<dots> < length x" using d by simp
  also have "\<dots> \<le> length cs" unfolding x by (rule length_dropWhile_le)
  finally show "(dropWhile (\<lambda>c. \<not> blank c) x, cs) \<in> measure length" by simp
qed simp

declare words.simps [simp del]

definition unwords :: "u8 list list \<Rightarrow> u8 list" where
  "unwords ws = concat (case ws of [] \<Rightarrow> [] | w # ws \<Rightarrow> w # map (\<lambda>v. 0x20 # v) ws)"


section \<open>Formatting the command line\<close>

lemma words_Nil [simp]: "words [] = []"
  by (simp add: words.simps)

lemma words_blank [simp]: "blank c \<Longrightarrow> words (c # cs) = words cs"
  by (simp add: words.simps [of "c # cs"] words.simps [of cs] Let_def)

lemma words_Cons:
  "\<not> blank c \<Longrightarrow> words (c # cs) = (c # takeWhile (\<lambda>c. \<not> blank c) cs) # words (dropWhile (\<lambda>c. \<not> blank c) cs)"
  by (simp add: words.simps [of "c # cs"] Let_def)

lemma char_type_simps:
  "blank c \<Longrightarrow> char_type c = CTYPE_SPACE"
  "\<not> blank c \<Longrightarrow> c \<noteq> 10 \<Longrightarrow> char_type c = CTYPE_CHAR"
  by (auto simp: char_type_def blank_def)

lemma apart: "i < 1024 \<Longrightarrow> 1024 \<le> j \<Longrightarrow> j < 4096 \<Longrightarrow> (p :: u32) + of_nat j \<noteq> p + of_nat i"
proof -
  assume "i < 1024" "1024 \<le> j" "j < 4096"
  then have "unat (of_nat i :: u32) = i" "unat (of_nat j :: u32) = j" "i \<noteq> j" by (simp_all add: unat_of_nat)
  then show ?thesis by (metis add_left_cancel)
qed

lemma holds_write:
  assumes "holds m (p + of_nat j) cs" "i < 1024" "1024 \<le> j" "j + length cs < 4096"
  shows "holds (m(p + of_nat i := c)) (p + of_nat j) cs"
proof -
  have "p + of_nat j + of_nat k \<noteq> p + of_nat i" if "k < length cs" for k
    using apart [of i "j + k" p] assms that by (simp add: add.assoc)
  then show ?thesis using assms(1) by (simp add: holds_def)
qed

lemma squeeze_words:
  assumes "holds m (buf + of_nat j) (line @ [10])" "10 \<notin> set line" "t = CTYPE_CHAR \<or> t = CTYPE_SPACE"
    "length line < n" "1024 \<le> j" "j + length line < 4000"
    "i + length line + (if t = CTYPE_SPACE then 1 else 0) < 1024"
    "out = (if t = CTYPE_CHAR
            then takeWhile (\<lambda>c. \<not> blank c) line @ concat (map ((#) 0x20) (words (dropWhile (\<lambda>c. \<not> blank c) line)))
            else concat (map ((#) 0x20) (words line)))"
  shows "squeeze n buf i j t len m = (int (i + length out), store_bytes (out @ [0]) (buf + of_nat i) m)"
  using assms
proof (induction line arbitrary: n i j t m out)
  case Nil
  then obtain k where n: "n = Suc k" by (cases n) auto
  show ?case using Nil by (auto simp: n holds_Cons char_type_def)
next
  case (Cons c line)
  obtain k where n: "n = Suc k" using Cons.prems(4) by (cases n) auto
  have m: "m (buf + of_nat j) = c" and rest: "holds m (buf + of_nat (j + 1)) (line @ [10])" and c: "c \<noteq> 10"
    using Cons.prems(1,2) by (auto simp: holds_Cons add_ac)
  show ?case
  proof (cases "blank c")
    case True
    have "squeeze k buf i (j + 1) CTYPE_SPACE len m
        = (int (i + length out), store_bytes (out @ [0]) (buf + of_nat i) m)"
      by (rule Cons.IH) (use Cons.prems True rest n in \<open>auto split: if_splits\<close>)
    then show ?thesis using True by (simp add: n m char_type_simps Let_def)
  next
    case False
    show ?thesis
    proof (cases "t = CTYPE_CHAR")
      case True
      define out' where "out' = takeWhile (\<lambda>c. \<not> blank c) line
        @ concat (map ((#) 0x20) (words (dropWhile (\<lambda>c. \<not> blank c) line)))"
      have "squeeze k buf (i + 1) (j + 1) CTYPE_CHAR len (m(buf + of_nat i := c))
          = (int (i + 1 + length out'), store_bytes (out' @ [0]) (buf + of_nat (i + 1)) (m(buf + of_nat i := c)))"
      proof (rule Cons.IH)
        show "holds (m(buf + of_nat i := c)) (buf + of_nat (j + 1)) (line @ [10])"
          by (intro holds_write rest) (use Cons.prems in auto)
      qed (use Cons.prems True n in \<open>auto simp: out'_def split: if_splits\<close>)
      moreover have "out = c # out'" using Cons.prems(8) True False by (simp add: out'_def)
      ultimately show ?thesis using True False c by (simp add: n m char_type_simps Let_def add_ac)
    next
      case t: False
      define out' where "out' = takeWhile (\<lambda>c. \<not> blank c) line
        @ concat (map ((#) 0x20) (words (dropWhile (\<lambda>c. \<not> blank c) line)))"
      define m' where "m' = m(buf + of_nat i := 0x20, buf + of_nat (i + 1) := c)"
      have "holds m' (buf + of_nat (j + 1)) (line @ [10])"
        unfolding m'_def by (intro holds_write rest) (use Cons.prems t in auto)
      then have "squeeze k buf (i + 2) (j + 1) CTYPE_CHAR len m'
          = (int (i + 2 + length out'), store_bytes (out' @ [0]) (buf + of_nat (i + 2)) m')"
        by (rule Cons.IH) (use Cons.prems t n in \<open>auto simp: out'_def split: if_splits\<close>)
      moreover have "out = 0x20 # c # out'" using Cons.prems(8) t False by (simp add: out'_def words_Cons)
      ultimately show ?thesis using t False c
        by (simp add: n m m'_def char_type_simps Let_def add_ac)
    qed
  qed
qed

lemma first_char_words:
  assumes "holds m (buf + of_nat j) (line @ [10])" "10 \<notin> set line" "length line < n"
  shows "first_char n buf j m =
    (case dropWhile blank line of [] \<Rightarrow> None
     | c # cs \<Rightarrow> Some (1, j + (length line - length cs), CTYPE_CHAR, m(buf := c)))"
  using assms
proof (induction line arbitrary: n j)
  case Nil
  then obtain k where "n = Suc k" by (cases n) auto
  with Nil show ?case by (auto simp: holds_Cons)
next
  case (Cons c line)
  then obtain k where n: "n = Suc k" by (cases n) auto
  have m: "m (buf + of_nat j) = c" and rest: "holds m (buf + of_nat (j + 1)) (line @ [10])" and c: "c \<noteq> 10"
    using Cons.prems(1,2) by (auto simp: holds_Cons add_ac)
  show ?case
  proof (cases "blank c")
    case True
    have "length (dropWhile blank line) \<le> length line" by (rule length_dropWhile_le)
    moreover have "first_char k buf (j + 1) m = (case dropWhile blank line of [] \<Rightarrow> None
        | c # cs \<Rightarrow> Some (1, j + 1 + (length line - length cs), CTYPE_CHAR, m(buf := c)))"
      by (rule Cons.IH) (use Cons.prems n rest in auto)
    moreover have "first_char (Suc k) buf j m = first_char k buf (j + 1) m"
      using True m by (simp add: blank_def Let_def)
    ultimately show ?thesis
      using True by (cases "dropWhile blank line") (simp_all add: n Suc_diff_le del: first_char.simps dropWhile_eq_Nil_conv)
  next
    case False
    then show ?thesis using m c by (simp add: n blank_def Let_def)
  qed
qed

lemma unwords_words:
  assumes "dropWhile blank line = c # cs"
  shows "unwords (words line) = c # takeWhile (\<lambda>c. \<not> blank c) cs
     @ concat (map ((#) 0x20) (words (dropWhile (\<lambda>c. \<not> blank c) cs)))"
proof -
  have "\<not> blank c" using hd_dropWhile [of blank line] assms by simp
  then have "words line = (c # takeWhile (\<lambda>c. \<not> blank c) cs) # words (dropWhile (\<lambda>c. \<not> blank c) cs)"
    using assms by (simp add: words.simps [of line] Let_def)
  then show ?thesis by (simp add: unwords_def)
qed

lemma words_empty_iff: "words line = [] \<longleftrightarrow> dropWhile blank line = []"
  by (simp add: words.simps [of line] Let_def del: dropWhile_eq_Nil_conv)

text \<open>
  The shell reads a line that ends with a newline as the words in it: \<^verbatim>\<open>format_cmd_buf\<close> leaves them
  at the start of the buffer with one blank between two words, none before the first and none behind
  the last, ended by a zero byte, and returns the length; of a blank line it returns 0.
\<close>

lemma format_cmd_buf_words:
  assumes "holds m (buf + 1024) (line @ [10])" "10 \<notin> set line" "length line < 1023" "int (length line) < len"
  shows "format_cmd_buf buf len m =
    (int (length (unwords (words line))),
     if words line = [] then m else store_bytes (unwords (words line) @ [0]) buf m)"
proof (cases "dropWhile blank line")
  case Nil
  then have "first_char (nat len) buf 1024 m = None"
    using first_char_words [of m buf 1024 line "nat len"] assms
    by (simp add: zless_nat_eq_int_zless del: dropWhile_eq_Nil_conv)
  moreover have "words line = []" using Nil by (simp add: words_empty_iff)
  ultimately show ?thesis by (simp add: format_cmd_buf_def unwords_def)
next
  case (Cons c cs)
  obtain us where us: "line = us @ c # cs" by (metis Cons takeWhile_dropWhile_id)
  define j where "j = 1024 + length us + 1"
  define t where "t = takeWhile (\<lambda>c. \<not> blank c) cs @ concat (map ((#) 0x20) (words (dropWhile (\<lambda>c. \<not> blank c) cs)))"
  have words: "unwords (words line) = c # t" "words line \<noteq> []"
    using unwords_words [OF Cons] Cons by (simp_all add: t_def words_empty_iff)
  have first: "first_char (nat len) buf 1024 m = Some (1, j, CTYPE_CHAR, m(buf := c))"
    using first_char_words [of m buf 1024 line "nat len"] assms Cons
    by (simp add: zless_nat_eq_int_zless j_def us)
  have "m (buf + of_nat j + of_nat k) = (cs @ [10]) ! k" if "k < length (cs @ [10])" for k
  proof -
    have "m (buf + 1024 + of_nat (length us + 1 + k)) = (line @ [10]) ! (length us + 1 + k)"
      using assms(1) that unfolding holds_def us by (simp del: of_nat_add of_nat_Suc)
    then show ?thesis by (simp add: j_def us nth_append add_ac)
  qed
  then have "holds (m(buf + of_nat 0 := c)) (buf + of_nat j) (cs @ [10])"
    by (intro holds_write) (use assms(3) in \<open>simp_all add: holds_def j_def us\<close>)
  then have rest: "holds (m(buf := c)) (buf + of_nat j) (cs @ [10])" by simp
  have "squeeze (nat (len + 1024 - int j)) buf 1 j CTYPE_CHAR len (m(buf := c))
      = (int (1 + length t), store_bytes (t @ [0]) (buf + of_nat 1) (m(buf := c)))"
    by (rule squeeze_words [where line = cs, OF rest])
      (use assms in \<open>auto simp: t_def j_def us\<close>)
  then show ?thesis using words by (simp add: format_cmd_buf_def first)
qed

section \<open>Running the command\<close>

definition shell_literals :: "string list" where
  "shell_literals = concat (map fst simple_commands)
     @ [''ls'', '' -l'', ''dir'', ''cd '', ''chdir '', ''mkdir '', ''rmdir '', ''pwd'', ''reboot'', ''reset'']"

definition literals_at :: "(string \<Rightarrow> u32) \<Rightarrow> bytes \<Rightarrow> bool" where
  "literals_at lit m \<longleftrightarrow> (\<forall>x\<in>set shell_literals. holds m (lit x) (bytes_of x @ [0]))"

text \<open>The reference: what the shell does with the command \<open>c\<close>, compared as a list.\<close>

definition begins :: "u8 list \<Rightarrow> string \<Rightarrow> bool" where
  "begins c x \<longleftrightarrow> take (length x) c = bytes_of x"

definition list_calls :: "u8 list \<Rightarrow> shell_call list" where
  "list_calls rest =
     (if rest = [] then [Ls 0] else if rest = bytes_of '' -l'' then [Ls 1]
      else if hd rest = 0x20 then [UNKNOWN_PARAMETER] else [UNKNOWN_COMMAND])"

definition path_calls :: "u32 \<Rightarrow> u8 list \<Rightarrow> shell_call list" where
  "path_calls p c =
     (let arg = (\<lambda>x. begins c x \<and> length c > length x) in
      if arg ''cd '' then [Chdir (p + 3)]
      else if arg ''chdir '' then [Chdir (p + 6)]
      else if arg ''mkdir '' then [Mkdir (p + 6) 0x41FF, Kill 2 SIGCONT, Pause]
      else if arg ''rmdir '' then [Rmdir (p + 6), Kill 2 SIGCONT, Pause]
      else if c = bytes_of ''pwd'' then [Pwd, Printf [CHR 0x0A]]
      else [if c \<in> {bytes_of ''reboot'', bytes_of ''reset''} then Reboot else UNKNOWN_COMMAND])"

definition command_calls :: "u32 \<Rightarrow> u8 list \<Rightarrow> shell_call list" where
  "command_calls p c =
     (case find (\<lambda>(xs, _). c \<in> bytes_of ` set xs) simple_commands of
        Some (_, x) \<Rightarrow> if x = Clear then [Clear] else [x, PROMPT]
      | None \<Rightarrow> (if begins c ''ls'' then list_calls (drop 2 c)
                 else if begins c ''dir'' then list_calls (drop 3 c)
                 else path_calls p c) @ [PROMPT])"

lemma literals_ok: "x \<in> set shell_literals \<Longrightarrow> 0 \<notin> set (bytes_of x) \<and> length x < 7"
proof -
  have "\<forall>x\<in>set shell_literals. 0 \<notin> set (bytes_of x) \<and> length x < 7" by code_simp
  then show "x \<in> set shell_literals \<Longrightarrow> 0 \<notin> set (bytes_of x) \<and> length x < 7" by blast
qed

lemma same_eq:
  assumes "literals_at lit m" "holds m p (c @ [0])" "0 \<notin> set c" "x \<in> set shell_literals"
  shows "same lit p x m = Some (c = bytes_of x)"
  using strcmp_same [of m p c "lit x" "bytes_of x"] literals_ok [OF assms(4)] assms
  by (auto simp: same_def literals_at_def)

lemma same_as_any_eq:
  assumes "literals_at lit m" "holds m p (c @ [0])" "0 \<notin> set c" "set xs \<subseteq> set shell_literals"
  shows "same_as_any lit p xs m = Some (c \<in> bytes_of ` set xs)"
  using assms(4) by (induction xs) (auto simp: same_eq [OF assms(1-3)])

lemma simple_command_eq:
  assumes "literals_at lit m" "holds m p (c @ [0])" "0 \<notin> set c" "\<forall>(xs, _)\<in>set cs. set xs \<subseteq> set shell_literals"
  shows "simple_command lit p cs m = Some (map_option snd (find (\<lambda>(xs, _). c \<in> bytes_of ` set xs) cs))"
  using assms(4) by (induction cs) (auto simp: same_as_any_eq [OF assms(1-3)])

lemma starts_eq:
  assumes "literals_at lit m" "holds m p (c @ [0])" "0 \<notin> set c" "x \<in> set shell_literals"
  shows "starts lit p x m \<longleftrightarrow> begins c x"
proof -
  have x: "0 \<notin> set (bytes_of x)" "length x < 7" using literals_ok [OF assms(4)] by auto
  have "length (bytes_of x) = length x" by (simp add: bytes_of_def)
  moreover have "js_count (of_nat (length x)) = length x"
  proof -
    have "uint (of_nat (length x) :: u32) = int (length x)" using x(2) by (simp add: uint_nat unat_of_nat)
    then have "sint (of_nat (length x) :: u32) = int (length x)" "(of_nat (length x) :: u32) \<noteq> 0x80000000"
      using x(2) by (auto simp: sint_uint signed_take_bit_int_eq_self)
    then show ?thesis by (simp add: js_count_def)
  qed
  moreover have "holds m (lit x) (bytes_of x)"
    using assms(1,4) by (auto simp: literals_at_def holds_def nth_append split: if_splits)
  ultimately show ?thesis
    using strncmp_loop_prefix [of m p c "lit x" "bytes_of x"] assms x by (simp add: starts_def strncmp_def begins_def)
qed

lemma holds_at:
  assumes "holds m p (c @ [0])" "0 \<notin> set c" "k \<le> length c"
  shows "m (p + of_nat k) = 0 \<longleftrightarrow> drop k c = []" "drop k c \<noteq> [] \<Longrightarrow> m (p + of_nat k) = hd (drop k c)"
    "holds m (p + of_nat k) (drop k c @ [0])"
proof -
  have n: "m (p + of_nat k) = (c @ [0]) ! k" using assms by (simp add: holds_def)
  show "drop k c \<noteq> [] \<Longrightarrow> m (p + of_nat k) = hd (drop k c)"
    using n by (simp add: nth_append hd_drop_conv_nth)
  show "m (p + of_nat k) = 0 \<longleftrightarrow> drop k c = []"
    using n assms(2,3) by (auto simp: nth_append dest: nth_mem split: if_splits)
  show "holds m (p + of_nat k) (drop k c @ [0])"
    using assms(1,3) unfolding holds_def
    by (auto simp: nth_append add.assoc simp flip: of_nat_add)
qed

lemma list_command_eq:
  assumes "literals_at lit m" "holds m p (c @ [0])" "0 \<notin> set c" "k \<le> length c"
  shows "list_command lit p (of_nat k) m = Some (list_calls (drop k c))"
proof -
  note rest = holds_at [OF assms(2-4)]
  have "same lit (p + of_nat k) '' -l'' m = Some (drop k c = bytes_of '' -l'')"
    by (rule same_eq [OF assms(1) rest(3)])
      (use assms(3) in \<open>auto simp: shell_literals_def dest: in_set_dropD\<close>)
  then show ?thesis
    using rest(1,2) unfolding list_command_def list_calls_def by (simp del: drop_eq_Nil)
qed

lemma begins_length: "begins c x \<Longrightarrow> length x \<le> length c"
  unfolding begins_def bytes_of_def by (metis length_map length_take min.cobounded1)

lemma path_command_eq:
  assumes "literals_at lit m" "holds m p (c @ [0])" "0 \<notin> set c"
  shows "path_command lit p m = Some (path_calls p c)"
proof -
  have arg: "(starts lit p x m \<and> m (p + of_nat (length x)) \<noteq> 0) = (begins c x \<and> length c > length x)"
    if "x \<in> set shell_literals" for x
  proof (cases "begins c x")
    case True
    then show ?thesis
      using starts_eq [OF assms that] holds_at(1) [OF assms(2,3) begins_length [OF True]] by auto
  qed (simp add: starts_eq [OF assms that])
  have lits: "''cd '' \<in> set shell_literals" "''chdir '' \<in> set shell_literals" "''mkdir '' \<in> set shell_literals"
    "''rmdir '' \<in> set shell_literals" "''pwd'' \<in> set shell_literals"
    "set [''reboot'', ''reset''] \<subseteq> set shell_literals"
    by (simp_all add: shell_literals_def)
  show ?thesis
    unfolding path_command_def path_calls_def Let_def arg [OF lits(1)] arg [OF lits(2)] arg [OF lits(3)] arg [OF lits(4)]
      same_eq [OF assms lits(5)] same_as_any_eq [OF assms lits(6)]
    by simp
qed

lemma shell_command_eq:
  assumes "literals_at lit m" "holds m p (c @ [0])" "0 \<notin> set c"
  shows "shell_command lit p m = Some (command_calls p c)"
proof -
  have simple: "\<forall>(xs, _)\<in>set simple_commands. set xs \<subseteq> set shell_literals"
    by (auto simp: shell_literals_def)
  have ls: "''ls'' \<in> set shell_literals" "''dir'' \<in> set shell_literals" by (simp_all add: shell_literals_def)
  have list: "begins c ''ls'' \<Longrightarrow> list_command lit p 2 m = Some (list_calls (drop 2 c))"
    "begins c ''dir'' \<Longrightarrow> list_command lit p 3 m = Some (list_calls (drop 3 c))"
    using list_command_eq [OF assms, of 2] list_command_eq [OF assms, of 3]
      begins_length [of c "''ls''"] begins_length [of c "''dir''"] by auto
  show ?thesis
  proof (cases "find (\<lambda>(xs, _). c \<in> bytes_of ` set xs) simple_commands")
    case None
    then show ?thesis
      unfolding shell_command_def command_calls_def simple_command_eq [OF assms simple]
        starts_eq [OF assms ls(1)] starts_eq [OF assms ls(2)]
      using list path_command_eq [OF assms] by simp
  next
    case (Some g)
    then show ?thesis
      unfolding shell_command_def command_calls_def simple_command_eq [OF assms simple]
      by (cases "snd g") (auto split: prod.splits)
  qed
qed

lemma store_bytes_other:
  "\<forall>k<length bs. a \<noteq> p + of_nat k \<Longrightarrow> store_bytes bs p m a = m a"
proof (induction bs arbitrary: p m)
  case (Cons b bs)
  have "a \<noteq> p + 1 + of_nat k" if "k < length bs" for k
    using Cons.prems that spec [OF Cons.prems, of "Suc k"] by (simp add: add.assoc)
  then have "\<forall>k<length bs. a \<noteq> p + 1 + of_nat k" by blast
  moreover have "a \<noteq> p" using Cons.prems by force
  ultimately show ?case using Cons.IH by simp
qed simp

lemma store_bytes_holds: "length bs \<le> 1024 \<Longrightarrow> holds (store_bytes bs p m) p bs"
proof (induction bs arbitrary: p m)
  case (Cons b bs)
  have "p \<noteq> p + 1 + of_nat k" if "k < length bs" for k
  proof -
    have "unat (of_nat (Suc k) :: u32) = Suc k" using that Cons.prems by (simp add: unat_of_nat del: of_nat_Suc)
    then have "(of_nat (Suc k) :: u32) \<noteq> 0" by (metis nat.distinct(1) unat_0)
    then show ?thesis by (simp add: add.assoc)
  qed
  then have "store_bytes bs (p + 1) (m(p := b)) p = b"
    by (subst store_bytes_other) auto
  then show ?case using Cons by (simp add: holds_Cons)
qed simp

lemma words_bound:
  "length (concat (map ((#) 0x20) (words cs))) \<le> length cs + (if cs = [] \<or> blank (hd cs) then 0 else 1)
   \<and> set (concat (map ((#) 0x20) (words cs))) \<subseteq> insert 0x20 (set cs)"
proof (induction cs rule: words.induct)
  case (1 cs)
  define x where "x = dropWhile blank cs"
  define u r where "u = takeWhile (\<lambda>c. \<not> blank c) x" and "r = dropWhile (\<lambda>c. \<not> blank c) x"
  show ?case
  proof (cases "x = []")
    case True
    then show ?thesis by (simp add: words.simps [of cs] Let_def x_def del: dropWhile_eq_Nil_conv)
  next
    case False
    have x: "length x + (if blank (hd cs) then 1 else 0) \<le> length cs"
    proof (cases cs)
      case (Cons c ds)
      then show ?thesis using length_dropWhile_le [of blank ds] by (simp add: x_def)
    qed (use False in \<open>simp add: x_def\<close>)
    have ur: "x = u @ r" by (simp add: u_def r_def)
    have "r = [] \<or> blank (hd r)" unfolding r_def using hd_dropWhile by blast
    then have IH: "length (concat (map ((#) 0x20) (words r))) \<le> length r"
      "set (concat (map ((#) 0x20) (words r))) \<subseteq> insert 0x20 (set r)"
      using 1 [OF x_def False] by (simp_all add: r_def)
    have "words cs = u # words r"
      using False by (simp add: words.simps [of cs] Let_def x_def u_def r_def del: dropWhile_eq_Nil_conv)
    moreover have "set x \<subseteq> set cs" unfolding x_def by (meson set_dropWhileD subsetI)
    moreover have "cs \<noteq> []" using False by (auto simp: x_def)
    moreover have "set (concat (map ((#) 0x20) (words cs))) = insert 0x20 (set u \<union> set (concat (map ((#) 0x20) (words r))))"
      using calculation(1) by simp
    moreover have "set u \<union> set r \<subseteq> set cs" using calculation(2) ur by simp
    ultimately have "set (concat (map ((#) 0x20) (words cs))) \<subseteq> insert 0x20 (set cs)"
      using IH(2) by blast
    moreover have "length (concat (map ((#) 0x20) (words cs))) \<le> 1 + length x"
      using IH(1) \<open>words cs = u # words r\<close> ur by simp
    ultimately show ?thesis using x by auto
  qed
qed

lemma unwords_bound:
  "length (unwords (words cs)) \<le> length cs" "set (unwords (words cs)) \<subseteq> insert 0x20 (set cs)"
proof -
  have "concat (map ((#) 0x20) (words cs)) = (if words cs = [] then [] else 0x20 # unwords (words cs))"
    by (cases "words cs") (simp_all add: unwords_def)
  then show "length (unwords (words cs)) \<le> length cs" "set (unwords (words cs)) \<subseteq> insert 0x20 (set cs)"
    using words_bound [of cs] by (auto simp: unwords_def split: if_splits)
qed

text \<open>
  What the shell does with a line that ends with a newline: the words of the line, with one blank between two of
  them, are compared with the commands as lists, and the calls of the command that fits are made. A blank line
  only prints the prompt.
\<close>

lemma shell_manage_words:
  assumes "literals_at lit m" "\<forall>x\<in>set shell_literals. \<forall>k\<le>length x. \<forall>i<1024. lit x + of_nat k \<noteq> buf + of_nat i"
    "holds m (buf + 1024) (line @ [10])" "10 \<notin> set line" "0 \<notin> set line" "length line < 1023" "int (length line) < len"
  shows "\<exists>m'. shell_manage lit buf len m
    = Some (if words line = [] then [PROMPT] else command_calls buf (unwords (words line)), m')"
proof (cases "words line = []")
  case True
  then show ?thesis
    using format_cmd_buf_words [OF assms(3,4,6,7)] by (simp add: shell_manage_def unwords_def)
next
  case False
  define c where "c = unwords (words line)"
  define m' where "m' = store_bytes (c @ [0]) buf m"
  have c: "length c < 1023" "0 \<notin> set c"
    using unwords_bound [of line] assms(5,6) by (auto simp: c_def)
  have "c \<noteq> []"
    using unwords_words [of line] False by (cases "dropWhile blank line") (auto simp: c_def words_empty_iff)
  moreover have "holds m' buf (c @ [0])" unfolding m'_def by (rule store_bytes_holds) (use c in simp)
  moreover have "literals_at lit m'"
    unfolding literals_at_def holds_def
  proof (intro ballI allI impI)
    fix x k assume x: "x \<in> set shell_literals" and k: "k < length (bytes_of x @ [0])"
    have "m' (lit x + of_nat k) = m (lit x + of_nat k)"
      unfolding m'_def by (rule store_bytes_other) (use assms(2) x k c in \<open>auto simp: bytes_of_def\<close>)
    then show "m' (lit x + of_nat k) = (bytes_of x @ [0]) ! k"
      using assms(1) x k by (simp add: literals_at_def holds_def)
  qed
  ultimately show ?thesis
    using format_cmd_buf_words [OF assms(3,4,6,7)] shell_command_eq [of lit m' buf c] c False
    by (simp add: shell_manage_def c_def m'_def)
qed

text \<open>A memory with the literals from \<open>0x10000\<close> on and a command line.\<close>

definition lit_addr :: "string \<Rightarrow> u32" where
  "lit_addr x = 0x10000 + 16 * of_nat (length (takeWhile (\<lambda>y. y \<noteq> x) shell_literals))"

definition typed_line :: "string \<Rightarrow> bytes" where
  "typed_line x a =
     (if a < 0x10000 then let k = unat (a - 0x8400) in if k \<le> length x then (bytes_of x @ [10]) ! k else 0
      else let n = unat (a - 0x10000) in (bytes_of (shell_literals ! (n div 16)) @ [0]) ! (n mod 16))"

lemma takeWhile_stops: "x \<in> set xs \<Longrightarrow> length (takeWhile (\<lambda>y. y \<noteq> x) xs) < length xs"
  by (induction xs) auto

lemma lit_addr_at:
  assumes "x \<in> set shell_literals" "k \<le> length x"
  shows "\<exists>i<32. shell_literals ! i = x \<and> k < 16 \<and> unat (lit_addr x + of_nat k) = 0x10000 + (16 * i + k)"
proof -
  define i where "i = length (takeWhile (\<lambda>y. y \<noteq> x) shell_literals)"
  have "i < length shell_literals" unfolding i_def using assms(1) by (rule takeWhile_stops)
  moreover have "length shell_literals < 32" by code_simp
  ultimately have i: "i < 32" by simp
  have "shell_literals ! i = x" using nth_length_takeWhile [of "\<lambda>y. y \<noteq> x" shell_literals]
    \<open>i < length shell_literals\<close> by (simp add: i_def)
  moreover have k: "k < 16" using literals_ok [OF assms(1)] assms(2) by simp
  moreover have "lit_addr x + of_nat k = of_nat (0x10000 + (16 * i + k))" by (simp add: lit_addr_def i_def)
  moreover have "unat (of_nat (0x10000 + (16 * i + k)) :: u32) = 0x10000 + (16 * i + k)"
    using i k by (simp add: unat_of_nat del: of_nat_add of_nat_mult)
  ultimately show ?thesis using i by metis
qed

lemma lit_addr_apart:
  assumes "x \<in> set shell_literals" "k \<le> length x" "i < 2048"
  shows "lit_addr x + of_nat k \<noteq> 0x8000 + of_nat i"
proof
  assume eq: "lit_addr x + of_nat k = 0x8000 + of_nat i"
  obtain n where "unat (lit_addr x + of_nat k) = 0x10000 + (16 * n + k)" using lit_addr_at [OF assms(1,2)] by blast
  moreover have "(0x8000 + of_nat i :: u32) = of_nat (0x8000 + i)" by simp
  moreover have "unat (of_nat (0x8000 + i) :: u32) = 0x8000 + i"
    using assms(3) by (simp add: unat_of_nat del: of_nat_add)
  ultimately have "0x10000 + (16 * n + k) = 0x8000 + i" using eq by metis
  then show False using assms(3) by simp
qed

lemma typed_line_literals: "literals_at lit_addr (typed_line y)"
  unfolding literals_at_def holds_def
proof (intro ballI allI impI)
  fix x k assume x: "x \<in> set shell_literals" and "k < length (bytes_of x @ [0])"
  then have "k \<le> length x" by (simp add: bytes_of_def)
  then obtain i where i: "shell_literals ! i = x" "k < 16"
    "unat (lit_addr x + of_nat k) = 0x10000 + (16 * i + k)" using lit_addr_at [OF x] by blast
  have ge: "(0x10000 :: u32) \<le> lit_addr x + of_nat k" using i(3) by (simp add: word_le_nat_alt)
  have "unat (lit_addr x + of_nat k - 0x10000) = 16 * i + k" using i(3) ge by (simp add: unat_sub)
  then show "typed_line y (lit_addr x + of_nat k) = (bytes_of x @ [0]) ! k"
    using ge i by (simp add: typed_line_def Let_def not_less [symmetric])
qed

end
