(* ===== verification/Exit.thy ===== *)
theory Exit
  imports File_Ops
begin

text \<open>
  The end of a process: \<^verbatim>\<open>do_exit\<close> and \<^verbatim>\<open>sys_exit\<close> of \<^verbatim>\<open>kernel/exit.c\<close>, and \<^verbatim>\<open>do_signal\<close> of
  \<^verbatim>\<open>kernel/signal.c\<close>, which ends a process that does not handle a fatal signal.
\<close>

abbreviation (input) SIGHUP :: nat where "SIGHUP \<equiv> 1"

section \<open>Ending a process\<close>

definition hangup_pgrp :: "int \<Rightarrow> 'a sched_scheme \<Rightarrow> 'a sched_scheme option" where
  "hangup_pgrp pgrp s = do {
     (_, s) \<leftarrow> kill_pg pgrp (int SIGHUP) True s;
     (_, s) \<leftarrow> kill_pg pgrp (int SIGCONT) True s;
     Some s
   }"

fun close_files :: "'a fs_scheme world \<Rightarrow> nat list \<Rightarrow> 'a fs_scheme \<Rightarrow> 'a fs_scheme option" where
  "close_files w [] s = Some s"
| "close_files w (i # is) s = do {
     s \<leftarrow> (if t_filp (cur s) i \<noteq> None then do { (_, s) \<leftarrow> sys_close w i s; Some s } else Some s);
     close_files w is s
   }"

definition put_task_inodes :: "'a fs_scheme world \<Rightarrow> 'a fs_scheme \<Rightarrow> 'a fs_scheme option" where
  "put_task_inodes w s = do {
     s \<leftarrow> iput w (t_pwd (cur s)) s;
     let s = mod_cur (\<lambda>t. t\<lparr>t_pwd := None\<rparr>) s;
     s \<leftarrow> iput w (t_root (cur s)) s;
     let s = mod_cur (\<lambda>t. t\<lparr>t_root := None\<rparr>) s;
     s \<leftarrow> iput w (t_executable (cur s)) s;
     let s = mod_cur (\<lambda>t. t\<lparr>t_executable := None\<rparr>) s;
     s \<leftarrow> iput w (t_library (cur s)) s;
     Some (mod_cur (\<lambda>t. t\<lparr>t_library := None\<rparr>) s)
   }"

text \<open>The test that a process group is orphaned by the end of the current task and has stopped
  members; \<open>q\<close> is the other end of the link that disappears and \<open>p\<close> the member of the group.\<close>

definition orphans :: "task_ptr \<Rightarrow> task_ptr \<Rightarrow> 'a sched_scheme \<Rightarrow> int \<Rightarrow> bool" where
  "orphans p q s pgrp \<longleftrightarrow>
     t_pgrp (tstruct s p) \<noteq> t_pgrp (tstruct s q) \<and> t_session (tstruct s p) = t_session (tstruct s q)
     \<and> is_orphaned_pgrp pgrp s \<and> has_stopped_jobs pgrp s"

text \<open>The loop over the children, which become children of \<^verbatim>\<open>task[1]\<close>. The code links the oldest of
  them to \<^verbatim>\<open>task[1]->p_cptr\<close> without a test, so that it writes through a null pointer when
  \<^verbatim>\<open>task[1]\<close> has no child; that is \<open>None\<close>.\<close>

definition adopt_child :: "task_ptr \<Rightarrow> 'a sched_scheme \<Rightarrow> 'a sched_scheme option" where
  "adopt_child p s =
     (let init = task s 1;
          s = mod_task p (\<lambda>t. t\<lparr>p_pptr := init\<rparr>) s;
          s = (if t_state (tstruct s p) = TASK_ZOMBIE
               then mod_task init (\<lambda>t. t\<lparr>t_signal := t_signal t OR sigbit SIGCHLD\<rparr>) s else s)
      in if orphans p (current s) s (t_pgrp (tstruct s p)) then hangup_pgrp (t_pgrp (tstruct s p)) s else Some s)"

definition link_to_init :: "task_ptr \<Rightarrow> 'a sched_scheme \<Rightarrow> 'a sched_scheme option" where
  "link_to_init p s =
     (let init = task s 1;
          s = mod_task p (\<lambda>t. t\<lparr>p_osptr := p_cptr (tstruct s init)\<rparr>) s;
          y = p_cptr (tstruct s init)
      in if y = 0 then None
         else let s = mod_task y (\<lambda>t. t\<lparr>p_ysptr := p\<rparr>) s;
                  s = mod_task init (\<lambda>t. t\<lparr>p_cptr := p_cptr (cur s)\<rparr>) s
              in Some (mod_cur (\<lambda>t. t\<lparr>p_cptr := 0\<rparr>) s))"

partial_function (option) adopt_children :: "task_ptr \<Rightarrow> 'a sched_scheme \<Rightarrow> 'a sched_scheme option" where
  "adopt_children p s = do {
     s \<leftarrow> adopt_child p s;
     if p_osptr (tstruct s p) \<noteq> 0 then adopt_children (p_osptr (tstruct s p)) s else link_to_init p s
   }"

text \<open>A session leader gives up its terminal.\<close>

definition leave_session :: "'a tty_state_scheme \<Rightarrow> 'a tty_state_scheme option" where
  "leave_session s = do {
     s \<leftarrow> (if 0 \<le> t_tty (cur s)
          then do {
            tty \<leftarrow> TTY_TABLE (nat (t_tty (cur s))) s;
            s \<leftarrow> (if 0 < tty_pgrp (tty_table s tty)
                 then do { (_, s) \<leftarrow> kill_pg (tty_pgrp (tty_table s tty)) (int SIGHUP) True s; Some s }
                 else Some s);
            Some (mod_tty tty (\<lambda>t. t\<lparr>tty_pgrp := 0, tty_session := 0\<rparr>) s)
          }
          else Some s);
     Some (fold (\<lambda>i s. if t_session (tstruct s (task s i)) = t_session (cur s)
                       then mod_task (task s i) (\<lambda>t. t\<lparr>t_tty := - 1\<rparr>) s else s) (down_to 63) s)
   }"

definition do_exit :: "'a tty_state_scheme world \<Rightarrow> u32 \<Rightarrow> 'a tty_state_scheme \<Rightarrow> 'a tty_state_scheme option" where
  "do_exit w code s = do {
     (_, s) \<leftarrow> free_page_tables (get_base (t_ldt (cur s) 1)) (segment_limit 0x0f s) s;
     (_, s) \<leftarrow> free_page_tables (get_base (t_ldt (cur s) 2)) (segment_limit 0x17 s) s;
     s \<leftarrow> close_files w [0..<NR_OPEN] s;
     s \<leftarrow> put_task_inodes w s;
     let s = mod_cur (\<lambda>t. t\<lparr>t_state := TASK_ZOMBIE, t_exit_code := code\<rparr>) s;
     s \<leftarrow> (if orphans (p_pptr (cur s)) (current s) s (t_pgrp (cur s)) then hangup_pgrp (t_pgrp (cur s)) s else Some s);
     let s = mod_task (p_pptr (cur s)) (\<lambda>t. t\<lparr>t_signal := t_signal t OR sigbit SIGCHLD\<rparr>) s;
     s \<leftarrow> (if p_cptr (cur s) \<noteq> 0 then adopt_children (p_cptr (cur s)) s else Some s);
     s \<leftarrow> (if t_leader (cur s) \<noteq> 0 then leave_session s else Some s);
     schedule w s
   }"

definition sys_exit :: "'a tty_state_scheme world \<Rightarrow> u32 \<Rightarrow> 'a tty_state_scheme \<Rightarrow> 'a tty_state_scheme option" where
  "sys_exit w error_code s = do_exit w (push_bit 8 (error_code AND 0xff)) s"

section \<open>Delivering a signal\<close>

text \<open>SIGQUIT, SIGILL, SIGTRAP, SIGIOT, SIGFPE and SIGSEGV.\<close>

abbreviation (input) CORE_SIGNALS :: "nat list" where "CORE_SIGNALS \<equiv> [3, 4, 5, 6, 8, 11]"

text \<open>\<^verbatim>\<open>do_exit\<close> does not come back; in the model its state is paired with the result 1.\<close>

definition do_signal ::
  "'a tty_state_scheme world \<Rightarrow> nat \<Rightarrow> sigregs \<Rightarrow> 'a tty_state_scheme \<Rightarrow> (int \<times> sigregs \<times> 'a tty_state_scheme) option" where
  "do_signal w signr r0 s =
     (let sa = t_sigaction (cur s) (signr - 1); (r, old_eip) = signal_restart signr sa r0 in
      if sa_handler sa = 1 then Some (1, r, s)
      else if sa_handler sa = 0
      then if signr = SIGCONT \<or> signr = SIGCHLD then Some (1, r, s)
        else if signr \<in> set [SIGSTOP, SIGTSTP, SIGTTIN, SIGTTOU]
        then let s = mod_cur (\<lambda>t. t\<lparr>t_state := TASK_STOPPED, t_exit_code := of_nat signr\<rparr>) s;
                 pp = p_pptr (cur s)
             in Some (1, r, if sa_flags (t_sigaction (tstruct s pp) (SIGCHLD - 1)) AND SA_NOCLDSTOP = 0
                      then mod_task pp (\<lambda>t. t\<lparr>t_signal := t_signal t OR sigbit SIGCHLD\<rparr>) s else s)
        else do {
          s \<leftarrow> do_exit w (of_nat signr OR (if signr \<in> set CORE_SIGNALS \<and> core_dump signr then 0x80 else 0)) s;
          Some (1, r, s)
        }
      else do {
        let s = (if sa_flags sa AND SA_ONESHOT \<noteq> 0
                 then set_sigaction (signr - 1) (sa\<lparr>sa_handler := 0\<rparr>) s else s);
        let nomask = (sa_flags sa AND SA_NOMASK \<noteq> 0);
        let longs = (if nomask then 7 else 8);
        let r = r\<lparr>sr_eip := sa_handler sa, sr_esp := sr_esp r - 4 * longs\<rparr>;
        s \<leftarrow> verify_area w (sr_esp r) (uint (longs * 4 :: u32)) s;
        let s = put_longs ([sa_restorer sa, of_nat signr] @ (if nomask then [] else [t_blocked (cur s)])
                   @ [sr_eax r, sr_ecx r, sr_edx r, sr_eflags r, old_eip]) (sr_esp r) s;
        Some (0, r, mod_cur (\<lambda>t. t\<lparr>t_blocked := t_blocked t OR sa_mask sa\<rparr>) s)
      })"

section \<open>The children of an ended process\<close>

text \<open>\<open>same_family s s'\<close>: the two states have the same tasks with the same links.\<close>

definition same_family :: "'a sched_scheme \<Rightarrow> 'a sched_scheme \<Rightarrow> bool" where
  "same_family s s' \<longleftrightarrow> task s' = task s \<and> current s' = current s
     \<and> (\<forall>x. p_pptr (tstruct s' x) = p_pptr (tstruct s x) \<and> p_cptr (tstruct s' x) = p_cptr (tstruct s x)
          \<and> p_ysptr (tstruct s' x) = p_ysptr (tstruct s x) \<and> p_osptr (tstruct s' x) = p_osptr (tstruct s x))"

lemma same_family_refl [intro]: "same_family s s"
  by (simp add: same_family_def)

lemma same_family_trans [trans]: "same_family s t \<Longrightarrow> same_family t u \<Longrightarrow> same_family s u"
  by (simp add: same_family_def)

lemma post_signal_links [simp]:
  "p_pptr (post_signal sig t) = p_pptr t" "p_cptr (post_signal sig t) = p_cptr t"
  "p_ysptr (post_signal sig t) = p_ysptr t" "p_osptr (post_signal sig t) = p_osptr t"
  by (simp_all add: post_signal_def Let_def)

lemma same_family_mod_task:
  assumes "\<And>t. p_pptr (f t) = p_pptr t \<and> p_cptr (f t) = p_cptr t \<and> p_ysptr (f t) = p_ysptr t \<and> p_osptr (f t) = p_osptr t"
  shows "same_family s (mod_task p f s)"
  using assms by (simp add: same_family_def mod_task_def)

lemma send_sig_returns:
  assumes "1 \<le> sig" "sig \<le> 32"
  shows "\<exists>r s'. send_sig sig p priv s = Some (r, s') \<and> same_family s s'"
  using assms by (auto simp: send_sig_def intro: same_family_mod_task)

lemma kill_pg_loop_returns:
  assumes "1 \<le> sig" "sig \<le> 32"
  shows "\<exists>r s'. kill_pg_loop g sig priv is rv n s = Some (r, s') \<and> same_family s s'"
proof (induction "is" arbitrary: rv n s)
  case (Cons i "is")
  obtain e u where "send_sig sig (task s i) priv s = Some (e, u)" "same_family s u"
    using send_sig_returns [OF assms] by blast
  moreover obtain r s' r2 s2 where "kill_pg_loop g sig priv is (if e \<noteq> 0 then e else rv) (if e \<noteq> 0 then n else n + 1) u = Some (r, s')"
    "same_family u s'" "kill_pg_loop g sig priv is rv n s = Some (r2, s2)" "same_family s s2"
    using Cons.IH by metis
  ultimately show ?case
    by (cases "t_pgrp (tstruct s (task s i)) = g"; cases "e = 0") (auto intro: same_family_trans)
qed auto

lemma hangup_pgrp_returns: "\<exists>s'. hangup_pgrp g s = Some s' \<and> same_family s s'"
proof -
  have k: "\<exists>r s'. kill_pg g sig True s = Some (r, s') \<and> same_family s s'" if "1 \<le> sig" "sig \<le> 32" for sig and s :: "'a sched_scheme"
    using kill_pg_loop_returns [OF that] by (auto simp: kill_pg_def)
  obtain r u where u: "kill_pg g (int SIGHUP) True s = Some (r, u)" "same_family s u" using k [of "int SIGHUP" s] by auto
  obtain r' v where v: "kill_pg g (int SIGCONT) True u = Some (r', v)" "same_family u v" using k [of "int SIGCONT" u] by auto
  show ?thesis using u v by (auto simp: hangup_pgrp_def intro: same_family_trans)
qed

lemma adopt_child_links:
  "\<exists>s'. adopt_child p s = Some s' \<and> same_family (mod_task p (\<lambda>t. t\<lparr>p_pptr := task s 1\<rparr>) s) s'"
proof -
  let ?u = "mod_task p (\<lambda>t. t\<lparr>p_pptr := task s 1\<rparr>) s"
  define v where "v = (if t_state (tstruct ?u p) = TASK_ZOMBIE
     then mod_task (task s 1) (\<lambda>t. t\<lparr>t_signal := t_signal t OR sigbit SIGCHLD\<rparr>) ?u else ?u)"
  have v: "same_family ?u v" by (auto simp: v_def intro: same_family_mod_task)
  obtain v' where v': "hangup_pgrp (t_pgrp (tstruct v p)) v = Some v'" "same_family v v'"
    using hangup_pgrp_returns by blast
  have "adopt_child p s = (if orphans p (current v) v (t_pgrp (tstruct v p)) then Some v' else Some v)"
    unfolding adopt_child_def Let_def v_def [symmetric] v'(1) ..
  then show ?thesis using v v'(2) same_family_trans by (cases "orphans p (current v) v (t_pgrp (tstruct v p))") auto
qed

text \<open>The list of siblings from \<open>p\<close> to the oldest one.\<close>

fun sibling_chain :: "task_ptr \<Rightarrow> task_ptr list \<Rightarrow> 'a sched_scheme \<Rightarrow> bool" where
  "sibling_chain p [] s \<longleftrightarrow> p = 0"
| "sibling_chain p (x # xs) s \<longleftrightarrow> p = x \<and> x \<noteq> 0 \<and> sibling_chain (p_osptr (tstruct s x)) xs s"

lemma sibling_chain_cong:
  "(\<And>x. p_osptr (tstruct s' x) = p_osptr (tstruct s x)) \<Longrightarrow> sibling_chain p xs s' = sibling_chain p xs s"
  by (induction xs arbitrary: p) simp_all

text \<open>\<open>adopted xs s s'\<close>: \<open>s'\<close> has the links of \<open>s\<close>, with the children \<open>xs\<close> of the current task put
  before those of \<^verbatim>\<open>task[1]\<close>.\<close>

definition adopted :: "task_ptr list \<Rightarrow> 'a sched_scheme \<Rightarrow> 'a sched_scheme \<Rightarrow> bool" where
  "adopted xs s s' \<longleftrightarrow> (let init = task s 1; y = p_cptr (tstruct s init) in
     task s' = task s \<and> current s' = current s \<and> (\<forall>x.
       p_pptr (tstruct s' x) = (if x \<in> set xs then init else p_pptr (tstruct s x))
     \<and> p_cptr (tstruct s' x) = (if x = current s then 0 else if x = init then p_cptr (cur s) else p_cptr (tstruct s x))
     \<and> p_ysptr (tstruct s' x) = (if x = y then last xs else p_ysptr (tstruct s x))
     \<and> p_osptr (tstruct s' x) = (if x = last xs then y else p_osptr (tstruct s x))))"

lemma link_to_init_links:
  assumes "p_cptr (tstruct s (task s 1)) \<noteq> 0" "task s 1 \<noteq> current s"
  shows "\<exists>s'. link_to_init p s = Some s' \<and> task s' = task s \<and> current s' = current s \<and> (\<forall>x.
       p_pptr (tstruct s' x) = p_pptr (tstruct s x)
     \<and> p_cptr (tstruct s' x) = (if x = current s then 0 else if x = task s 1 then p_cptr (cur s) else p_cptr (tstruct s x))
     \<and> p_ysptr (tstruct s' x) = (if x = p_cptr (tstruct s (task s 1)) then p else p_ysptr (tstruct s x))
     \<and> p_osptr (tstruct s' x) = (if x = p then p_cptr (tstruct s (task s 1)) else p_osptr (tstruct s x)))"
proof -
  let ?i = "task s 1" and ?y = "p_cptr (tstruct s (task s 1))"
  define s1 where "s1 = mod_task p (\<lambda>t. t\<lparr>p_osptr := ?y\<rparr>) s"
  define s2 where "s2 = mod_task ?y (\<lambda>t. t\<lparr>p_ysptr := p\<rparr>) s1"
  define s3 where "s3 = mod_task ?i (\<lambda>t. t\<lparr>p_cptr := p_cptr (cur s2)\<rparr>) s2"
  define s4 where "s4 = mod_task (current s) (\<lambda>t. t\<lparr>p_cptr := 0\<rparr>) s3"
  note defs = s1_def s2_def s3_def s4_def
  have "link_to_init p s = Some s4"
    using assms(1) by (cases "task s (Suc 0) = p") (simp_all add: link_to_init_def Let_def defs mod_task_def)
  moreover have "task s4 = task s" "current s4 = current s" by (simp_all add: defs)
  moreover have "p_pptr (tstruct s4 x) = p_pptr (tstruct s x)" for x by (simp add: defs mod_task_def)
  moreover have "p_cptr (tstruct s4 x) = (if x = current s then 0 else if x = ?i then p_cptr (cur s) else p_cptr (tstruct s x))" for x
    using assms(2) by (simp add: defs mod_task_def)
  moreover have "p_ysptr (tstruct s4 x) = (if x = ?y then p else p_ysptr (tstruct s x))" for x
    by (simp add: defs mod_task_def)
  moreover have "p_osptr (tstruct s4 x) = (if x = p then ?y else p_osptr (tstruct s x))" for x
    by (simp add: defs mod_task_def)
  ultimately show ?thesis by blast
qed

lemma adoptedD:
  assumes "adopted xs s s'"
  shows "task s' = task s" "current s' = current s"
    "p_pptr (tstruct s' x) = (if x \<in> set xs then task s 1 else p_pptr (tstruct s x))"
    "p_cptr (tstruct s' x) = (if x = current s then 0 else if x = task s 1 then p_cptr (cur s) else p_cptr (tstruct s x))"
    "p_ysptr (tstruct s' x) = (if x = p_cptr (tstruct s (task s 1)) then last xs else p_ysptr (tstruct s x))"
    "p_osptr (tstruct s' x) = (if x = last xs then p_cptr (tstruct s (task s 1)) else p_osptr (tstruct s x))"
  using assms by (simp_all add: adopted_def Let_def)

lemma adopt_children_adopted:
  assumes "sibling_chain p xs s" "xs \<noteq> []" "p_cptr (tstruct s (task s 1)) \<noteq> 0" "task s 1 \<noteq> current s"
  shows "\<exists>s'. adopt_children p s = Some s' \<and> adopted xs s s'"
  using assms
proof (induction xs arbitrary: p s)
  case (Cons x xs)
  define u where "u = mod_task p (\<lambda>t. t\<lparr>p_pptr := task s 1\<rparr>) s"
  obtain v where v: "adopt_child p s = Some v" "same_family u v" using adopt_child_links unfolding u_def by blast
  have L: "task v = task s" "current v = current s" "p_cptr (tstruct v q) = p_cptr (tstruct s q)"
    "p_ysptr (tstruct v q) = p_ysptr (tstruct s q)" "p_osptr (tstruct v q) = p_osptr (tstruct s q)"
    "p_pptr (tstruct v q) = (if q = p then task s 1 else p_pptr (tstruct s q))" for q
    using v(2) by (simp_all add: same_family_def u_def mod_task_def)
  have p: "p = x" using Cons.prems(1) by simp
  show ?case
  proof (cases xs)
    case Nil
    then have "p_osptr (tstruct v p) = 0" using Cons.prems(1) by (simp add: L)
    then have "adopt_children p s = link_to_init p v" using v(1) by (subst adopt_children.simps) simp
    moreover obtain s' where "link_to_init p v = Some s'" "adopted [p] s s'"
    proof -
      have "p_cptr (tstruct v (task v 1)) \<noteq> 0" "task v 1 \<noteq> current v" using Cons.prems(3,4) by (simp_all add: L)
      from link_to_init_links [OF this, of p] obtain s' where s': "link_to_init p v = Some s'"
        and E: "task s' = task v" "current s' = current v" "\<forall>x.
       p_pptr (tstruct s' x) = p_pptr (tstruct v x)
     \<and> p_cptr (tstruct s' x) = (if x = current v then 0 else if x = task v 1 then p_cptr (cur v) else p_cptr (tstruct v x))
     \<and> p_ysptr (tstruct s' x) = (if x = p_cptr (tstruct v (task v 1)) then p else p_ysptr (tstruct v x))
     \<and> p_osptr (tstruct s' x) = (if x = p then p_cptr (tstruct v (task v 1)) else p_osptr (tstruct v x))" by blast
      have "adopted [p] s s'"
        unfolding adopted_def Let_def by (intro conjI allI) (simp_all add: E L)
      with s' show ?thesis by (rule that)
    qed
    ultimately show ?thesis using Nil p by simp
  next
    case (Cons x' xs')
    let ?o = "p_osptr (tstruct s p)"
    have c: "sibling_chain ?o xs v" "?o \<noteq> 0"
      using Cons.prems(1) Cons p sibling_chain_cong [of v s ?o xs] by (simp_all add: L)
    then have step: "adopt_children p s = adopt_children ?o v"
      using v(1) by (subst adopt_children.simps) (simp add: L)
    obtain s' where s': "adopt_children ?o v = Some s'" "adopted xs v s'"
      using Cons.IH [OF c(1)] Cons Cons.prems(3,4) by (auto simp: L)
    have "adopted (x # xs) s s'" using s'(2) Cons p 
      unfolding adopted_def Let_def by (intro conjI allI) (simp_all add: adoptedD [OF s'(2)] L)
    then show ?thesis using step s'(1) by (intro exI [of _ s']) simp
  qed
qed simp

text \<open>The children of a task, when the links are sound.\<close>

lemma sibling_chain_exists:
  assumes "ptree_ok s" "\<not> bad_task_ptr p s" "p \<noteq> task s 0"
  shows "\<exists>xs. sibling_chain p xs s"
proof -
  obtain age where age: "older_siblings age s" using assms(1) by (auto simp: ptree_ok_def)
  show ?thesis using assms(2,3)
  proof (induction "age p" arbitrary: p rule: less_induct)
    case less
    show ?case
    proof (cases "p = 0")
      case True
      then show ?thesis by (intro exI [of _ "[]"]) simp
    next
      case False
      then obtain i where i: "i < NR_TASKS" "task s i = p" using less.prems(1) by (auto simp: bad_task_ptr_iff)
      then have "0 < i" using less.prems(2) by (cases i) auto
      then have a: "audit_task p s" using ptree_okD(2) [OF assms(1) i(1)] i(2) False by simp
      let ?o = "p_osptr (tstruct s p)"
      have "\<exists>xs. sibling_chain ?o xs s"
      proof (cases "?o = 0")
        case True
        then show ?thesis by (intro exI [of _ "[]"]) simp
      next
        case o: False
        have "age ?o < age p" using age i o False unfolding older_siblings_def by blast
        moreover have "?o \<noteq> task s 0"
        proof
          assume "?o = task s 0"
          then have "p_ysptr (tstruct s (task s 0)) = p" using audit_taskD(9) [OF a _ o] by simp
          then show False using assms(1) False by (simp add: ptree_ok_def root_alone_def Let_def)
        qed
        ultimately show ?thesis using less.hyps audit_taskD(4) [OF a] by blast
      qed
      then obtain xs where "sibling_chain ?o xs s" by blast
      then show ?thesis using False by (intro exI [of _ "p # xs"]) simp
    qed
  qed
qed

lemma sibling_chain_keep:
  "sibling_chain p xs s \<Longrightarrow> (\<And>x. x \<in> set xs \<Longrightarrow> p_osptr (tstruct s' x) = p_osptr (tstruct s x))
    \<Longrightarrow> sibling_chain p xs s'"
  by (induction xs arbitrary: p) auto

text \<open>A list of siblings has no task twice, and it can be carried on behind its last one.\<close>

lemma sibling_chain_unique: "sibling_chain p xs s \<Longrightarrow> sibling_chain p ys s \<Longrightarrow> xs = ys"
proof (induction xs arbitrary: p ys)
  case Nil
  then show ?case by (cases ys) auto
next
  case (Cons x xs)
  then show ?case by (cases ys) auto
qed

lemma sibling_chain_suffix: "sibling_chain p (us @ x # vs) s \<Longrightarrow> sibling_chain x (x # vs) s"
  by (induction us arbitrary: p) auto

lemma sibling_chain_distinct: "sibling_chain p xs s \<Longrightarrow> distinct xs"
proof (induction xs arbitrary: p)
  case (Cons x xs)
  have "x \<notin> set xs"
  proof
    assume "x \<in> set xs"
    then obtain us vs where xs: "xs = us @ x # vs" by (auto dest: split_list)
    then have "sibling_chain x (x # vs) s"
      using Cons.prems sibling_chain_suffix [of p "x # us" x vs s] by (simp only: append_Cons)
    moreover have "sibling_chain x (x # xs) s" using Cons.prems by simp
    ultimately have "x # vs = x # xs" by (rule sibling_chain_unique)
    then show False using xs by simp
  qed
  with Cons show ?case by auto
qed simp

lemma sibling_chain_carry_on:
  assumes "sibling_chain p xs s" "xs \<noteq> []" "p_osptr (tstruct s' (last xs)) = q" "sibling_chain q ys s'"
    and "\<And>x. x \<noteq> last xs \<Longrightarrow> p_osptr (tstruct s' x) = p_osptr (tstruct s x)"
  shows "sibling_chain p (xs @ ys) s'"
  using assms sibling_chain_distinct [OF assms(1)]
proof (induction xs arbitrary: p)
  case (Cons x xs)
  show ?case
  proof (cases "xs = []")
    case True
    with Cons.prems show ?thesis by simp
  next
    case False
    with Cons.prems have "sibling_chain (p_osptr (tstruct s x)) (xs @ ys) s'" "x \<noteq> last xs"
      using Cons.IH [of "p_osptr (tstruct s x)"] by auto
    with Cons.prems False show ?thesis by simp
  qed
qed simp

text \<open>\<open>family xs P s\<close>: a list of children of \<open>P\<close> that is closed under the sibling links.\<close>

definition family :: "task_ptr list \<Rightarrow> task_ptr \<Rightarrow> 'a sched_scheme \<Rightarrow> bool" where
  "family xs P s \<longleftrightarrow> xs \<noteq> [] \<and> p_osptr (tstruct s (last xs)) = 0 \<and> (\<forall>x\<in>set xs. x \<noteq> 0 \<and> \<not> bad_task_ptr x s \<and> audit_task x s
     \<and> p_pptr (tstruct s x) = P \<and> (p_osptr (tstruct s x) \<noteq> 0 \<longrightarrow> p_osptr (tstruct s x) \<in> set xs)
     \<and> (p_ysptr (tstruct s x) \<noteq> 0 \<longrightarrow> p_ysptr (tstruct s x) \<in> set xs))"

lemma sibling_chain_family:
  assumes "ptree_ok s" "sibling_chain p xs s" "xs \<noteq> []" "p_pptr (tstruct s p) = P"
    and "\<not> bad_task_ptr p s" "p \<noteq> task s 0"
  shows "xs \<noteq> [] \<and> p_osptr (tstruct s (last xs)) = 0 \<and> p \<in> set xs \<and> (\<forall>x\<in>set xs. x \<noteq> 0 \<and> \<not> bad_task_ptr x s \<and> audit_task x s
     \<and> p_pptr (tstruct s x) = P \<and> (p_osptr (tstruct s x) \<noteq> 0 \<longrightarrow> p_osptr (tstruct s x) \<in> set xs)
     \<and> (x = p \<or> p_ysptr (tstruct s x) \<in> set xs))"
  using assms(2-)
proof (induction xs arbitrary: p)
  case (Cons x xs)
  have p: "p = x" "x \<noteq> 0" using Cons.prems(1) by simp_all
  obtain i where i: "i < NR_TASKS" "task s i = p" using Cons.prems(4) p by (auto simp: bad_task_ptr_iff)
  then have "0 < i" using Cons.prems(5) by (cases i) auto
  then have a: "audit_task p s" using ptree_okD(2) [OF assms(1) i(1)] i(2) p by simp
  let ?o = "p_osptr (tstruct s p)"
  show ?case
  proof (cases "?o = 0")
    case True
    then have "xs = []" using Cons.prems(1) p by (cases xs) auto
    then show ?thesis using a p True Cons.prems(3,4) by simp
  next
    case False
    have c: "sibling_chain ?o xs s" "xs \<noteq> []" using Cons.prems(1) p False by (cases xs; simp)+
    have o: "p_pptr (tstruct s ?o) = P" "p_ysptr (tstruct s ?o) = p" "\<not> bad_task_ptr ?o s"
      using audit_taskD(4,9) [OF a] False Cons.prems(3) by auto
    have "?o \<noteq> task s 0" using o(2) assms(1) p by (auto simp: ptree_ok_def root_alone_def Let_def)
    note IH = Cons.IH [OF c o(1,3) this]
    have "z \<noteq> 0 \<and> \<not> bad_task_ptr z s \<and> audit_task z s \<and> p_pptr (tstruct s z) = P
      \<and> (p_osptr (tstruct s z) \<noteq> 0 \<longrightarrow> p_osptr (tstruct s z) \<in> set (x # xs))
      \<and> (z = p \<or> p_ysptr (tstruct s z) \<in> set (x # xs))" if "z \<in> set (x # xs)" for z
    proof (cases "z = x")
      case True
      then show ?thesis using a p Cons.prems(3,4) IH by simp
    next
      case False
      then have z: "z \<in> set xs" using that by simp
      then have "z = ?o \<or> p_ysptr (tstruct s z) \<in> set xs" using IH by blast
      then have y: "p_ysptr (tstruct s z) \<in> set (x # xs)" using o(2) p by (elim disjE) simp_all
      have "z \<noteq> 0 \<and> \<not> bad_task_ptr z s \<and> audit_task z s \<and> p_pptr (tstruct s z) = P
        \<and> (p_osptr (tstruct s z) \<noteq> 0 \<longrightarrow> p_osptr (tstruct s z) \<in> set xs)" using IH z by blast
      then show ?thesis using y set_subset_Cons by fast
    qed
    moreover have "p_osptr (tstruct s (last (x # xs))) = 0" "p \<in> set (x # xs)" using p c(2) IH by simp_all
    ultimately show ?thesis by blast
  qed
qed simp

lemma adopted_audit:
  assumes A: "adopted xs s s'" and F: "family xs (current s) s"
    and i: "task s 1 = init" "init \<notin> set xs" "init \<noteq> current s" "\<not> bad_task_ptr init s"
    and y: "p_cptr (tstruct s init) = y" "y \<noteq> 0" "p_pptr (tstruct s y) = init" "p_ysptr (tstruct s y) = 0"
      "\<not> bad_task_ptr y s" "y \<noteq> init"
    and c: "p_cptr (cur s) \<in> set xs" "p_ysptr (tstruct s (p_cptr (cur s))) = 0"
    and q: "audit_task q s" "q \<noteq> 0"
  shows "audit_task q s'"
proof -
  let ?l = "last xs" and ?c = "p_cptr (cur s)"
  have L: "p_pptr (tstruct s' x) = (if x \<in> set xs then init else p_pptr (tstruct s x))"
    "p_cptr (tstruct s' x) = (if x = current s then 0 else if x = init then ?c else p_cptr (tstruct s x))"
    "p_ysptr (tstruct s' x) = (if x = y then ?l else p_ysptr (tstruct s x))"
    "p_osptr (tstruct s' x) = (if x = ?l then y else p_osptr (tstruct s x))" for x
    using adoptedD(3-) [OF A] i(1) y(1) by simp_all
  have B: "bad_task_ptr x s' = bad_task_ptr x s" for x by (simp add: bad_task_ptr_def adoptedD(1) [OF A])
  have l: "?l \<in> set xs" "p_osptr (tstruct s ?l) = 0" using F by (auto simp: family_def)
  have x: "x \<noteq> 0" "audit_task x s" "p_pptr (tstruct s x) = current s"
    "p_osptr (tstruct s x) \<noteq> 0 \<Longrightarrow> p_osptr (tstruct s x) \<in> set xs"
    "p_ysptr (tstruct s x) \<noteq> 0 \<Longrightarrow> p_ysptr (tstruct s x) \<in> set xs" if "x \<in> set xs" for x
    using F that by (auto simp: family_def)
  have inb: "\<not> bad_task_ptr x s" if "x \<in> set xs" for x using F that by (simp add: family_def)
  have yx: "y \<notin> set xs" using x(3) [of y] y(3) i(3) by auto
  note D = audit_taskD [OF q(1)]
  show ?thesis
  proof (rule audit_taskI)
    fix r assume r: "p_osptr (tstruct s' q) = r" "r \<noteq> 0"
    show "p_pptr (tstruct s' r) = p_pptr (tstruct s' q) \<and> p_ysptr (tstruct s' r) = q"
    proof (cases "q = ?l")
      case True
      then show ?thesis using r y l yx by (simp add: L)
    next
      case False
      then have r': "p_osptr (tstruct s q) = r" using r by (simp add: L)
      have "p_ysptr (tstruct s r) = q" "p_pptr (tstruct s r) = p_pptr (tstruct s q)" using D(9) [OF r' r(2)] by simp_all
      moreover have "r \<noteq> y" using calculation(1) y(4) q(2) by auto
      moreover have "r \<in> set xs \<longleftrightarrow> q \<in> set xs" using x(4) [of q] x(5) [of r] r' r(2) calculation(1) q(2) by auto
      ultimately show ?thesis by (simp add: L)
    qed
  next
    fix r assume r: "p_ysptr (tstruct s' q) = r" "r \<noteq> 0"
    show "p_pptr (tstruct s' r) = p_pptr (tstruct s' q) \<and> p_osptr (tstruct s' r) = q"
    proof (cases "q = y")
      case True
      then show ?thesis using r y l yx by (simp add: L)
    next
      case False
      then have r': "p_ysptr (tstruct s q) = r" using r by (simp add: L)
      have "p_osptr (tstruct s r) = q" "p_pptr (tstruct s r) = p_pptr (tstruct s q)" using D(10) [OF r' r(2)] by simp_all
      moreover have "r \<noteq> ?l" using calculation(1) l(2) q(2) by auto
      moreover have "r \<in> set xs \<longleftrightarrow> q \<in> set xs" using x(5) [of q] x(4) [of r] r' r(2) calculation(1) q(2) by auto
      ultimately show ?thesis by (simp add: L)
    qed
  next
    fix r assume r: "p_cptr (tstruct s' q) = r" "r \<noteq> 0"
    show "p_pptr (tstruct s' r) = q \<and> p_ysptr (tstruct s' r) = 0"
    proof (cases "q = init")
      case True
      then have "r = ?c" using r i(3) by (simp add: L)
      then show ?thesis using True c yx by (auto simp: L)
    next
      case False
      then have r': "p_cptr (tstruct s q) = r" "q \<noteq> current s" using r by (auto simp: L split: if_splits)
      have "p_pptr (tstruct s r) = q" "p_ysptr (tstruct s r) = 0" using D(11) [OF r'(1) r(2)] by simp_all
      moreover have "r \<notin> set xs" using x(3) [of r] calculation(1) r'(2) by auto
      moreover have "r \<noteq> y" using calculation(1) y(3) False by auto
      ultimately show ?thesis by (simp add: L)
    qed
  next
    show "p_pptr (tstruct s' q) \<noteq> q" "\<not> bad_task_ptr (p_pptr (tstruct s' q)) s'"
      using D(1,5) i(2,4) q(2) by (auto simp: L B)
    show "p_cptr (tstruct s' q) \<noteq> q" "\<not> bad_task_ptr (p_cptr (tstruct s' q)) s'"
      using D(2,6) inb [OF c(1)] c(1) i(2) q(2) by (auto simp: L B)
    show "p_ysptr (tstruct s' q) \<noteq> q" "\<not> bad_task_ptr (p_ysptr (tstruct s' q)) s'"
      using D(3,7) inb [OF l(1)] l(1) yx by (auto simp: L B)
    show "p_osptr (tstruct s' q) \<noteq> q" "\<not> bad_task_ptr (p_osptr (tstruct s' q)) s'"
      using D(4,8) y(5) l(1) yx by (auto simp: L B)
  qed
qed

text \<open>
  C12. A process that ends leaves a sound process tree. The process is in a slot above 1 and has
  children, and \<^verbatim>\<open>task[1]\<close> has a child and is not a child of the process. Whatever signals this
  causes, the call returns; the children of \<^verbatim>\<open>task[1]\<close> are then those of the process, in their
  order, followed by those \<^verbatim>\<open>task[1]\<close> had; the younger sibling of the first of the latter is the
  last of the former, and no other task gets another younger sibling; each child of the process
  has \<^verbatim>\<open>task[1]\<close> as its parent, no other task gets another parent, and \<^verbatim>\<open>audit_ptree\<close> finds no
  broken link.
\<close>

theorem adopt_keeps_tree:
  assumes "ptree_ok s" and "1 < cs" "cs < NR_TASKS" "current s = task s cs" "current s \<noteq> 0"
    and "p_cptr (cur s) \<noteq> 0"
    and "task s 1 \<noteq> 0" "p_cptr (tstruct s (task s 1)) \<noteq> 0" "p_pptr (tstruct s (task s 1)) \<noteq> current s"
  shows "\<exists>xs ys s'. sibling_chain (p_cptr (cur s)) xs s
     \<and> sibling_chain (p_cptr (tstruct s (task s 1))) ys s
     \<and> adopt_children (p_cptr (cur s)) s = Some s' \<and> ptree_ok s'
     \<and> p_cptr (cur s') = 0 \<and> sibling_chain (p_cptr (tstruct s' (task s 1))) (xs @ ys) s'
     \<and> (\<forall>x. p_ysptr (tstruct s' x) = (if x = hd ys then last xs else p_ysptr (tstruct s x)))
     \<and> (\<forall>x. p_pptr (tstruct s' x) = (if x \<in> set xs then task s 1 else p_pptr (tstruct s x)))"
proof -
  let ?c = "p_cptr (cur s)" and ?y = "p_cptr (tstruct s (task s 1))"
  have inj: "task s i = task s j \<Longrightarrow> task s i \<noteq> 0 \<Longrightarrow> i < NR_TASKS \<Longrightarrow> j < NR_TASKS \<Longrightarrow> i = j" for i j
    using assms(1) by (simp add: ptree_ok_def) blast
  have z: "task s 0 \<noteq> current s" "task s 0 \<noteq> task s 1" "task s 0 \<noteq> 0" "task s 1 \<noteq> current s"
    using inj [of 0 cs] inj [of 0 1] inj [of 1 cs] assms by (auto simp: ptree_ok_def)
  have root: "p_pptr (tstruct s (task s 0)) = 0" "p_osptr (tstruct s (task s 0)) = 0" "p_ysptr (tstruct s (task s 0)) = 0"
    using assms(1) by (simp_all add: ptree_ok_def root_alone_def Let_def)
  have c: "\<not> bad_task_ptr ?c s" "p_pptr (tstruct s ?c) = current s" "p_ysptr (tstruct s ?c) = 0"
    using ptree_okD(1) [OF assms(1,3)] assms(4-6) by (auto simp: child_link_def Let_def)
  have y: "\<not> bad_task_ptr ?y s" "p_pptr (tstruct s ?y) = task s 1" "p_ysptr (tstruct s ?y) = 0" "?y \<noteq> task s 1"
    using ptree_okD(1) [OF assms(1), of 1] assms(7,8) by (auto simp: child_link_def Let_def)
  have cz: "?c \<noteq> task s 0" using c(2) root(1) assms(5) by auto
  obtain xs where xs: "sibling_chain ?c xs s" using sibling_chain_exists [OF assms(1) c(1) cz] by blast
  have ne: "xs \<noteq> []" using xs assms(6) by (cases xs) auto
  have F: "family xs (current s) s" and cx: "?c \<in> set xs"
    using sibling_chain_family [OF assms(1) xs ne c(2,1) cz] c(3) by (auto simp: family_def)
  obtain s' where s': "adopt_children ?c s = Some s'" "adopted xs s s'"
    using adopt_children_adopted [OF xs ne assms(8) z(4)] by blast
  note L = adoptedD [OF s'(2)]
  have P: "p_pptr (tstruct s x) = current s" if "x \<in> set xs" for x using F that by (simp add: family_def)
  have out: "task s 1 \<notin> set xs" "?y \<notin> set xs" "task s 0 \<notin> set xs"
    using P assms(5,9) y(2) z root(1) by metis+
  have bi: "\<not> bad_task_ptr (task s 1) s"
    using bad_task_ptr_iff [of "task s 1" s] by (auto dest: spec [of _ 1])
  obtain age where age: "older_siblings age s" using assms(1) by (auto simp: ptree_ok_def)
  let ?age = "\<lambda>x. if x \<in> set xs then age x + Suc (age ?y) else age x"
  have "ptree_ok s'"
  proof (rule ptree_okI)
    fix i assume i: "0 < i" "i < NR_TASKS" "task s' i \<noteq> 0"
    then have "audit_task (task s i) s" using ptree_okD(2) [OF assms(1)] L(1) by simp
    then show "audit_task (task s' i) s'"
      using adopted_audit [OF s'(2) F refl out(1) z(4) bi refl assms(8) y(2,3,1,4) cx c(3)] i(3) L(1) by simp
  next
    show "older_siblings ?age s'"
      unfolding older_siblings_def L(1)
    proof (intro allI impI)
      fix i assume i: "i < NR_TASKS" "task s i \<noteq> 0" and n: "p_osptr (tstruct s' (task s i)) \<noteq> 0"
      let ?q = "task s i"
      show "?age (p_osptr (tstruct s' ?q)) < ?age ?q"
      proof (cases "?q = last xs")
        case True
        then show ?thesis using out(2) ne by (simp add: L)
      next
        case False
        let ?r = "p_osptr (tstruct s ?q)"
        have r: "?r \<noteq> 0" "age ?r < age ?q" using False n i age by (auto simp: L older_siblings_def)
        have "?r \<in> set xs \<longrightarrow> ?q \<in> set xs"
        proof
          assume "?r \<in> set xs"
          moreover have "i \<noteq> 0" using r(1) root(2) by metis
          then have "p_ysptr (tstruct s ?r) = ?q" using audit_taskD(9) [OF ptree_okD(2) [OF assms(1) i] _ r(1)] by simp
          ultimately show "?q \<in> set xs" using F i(2) unfolding family_def by metis
        qed
        moreover have "p_osptr (tstruct s' ?q) = ?r" using False by (simp add: L)
        ultimately show ?thesis using r(2) by (simp split: if_split)
      qed
    qed
    have "child_link (task s 0) s" using assms(1) by (simp add: ptree_ok_def)
    moreover have "bad_task_ptr x s' = bad_task_ptr x s" for x by (simp add: bad_task_ptr_def L)
    ultimately show "child_link (task s' 0) s'"
    proof -
      let ?r = "p_cptr (tstruct s (task s 0))"
      assume B: "\<And>x. bad_task_ptr x s' = bad_task_ptr x s" and "child_link (task s 0) s"
      then have r: "\<not> bad_task_ptr ?r s" "?r \<noteq> task s 0"
        "?r \<noteq> 0 \<Longrightarrow> p_pptr (tstruct s ?r) = task s 0" "?r \<noteq> 0 \<Longrightarrow> p_ysptr (tstruct s ?r) = 0"
        by (simp_all add: child_link_def Let_def)
      have "?r \<notin> set xs \<and> ?r \<noteq> ?y" if "?r \<noteq> 0" using P [of ?r] r(3) that y(2) z by metis
      then show ?thesis using r z by (simp add: child_link_def Let_def L B)
    qed
    show "root_alone s'"
      using assms(7) root out(3) y(2) z(2) ne unfolding root_alone_def Let_def L by auto
  qed (use z(3) inj in \<open>auto simp: L\<close>)
  moreover have yz: "?y \<noteq> task s 0" using y(2) root(1) assms(7) by auto
  obtain ys where ys: "sibling_chain ?y ys s" using sibling_chain_exists [OF assms(1) y(1) yz] by blast
  then have hd: "ys \<noteq> []" "hd ys = ?y" using assms(8) by (cases ys; auto)+
  have "p_pptr (tstruct s x) = task s 1" if "x \<in> set ys" for x
    using sibling_chain_family [OF assms(1) ys hd(1) y(2,1) yz] that by blast
  then have "last xs \<notin> set ys" using P [of "last xs"] ne z(4) by auto
  then have "sibling_chain ?y ys s'" by (intro sibling_chain_keep [OF ys]) (auto simp: L)
  then have "sibling_chain ?c (xs @ ys) s'"
    using ne by (intro sibling_chain_carry_on [OF xs]) (simp_all add: L)
  ultimately show ?thesis using xs ys hd(2) s'(1) L z(4)
    by (intro exI [of _ xs] exI [of _ ys] exI [of _ s']) simp
qed

text \<open>Process 2 ends; its child becomes a child of process 1.\<close>

definition three_generations :: sched where
  "three_generations = blank_sched\<lparr>
     task := (\<lambda>i. if i = 0 then 0x10000 else if i = 1 then 0x20000 else if i = 2 then 0x30000 else if i = 3 then 0x40000 else 0),
     tstruct := (\<lambda>_. blank_task)(0x10000 := blank_task\<lparr>p_cptr := 0x20000\<rparr>,
       0x20000 := blank_task\<lparr>p_pptr := 0x10000, p_cptr := 0x30000\<rparr>,
       0x30000 := blank_task\<lparr>p_pptr := 0x20000, p_cptr := 0x40000\<rparr>,
       0x40000 := blank_task\<lparr>p_pptr := 0x30000\<rparr>),
     current := 0x30000\<rparr>"

lemma three_generations_simps [simp]:
  "task three_generations = (\<lambda>i. if i = 0 then 0x10000 else if i = 1 then 0x20000 else if i = 2 then 0x30000 else if i = 3 then 0x40000 else 0)"
  "tstruct three_generations = (\<lambda>_. blank_task)(0x10000 := blank_task\<lparr>p_cptr := 0x20000\<rparr>,
       0x20000 := blank_task\<lparr>p_pptr := 0x10000, p_cptr := 0x30000\<rparr>,
       0x30000 := blank_task\<lparr>p_pptr := 0x20000, p_cptr := 0x40000\<rparr>,
       0x40000 := blank_task\<lparr>p_pptr := 0x30000\<rparr>)"
  "current three_generations = 0x30000"
  by (simp_all add: three_generations_def)

lemma blank_task_links [simp]:
  "p_pptr blank_task = 0" "p_cptr blank_task = 0" "p_ysptr blank_task = 0" "p_osptr blank_task = 0"
  by (simp_all add: blank_task_def)

lemma three_generations_ok: "ptree_ok three_generations"
proof -
  have B: "\<not> bad_task_ptr (task three_generations i) three_generations" if "i < 64" for i
    using that by (auto simp only: bad_task_ptr_iff)
  have B': "\<not> bad_task_ptr 0x10000 three_generations" "\<not> bad_task_ptr 0x20000 three_generations"
    "\<not> bad_task_ptr 0x30000 three_generations" "\<not> bad_task_ptr 0x40000 three_generations"
    using B [of 0] B [of 1] B [of 2] B [of 3] by simp_all
  show ?thesis
  proof (rule ptree_okI [where age = "\<lambda>_. 0"])
    fix i assume "0 < i" "i < NR_TASKS" "task three_generations i \<noteq> 0"
    then have "i = 1 \<or> i = 2 \<or> i = 3" by (auto split: if_splits)
    then show "audit_task (task three_generations i) three_generations"
      using B' by (elim disjE) (simp_all add: audit_task_def)
  qed (use B' in \<open>auto simp: child_link_def root_alone_def older_siblings_def split: if_splits\<close>)
qed

theorem adopt_keeps_tree_witness:
  "\<exists>s'. adopt_children 0x40000 three_generations = Some s' \<and> ptree_ok s'
     \<and> sibling_chain (p_cptr (tstruct s' 0x20000)) [0x40000, 0x30000] s'"
proof -
  obtain xs ys s' where a: "sibling_chain 0x40000 xs three_generations" "sibling_chain 0x30000 ys three_generations"
    "adopt_children 0x40000 three_generations = Some s'" "ptree_ok s'"
    "sibling_chain (p_cptr (tstruct s' 0x20000)) (xs @ ys) s'"
    using adopt_keeps_tree [OF three_generations_ok, of 2] by auto
  have "xs = [0x40000]" by (rule sibling_chain_unique [OF a(1)]) simp
  moreover have "ys = [0x30000]" by (rule sibling_chain_unique [OF a(2)]) simp
  ultimately show ?thesis using a by auto
qed

end
