(* ===== verification/Demand.thy ===== *)
theory Demand
  imports Exit
begin

text \<open>
  The page faults of \<^verbatim>\<open>mm/memory.c\<close>: writing to a shared page, and loading a missing page from the
  swap area, from another task with the same executable or library, or from the file.
\<close>

abbreviation (input) LIBRARY_SIZE :: u32 where "LIBRARY_SIZE \<equiv> 0x00400000"
abbreviation (input) LIBRARY_OFFSET :: u32 where "LIBRARY_OFFSET \<equiv> 0x03C00000"
abbreviation (input) SIGSEGV :: nat where "SIGSEGV \<equiv> 11"

text \<open>\<^verbatim>\<open>do_exit\<close> does not come back.\<close>

definition do_wp_page :: "'a tty_state_scheme world \<Rightarrow> u32 \<Rightarrow> 'a tty_state_scheme \<Rightarrow> 'a tty_state_scheme option" where
  "do_wp_page w address s =
     (if address - t_start_code (cur s) > TASK_SIZE then do_exit w (of_nat SIGSEGV) s
      else un_wp_page w (pte_addr address s) s)"

text \<open>The loop of \<^verbatim>\<open>share_page\<close>.\<close>

fun share_loop :: "'a mm_scheme world \<Rightarrow> nat \<Rightarrow> u32 \<Rightarrow> nat list \<Rightarrow> 'a mm_scheme \<Rightarrow> (bool \<times> 'a mm_scheme) option" where
  "share_loop w n address [] s = Some (False, s)"
| "share_loop w n address (i # is) s =
     (let p = tstruct s (task s i) in
      if task s i = 0 \<or> current s = task s i
         \<or> Some n \<noteq> (if address < LIBRARY_OFFSET then t_executable p else t_library p)
      then share_loop w n address is s
      else do {
        (ok, s) \<leftarrow> try_to_share w address (task s i) s;
        if ok then Some (True, s) else share_loop w n address is s
      })"

definition share_page :: "'a files_scheme world \<Rightarrow> nat \<Rightarrow> u32 \<Rightarrow> 'a files_scheme \<Rightarrow> (bool \<times> 'a files_scheme) option" where
  "share_page w n address s =
     (if i_count (inode_table s n) < 2 then Some (False, s) else share_loop w n address (down_to 63) s)"

text \<open>The inode and the first block of the page at \<open>tmp\<close> in the space of the task.\<close>

definition page_source :: "u32 \<Rightarrow> 'a sched_scheme \<Rightarrow> nat option \<times> u32" where
  "page_source tmp s =
     (if tmp \<ge> LIBRARY_OFFSET then (t_library (cur s), 1 + (tmp - LIBRARY_OFFSET) div 1024)
      else if tmp < t_end_data (cur s) then (t_executable (cur s), 1 + tmp div 1024)
      else (None, 0))"

fun bmaps :: "'a fs_scheme world \<Rightarrow> nat \<Rightarrow> int list \<Rightarrow> 'a fs_scheme \<Rightarrow> (u32 list \<times> 'a fs_scheme) option" where
  "bmaps w n [] s = Some ([], s)"
| "bmaps w n (b # bs) s = do {
     (nr, s) \<leftarrow> bmap w n b s;
     (nrs, s) \<leftarrow> bmaps w n bs s;
     Some (nr # nrs, s)
   }"

text \<open>The bytes behind the end of the data in a page are cleared from the end of the page down.\<close>

fun clear_down :: "nat \<Rightarrow> u32 \<Rightarrow> 'a sched_scheme \<Rightarrow> 'a sched_scheme" where
  "clear_down 0 tmp s = s"
| "clear_down (Suc i) tmp s = clear_down i (tmp - 1) (wrb (tmp - 1) 0 s)"

definition clear_end :: "u32 \<Rightarrow> u32 \<Rightarrow> 'a sched_scheme \<Rightarrow> 'a sched_scheme" where
  "clear_end tmp page s =
     (let i = sint (tmp + 4096 - t_end_data (cur s))
      in clear_down (if i > 4095 then 0 else nat i) (page + 4096) s)"

definition do_no_page :: "'a tty_state_scheme world \<Rightarrow> u32 \<Rightarrow> 'a tty_state_scheme \<Rightarrow> 'a tty_state_scheme option" where
  "do_no_page w address s =
     (if address - t_start_code (cur s) > TASK_SIZE then do_exit w (of_nat SIGSEGV) s
      else let dir = rd (drop_bit 20 address AND 0xffc) s;
               entry = (dir AND FRAME) + (drop_bit 10 address AND 0xffc) in
      if dir AND 1 \<noteq> 0 \<and> rd entry s \<noteq> 0 \<and> rd entry s AND 1 = 0 then swap_in w entry s
      else let address = address AND FRAME;
               tmp = address - t_start_code (cur s);
               (inode, block) = page_source tmp s in
      (case inode of
         None \<Rightarrow> get_empty_page w address s
       | Some n \<Rightarrow> do {
           (ok, s) \<leftarrow> share_page w n tmp s;
           if ok then Some s
           else do {
             (page, s) \<leftarrow> get_free_page w s;
             if page = 0 then None
             else do {
               (nr, s) \<leftarrow> bmaps w n (map (\<lambda>i. sint block + int i) [0..<4]) s;
               s \<leftarrow> bread_page w page (idev n s) nr s;
               let s = clear_end tmp page s;
               (r, s) \<leftarrow> put_page w page address s;
               if r \<noteq> 0 then Some s else None
             }
           }
         }))"

end
