(* ===== verification/Exec.thy ===== *)
theory Exec
  imports Demand
begin

text \<open>
  \<^verbatim>\<open>fs/exec.c\<close>: executing a program. The strings of arguments and environment are copied to up to
  32 pages, which become the top of the new data segment; \<open>pages\<close> is the array \<^verbatim>\<open>page\<close>. The pages of
  the new program come in by page faults later, which the model of the user's memory does not see:
  what they will hold is the parameter \<open>loaded\<close>.
\<close>

abbreviation (input) MAX_ARG_PAGES :: nat where "MAX_ARG_PAGES \<equiv> 32"
abbreviation (input) ENOEXEC :: int where "ENOEXEC \<equiv> 8"
abbreviation (input) ZMAGIC :: u32 where "ZMAGIC \<equiv> 0x10B"

section \<open>The shared library\<close>

definition sys_uselib :: "'a fs_scheme world \<Rightarrow> u32 \<Rightarrow> 'a fs_scheme \<Rightarrow> (int \<times> 'a fs_scheme) option" where
  "sys_uselib w library s =
     (if segment_limit 0x17 s \<noteq> TASK_SIZE then Some (- EINVAL, s)
      else do {
        (inode, s) \<leftarrow> (if library \<noteq> 0 then namei w library s else Some (None, s));
        if library \<noteq> 0 \<and> inode = None then Some (- ENOENT, s)
        else do {
          s \<leftarrow> iput w (t_library (cur s)) s;
          let s = mod_cur (\<lambda>t. t\<lparr>t_library := None\<rparr>) s;
          (_, s) \<leftarrow> free_page_tables (get_base (t_ldt (cur s) 2) + LIBRARY_OFFSET) LIBRARY_SIZE s;
          Some (0, mod_cur (\<lambda>t. t\<lparr>t_library := inode\<rparr>) s)
        }
      })"

section \<open>Arguments\<close>

text \<open>The address behind the first zero byte from \<open>p\<close> on.\<close>

partial_function (option) skip_string :: "u16 \<Rightarrow> u32 \<Rightarrow> 'a sched_scheme \<Rightarrow> u32 option" where
  "skip_string fs p s = (if name_byte fs p s \<noteq> 0 then skip_string fs (p + 1) s else Some (p + 1))"

text \<open>A loop \<^verbatim>\<open>while (argc-->0)\<close> of \<^verbatim>\<open>create_tables\<close>: the next string and the next entry of the table.\<close>

fun put_table :: "nat \<Rightarrow> u32 \<Rightarrow> u32 \<Rightarrow> 'a sched_scheme \<Rightarrow> (u32 \<times> 'a sched_scheme) option" where
  "put_table 0 p v s = Some (p, put_fs_long 0 v s)"
| "put_table (Suc c) p v s = do {
     let s = put_fs_long p v s;
     p \<leftarrow> skip_string USER_FS p s;
     put_table c p (v + 4) s
   }"

definition create_tables :: "u32 \<Rightarrow> int \<Rightarrow> int \<Rightarrow> 'a sched_scheme \<Rightarrow> (u32 \<times> 'a sched_scheme) option" where
  "create_tables p argc envc s =
     (let envp = (0xfffffffc AND p) - 4 * of_int (envc + 1);
          argv = envp - 4 * of_int (argc + 1);
          sp = argv - 12;
          s = put_fs_long envp (argv - 4) s; s = put_fs_long argv (argv - 8) s;
          s = put_fs_long (of_int argc) sp s
      in do {
        (p, s) \<leftarrow> put_table (nat argc) p argv s;
        (p, s) \<leftarrow> put_table (nat envc) p envp s;
        Some (sp, s)
      })"

partial_function (option) count_loop :: "u32 \<Rightarrow> int \<Rightarrow> 'a sched_scheme \<Rightarrow> int option" where
  "count_loop tmp i s = (if get_fs_long tmp s \<noteq> 0 then count_loop (tmp + 4) (i + 1) s else Some i)"

definition count_args :: "u32 \<Rightarrow> 'a sched_scheme \<Rightarrow> int option" where
  "count_args argv s = (if argv \<noteq> 0 then count_loop argv 0 s else Some 0)"

text \<open>\<^verbatim>\<open>while (len)\<close>: the bytes before \<open>tmp\<close> are copied from the last one down to the bytes before \<open>p\<close>.
  \<open>off\<close> is \<^verbatim>\<open>offset\<close> and \<open>pag\<close> the page it is in; the result has \<open>p = 0\<close> when there is no page left. An index
  beyond \<^verbatim>\<open>page\<close> is \<open>None\<close>: \<^verbatim>\<open>p-len < 0\<close> is never true for the unsigned \<open>p\<close>.\<close>

type_synonym arg_pages = "nat \<Rightarrow> u32"

fun copy_back ::
  "'a mm_scheme world \<Rightarrow> u16 \<Rightarrow> nat \<Rightarrow> u32 \<Rightarrow> u32 \<times> int \<times> u32 \<times> arg_pages \<Rightarrow> 'a mm_scheme
     \<Rightarrow> (bool \<times> (u32 \<times> int \<times> u32 \<times> arg_pages) \<times> 'a mm_scheme) option" where
  "copy_back w fs 0 tmp st s = Some (True, st, s)"
| "copy_back w fs (Suc len) tmp (p, off, pag, pages) s = do {
     let p = p - 1;
     let tmp = tmp - 1;
     (pag, off, pages, s) \<leftarrow>
       (if off - 1 < 0
        then let i = unat (p div 4096); off = uint (p mod 4096) in
          if i \<ge> MAX_ARG_PAGES then None
          else if pages i \<noteq> 0 then Some (pages i, off, pages, s)
          else do { (g, s) \<leftarrow> get_free_page w s; Some (g, off, pages(i := g), s) }
        else Some (pag, off - 1, pages, s));
     if pag = 0 then Some (False, (p, off, pag, pages), s)
     else copy_back w fs len tmp (p, off, pag, pages) (wrb (pag + of_int off) (name_byte fs tmp s) s)
   }"

text \<open>The loop over the strings \<open>argc - 1, \<dots>, 0\<close>: \<open>arg i s\<close> is entry \<open>i\<close> of \<open>argv\<close> in state \<open>s\<close>, and \<open>fs\<close> the
  segment of the strings; the \<^verbatim>\<open>panic\<close> on a null pointer is \<open>None\<close>.\<close>

fun copy_strings_loop ::
  "'a mm_scheme world \<Rightarrow> nat list \<Rightarrow> (nat \<Rightarrow> 'a mm_scheme \<Rightarrow> u32) \<Rightarrow> u16 \<Rightarrow> u32 \<times> int \<times> u32 \<times> arg_pages \<Rightarrow> 'a mm_scheme
     \<Rightarrow> (u32 \<times> arg_pages \<times> 'a mm_scheme) option" where
  "copy_strings_loop w [] arg fs (p, off, pag, pages) s = Some (p, pages, s)"
| "copy_strings_loop w (i # is) arg fs st s =
     (if arg i s = 0 then None
      else do {
        e \<leftarrow> skip_string fs (arg i s) s;
        (ok, (p, off, pag, pages), s) \<leftarrow> copy_back w fs (unat (e - arg i s)) e st s;
        if ok then copy_strings_loop w is arg fs (p, off, pag, pages) s else Some (0, pages, s)
      })"

definition copy_strings ::
  "'a mm_scheme world \<Rightarrow> int \<Rightarrow> (nat \<Rightarrow> 'a mm_scheme \<Rightarrow> u32) \<Rightarrow> u16 \<Rightarrow> u32 \<times> arg_pages \<Rightarrow> 'a mm_scheme
     \<Rightarrow> (u32 \<times> arg_pages \<times> 'a mm_scheme) option" where
  "copy_strings w argc arg fs st s =
     (case st of (p, pages) \<Rightarrow>
        if p = 0 then Some (0, pages, s)
        else copy_strings_loop w (rev [0..<nat argc]) arg fs (p, 0, 0, pages) s)"

definition user_args :: "u32 \<Rightarrow> nat \<Rightarrow> 'a sched_scheme \<Rightarrow> u32" where
  "user_args argv i s = get_fs_long (argv + 4 * of_nat i) s"

section \<open>The new address space\<close>

fun put_arg_pages :: "'a mm_scheme world \<Rightarrow> nat list \<Rightarrow> arg_pages \<Rightarrow> u32 \<Rightarrow> 'a mm_scheme \<Rightarrow> 'a mm_scheme option" where
  "put_arg_pages w [] pages data_base s = Some s"
| "put_arg_pages w (i # is) pages data_base s = do {
     let data_base = data_base - 4096;
     s \<leftarrow> (if pages i \<noteq> 0 then do { (_, s) \<leftarrow> put_dirty_page w (pages i) data_base s; Some s } else Some s);
     put_arg_pages w is pages data_base s
   }"

text \<open>The user's memory after the change: the argument pages lie below the library.\<close>

definition new_memory :: "arg_pages \<Rightarrow> bytes \<Rightarrow> (u32 \<Rightarrow> u8) \<Rightarrow> u32 \<Rightarrow> u8" where
  "new_memory pages m loaded a =
     (let d = a - (LIBRARY_OFFSET - 0x20000); i = unat (d div 4096)
      in if d < 0x20000 \<and> pages i \<noteq> 0 then m (pages i + d mod 4096) else loaded a)"

definition change_ldt ::
  "'a mm_scheme world \<Rightarrow> (u32 \<Rightarrow> u8) \<Rightarrow> arg_pages \<Rightarrow> 'a mm_scheme \<Rightarrow> (u32 \<times> 'a mm_scheme) option" where
  "change_ldt w loaded pages s =
     (let code_base = get_base (t_ldt (cur s) 1);
          set = (\<lambda>i l. l(i := set_limit (set_base (l i) code_base) TASK_SIZE));
          s = mod_cur (\<lambda>t. t\<lparr>t_ldt := set 2 (set 1 (t_ldt t))\<rparr>) s
      in do {
        s \<leftarrow> put_arg_pages w (rev [0..<MAX_ARG_PAGES]) pages (code_base + (TASK_SIZE - LIBRARY_SIZE)) s;
        Some (TASK_SIZE, s\<lparr>fs_mem := new_memory pages (kmem s) loaded\<rparr>)
      })"

section \<open>Executing a program\<close>

record exec_header =
  a_magic :: u32
  a_text :: u32
  a_data :: u32
  a_bss :: u32
  a_syms :: u32
  a_entry :: u32
  a_trsize :: u32
  a_drsize :: u32

definition read_header :: "u32 \<Rightarrow> 'a sched_scheme \<Rightarrow> exec_header" where
  "read_header a s = \<lparr>a_magic = rd a s, a_text = rd (a + 4) s, a_data = rd (a + 8) s, a_bss = rd (a + 12) s,
     a_syms = rd (a + 16) s, a_entry = rd (a + 20) s, a_trsize = rd (a + 24) s, a_drsize = rd (a + 28) s\<rparr>"

definition N_TXTOFF :: "exec_header \<Rightarrow> u32" where
  "N_TXTOFF x = (if a_magic x = ZMAGIC then 1024 - 32 + 32 else 32)"

fun free_arg_pages :: "nat list \<Rightarrow> arg_pages \<Rightarrow> 'a mm_scheme \<Rightarrow> 'a mm_scheme option" where
  "free_arg_pages [] pages s = Some s"
| "free_arg_pages (i # is) pages s = do { s \<leftarrow> free_page (pages i) s; free_arg_pages is pages s }"

text \<open>\<^verbatim>\<open>exec_error1\<close> and \<^verbatim>\<open>exec_error2\<close>. The result of \<^verbatim>\<open>do_execve\<close> is the value it returns and, when the
  program runs, the new instruction and stack pointers.\<close>

type_synonym 's exec_result = "(int \<times> (u32 \<times> u32) option \<times> 's) option"

definition exec_error1 :: "arg_pages \<Rightarrow> int \<Rightarrow> 'a mm_scheme \<Rightarrow> 'a mm_scheme exec_result" where
  "exec_error1 pages retval s = do { s \<leftarrow> free_arg_pages [0..<MAX_ARG_PAGES] pages s; Some (retval, None, s) }"

definition exec_error2 :: "'a fs_scheme world \<Rightarrow> nat \<Rightarrow> arg_pages \<Rightarrow> int \<Rightarrow> 'a fs_scheme \<Rightarrow> 'a fs_scheme exec_result" where
  "exec_error2 w inode pages retval s = do { s \<leftarrow> iput w (Some inode) s; exec_error1 pages retval s }"

text \<open>From \<^verbatim>\<open>restart_interp\<close> on: whether the file may be executed, and its first block.\<close>

definition may_exec :: "nat \<Rightarrow> 'a files_scheme \<Rightarrow> bool" where
  "may_exec n s \<longleftrightarrow>
     (let x = inode_table s n;
          i = (if t_euid (cur s) = i_uid x then drop_bit 6 (i_mode x)
               else if in_group_p (uint (i_gid x)) s then drop_bit 3 (i_mode x) else i_mode x)
      in i AND 1 \<noteq> 0 \<or> i_mode x AND 0x49 \<noteq> 0 \<and> suser s)"

definition exec_ids :: "nat \<Rightarrow> 'a files_scheme \<Rightarrow> u16 \<times> u16" where
  "exec_ids n s =
     (let x = inode_table s n
      in (if i_mode x AND 0x800 \<noteq> 0 then i_uid x else t_euid (cur s),
          if i_mode x AND 0x400 \<noteq> 0 then ucast (i_gid x) else t_egid (cur s)))"

definition exec_start ::
  "'a fs_scheme world \<Rightarrow> nat \<Rightarrow> 'a fs_scheme \<Rightarrow> ((int + nat \<times> u16 \<times> u16) \<times> 'a fs_scheme) option" where
  "exec_start w n s =
     (if \<not> S_ISREG (i_mode (inode_table s n)) then Some (Inl (- EACCES), s)
      else let ids = exec_ids n s in
      if \<not> may_exec n s then Some (Inl (- ENOEXEC), s)
      else do {
        (bh, s) \<leftarrow> bread w (idev n s) (ucast (zone n 0 s)) s;
        Some (case bh of None \<Rightarrow> Inl (- EACCES) | Some b \<Rightarrow> Inr (b, ids), s)
      })"

subsection \<open>Scripts\<close>

text \<open>The line behind \<^verbatim>\<open>#!\<close>, of at most 127 bytes: the path of the interpreter, the offset of its name
  behind the last slash, and the offset of its argument. \<^verbatim>\<open>buf\<close> holds 128 bytes, the last one zero;
  the offsets are those in \<^verbatim>\<open>buf\<close>.\<close>

definition is_blank :: "u8 \<Rightarrow> bool" where "is_blank c \<longleftrightarrow> c = 0x20 \<or> c = 9"

text \<open>\<^verbatim>\<open>strncpy\<close> of 127 bytes: behind the first zero byte there are only zeros.\<close>

definition script_line :: "u8 list \<Rightarrow> u8 list" where
  "script_line b = takeWhile (\<lambda>c. c \<noteq> 0) (take 127 b)"

definition parse_script :: "u8 list \<Rightarrow> (nat \<times> nat \<times> nat option) option" where
  "parse_script line =
     (if 10 \<notin> set line then None
      else let text = takeWhile (\<lambda>c. c \<noteq> 10) line;
               start = length (takeWhile is_blank text);
               word = takeWhile (\<lambda>c. \<not> is_blank c) (drop start text);
               name = start + length word - length (takeWhile (\<lambda>c. c \<noteq> 0x2F) (rev word))
           in if drop start text = [] then None
              else Some (start, name,
                     if start + length word < length text then Some (start + length word + 1) else None))"

text \<open>What the parsing leaves in \<^verbatim>\<open>buf\<close>: the newline and the blank behind the path are zero.\<close>

definition script_buffer :: "u8 list \<Rightarrow> u8 list" where
  "script_buffer line =
     (let text = takeWhile (\<lambda>c. c \<noteq> 10) line; start = length (takeWhile is_blank text);
          e = start + length (takeWhile (\<lambda>c. \<not> is_blank c) (drop start text));
          b = line @ replicate (128 - length line) 0
      in b[length text := 0, e := 0])"

fun put_bytes :: "u8 list \<Rightarrow> u32 \<Rightarrow> 'a sched_scheme \<Rightarrow> 'a sched_scheme" where
  "put_bytes [] a s = s"
| "put_bytes (c # cs) a s = put_bytes cs (a + 1) (wrb a c s)"

text \<open>The part for scripts; \<open>buf\<close> is the address of \<^verbatim>\<open>buf\<close> on the kernel stack. The result is a value
  to return, or the inode of the interpreter with the new number of arguments and \<open>p\<close>.\<close>

definition exec_script ::
  "'a fs_scheme world \<Rightarrow> u32 \<Rightarrow> nat \<Rightarrow> nat \<Rightarrow> u32 \<Rightarrow> u32 \<times> int \<Rightarrow> u32 \<times> int \<Rightarrow> u32 \<times> arg_pages \<Rightarrow> 'a fs_scheme
     \<Rightarrow> ((int + nat \<times> int \<times> u32) \<times> arg_pages \<times> 'a fs_scheme) option" where
  "exec_script w buf inode bh filename args envs st s = do {
     let line = script_line (map (\<lambda>i. rdb (b_data (bufs s bh) + 2 + of_nat i) s) [0..<127]);
     s \<leftarrow> brelse w (Some bh) s;
     s \<leftarrow> iput w (Some inode) s;
     case parse_script line of
       None \<Rightarrow> Some (Inl (- ENOEXEC), snd st, s)
     | Some (interp, i_name, i_arg) \<Rightarrow> do {
         let s = put_bytes (script_buffer line) buf s;
         let kernel = (\<lambda>i _ _. buf + of_nat i);
         (p, pages, s) \<leftarrow> copy_strings w (snd envs) (user_args (fst envs)) USER_FS st s;
         (p, pages, s) \<leftarrow> copy_strings w (snd args - 1) (user_args (fst args + 4)) USER_FS (p, pages) s;
         (p, pages, s) \<leftarrow> copy_strings w 1 (\<lambda>_ _. filename) USER_FS (p, pages) s;
         (p, pages, s) \<leftarrow> (case i_arg of None \<Rightarrow> Some (p, pages, s)
            | Some i \<Rightarrow> copy_strings w 1 (kernel i) KERNEL_FS (p, pages) s);
         (p, pages, s) \<leftarrow> copy_strings w 1 (kernel i_name) KERNEL_FS (p, pages) s;
         if p = 0 then Some (Inl (- ENOMEM), pages, s)
         else do {
           (n, s) \<leftarrow> namei_with (namei_kernel w) w KERNEL_FS (buf + of_nat interp) None True s;
           Some (case n of None \<Rightarrow> Inl (- ENOENT)
                 | Some n \<Rightarrow> Inr (n, snd args + (if i_arg = None then 1 else 2), p), pages, s)
         }
       }
   }"

subsection \<open>Programs\<close>

definition good_header :: "exec_header \<Rightarrow> u32 \<Rightarrow> bool" where
  "good_header ex sz \<longleftrightarrow>
     \<not> (a_magic ex \<noteq> ZMAGIC \<or> a_trsize ex \<noteq> 0 \<or> a_drsize ex \<noteq> 0
        \<or> a_text ex + a_data ex + a_bss ex > 0x3000000
        \<or> sz < a_text ex + a_data ex + a_syms ex + N_TXTOFF ex) \<and> N_TXTOFF ex = 1024"

definition reset_handlers :: "(nat \<Rightarrow> sigaction) \<Rightarrow> nat \<Rightarrow> sigaction" where
  "reset_handlers sa i =
     (if i < 32 then (sa i)\<lparr>sa_mask := 0, sa_flags := 0, sa_handler := (if sa_handler (sa i) \<noteq> 1 then 0 else 1)\<rparr>
      else sa i)"

fun close_on_exec_files :: "'a fs_scheme world \<Rightarrow> nat list \<Rightarrow> 'a fs_scheme \<Rightarrow> 'a fs_scheme option" where
  "close_on_exec_files w [] s = Some s"
| "close_on_exec_files w (i # is) s = do {
     s \<leftarrow> (if bit (t_close_on_exec (cur s)) i then do { (_, s) \<leftarrow> sys_close w i s; Some s } else Some s);
     close_on_exec_files w is s
   }"

text \<open>Behind the point of no return.\<close>

definition exec_commit ::
  "'a fs_scheme world \<Rightarrow> (u32 \<Rightarrow> u8) \<Rightarrow> nat \<Rightarrow> exec_header \<Rightarrow> u16 \<times> u16 \<Rightarrow> int \<Rightarrow> int \<Rightarrow> u32 \<Rightarrow> arg_pages \<Rightarrow> 'a fs_scheme
     \<Rightarrow> 'a fs_scheme exec_result" where
  "exec_commit w loaded inode ex ids argc envc p pages s = do {
     s \<leftarrow> (if t_executable (cur s) \<noteq> None then iput w (t_executable (cur s)) s else Some s);
     let s = mod_cur (\<lambda>t. t\<lparr>t_executable := Some inode, t_signal := 0, t_sigaction := reset_handlers (t_sigaction t)\<rparr>) s;
     s \<leftarrow> close_on_exec_files w [0..<NR_OPEN] s;
     let s = mod_cur (\<lambda>t. t\<lparr>t_close_on_exec := 0\<rparr>) s;
     (_, s) \<leftarrow> free_page_tables (get_base (t_ldt (cur s) 1)) (segment_limit 0x0f s) s;
     (_, s) \<leftarrow> free_page_tables (get_base (t_ldt (cur s) 2)) (segment_limit 0x17 s) s;
     let s = (if last_task_used_math s = current s then s\<lparr>last_task_used_math := 0\<rparr> else s);
     let s = mod_cur (\<lambda>t. t\<lparr>t_used_math := 0\<rparr>) s;
     (d, s) \<leftarrow> change_ldt w loaded pages s;
     (p, s) \<leftarrow> create_tables (p + d - (LIBRARY_SIZE + of_nat MAX_ARG_PAGES * 4096)) argc envc s;
     Some (0, Some (a_entry ex, p), mod_cur (\<lambda>t. t\<lparr>
       t_end_code := a_text ex, t_end_data := a_data ex + a_text ex, t_brk := a_bss ex + (a_data ex + a_text ex),
       t_start_stack := p AND FRAME, t_suid := fst ids, t_euid := fst ids, t_sgid := snd ids, t_egid := snd ids\<rparr>) s)
   }"

definition exec_load ::
  "'a fs_scheme world \<Rightarrow> (u32 \<Rightarrow> u8) \<Rightarrow> bool \<Rightarrow> nat \<Rightarrow> nat \<Rightarrow> u16 \<times> u16 \<Rightarrow> u32 \<times> int \<Rightarrow> u32 \<times> int \<Rightarrow> u32 \<times> arg_pages
     \<Rightarrow> 'a fs_scheme \<Rightarrow> 'a fs_scheme exec_result" where
  "exec_load w loaded sh_bang inode bh ids args envs st s = do {
     let ex = read_header (b_data (bufs s bh)) s;
     s \<leftarrow> brelse w (Some bh) s;
     if \<not> good_header ex (i_size (inode_table s inode)) then exec_error2 w inode (snd st) (- ENOEXEC) s
     else do {
       (p, pages, s) \<leftarrow>
         (if sh_bang then Some (fst st, snd st, s)
          else do {
            (p, pages, s) \<leftarrow> copy_strings w (snd envs) (user_args (fst envs)) USER_FS st s;
            copy_strings w (snd args) (user_args (fst args)) USER_FS (p, pages) s
          });
       if \<not> sh_bang \<and> p = 0 then exec_error2 w inode pages (- ENOMEM) s
       else exec_commit w loaded inode ex ids (snd args) (snd envs) p pages s
     }
   }"

text \<open>\<^verbatim>\<open>cs\<close> is \<^verbatim>\<open>eip[1]\<close>. A script is started again with its interpreter, at most once.\<close>

definition do_execve ::
  "'a fs_scheme world \<Rightarrow> (u32 \<Rightarrow> u8) \<Rightarrow> u32 \<Rightarrow> u32 \<Rightarrow> u32 \<Rightarrow> u32 \<Rightarrow> u32 \<Rightarrow> 'a fs_scheme \<Rightarrow> 'a fs_scheme exec_result" where
  "do_execve w loaded buf cs filename argv envp s =
     (if cs AND 0xffff \<noteq> 0x0f then None
      else do {
        (n, s) \<leftarrow> namei w filename s;
        case n of None \<Rightarrow> Some (- ENOENT, None, s)
        | Some inode \<Rightarrow> do {
            argc \<leftarrow> count_args argv s;
            envc \<leftarrow> count_args envp s;
            let st = (131068, \<lambda>_. 0);
            (r, s) \<leftarrow> exec_start w inode s;
            case r of
              Inl e \<Rightarrow> exec_error2 w inode (snd st) e s
            | Inr (bh, ids) \<Rightarrow>
                if rdb (b_data (bufs s bh)) s = 0x23 \<and> rdb (b_data (bufs s bh) + 1) s = 0x21
                then do {
                  (r, pages, s) \<leftarrow> exec_script w buf inode bh filename (argv, argc) (envp, envc) st s;
                  case r of
                    Inl e \<Rightarrow> exec_error1 pages e s
                  | Inr (inode, argc, p) \<Rightarrow> do {
                      (r, s) \<leftarrow> exec_start w inode s;
                      case r of
                        Inl e \<Rightarrow> exec_error2 w inode pages e s
                      | Inr (bh, ids) \<Rightarrow> exec_load w loaded True inode bh ids (argv, argc) (envp, envc) (p, pages) s
                    }
                }
                else exec_load w loaded False inode bh ids (argv, argc) (envp, envc) st s
          }
      })"

end
