(* ===== verification/Reports.thy ===== *)
theory Reports
  imports Setup Traps
begin

text \<open>
  What the kernel prints about itself: \<^verbatim>\<open>show_task\<close> of \<^verbatim>\<open>kernel/sched.c\<close>, \<^verbatim>\<open>sys_show_mem\<close> of
  \<^verbatim>\<open>mm/memory.c\<close>, \<^verbatim>\<open>sys_print_hd_info\<close> of \<^verbatim>\<open>kernel/sys02.c\<close>, and the handlers of \<^verbatim>\<open>kernel/traps.c\<close> and
  \<^verbatim>\<open>panic_exp\<close> of \<^verbatim>\<open>kernel/panic.c\<close>, which print and then stop for ever.
\<close>

section \<open>Tasks\<close>

definition SIZEOF_TASK :: nat where "SIZEOF_TASK = 1048"

text \<open>\<^verbatim>\<open>p->pid\<close>, a field at byte 556: task 0 has no parent, and its line shows what is at address 556.\<close>

definition pid_at :: "task_ptr \<Rightarrow> 'a blk_scheme \<Rightarrow> int" where
  "pid_at p s = (if p = 0 then sint (rd 556 s) else t_pid (tstruct s p))"

definition pid_or_none :: "task_ptr \<Rightarrow> 'a blk_scheme \<Rightarrow> int" where
  "pid_or_none p s = (if p \<noteq> 0 then t_pid (tstruct s p) else - 1)"

text \<open>The zero bytes behind the structure, up to the part of the kernel stack that was ever used.\<close>

definition unused_stack :: "task_ptr \<Rightarrow> 'a sched_scheme \<Rightarrow> nat" where
  "unused_stack p s =
     length (takeWhile (\<lambda>i. kmem s (p + of_nat (SIZEOF_TASK + i)) = 0) [0..<4096 - SIZEOF_TASK])"

definition show_task :: "u32 \<Rightarrow> nat \<Rightarrow> task_ptr \<Rightarrow> 'a tty_state_scheme \<Rightarrow> 'a tty_state_scheme option" where
  "show_task pb nr p s = do {
     let t = tstruct s p;
     s \<leftarrow> prints pb ''%d: pid=%d, state=%d, father=%d, child=%d, ''
           [of_nat nr, of_int (t_pid t), of_int (t_state t), of_int (pid_at (p_pptr t) s), of_int (pid_or_none (p_cptr t) s)] s;
     s \<leftarrow> prints pb (''%d/%d chars free in kstack'' @ nl @ ret) [of_nat (unused_stack p s), of_nat (4096 - SIZEOF_TASK)] s;
     s \<leftarrow> prints pb ''   PC=%08X.'' [rd (p + 4 * 1019) s] s;
     if p_ysptr t \<noteq> 0 \<or> p_osptr t \<noteq> 0
     then prints pb (''   Younger sib=%d, older sib=%d'' @ nl @ ret)
            [of_int (pid_or_none (p_ysptr t) s), of_int (pid_or_none (p_osptr t) s)] s
     else prints pb (nl @ ret) [] s
   }"

fun show_tasks :: "u32 \<Rightarrow> nat list \<Rightarrow> 'a tty_state_scheme \<Rightarrow> 'a tty_state_scheme option" where
  "show_tasks pb [] s = Some s"
| "show_tasks pb (i # is) s = do {
     s \<leftarrow> (if task s i \<noteq> 0 then show_task pb i (task s i) s else Some s);
     show_tasks pb is s }"

text \<open>The function ends without a return; its callers do not use the value.\<close>

definition sys_show_state :: "u32 \<Rightarrow> 'a tty_state_scheme \<Rightarrow> 'a tty_state_scheme option" where
  "sys_show_state pb s = do { s \<leftarrow> prints pb (ret @ ''Task-info:'' @ nl @ ret) [] s; show_tasks pb [0..<NR_TASKS] s }"

section \<open>Memory\<close>

text \<open>The first loop: \<open>free\<close>, \<open>total\<close> and \<open>shared\<close>.\<close>

definition count_pages :: "'a mm_scheme \<Rightarrow> int \<times> int \<times> int" where
  "count_pages s =
     fold (\<lambda>i (free, total, shared).
       if mem_map s i = USED then (free, total, shared)
       else if mem_map s i = 0 then (free + 1, total + 1, shared)
       else (free, total + 1, shared + (uint (mem_map s i) - 1))) [0..<PAGING_PAGES] (0, 0, 0)"

text \<open>One page table: \<open>k\<close> and \<open>free\<close> count the same pages.\<close>

fun count_table :: "u32 \<Rightarrow> nat \<Rightarrow> u32 \<Rightarrow> nat list \<Rightarrow> int \<times> int \<Rightarrow> 'a tty_state_scheme \<Rightarrow> ((int \<times> int) \<times> 'a tty_state_scheme) option" where
  "count_table pb i tbl [] c s = Some (c, s)"
| "count_table pb i tbl (j # js) (k, free) s =
     (let e = rd (tbl + 4 * of_nat j) s in
      if e AND 1 \<noteq> 0 \<and> e > LOW_MEM
      then if e > HIGH_MEMORY s
           then do {
             s \<leftarrow> prints pb (''page_dir[%d][%d]: %08X'' @ nl @ ret) [of_nat i, of_nat j, e] s;
             count_table pb i tbl js (k, free) s
           }
           else count_table pb i tbl js (k + 1, free + 1) s
      else count_table pb i tbl js (k, free) s)"

text \<open>The page directory. For a table above the end of the memory the loop goes on without counting \<open>i\<close>, and
  never ends.\<close>

partial_function (option) count_dirs ::
  "u32 \<Rightarrow> nat \<Rightarrow> int \<times> int \<Rightarrow> 'a tty_state_scheme \<Rightarrow> ((int \<times> int) \<times> 'a tty_state_scheme) option" where
  "count_dirs pb i c s =
     (if \<not> i < 1024 then Some (c, s)
      else let e = pg_dir i s in
      if e AND 1 \<noteq> 0 \<and> e > HIGH_MEMORY s
      then do { s \<leftarrow> prints pb (''page directory[%d]: %08X'' @ nl @ ret) [of_nat i, e] s; count_dirs pb i c s }
      else do {
        ((k, free), s) \<leftarrow> (if e AND 1 \<noteq> 0
           then count_table pb i (e AND 0xFFFFF000) [0..<1024]
                  (if e > LOW_MEM then (fst c + 1, snd c + 1) else c) s
           else Some (c, s));
        let i = i + 1;
        if i mod 16 = 0 \<and> k \<noteq> 0
        then do {
          s \<leftarrow> prints pb (''Process %d: %d pages'' @ nl @ ret) [of_nat (i div 16) - 1, of_int (k + 1)] s;
          count_dirs pb i (0, free + 1) s
        }
        else count_dirs pb i (k, free) s
      })"

definition sys_show_mem :: "u32 \<Rightarrow> 'a tty_state_scheme \<Rightarrow> 'a tty_state_scheme option" where
  "sys_show_mem pb s = do {
     s \<leftarrow> prints pb (''Mem-info:'' @ nl @ ret) [] s;
     let (free, total, shared) = count_pages s;
     s \<leftarrow> prints pb (''%d free pages of %d'' @ nl @ ret) [of_int free, of_int total] s;
     s \<leftarrow> prints pb (''%d pages shared'' @ nl @ ret) [of_int shared] s;
     ((k, free), s) \<leftarrow> count_dirs pb 4 (0, free) s;
     prints pb (''Memory found: %d (%d)'' @ nl @ ret) [of_int (free - shared), of_int total] s
   }"

section \<open>Disks\<close>

fun print_lines :: "u32 \<Rightarrow> (string \<times> u32) list \<Rightarrow> 'a tty_state_scheme \<Rightarrow> 'a tty_state_scheme option" where
  "print_lines pb [] s = Some s"
| "print_lines pb ((f, x) # fs) s = do { s \<leftarrow> prints pb (f @ nl) [x] s; print_lines pb fs s }"

text \<open>\<open>None\<close> for a number outside the table.\<close>

definition sys_print_hd_info :: "u32 \<Rightarrow> int \<Rightarrow> 'a tty_state_scheme \<Rightarrow> (int \<times> 'a tty_state_scheme) option" where
  "sys_print_hd_info pb i s =
     (if i < 0 \<or> i \<ge> 2 then None
      else do {
        let h = hd_info s (nat i);
        s \<leftarrow> print_lines pb
          [(''hard disk %d infomation:'', of_int i), (''cylender amount: %d'', ucast (hi_cyl h)),
           (''head amount: %d'', ucast (hi_head h)),
           (''start reduce current cylender number: %d'', ucast (hi_rcur_cyl h)),
           (''write pre-compensation cylender number: %d'', ucast (hi_wpcom h)),
           (''biggest ECC length: %d'', ucast (hi_ECC_len h)), (''control byte: 0x%02X'', ucast (hi_ctl h)),
           (''standard timeout value: 0x%02X'', ucast (hi_std_timeout h)),
           (''formattint timeout value: 0x%02X'', ucast (hi_fmt_timeout h)),
           (''check timeout value: 0x%02X'', ucast (hi_check_timeout h)),
           (''head loading(stop) cylender number: %d'', ucast (hi_lzone h)),
           (''sector amount per cylender: %d'', ucast (hi_sect h)),
           (''preserve byte: 0x%02X'', ucast (hi_preserve_byte h))] s;
        s \<leftarrow> prints pb nl [] s;
        Some (100, s)
      })"

section \<open>Exceptions and panics\<close>

text \<open>The bytes and words at an address of a code or data segment of the kernel or of the task.\<close>

definition seg_mem :: "u32 \<Rightarrow> 'a sched_scheme \<Rightarrow> bytes option" where
  "seg_mem sel s =
     (if sel AND 0xFFFF = 0x08 \<or> sel AND 0xFFFF = 0x10 then Some (kmem s)
      else if sel AND 0xFFFF = 0x0F \<or> sel AND 0xFFFF = 0x17 then Some (fs_mem s) else None)"

definition get_seg_byte :: "u32 \<Rightarrow> u32 \<Rightarrow> 'a sched_scheme \<Rightarrow> u8 option" where
  "get_seg_byte sel addr s = do { m \<leftarrow> seg_mem sel s; Some (m addr) }"

definition get_seg_long :: "u32 \<Rightarrow> u32 \<Rightarrow> 'a sched_scheme \<Rightarrow> u32 option" where
  "get_seg_long sel addr s = do { m \<leftarrow> seg_mem sel s; Some (ld32 m addr) }"

fun print_words :: "u32 \<Rightarrow> u32 \<Rightarrow> nat list \<Rightarrow> 'a tty_state_scheme \<Rightarrow> 'a tty_state_scheme option" where
  "print_words pb sp [] s = Some s"
| "print_words pb sp (i # is) s = do {
     x \<leftarrow> get_seg_long 0x17 (sp + 4 * of_nat i) s; s \<leftarrow> prints pb ''%p '' [x] s; print_words pb sp is s }"

fun print_code :: "u32 \<Rightarrow> u32 \<Rightarrow> u32 \<Rightarrow> nat list \<Rightarrow> 'a tty_state_scheme \<Rightarrow> 'a tty_state_scheme option" where
  "print_code pb sel ip [] s = Some s"
| "print_code pb sel ip (i # is) s = do {
     x \<leftarrow> get_seg_byte sel (ip + of_nat i) s; s \<leftarrow> prints pb ''%02x '' [ucast x] s; print_code pb sel ip is s }"

text \<open>
  \<^verbatim>\<open>die\<close> up to its endless loop. The processor pushed \<^verbatim>\<open>eip\<close>, \<^verbatim>\<open>cs\<close>, \<^verbatim>\<open>eflags\<close>, \<^verbatim>\<open>esp\<close> and \<^verbatim>\<open>ss\<close> at \<open>esp\<close>;
  \<open>fs\<close> and \<open>tr\<close> are its registers, and \<^verbatim>\<open>str\<close> computes the number of the task from \<open>tr\<close>.
\<close>

definition die_report ::
  "u32 \<Rightarrow> (string \<Rightarrow> u32) \<Rightarrow> u16 \<Rightarrow> u16 \<Rightarrow> string \<Rightarrow> u32 \<Rightarrow> u32 \<Rightarrow> 'a tty_state_scheme \<Rightarrow> 'a tty_state_scheme option" where
  "die_report pb lit fs tr name esp nr s = do {
     let e = (\<lambda>i. rd (esp + 4 * of_nat i) s);
     s \<leftarrow> prints pb (''%s: %04x'' @ nl @ ret) [lit name, nr AND 0xFFFF] s;
     s \<leftarrow> prints pb (''EIP:'' @ tab @ ''%04x:%p'' @ nl @ ''EFLAGS:'' @ tab @ ''%p'' @ nl @ ''ESP:'' @ tab @ ''%04x:%p'' @ nl)
           [e 1, e 0, e 2, e 4, e 3] s;
     s \<leftarrow> prints pb (''fs: %04x'' @ nl) [ucast fs] s;
     s \<leftarrow> prints pb (''base: 0X%08X, limit: 0X%X'' @ nl)
           [get_base (t_ldt (cur s) 1), get_limit (\<lambda>sel. t_ldt (cur s) (unat (drop_bit 3 sel))) 0x17] s;
     s \<leftarrow> (if e 4 = 0x17
           then do {
             s \<leftarrow> prints pb ''Stack: '' [] s;
             s \<leftarrow> print_words pb (e 3) [0..<4] s;
             prints pb nl [] s
           }
           else Some s);
     let i = drop_bit 4 (ucast tr - 32 :: u32);
     s \<leftarrow> prints pb (''Pid: %d, process nr: %d'' @ nl @ ret) [of_int (t_pid (cur s)), 0xFFFF AND i] s;
     s \<leftarrow> print_code pb (e 1) (e 0) [0..<10] s;
     prints pb (nl @ ret) [] s
   }"

text \<open>The handlers that call \<^verbatim>\<open>die\<close>, with the name they pass.\<close>

fun trap_name :: "trap_handler \<Rightarrow> string option" where
  "trap_name Double_fault = Some ''double fault''"
| "trap_name General_protection = Some ''general protection''"
| "trap_name Alignment_check = Some ''alignment check''"
| "trap_name Divide_error = Some ''divide error''"
| "trap_name Nmi = Some ''nmi''"
| "trap_name Debug = Some ''debug''"
| "trap_name Overflow = Some ''overflow''"
| "trap_name Bounds = Some ''bounds''"
| "trap_name Invalid_op = Some ''invalid operand''"
| "trap_name Device_not_available = Some ''device not available''"
| "trap_name Coprocessor_segment_overrun = Some ''coprocessor segment overrun''"
| "trap_name Invalid_TSS = Some ''invalid TSS''"
| "trap_name Segment_not_present = Some ''segment not present''"
| "trap_name Stack_segment = Some ''stack segment''"
| "trap_name Reserved = Some ''reserved (15,17-47) error''"
| "trap_name Coprocessor_error = Some ''coprocessor error''"
| "trap_name _ = None"

text \<open>\<^verbatim>\<open>do_int3\<close> prints the registers and returns.\<close>

record saved_regs =
  r_fs :: u32
  r_es :: u32
  r_ds :: u32
  r_ebp :: u32
  r_esi :: u32
  r_edi :: u32
  r_edx :: u32
  r_ecx :: u32
  r_ebx :: u32
  r_eax :: u32

definition do_int3 :: "u32 \<Rightarrow> u16 \<Rightarrow> u32 \<Rightarrow> saved_regs \<Rightarrow> 'a tty_state_scheme \<Rightarrow> 'a tty_state_scheme option" where
  "do_int3 pb tr esp r s = do {
     let e = (\<lambda>i. rd (esp + 4 * of_nat i) s);
     let four = (\<lambda>a b c d. a @ tab @ tab @ b @ tab @ tab @ c @ tab @ tab @ d @ nl @ ret);
     let row = ''%8x'' @ tab @ ''%8x'' @ tab @ ''%8x'' @ tab @ ''%8x'' @ nl @ ret;
     s \<leftarrow> prints pb (four ''eax'' ''ebx'' ''ecx'' ''edx'' @ row) [r_eax r, r_ebx r, r_ecx r, r_edx r] s;
     s \<leftarrow> prints pb (four ''esi'' ''edi'' ''ebp'' ''esp'' @ row) [r_esi r, r_edi r, r_ebp r, esp] s;
     s \<leftarrow> prints pb (nl @ ret @ ''ds'' @ tab @ ''es'' @ tab @ ''fs'' @ tab @ ''tr'' @ nl @ ret
             @ ''%4x'' @ tab @ ''%4x'' @ tab @ ''%4x'' @ tab @ ''%4x'' @ nl @ ret)
           [r_ds r, r_es r, r_fs r, ucast tr] s;
     prints pb (''EIP: %8x   CS: %4x  EFLAGS: %8x'' @ nl @ ret) [e 0, e 1, e 2] s
   }"

text \<open>\<^verbatim>\<open>panic_exp\<close> up to its endless loop.\<close>

definition panic_report ::
  "u32 \<Rightarrow> (string \<Rightarrow> u32) \<Rightarrow> string \<Rightarrow> string \<Rightarrow> nat \<Rightarrow> string \<Rightarrow> 'a tty_state_scheme \<Rightarrow> 'a tty_state_scheme option" where
  "panic_report pb lit msg file_name line func s = do {
     s \<leftarrow> prints pb (tab @ ''Kernel panic: %s'' @ nl) [lit msg] s;
     s \<leftarrow> prints pb (tab @ ''file name: %s'' @ nl) [lit file_name] s;
     s \<leftarrow> prints pb (tab @ ''line number: %d'' @ nl) [of_nat line] s;
     s \<leftarrow> prints pb (tab @ ''function name: %s'' @ nl) [lit func] s;
     if current s = task s 0 then prints pb (''In swapper task - not syncing'' @ nl @ ret) [] s else Some s
   }"

end
