(* ===== verification/System_Calls.thy ===== *)
theory System_Calls
  imports Exec Reports Tty_Queue File_Counts
begin

text \<open>
  The way of a system call: the wrappers of \<^verbatim>\<open>include/unistd.h\<close> and \<^verbatim>\<open>lib\<close>, which load registers and execute
  \<^verbatim>\<open>int $0x80\<close>; the entry \<^verbatim>\<open>system_call\<close> of \<^verbatim>\<open>kernel/sys_call.s\<close> with its table; the routines of the other
  theories; and the way back, where signals are delivered. \<^verbatim>\<open>timer_interrupt\<close> takes the same way back.
\<close>

section \<open>Numbers and the table\<close>

text \<open>The routines in \<^verbatim>\<open>sys_call_table\<close>, without the prefix \<^verbatim>\<open>sys_\<close>.\<close>

datatype service =
  Fork | Write_simple | Pause | Print_sys_time | Print_sys_info | Print_hd_info | Start_shell | Setup | Ls | Pwd
  | Chdir | Mkdir | Rmdir | Sync | Malloc_page | Wait_return | Read_simple | Clear | Show_state | Show_mem
  | Kill | Write | Exit | Close | Dup | Execve | Open | Setsid | Waitpid | Reboot

definition sys_call_table :: "service list" where
  "sys_call_table =
     [Fork, Write_simple, Pause, Print_sys_time, Print_sys_info, Print_hd_info, Start_shell, Setup, Ls, Pwd, Chdir,
      Mkdir, Rmdir, Sync, Malloc_page, Wait_return, Read_simple, Clear, Show_state, Show_mem, Kill, Write, Exit,
      Close, Dup, Execve, Open, Setsid, Waitpid, Reboot]"

text \<open>The numbers \<^verbatim>\<open>__NR_\<close> of \<^verbatim>\<open>unistd.h\<close>.\<close>

fun NR :: "service \<Rightarrow> nat" where
  "NR Fork = 0"
| "NR Write_simple = 1"
| "NR Pause = 2"
| "NR Print_sys_time = 3"
| "NR Print_sys_info = 4"
| "NR Print_hd_info = 5"
| "NR Start_shell = 6"
| "NR Setup = 7"
| "NR Ls = 8"
| "NR Pwd = 9"
| "NR Chdir = 10"
| "NR Mkdir = 11"
| "NR Rmdir = 12"
| "NR Sync = 13"
| "NR Malloc_page = 14"
| "NR Wait_return = 15"
| "NR Read_simple = 16"
| "NR Clear = 17"
| "NR Show_state = 18"
| "NR Show_mem = 19"
| "NR Kill = 20"
| "NR Write = 21"
| "NR Exit = 22"
| "NR Close = 23"
| "NR Dup = 24"
| "NR Execve = 25"
| "NR Open = 26"
| "NR Setsid = 27"
| "NR Waitpid = 28"
| "NR Reboot = 29"

text \<open>Services are compared by their numbers.\<close>

instantiation service :: linorder
begin

definition less_eq_service :: "service \<Rightarrow> service \<Rightarrow> bool" where
  "less_eq_service x y \<longleftrightarrow> NR x \<le> NR y"

definition less_service :: "service \<Rightarrow> service \<Rightarrow> bool" where
  "less_service x y \<longleftrightarrow> NR x < NR y"

instance
proof
  fix x y z :: service
  show "x \<le> y \<Longrightarrow> y \<le> x \<Longrightarrow> x = y"
    by (cases x; cases y; simp add: less_eq_service_def)
qed (auto simp: less_eq_service_def less_service_def)

end

lemma table_by_number: "sys_call_table ! NR x = x" "NR x < length sys_call_table"
  by (cases x; simp add: sys_call_table_def)+

section \<open>The registers of the task\<close>

record user_regs = sigregs +
  ur_ebx :: u32
  ur_fs :: u32
  ur_es :: u32
  ur_ds :: u32
  ur_cs :: u32
  ur_ss :: u32
  ur_esi :: u32
  ur_edi :: u32
  ur_ebp :: u32
  ur_gs :: u32

definition with_sigregs :: "sigregs \<Rightarrow> user_regs \<Rightarrow> user_regs" where
  "with_sigregs q r = r\<lparr>sr_eax := sr_eax q, sr_ecx := sr_ecx q, sr_edx := sr_edx q, sr_orig_eax := sr_orig_eax q,
     sr_eip := sr_eip q, sr_eflags := sr_eflags q, sr_esp := sr_esp q\<rparr>"

text \<open>What \<^verbatim>\<open>copy_process\<close> finds on its stack.\<close>

definition fork_frame :: "user_regs \<Rightarrow> fork_regs" where
  "fork_frame r = \<lparr>fr_ebp = ur_ebp r, fr_edi = ur_edi r, fr_esi = ur_esi r, fr_gs = ur_gs r, fr_ebx = ur_ebx r,
     fr_ecx = sr_ecx r, fr_edx = sr_edx r, fr_fs = ur_fs r, fr_es = ur_es r, fr_ds = ur_ds r, fr_eip = sr_eip r,
     fr_cs = ur_cs r, fr_eflags = sr_eflags r, fr_esp = sr_esp r, fr_ss = ur_ss r\<rparr>"

text \<open>
  Addresses in the image of the kernel: the buffer of \<^verbatim>\<open>printk\<close>, the string literals and the buffer for the
  first line of a script; the memory of a program that was just loaded; and what a routine that ends without
  a \<^verbatim>\<open>return\<close> leaves in \<^verbatim>\<open>eax\<close>.
\<close>

record image =
  im_printbuf :: u32
  im_literal :: "string \<Rightarrow> u32"
  im_script :: u32
  im_loaded :: "u32 \<Rightarrow> u8"
  im_eax :: u32

section \<open>The routines\<close>

text \<open>The value for \<^verbatim>\<open>eax\<close>, the registers and the state; no registers when the task has ended.\<close>

type_synonym 's reply = "((u32 \<times> user_regs) option \<times> 's) option"

definition reply :: "user_regs \<Rightarrow> (int \<times> 's) option \<Rightarrow> 's reply" where
  "reply r x = do { (v, s) \<leftarrow> x; Some (Some (of_int v, r), s) }"

definition no_value :: "image \<Rightarrow> user_regs \<Rightarrow> 's option \<Rightarrow> 's reply" where
  "no_value im r x = do { s \<leftarrow> x; Some (Some (im_eax im, r), s) }"

definition sys_fork :: "'a files_scheme world \<Rightarrow> user_regs \<Rightarrow> 'a files_scheme \<Rightarrow> (int \<times> 'a files_scheme) option" where
  "sys_fork w r s = do {
     (nr, s) \<leftarrow> find_empty_process s;
     if nr < 0 then Some (nr, s) else copy_process w (nat nr) (fork_frame r) s
   }"

definition sys_execve :: "'a fs_scheme world \<Rightarrow> image \<Rightarrow> user_regs \<Rightarrow> 'a fs_scheme \<Rightarrow> 'a fs_scheme reply" where
  "sys_execve w im r s = do {
     (v, ip, s) \<leftarrow> do_execve w (im_loaded im) (im_script im) (ur_cs r) (ur_ebx r) (sr_ecx r) (sr_edx r) s;
     Some (Some (of_int v, case ip of None \<Rightarrow> r | Some (eip, esp) \<Rightarrow> r\<lparr>sr_eip := eip, sr_esp := esp\<rparr>), s)
   }"

text \<open>\<^verbatim>\<open>sys_reboot\<close> prints and resets the machine.\<close>

definition serve ::
  "'a tty_state_scheme world \<Rightarrow> image \<Rightarrow> service \<Rightarrow> user_regs \<Rightarrow> 'a tty_state_scheme \<Rightarrow> 'a tty_state_scheme reply" where
  "serve w im x r s =
     (let pb = im_printbuf im; ebx = ur_ebx r; ecx = sr_ecx r; edx = sr_edx r in
      case x of
        Fork \<Rightarrow> reply r (sys_fork w r s)
      | Write_simple \<Rightarrow> reply r (sys_write_simple w ebx (sint ecx) s)
      | Pause \<Rightarrow> reply r (sys_pause w s)
      | Print_sys_time \<Rightarrow> reply r (sys_print_sys_time w pb s)
      | Print_sys_info \<Rightarrow> reply r (sys_print_sys_info pb s)
      | Print_hd_info \<Rightarrow> reply r (sys_print_hd_info pb (sint ebx) s)
      | Start_shell \<Rightarrow> reply r (sys_start_shell pb s)
      | Setup \<Rightarrow> reply r (sys_setup w pb (im_literal im) s)
      | Ls \<Rightarrow> reply r (sys_ls w pb (sint ebx) s)
      | Pwd \<Rightarrow> reply r (sys_pwd w pb s)
      | Chdir \<Rightarrow> reply r (sys_chdir w ebx s)
      | Mkdir \<Rightarrow> reply r (sys_mkdir w ebx (ucast ecx) s)
      | Rmdir \<Rightarrow> reply r (sys_rmdir w ebx s)
      | Sync \<Rightarrow> reply r (sys_sync w s)
      | Malloc_page \<Rightarrow> reply r (sys_malloc_page w ebx s)
      | Wait_return \<Rightarrow> reply r (do { v \<leftarrow> sys_wait_return s; Some (v, s) })
      | Read_simple \<Rightarrow> reply r (sys_read_simple w ebx s)
      | Clear \<Rightarrow> no_value im r (sys_clear pb s)
      | Show_state \<Rightarrow> no_value im r (sys_show_state pb s)
      | Show_mem \<Rightarrow> no_value im r (sys_show_mem pb s)
      | Kill \<Rightarrow> reply r (sys_kill (sint ebx) (sint ecx) s)
      | Write \<Rightarrow> reply r (sys_write w (unat ebx) ecx (sint edx) s)
      | Exit \<Rightarrow> do { s \<leftarrow> sys_exit w ebx s; Some (None, s) }
      | Close \<Rightarrow> reply r (sys_close w (unat ebx) s)
      | Dup \<Rightarrow> reply r (Some (sys_dup (unat ebx) s))
      | Execve \<Rightarrow> sys_execve w im r s
      | Open \<Rightarrow> reply r (sys_open w ebx ecx (ucast edx) s)
      | Setsid \<Rightarrow> reply r (Some (sys_setsid s))
      | Waitpid \<Rightarrow> reply r (sys_waitpid w (sint ebx) ecx edx s)
      | Reboot \<Rightarrow> None)"

section \<open>Entry and return\<close>

text \<open>Label \<^verbatim>\<open>2\<close>: another task runs when this one may not go on.\<close>

definition resched :: "'a sched_scheme world \<Rightarrow> 'a sched_scheme \<Rightarrow> 'a sched_scheme option" where
  "resched w s = (if t_state (cur s) \<noteq> 0 \<or> t_counter (cur s) = 0 then schedule w s else Some s)"

text \<open>The signals that end the task in \<^verbatim>\<open>do_signal\<close>, which does not come back then.\<close>

definition ends_task :: "nat \<Rightarrow> 'a sched_scheme \<Rightarrow> bool" where
  "ends_task signr s \<longleftrightarrow> sa_handler (t_sigaction (cur s) (signr - 1)) = 0
     \<and> signr \<notin> set [SIGCONT, SIGCHLD, SIGSTOP, SIGTSTP, SIGTTIN, SIGTTOU]"

partial_function (option) ret_from_sys_call ::
  "'a tty_state_scheme world \<Rightarrow> user_regs \<Rightarrow> 'a tty_state_scheme \<Rightarrow> (user_regs option \<times> 'a tty_state_scheme) option" where
  "ret_from_sys_call w r s =
     (let pending = t_signal (cur s) AND NOT (t_blocked (cur s)) in
      if current s = task s 0 \<or> (ucast (ur_cs r) :: u16) \<noteq> 0x0f \<or> (ucast (ur_ss r) :: u16) \<noteq> 0x17 \<or> pending = 0
      then Some (Some r, s)
      else let n = bsf pending; s = mod_cur (\<lambda>t. t\<lparr>t_signal := unset_bit n (t_signal t)\<rparr>) s in do {
        (again, q, s') \<leftarrow> do_signal w (n + 1) (sigregs.truncate r) s;
        if ends_task (n + 1) s then Some (None, s')
        else if again \<noteq> 0
        then do { s \<leftarrow> resched w s'; ret_from_sys_call w (with_sigregs q r) s }
        else Some (Some (with_sigregs q r), s')
      })"

definition system_call ::
  "'a tty_state_scheme world \<Rightarrow> image \<Rightarrow> user_regs \<Rightarrow> 'a tty_state_scheme \<Rightarrow> (user_regs option \<times> 'a tty_state_scheme) option" where
  "system_call w im r s =
     (let n = unat (sr_eax r); r = r\<lparr>sr_orig_eax := sr_eax r\<rparr> in
      if n \<ge> length sys_call_table then ret_from_sys_call w (r\<lparr>sr_eax := of_int (- ENOSYS)\<rparr>) s
      else do {
        (v, s) \<leftarrow> serve w im (sys_call_table ! n) r s;
        case v of None \<Rightarrow> Some (None, s)
        | Some (eax, r) \<Rightarrow> do { s \<leftarrow> resched w s; ret_from_sys_call w (r\<lparr>sr_eax := eax\<rparr>) s }
      })"

definition timer_interrupt ::
  "'a tty_state_scheme world \<Rightarrow> user_regs \<Rightarrow> 'a tty_state_scheme \<Rightarrow> (user_regs option \<times> 'a tty_state_scheme) option" where
  "timer_interrupt w r s = do {
     s \<leftarrow> do_timer w (ur_cs r AND 3) (outb 0x20 0x20 (s\<lparr>jiffies := jiffies s + 1\<rparr>));
     ret_from_sys_call w (r\<lparr>sr_orig_eax := - 1\<rparr>) s
   }"

section \<open>The wrappers\<close>

text \<open>The value of the wrapper and \<^verbatim>\<open>errno\<close>.\<close>

definition wrapper_result :: "u32 \<Rightarrow> int \<Rightarrow> int \<times> int" where
  "wrapper_result res errno = (if sint res \<ge> 0 then (sint res, errno) else (- 1, s32 (- sint res)))"

text \<open>\<^verbatim>\<open>_syscall0\<close> to \<^verbatim>\<open>_syscall3\<close> and \<^verbatim>\<open>open\<close>; a wrapper with fewer arguments leaves the other registers as they are.\<close>

definition load_args :: "u32 list \<Rightarrow> user_regs \<Rightarrow> user_regs" where
  "load_args args r =
     (case args of [] \<Rightarrow> r | [a] \<Rightarrow> r\<lparr>ur_ebx := a\<rparr> | [a, b] \<Rightarrow> r\<lparr>ur_ebx := a, sr_ecx := b\<rparr>
      | a # b # c # _ \<Rightarrow> r\<lparr>ur_ebx := a, sr_ecx := b, sr_edx := c\<rparr>)"

definition user_call ::
  "'a tty_state_scheme world \<Rightarrow> image \<Rightarrow> service \<Rightarrow> u32 list \<Rightarrow> int \<Rightarrow> user_regs \<Rightarrow> 'a tty_state_scheme
     \<Rightarrow> (((int \<times> int) \<times> user_regs) option \<times> 'a tty_state_scheme) option" where
  "user_call w im x args errno r s = do {
     (r, s) \<leftarrow> system_call w im ((load_args args r)\<lparr>sr_eax := of_nat (NR x)\<rparr>) s;
     Some (case r of None \<Rightarrow> None | Some r \<Rightarrow> Some (wrapper_result (sr_eax r) errno, r), s)
   }"

text \<open>\<^verbatim>\<open>wait\<close> of \<^verbatim>\<open>lib/wait.c\<close>.\<close>

definition user_wait ::
  "'a tty_state_scheme world \<Rightarrow> image \<Rightarrow> u32 \<Rightarrow> int \<Rightarrow> user_regs \<Rightarrow> 'a tty_state_scheme
     \<Rightarrow> (((int \<times> int) \<times> user_regs) option \<times> 'a tty_state_scheme) option" where
  "user_wait w im wait_stat = user_call w im Waitpid [- 1, wait_stat, 0]"


section \<open>A call that neither sleeps nor is interrupted\<close>

text \<open>The task goes on and has no signal to handle.\<close>

definition goes_on :: "'a sched_scheme \<Rightarrow> bool" where
  "goes_on s \<longleftrightarrow> t_state (cur s) = 0 \<and> t_counter (cur s) \<noteq> 0 \<and> t_signal (cur s) AND NOT (t_blocked (cur s)) = 0"

lemma goes_on_returns:
  assumes "goes_on s"
  shows "resched w s = Some s" "ret_from_sys_call w r s = Some (Some r, s)"
  using assms by (simp_all add: goes_on_def resched_def ret_from_sys_call.simps)

lemma user_call_serves:
  assumes "serve w im x ((load_args args r)\<lparr>sr_eax := of_nat (NR x), sr_orig_eax := of_nat (NR x)\<rparr>) s = Some (Some (v, r'), s')"
    "goes_on s'"
  shows "user_call w im x args e r s = Some (Some (wrapper_result v e, r'\<lparr>sr_eax := v\<rparr>), s')"
proof -
  have "unat (of_nat (NR x) :: u32) = NR x" using table_by_number(2) [of x] by (simp add: unat_of_nat sys_call_table_def)
  moreover have "\<not> length sys_call_table \<le> NR x" using table_by_number(2) [of x] by simp
  ultimately show ?thesis
    using assms table_by_number(1) goes_on_returns [OF assms(2)]
    by (simp add: user_call_def system_call_def Let_def)
qed

lemma wrapper_errors:
  "0 < e \<Longrightarrow> e < 2 ^ 31 \<Longrightarrow> wrapper_result (of_int (- e)) errno = (- 1, e)"
  "0 \<le> v \<Longrightarrow> v < 2 ^ 31 \<Longrightarrow> wrapper_result (of_int v) errno = (v, errno)"
proof -
  have s: "sint (of_int x :: u32) = x" if "- (2 ^ 31) \<le> x" "x < 2 ^ 31" for x :: int
  proof -
    have "signed_take_bit 31 x = x" using that by (intro signed_take_bit_int_eq_self) simp_all
    then show ?thesis by (simp only: sint_sbintrunc' len_num1 len_bit0 of_int_eq_id) simp
  qed
  show "0 < e \<Longrightarrow> e < 2 ^ 31 \<Longrightarrow> wrapper_result (of_int (- e)) errno = (- 1, e)"
    using s [of "- e"] by (simp add: wrapper_result_def s32_def)
  show "0 \<le> v \<Longrightarrow> v < 2 ^ 31 \<Longrightarrow> wrapper_result (of_int v) errno = (v, errno)"
    using s [of v] by (simp add: wrapper_result_def)
qed


lemma goes_on_cong:
  assumes "t_state (cur s') = t_state (cur s)" "t_counter (cur s') = t_counter (cur s)"
    "t_signal (cur s') = t_signal (cur s)" "t_blocked (cur s') = t_blocked (cur s)"
  shows "goes_on s' = goes_on s"
  by (simp add: goes_on_def assms)

text \<open>
  C17. \<^verbatim>\<open>dup\<close> as a program sees it, from the wrapper through the gate, the table, the kernel's routine and back:
  it returns the lowest free descriptor, which then names the same open file, or -1 with the reason in
  \<^verbatim>\<open>errno\<close>; no other descriptor changes and the file table stays well-formed.
\<close>

theorem dup_from_user:
  assumes "files_ok s" "goes_on s"
  shows "\<exists>v e' r' s'. user_call w im Dup [fd] e r s = Some (Some ((v, e'), r'), s') \<and> files_ok s'
    \<and> (case (file_of_fd (unat fd) s, find (\<lambda>i. t_filp (cur s) i = None) [0..<NR_OPEN]) of
        (None, _) \<Rightarrow> v = - 1 \<and> e' = EBADF \<and> s' = s
      | (Some f, None) \<Rightarrow> v = - 1 \<and> e' = EMFILE \<and> s' = s
      | (Some f, Some k) \<Rightarrow> v = int k \<and> e' = e \<and> t_filp (cur s') = (t_filp (cur s))(k := Some f)
          \<and> f_count (file_table s' f) = f_count (file_table s f) + 1)"
proof -
  let ?r = "(load_args [fd] r)\<lparr>sr_eax := of_nat (NR Dup), sr_orig_eax := of_nat (NR Dup)\<rparr>"
  obtain v s' where d: "dupfd (unat fd) 0 s = (v, s')" by fastforce
  have ok: "files_ok s'" using dupfd_counts [OF assms(1), of "unat fd" 0] d by simp
  have on: "goes_on s'"
  proof -
    have "goes_on s' = goes_on s"
      by (rule goes_on_cong)
        (use d in \<open>auto simp: dupfd_def mod_file_def set_filp_def mod_task_def split: option.splits if_splits\<close>)
    then show ?thesis using assms(2) by simp
  qed
  have "serve w im Dup ?r s = Some (Some (of_int v, ?r), s')"
    using d by (simp add: serve_def reply_def sys_dup_def load_args_def Let_def)
  from user_call_serves [OF this on]
  have call: "user_call w im Dup [fd] e r s = Some (Some (wrapper_result (of_int v) e, ?r\<lparr>sr_eax := of_int v\<rparr>), s')" .
  show ?thesis
  proof (cases "file_of_fd (unat fd) s")
    case None
    then have "v = - EBADF" "s' = s" using d by (simp_all add: dupfd_def)
    then show ?thesis using call None ok wrapper_errors(1) [of EBADF e] by simp
  next
    case (Some f)
    show ?thesis
    proof (cases "find (\<lambda>i. t_filp (cur s) i = None) [0..<NR_OPEN]")
      case None
      then have "v = - EMFILE" "s' = s" using d Some by (simp_all add: dupfd_def)
      then show ?thesis using call Some None ok wrapper_errors(1) [of EMFILE e] by simp
    next
      case k: (Some k)
      then have "k < NR_OPEN" by (auto simp: find_Some_iff nth_upt)
      then have res: "wrapper_result (of_int (int k)) e = (int k, e)" by (intro wrapper_errors(2)) simp_all
      have "v = int k" "t_filp (cur s') = (t_filp (cur s))(k := Some f)"
        "f_count (file_table s' f) = f_count (file_table s f) + 1"
        using d Some k by (auto simp: dupfd_def mod_file_def set_filp_def mod_task_def)
      then show ?thesis using call Some k ok res by simp
    qed
  qed
qed

section \<open>Delivering a signal\<close>

lemma bsf_lowest:
  assumes "v \<noteq> 0"
  shows "bsf v < 32" "bit v (bsf v)" "k < bsf v \<Longrightarrow> \<not> bit v k"
proof -
  obtain j where j: "bit v j" using assms by (auto simp: bit_eq_iff)
  then have "j < 32" using bit_imp_le_length by fastforce
  let ?P = "\<lambda>n. \<not> bit v n"
  have len: "bsf v \<le> 32" using length_takeWhile_le [of ?P "[0..<32]"] by (simp add: bsf_def)
  show low: "k < bsf v \<Longrightarrow> \<not> bit v k" for k
    using takeWhile_upt(2) [of k ?P 32] by (simp add: bsf_def)
  show "bsf v < 32" using low [of j] j \<open>j < 32\<close> len by (cases "bsf v = 32") auto
  then show "bit v (bsf v)" using takeWhile_upt(3) [of ?P 32] by (simp add: bsf_def)
qed

lemma ld32_st32_apart:
  assumes "4 \<le> unat x" "unat x + 4 \<le> 2 ^ 32"
  shows "ld32 (st32 (a + x) v m) a = ld32 m a"
proof -
  have "x + of_nat j \<noteq> of_nat k" if "j < 4" "k < 4" for j k
  proof
    assume "x + of_nat j = of_nat k"
    moreover have "unat (x + of_nat j) = unat x + j" using assms that by (simp add: unat_word_ariths unat_of_nat)
    moreover have "unat (of_nat k :: u32) = k" using that by (simp add: unat_of_nat)
    ultimately have "unat x + j = k" by metis
    then show False using assms(1) that by simp
  qed
  then have ne: "a + x + of_nat j \<noteq> a + of_nat k" if "j < 4" "k < 4" for j k
    using that by (simp add: add.assoc)
  have "st32 (a + x) v m (a + of_nat k) = m (a + of_nat k)" if k: "k < 4" for k
    unfolding st32_def
    using ne [OF _ k, of 0] ne [OF _ k, of 1] ne [OF _ k, of 2] ne [OF _ k, of 3] by (auto simp: add.assoc)
  from this [of 0] this [of 1] this [of 2] this [of 3] show ?thesis by (simp add: ld32_def)
qed

lemma put_longs_read:
  assumes "length vs \<le> 1024" "i < length vs"
  shows "get_fs_long (a + 4 * of_nat i) (put_longs vs a s) = vs ! i"
  using assms
proof (induction vs arbitrary: a i s)
  case (Cons v vs)
  have keep: "get_fs_long a (put_longs us (a + 4 * of_nat (Suc j)) t) = get_fs_long a t" if "length us + j \<le> 1023" for us j t
    using that
  proof (induction us arbitrary: j t)
    case (Cons u us)
    have "get_fs_long a (put_longs us (a + 4 * of_nat (Suc (Suc j))) (put_fs_long u (a + 4 * of_nat (Suc j)) t))
        = get_fs_long a (put_fs_long u (a + 4 * of_nat (Suc j)) t)"
      using Cons.IH [of "Suc j"] Cons.prems by simp
    moreover have "get_fs_long a (put_fs_long u (a + 4 * of_nat (Suc j)) t) = get_fs_long a t"
    proof -
      have j: "unat (4 * of_nat (Suc j) :: u32) = 4 * Suc j"
      proof -
        have "(4 * of_nat (Suc j) :: u32) = of_nat (4 * Suc j)" by simp
        also have "unat \<dots> = 4 * Suc j" using Cons.prems by (simp only: unat_of_nat) simp
        finally show ?thesis .
      qed
      show ?thesis
        unfolding get_fs_long_def put_fs_long_def sched.simps
        using ld32_st32_apart [of "4 * of_nat (Suc j)" a u] j Cons.prems by simp
    qed
    ultimately show ?case by (simp add: algebra_simps)
  qed simp
  show ?case
  proof (cases i)
    case 0
    then show ?thesis using keep [of vs 0 "put_fs_long v a s"] Cons.prems
      by (simp add: get_fs_long_def put_fs_long_def)
  next
    case (Suc j)
    then show ?thesis using Cons.IH [of j "a + 4"] Cons.prems by (simp add: algebra_simps)
  qed
qed simp

text \<open>The state in which \<^verbatim>\<open>do_signal\<close> looks at the stack of the task.\<close>

definition taking :: "nat \<Rightarrow> 'a sched_scheme \<Rightarrow> 'a sched_scheme" where
  "taking n s =
     (let s = mod_cur (\<lambda>t. t\<lparr>t_signal := unset_bit n (t_signal t)\<rparr>) s; sa = t_sigaction (cur s) n
      in if sa_flags sa AND SA_ONESHOT \<noteq> 0 then set_sigaction n (sa\<lparr>sa_handler := 0\<rparr>) s else s)"

text \<open>
  C18. On the way back to a program the lowest pending signal is taken. When it has a handler, and its stack
  can be written, the program goes on in the handler, with the restorer, the number of the signal, the old mask
  (unless the action has \<^verbatim>\<open>SA_NOMASK\<close>), \<^verbatim>\<open>eax\<close>, \<^verbatim>\<open>ecx\<close>, \<^verbatim>\<open>edx\<close>, the flags and the address to go back to
  on its stack, and with the signals of \<^verbatim>\<open>sa_mask\<close> blocked. After a system call that asks to be restarted, the
  saved \<^verbatim>\<open>eax\<close> is the number of the call and the saved address that of the \<^verbatim>\<open>int\<close> before it, or the saved
  \<^verbatim>\<open>eax\<close> is the error \<^verbatim>\<open>EINTR\<close>; otherwise they are the interrupted registers.
\<close>

theorem signal_enters_handler:
  defines "pending \<equiv> \<lambda>s. t_signal (cur s) AND NOT (t_blocked (cur s))"
  assumes user: "current s \<noteq> task s 0" "ucast (ur_cs r) = (0x0f :: u16)" "ucast (ur_ss r) = (0x17 :: u16)"
    and pending: "pending s \<noteq> 0" and n: "n = bsf (pending s)" and sa: "sa = t_sigaction (cur s) n"
    and handler: "sa_handler sa \<noteq> 0" "sa_handler sa \<noteq> 1"
    and esp: "esp = sr_esp r - 4 * (if sa_flags sa AND SA_NOMASK \<noteq> 0 then 7 else 8)"
    and stack: "verify_area w esp (if sa_flags sa AND SA_NOMASK \<noteq> 0 then 28 else 32) (taking n s) = Some s1"
    and restarts: "restarts \<longleftrightarrow> sr_orig_eax r \<noteq> - 1 \<and> (sr_eax r = of_int (- ERESTARTNOINTR)
      \<or> sr_eax r = of_int (- ERESTARTSYS) \<and> sa_flags sa AND SA_INTERRUPT = 0 \<and> SIGCONT \<le> n + 1 \<and> n + 1 \<le> SIGTTOU)"
    and eax: "eax = (if restarts then sr_orig_eax r
      else if sr_orig_eax r \<noteq> - 1 \<and> sr_eax r = of_int (- ERESTARTSYS) then of_int (- EINTR) else sr_eax r)"
    and frame: "frame = [sa_restorer sa, of_nat (n + 1)] @ (if sa_flags sa AND SA_NOMASK \<noteq> 0 then [] else [t_blocked (cur s1)])
      @ [eax, sr_ecx r, sr_edx r, sr_eflags r, if restarts then sr_eip r - 2 else sr_eip r]"
  shows "bit (pending s) n \<and> (\<forall>k<n. \<not> bit (pending s) k)
    \<and> (\<exists>r' s'. ret_from_sys_call w r s = Some (Some r', s')
       \<and> sr_eip r' = sa_handler sa \<and> sr_esp r' = esp \<and> sr_eax r' = eax
       \<and> map (\<lambda>i. get_fs_long (esp + 4 * of_nat i) s') [0..<length frame] = frame
       \<and> t_blocked (cur s') = t_blocked (cur s1) OR sa_mask sa)"
proof -
  define s0 where "s0 = mod_cur (\<lambda>t. t\<lparr>t_signal := unset_bit n (t_signal t)\<rparr>) s"
  have sa0: "t_sigaction (cur s0) n = sa" by (simp add: s0_def sa mod_task_def)
  have taking: "taking n s = (if sa_flags sa AND SA_ONESHOT \<noteq> 0 then set_sigaction n (sa\<lparr>sa_handler := 0\<rparr>) s0 else s0)"
    using sa0 by (simp add: taking_def s0_def Let_def)
  define q where "q = fst (signal_restart (n + 1) sa (sigregs.truncate r))"
  define eip where "eip = snd (signal_restart (n + 1) sa (sigregs.truncate r))"
  have q: "sr_eax q = eax" "sr_ecx q = sr_ecx r" "sr_edx q = sr_edx r" "sr_eflags q = sr_eflags r" "sr_esp q = sr_esp r"
    "eip = (if restarts then sr_eip r - 2 else sr_eip r)"
    unfolding q_def eip_def eax restarts signal_restart_def by (auto simp: sigregs.truncate_def)
  let ?q = "q\<lparr>sr_eip := sa_handler sa, sr_esp := esp\<rparr>"
  define s2 where "s2 = put_longs frame esp s1"
  define s3 where "s3 = mod_cur (\<lambda>t. t\<lparr>t_blocked := t_blocked t OR sa_mask sa\<rparr>) s2"
  have restart: "signal_restart (n + 1) sa (sigregs.truncate r) = (q, eip)" by (simp add: q_def eip_def)
  have "do_signal w (n + 1) (sigregs.truncate r) s0 = Some (0, ?q, s3)"
    using handler stack sa0 restart taking q esp frame
    by (cases "sa_flags sa AND SA_ONESHOT = 0"; cases "sa_flags sa AND SA_NOMASK = 0")
      (simp_all add: do_signal_def Let_def s3_def s2_def del: put_longs.simps)
  moreover have "\<not> ends_task (n + 1) s0" using handler(1) sa0 by (simp add: ends_task_def)
  ultimately have ret: "ret_from_sys_call w r s = Some (Some (with_sigregs ?q r), s3)"
    using user pending n by (simp add: ret_from_sys_call.simps [of w r s] pending_def s0_def Let_def)
  have "t_blocked (cur s2) = t_blocked (cur s1)"
    unfolding s2_def frame by (simp add: put_fs_long_def)
  then have blocked: "t_blocked (cur s3) = t_blocked (cur s1) OR sa_mask sa" by (simp add: s3_def mod_task_def)
  have "length frame \<le> 8" by (simp add: frame)
  then have read: "get_fs_long (esp + 4 * of_nat i) s3 = frame ! i" if "i < length frame" for i
    using put_longs_read [where vs = frame and i = i and a = esp and s = s1] that by (simp add: s3_def s2_def get_fs_long_def)
  have "map (\<lambda>i. get_fs_long (esp + 4 * of_nat i) s3) [0..<length frame] = frame"
    by (rule nth_equalityI) (simp_all add: read)
  then show ?thesis
    using ret blocked bsf_lowest [OF pending] n q(1) by (auto simp: with_sigregs_def)
qed

section \<open>An example\<close>

definition blank_image :: image where
  "blank_image = \<lparr>im_printbuf = 0, im_literal = (\<lambda>_. 0), im_script = 0, im_loaded = (\<lambda>_. 0), im_eax = 0\<rparr>"

definition user_frame :: user_regs where
  "user_frame = \<lparr>sr_eax = 1, sr_ecx = 2, sr_edx = 3, sr_orig_eax = - 1, sr_eip = 0x40, sr_eflags = 0x202, sr_esp = 0x1100,
     ur_ebx = 0, ur_fs = 0x17, ur_es = 0x17, ur_ds = 0x17, ur_cs = 0x0f, ur_ss = 0x17, ur_esi = 0, ur_edi = 0,
     ur_ebp = 0, ur_gs = 0\<rparr>"

theorem dup_from_user_witness:
  "\<exists>r' s'. user_call quiet blank_image Dup [0] 7 user_frame (open_zero (typed_tty [])) = Some (Some ((1, 7), r'), s')
    \<and> t_filp (cur s') 1 = Some 0"
proof -
  have on: "goes_on (open_zero (typed_tty []))" by (simp add: goes_on_def open_zero_def)
  have "file_of_fd (unat 0) (open_zero (typed_tty [])) = Some 0" by (simp add: file_of_fd_def open_zero_def)
  then show ?thesis
    using dup_from_user [OF open_zero_ok on, of quiet blank_image 0 7 user_frame] open_zero_free [of "typed_tty []"] by auto
qed

text \<open>A task with \<^verbatim>\<open>SIGINT\<close> pending, which it handles at \<^verbatim>\<open>0x100\<close>.\<close>

definition interrupted :: tty_state where
  "interrupted = (typed_tty [])\<lparr>task := (\<lambda>i. if i = 0 then 0x10000 else if i = 1 then 0x20000 else 0),
     current := 0x20000, kmem := (\<lambda>_. 0),
     tstruct := (\<lambda>_. blank_task\<lparr>t_signal := 2, t_blocked := 0,
       t_sigaction := (\<lambda>_. \<lparr>sa_handler = 0x100, sa_mask = 4, sa_flags = 0, sa_restorer = 0x200\<rparr>)\<rparr>)\<rparr>"

lemma verify_area_unmapped:
  assumes "kmem s = (\<lambda>_. 0)"
  shows "verify_area w addr sz s = Some s"
proof -
  have "verify_pages w a n s = Some s" for a n
  proof (induction "nat n" arbitrary: a n rule: less_induct)
    case less
    then show ?case using assms
      by (simp add: verify_pages.simps [of w a n] write_verify_def rd_def ld32_def)
  qed
  then show ?thesis by (simp add: verify_area_def)
qed

theorem signal_enters_handler_witness:
  "\<exists>r' s'. ret_from_sys_call quiet (user_frame\<lparr>sr_orig_eax := 7, sr_eax := of_int (- ERESTARTNOINTR)\<rparr>) interrupted
      = Some (Some r', s') \<and> sr_eip r' = 0x100
    \<and> get_fs_long (sr_esp r' + 4 * of_nat 3) s' = 7 \<and> get_fs_long (sr_esp r' + 4 * of_nat 7) s' = 0x3e
    \<and> t_blocked (cur s') = 4"
proof -
  let ?r = "user_frame\<lparr>sr_orig_eax := 7, sr_eax := of_int (- ERESTARTNOINTR)\<rparr>"
  have "bsf (2 :: u32) = 1" by (simp add: bsf_def upt_conv_Cons)
  then have n: "1 = bsf (t_signal (cur interrupted) AND NOT (t_blocked (cur interrupted)))"
    by (simp add: interrupted_def)
  have stack: "verify_area quiet a m (taking 1 interrupted) = Some (taking 1 interrupted)" for a m
    by (rule verify_area_unmapped) (simp add: taking_def interrupted_def Let_def mod_task_def)
  have b: "t_blocked (cur (taking 1 interrupted)) = 0"
    by (simp add: taking_def interrupted_def Let_def mod_task_def)
  have "\<exists>r' s'. ret_from_sys_call quiet ?r interrupted = Some (Some r', s')
      \<and> sr_eip r' = 0x100 \<and> sr_esp r' = sr_esp user_frame - 32 \<and> sr_eax r' = 7
      \<and> map (\<lambda>i. get_fs_long (sr_esp user_frame - 32 + 4 * of_nat i) s') [0..<8] = [0x200, 2, 0, 7, 2, 3, 0x202, 0x3e]
      \<and> t_blocked (cur s') = 4"
    using signal_enters_handler [of interrupted ?r 1, OF _ _ _ _ n refl _ _ refl stack refl refl refl] b
    by (simp add: interrupted_def user_frame_def upt_conv_Cons)
  then show ?thesis by (auto simp: upt_conv_Cons)
qed

end
