(* ===== verification/Tasks.thy ===== *)
theory Tasks
  imports Shell System_Calls
begin

text \<open>
  The tasks that \<^verbatim>\<open>init/main.c\<close> starts: task 0, which pauses; \<^verbatim>\<open>task_init\<close>, the father of the others;
  \<^verbatim>\<open>sync_task\<close>, which writes the buffers; and \<^verbatim>\<open>shell_task\<close>. They run in user mode: a step of a task is a system
  call through its wrapper, on the registers of the task and the state of the kernel. Their loops never end, so a
  task is the set of the states in which it reaches the head of its loop (\<open>at_head\<close>).
\<close>

section \<open>Steps of a task\<close>

type_synonym 's conf = "user_regs \<times> 's"

text \<open>The memory of the task: the buffer of \<^verbatim>\<open>printf\<close> and the locals \<^verbatim>\<open>i\<close> of \<^verbatim>\<open>task_init\<close> and \<^verbatim>\<open>tmp\<close> of \<^verbatim>\<open>shell_task\<close>.\<close>

record task_image = image +
  ti_printbuf :: u32
  ti_i :: u32
  ti_tmp :: u32

definition call ::
  "'a tty_state_scheme world \<Rightarrow> task_image \<Rightarrow> service \<Rightarrow> u32 list \<Rightarrow> 'a tty_state_scheme conf
     \<Rightarrow> (int \<times> 'a tty_state_scheme conf) option" where
  "call w im x args c = do {
     (r, s) \<leftarrow> user_call w (image.truncate im) x args 0 (fst c) (snd c);
     case r of None \<Rightarrow> None | Some ((v, _), r) \<Rightarrow> Some (v, r, s)
   }"

text \<open>A call for its effect only, and some of them in a row.\<close>

definition does ::
  "'a tty_state_scheme world \<Rightarrow> task_image \<Rightarrow> service \<Rightarrow> u32 list \<Rightarrow> 'a tty_state_scheme conf
     \<Rightarrow> 'a tty_state_scheme conf option" where
  "does w im x args c = do { (_, c) \<leftarrow> call w im x args c; Some c }"

fun calls ::
  "'a tty_state_scheme world \<Rightarrow> task_image \<Rightarrow> (service \<times> u32 list) list \<Rightarrow> 'a tty_state_scheme conf
     \<Rightarrow> 'a tty_state_scheme conf option" where
  "calls w im [] c = Some c"
| "calls w im ((x, args) # xs) c = do { c \<leftarrow> does w im x args c; calls w im xs c }"

definition printf ::
  "'a tty_state_scheme world \<Rightarrow> task_image \<Rightarrow> string \<Rightarrow> u32 list \<Rightarrow> 'a tty_state_scheme conf
     \<Rightarrow> 'a tty_state_scheme conf option" where
  "printf w im fmt args c = do {
     (i, m) \<leftarrow> vsprintf (ti_printbuf im) (bytes_of fmt) args (fs_mem (snd c));
     does w im Write [1, ti_printbuf im, of_int i] (fst c, (snd c)\<lparr>fs_mem := m\<rparr>)
   }"

section \<open>Endless loops\<close>

inductive at_head :: "('c \<Rightarrow> 'c option) \<Rightarrow> 'c \<Rightarrow> 'c \<Rightarrow> bool" for body :: "'c \<Rightarrow> 'c option" and c :: 'c where
  enter: "at_head body c c"
| again: "at_head body c d \<Longrightarrow> body d = Some e \<Longrightarrow> at_head body c e"

inductive_cases at_headE: "at_head body c d"

lemma at_head_invariant:
  assumes "at_head body c d" "P c" "\<And>d e. P d \<Longrightarrow> body d = Some e \<Longrightarrow> P e"
  shows "P d"
  using assms by (induction rule: at_head.induct) auto

lemma at_head_trans: "at_head body d e \<Longrightarrow> at_head body c d \<Longrightarrow> at_head body c e"
  by (induction rule: at_head.induct) (auto intro: at_head.again)

section \<open>The tasks\<close>

text \<open>The loop of \<^verbatim>\<open>sync_task\<close>.\<close>

definition sync_round ::
  "'a tty_state_scheme world \<Rightarrow> task_image \<Rightarrow> 'a tty_state_scheme conf \<Rightarrow> 'a tty_state_scheme conf option" where
  "sync_round w im = calls w im [(service.Pause, []), (service.Kill, [3, of_nat SIGCONT]), (Sync, [])]"

text \<open>What the shell does with a command (theory \<open>Shell\<close>), by system calls.\<close>

fun perform ::
  "'a tty_state_scheme world \<Rightarrow> task_image \<Rightarrow> shell_call \<Rightarrow> 'a tty_state_scheme conf \<Rightarrow> 'a tty_state_scheme conf option" where
  "perform w im shell_call.Show_mem c = does w im service.Show_mem [] c"
| "perform w im shell_call.Print_sys_time c = does w im service.Print_sys_time [] c"
| "perform w im shell_call.Print_sys_info c = does w im service.Print_sys_info [] c"
| "perform w im shell_call.Show_state c = does w im service.Show_state [] c"
| "perform w im shell_call.Clear c = does w im service.Clear [] c"
| "perform w im (shell_call.Print_hd_info i) c = does w im service.Print_hd_info [of_int i] c"
| "perform w im (shell_call.Ls f) c = does w im service.Ls [of_int f] c"
| "perform w im (shell_call.Chdir p) c = does w im service.Chdir [p] c"
| "perform w im (shell_call.Mkdir p md) c = does w im service.Mkdir [p, md] c"
| "perform w im (shell_call.Rmdir p) c = does w im service.Rmdir [p] c"
| "perform w im (shell_call.Kill pid sig) c = does w im service.Kill [of_int pid, of_nat sig] c"
| "perform w im shell_call.Pause c = does w im service.Pause [] c"
| "perform w im shell_call.Pwd c = does w im service.Pwd [] c"
| "perform w im shell_call.Reboot c = does w im service.Reboot [] c"
| "perform w im (Printf fmt) c = printf w im fmt [] c"

fun perform_all ::
  "'a tty_state_scheme world \<Rightarrow> task_image \<Rightarrow> shell_call list \<Rightarrow> 'a tty_state_scheme conf \<Rightarrow> 'a tty_state_scheme conf option" where
  "perform_all w im [] c = Some c"
| "perform_all w im (x # xs) c = do { c \<leftarrow> perform w im x c; perform_all w im xs c }"

text \<open>Before its loop the shell gets a page for the command line; the result is its address \<^verbatim>\<open>cmd_buf\<close>.\<close>

definition shell_start ::
  "'a tty_state_scheme world \<Rightarrow> task_image \<Rightarrow> 'a tty_state_scheme conf \<Rightarrow> (u32 \<times> 'a tty_state_scheme conf) option" where
  "shell_start w im c = do {
     c \<leftarrow> does w im Malloc_page [ti_tmp im] c;
     let cmd_buf = get_fs_long (ti_tmp im) (snd c);
     c \<leftarrow> does w im Start_shell [] c;
     Some (cmd_buf, c)
   }"

definition shell_round ::
  "'a tty_state_scheme world \<Rightarrow> task_image \<Rightarrow> u32 \<Rightarrow> 'a tty_state_scheme conf \<Rightarrow> 'a tty_state_scheme conf option" where
  "shell_round w im cmd_buf c = do {
     (res, c) \<leftarrow> call w im Wait_return [] c;
     if res = 0 then Some c
     else do {
       (len, c) \<leftarrow> call w im Read_simple [cmd_buf + 1024] c;
       (cs, m) \<leftarrow> shell_manage (im_literal im) cmd_buf len (fs_mem (snd c));
       perform_all w im cs (fst c, (snd c)\<lparr>fs_mem := m\<rparr>)
     }
   }"

definition shell_task ::
  "'a tty_state_scheme world \<Rightarrow> task_image \<Rightarrow> 'a tty_state_scheme conf \<Rightarrow> 'a tty_state_scheme conf \<Rightarrow> bool" where
  "shell_task w im c d \<longleftrightarrow>
     (case shell_start w im c of None \<Rightarrow> False | Some (buf, c) \<Rightarrow> at_head (shell_round w im buf) c d)"

text \<open>\<^verbatim>\<open>task_init\<close>.\<close>

definition open_tty :: "task_image \<Rightarrow> (service \<times> u32 list) list" where
  "open_tty im = [(Open, [im_literal im ''/dev/tty1'', 2, 0]), (Dup, [0]), (Dup, [0])]"

definition close_all :: "(service \<times> u32 list) list" where
  "close_all = [(Close, [0]), (Close, [1]), (Close, [2])]"

definition init_start ::
  "'a tty_state_scheme world \<Rightarrow> task_image \<Rightarrow> u32 \<Rightarrow> u32 \<Rightarrow> 'a tty_state_scheme conf \<Rightarrow> 'a tty_state_scheme conf option" where
  "init_start w im memory_end main_memory_start c = do {
     c \<leftarrow> calls w im ((service.Setup, []) # open_tty im) c;
     let n = of_nat (NR_BUFFERS (snd c));
     c \<leftarrow> printf w im (tab @ ''%d buffers = %d bytes buffer space'' @ nl @ ret) [n, n * 1024] c;
     printf w im (tab @ ''Free mem: %d bytes'' @ nl @ ret @ nl) [memory_end - main_memory_start] c
   }"

text \<open>\<^verbatim>\<open>fork\<close> until it succeeds: the result is the number of the child, and 0 in the child.\<close>

partial_function (option) init_fork ::
  "'a tty_state_scheme world \<Rightarrow> task_image \<Rightarrow> 'a tty_state_scheme conf \<Rightarrow> (int \<times> 'a tty_state_scheme conf) option" where
  "init_fork w im c = do {
     (res, c) \<leftarrow> call w im Fork [] c;
     if res < 0 then do { c \<leftarrow> printf w im (''Fork failed in init'' @ ret @ nl) [] c; init_fork w im c }
     else Some (res, c)
   }"

definition wait ::
  "'a tty_state_scheme world \<Rightarrow> task_image \<Rightarrow> u32 \<Rightarrow> 'a tty_state_scheme conf \<Rightarrow> (int \<times> 'a tty_state_scheme conf) option" where
  "wait w im wait_stat = call w im Waitpid [- 1, wait_stat, 0]"

partial_function (option) init_wait ::
  "'a tty_state_scheme world \<Rightarrow> task_image \<Rightarrow> int \<Rightarrow> 'a tty_state_scheme conf \<Rightarrow> 'a tty_state_scheme conf option" where
  "init_wait w im pid c = do {
     (v, c) \<leftarrow> wait w im (ti_i im) c;
     if pid = v then Some c else init_wait w im pid c
   }"

text \<open>A round of the last loop in the father, which has started the shell \<open>pid\<close>.\<close>

definition init_reap ::
  "'a tty_state_scheme world \<Rightarrow> task_image \<Rightarrow> int \<Rightarrow> 'a tty_state_scheme conf \<Rightarrow> 'a tty_state_scheme conf option" where
  "init_reap w im pid c = do {
     c \<leftarrow> init_wait w im pid c;
     c \<leftarrow> printf w im (nl @ ret @ ''child %d died with code %04x'' @ nl @ ret)
            [of_int pid, get_fs_long (ti_i im) (snd c)] c;
     does w im Sync [] c
   }"

definition init_round ::
  "'a tty_state_scheme world \<Rightarrow> task_image \<Rightarrow> 'a tty_state_scheme conf \<Rightarrow> 'a tty_state_scheme conf option" where
  "init_round w im c = do { (pid, c) \<leftarrow> init_fork w im c; if pid = 0 then None else init_reap w im pid c }"


text \<open>
  \<^verbatim>\<open>task_init\<close>: the father starts \<^verbatim>\<open>sync_task\<close> and comes to its last loop. A child of \<^verbatim>\<open>fork\<close> starts where its
  father was, with 0 in \<^verbatim>\<open>eax\<close>, when it is first switched to: \<open>sync_child\<close> and \<open>shell_child\<close> are what the two
  children do from there.
\<close>

definition task_init ::
  "'a tty_state_scheme world \<Rightarrow> task_image \<Rightarrow> u32 \<Rightarrow> u32 \<Rightarrow> 'a tty_state_scheme conf \<Rightarrow> 'a tty_state_scheme conf \<Rightarrow> bool" where
  "task_init w im memory_end main_memory_start c d \<longleftrightarrow>
     (case do { c \<leftarrow> init_start w im memory_end main_memory_start c; init_fork w im c } of
        Some (pid, c) \<Rightarrow> pid \<noteq> 0 \<and> at_head (init_round w im) c d
      | None \<Rightarrow> False)"

definition sync_child ::
  "'a tty_state_scheme world \<Rightarrow> task_image \<Rightarrow> 'a tty_state_scheme conf \<Rightarrow> 'a tty_state_scheme conf \<Rightarrow> bool" where
  "sync_child w im c d \<longleftrightarrow>
     (case calls w im close_all c of Some c \<Rightarrow> at_head (sync_round w im) c d | None \<Rightarrow> False)"

definition shell_child ::
  "'a tty_state_scheme world \<Rightarrow> task_image \<Rightarrow> 'a tty_state_scheme conf \<Rightarrow> 'a tty_state_scheme conf \<Rightarrow> bool" where
  "shell_child w im c d \<longleftrightarrow>
     (case calls w im (close_all @ (Setsid, []) # open_tty im) c of Some c \<Rightarrow> shell_task w im c d | None \<Rightarrow> False)"

text \<open>
  Task 0 behind \<^verbatim>\<open>move_to_user_mode\<close>, which executes \<^verbatim>\<open>int $0x80\<close> itself; its child runs \<^verbatim>\<open>task_init\<close>.
\<close>

definition int80 ::
  "'a tty_state_scheme world \<Rightarrow> task_image \<Rightarrow> service \<Rightarrow> 'a tty_state_scheme conf \<Rightarrow> 'a tty_state_scheme conf option" where
  "int80 w im x c = do {
     (r, s) \<leftarrow> system_call w (image.truncate im) ((fst c)\<lparr>sr_eax := of_nat (NR x)\<rparr>) (snd c);
     case r of None \<Rightarrow> None | Some r \<Rightarrow> Some (r, s)
   }"

definition main_task ::
  "'a tty_state_scheme world \<Rightarrow> task_image \<Rightarrow> 'a tty_state_scheme conf \<Rightarrow> 'a tty_state_scheme conf \<Rightarrow> bool" where
  "main_task w im c d \<longleftrightarrow>
     (case int80 w im Fork c of
        Some (r, s) \<Rightarrow> sr_eax r \<noteq> 0 \<and> at_head (int80 w im service.Pause) (r, s) d
      | None \<Rightarrow> False)"

section \<open>A line for the shell\<close>

lemma read_all_items:
  assumes "q_ok (tty_queues s q)" "q_items (tty_queues s q) = cs"
  shows "q_items (tty_queues (read_all (length cs) q a s) q) = []
     \<and> (\<forall>b. (\<forall>j < length cs. b \<noteq> a + of_nat j) \<longrightarrow> fs_mem (read_all (length cs) q a s) b = fs_mem s b)
     \<and> holds (fs_mem (read_all (length cs) q a s)) a cs
     \<and> tstruct (read_all (length cs) q a s) = tstruct s \<and> current (read_all (length cs) q a s) = current s"
  using assms
proof (induction cs arbitrary: s a)
  case (Cons c cs)
  let ?x = "tty_queues s q"
  note deq = ttyq.deq_items [OF Cons.prems(1)] ttyq.deq_ok [OF Cons.prems(1)]
  have len: "length cs < 1023" using items_less [of ?x] Cons.prems(2) by simp
  define s1 where "s1 = put_fs_byte c a (snd (GETCH q s))"
  have c: "fst (q_get ?x) = c" using deq Cons.prems(2) by simp
  have s1: "q_ok (tty_queues s1 q)" "q_items (tty_queues s1 q) = cs" "tstruct s1 = tstruct s" "current s1 = current s"
    "fs_mem s1 = (fs_mem s)(a := c)"
    using deq Cons.prems(2) by (simp_all add: s1_def GETCH_def)
  have step: "read_all (length (c # cs)) q a s = read_all (length cs) q (a + 1) s1"
    using c by (simp add: s1_def GETCH_def)
  let ?s = "read_all (length cs) q (a + 1) s1"
  have IH: "q_items (tty_queues ?s q) = []" "holds (fs_mem ?s) (a + 1) cs" "tstruct ?s = tstruct s1" "current ?s = current s1"
    and keep: "\<And>b. (\<forall>j < length cs. b \<noteq> a + 1 + of_nat j) \<Longrightarrow> fs_mem ?s b = ((fs_mem s)(a := c)) b"
    using Cons.IH [OF s1(1,2), of "a + 1"] unfolding s1(5) by blast+
  have apart: "\<forall>j < length cs. a \<noteq> a + 1 + of_nat j"
  proof (intro allI impI)
    fix j assume "j < length cs"
    then show "a \<noteq> a + 1 + of_nat j" using of_nat_u32_neq_0 [of "1 + j"] len by (simp add: add.assoc)
  qed
  have first: "fs_mem ?s a = c" using keep [OF apart] by simp
  have others: "fs_mem ?s b = fs_mem s b" if b: "\<forall>j < length (c # cs). b \<noteq> a + of_nat j" for b
  proof -
    have "b \<noteq> a" using b [rule_format, of 0] by simp
    moreover have "\<forall>j < length cs. b \<noteq> a + 1 + of_nat j"
    proof (intro allI impI)
      fix j assume "j < length cs"
      then have "b \<noteq> a + of_nat (Suc j)" using b [rule_format, of "Suc j"] by simp
      then show "b \<noteq> a + 1 + of_nat j" by (simp only: of_nat_Suc add.assoc not_False_eq_True)
    qed
    ultimately show ?thesis using keep [of b] by simp
  qed
  show ?case unfolding step holds_Cons
    by (intro conjI allI impI) (simp_all add: IH s1(3,4) first others del: of_nat_Suc)
qed (simp add: holds_def)

lemma call_serves:
  assumes "serve w (image.truncate im) x ((load_args args r)\<lparr>sr_eax := of_nat (NR x), sr_orig_eax := of_nat (NR x)\<rparr>) s
      = Some (Some (of_int v, r'), s')" "goes_on s'" "0 \<le> v" "v < 2 ^ 31"
  shows "call w im x args (r, s) = Some (v, r'\<lparr>sr_eax := of_int v\<rparr>, s')"
  using user_call_serves [OF assms(1,2)] wrapper_errors(2) [OF assms(3,4)] by (simp add: call_def)

lemma q_LAST_items:
  assumes "q_ok q" "q_items q = cs" "cs \<noteq> []"
  shows "q_LAST q = last cs"
proof -
  let ?h = "unat (q_head q)" and ?t = "unat (q_tail q)"
  define n where "n = ring_count 1024 ?h ?t"
  note b = q_okD [OF assms(1)]
  have ln: "length cs = n" using assms(2) by (auto simp: q_items_def n_def)
  then have n: "0 < n" "n < 1024" using assms(3) tty_ring.count_less by (metis length_greater_0_conv, simp add: n_def)
  have "last cs = q_items q ! (n - 1)" unfolding assms(2) ln [symmetric] using assms(3) by (simp add: last_conv_nth)
  also have "\<dots> = q_buf q (of_nat ((?t + (n - 1)) mod 1024))" using n by (simp add: q_items_def ring_items_def n_def)
  finally have last: "last cs = q_buf q (of_nat ((?t + (n - 1)) mod 1024))" .
  have "(?t + (n - 1)) mod 1024 = (?h + 1023) mod 1024"
  proof -
    have "(?t + n) mod 1024 = ?h" using tty_ring.tail_plus_count [of ?h ?t] b by (simp add: n_def)
    then have "(?h + 1023) mod 1024 = (?t + n + 1023) mod 1024" by (metis mod_add_left_eq)
    also have "?t + n + 1023 = ?t + (n - 1) + 1024" using n by simp
    finally show ?thesis by simp
  qed
  moreover have "unat (0x3FF AND (q_head q - 1)) = (?h + 1023) mod 1024"
  proof -
    have "unat (0x3FF AND (q_head q - 1)) = unat ((q_head q + (- 1)) AND mask 10)"
      by (simp add: ring_masks and.commute)
    also have "\<dots> = (?h + unat (- 1 :: u32)) mod 1024"
      using word_sum_low [of 10 "q_head q" "- 1"] by simp
    also have "unat (- 1 :: u32) = 1023 + 1024 * 4194303" by (simp add: unsigned_minus_1_eq_mask mask_eq_exp_minus_1)
    also have "(?h + (1023 + 1024 * 4194303)) mod 1024 = (?h + 1023) mod 1024"
      by (metis add.assoc mod_mult_self2)
    finally show ?thesis .
  qed
  ultimately show ?thesis using last unfolding q_LAST_def by (metis of_nat_unat ucast_id)
qed


lemma literals_at_other:
  assumes "literals_at lit m" "\<And>x k. x \<in> set shell_literals \<Longrightarrow> k \<le> length x \<Longrightarrow> m' (lit x + of_nat k) = m (lit x + of_nat k)"
  shows "literals_at lit m'"
  using assms by (auto simp: literals_at_def holds_def bytes_of_def less_Suc_eq_le)

text \<open>
  C7. A round of the shell from the terminal to the system calls: when the queue of the console holds lines, the
  last one complete, \<^verbatim>\<open>wait_return\<close> and \<^verbatim>\<open>read_simple\<close> bring them into the buffer and the shell makes the calls of the
  command that the words of the first line, with one blank between two of them, make up. The other lines
  are lost: the queue is empty then.
\<close>

theorem shell_runs_typed_line:
  assumes "goes_on s" "secondary (tty_table s (fg_console s)) = Some q" "q_ok (tty_queues s q)"
    and lines: "q_items (tty_queues s q) = line @ 10 # rest" "10 \<notin> set line" "0 \<notin> set line" "last (10 # rest) = 10"
    and buffer: "verify_area w (buf + 1024) (int (length (line @ 10 # rest))) s = Some s"
    and literals: "literals_at (im_literal im) (fs_mem s)"
      "\<forall>x\<in>set shell_literals. \<forall>k\<le>length x. \<forall>i<2048. im_literal im x + of_nat k \<noteq> buf + of_nat i"
  shows "\<exists>r' s'. shell_round w im buf (r, s)
       = perform_all w im (if words line = [] then [PROMPT] else command_calls buf (unwords (words line))) (r', s')
     \<and> q_items (tty_queues s' q) = [] \<and> tstruct s' = tstruct s \<and> current s' = current s"
proof -
  define cs where "cs = line @ 10 # rest"
  have len: "length cs < 1024" using items_less [of "tty_queues s q"] lines(1) by (simp add: cs_def)
  have items: "q_items (tty_queues s q) = cs" "cs \<noteq> []" "last cs = 10" using lines by (auto simp: cs_def)
  have count: "unat (q_CHARS (tty_queues s q)) = length cs" using q_CHARS_items [OF assms(3)] items by simp
  then have count': "uint (q_CHARS (tty_queues s q)) = int (length cs)" by (metis uint_nat)
  define s1 where "s1 = read_all (length cs) q (buf + 1024) s"
  have s1: "q_items (tty_queues s1 q) = []" "holds (fs_mem s1) (buf + 1024) cs" "tstruct s1 = tstruct s" "current s1 = current s"
    "\<And>b. (\<forall>j < length cs. b \<noteq> buf + 1024 + of_nat j) \<Longrightarrow> fs_mem s1 b = fs_mem s b"
    using read_all_items [OF assms(3) items(1), of "buf + 1024"] by (simp_all add: s1_def)
  have "\<not> q_EMPTY (tty_queues s q)" using q_EMPTY_items assms(3) items by simp
  then have wait: "sys_wait_return s = Some 100"
    using assms(2) q_LAST_items [OF assms(3) items(1,2)] items(3) by (simp add: sys_wait_return_def)
  then obtain r1 where wait_call: "call w im Wait_return [] (r, s) = Some (100, r1, s)"
    using call_serves [where v = 100 and x = Wait_return and args = "[]" and s = s and s' = s] assms(1)
    by (simp add: serve_def reply_def)
  have read: "sys_read_simple w (buf + 1024) s = Some (int (length cs), s1)"
    using assms(2) buffer count count'
    unfolding cs_def [symmetric] by (simp add: sys_read_simple_def Let_def s1_def)
  have "goes_on s1" using assms(1) s1(3,4) by (simp add: goes_on_def)
  then obtain r2 where read_call: "call w im Read_simple [buf + 1024] (r1, s) = Some (int (length cs), r2, s1)"
    using call_serves [where v = "int (length cs)" and x = Read_simple and args = "[buf + 1024]" and s = s and s' = s1 and r = r1
        and w = w and im = im] read len
    by (simp add: serve_def reply_def load_args_def)
  have "literals_at (im_literal im) (fs_mem s1)"
  proof (rule literals_at_other [OF literals(1)])
    fix x k assume "x \<in> set shell_literals" "k \<le> length x"
    then have apart: "\<forall>i<2048. im_literal im x + of_nat k \<noteq> buf + of_nat i" using literals(2) by blast
    show "fs_mem s1 (im_literal im x + of_nat k) = fs_mem s (im_literal im x + of_nat k)"
    proof (intro s1(5) allI impI)
      fix j assume "j < length cs"
      then have "1024 + j < 2048" using len by simp
      with apart have "im_literal im x + of_nat k \<noteq> buf + of_nat (1024 + j)" by blast
      moreover have "buf + of_nat (1024 + j) = buf + 1024 + of_nat j" by simp
      ultimately show "im_literal im x + of_nat k \<noteq> buf + 1024 + of_nat j" by argo
    qed
  qed
  moreover have "holds (fs_mem s1) (buf + 1024) (line @ [10])"
    using s1(2) by (auto simp: holds_def cs_def nth_append)
  ultimately obtain m where "shell_manage (im_literal im) buf (int (length cs)) (fs_mem s1)
      = Some (if words line = [] then [PROMPT] else command_calls buf (unwords (words line)), m)"
    using shell_manage_words [of "im_literal im" "fs_mem s1" buf line "int (length cs)"] literals(2) lines(2,3) len
    by (auto simp: cs_def)
  then have "shell_round w im buf (r, s)
      = perform_all w im (if words line = [] then [PROMPT] else command_calls buf (unwords (words line))) (r2, s1\<lparr>fs_mem := m\<rparr>)"
    using wait_call read_call by (simp add: shell_round_def)
  then show ?thesis using s1 by (intro exI [of _ r2] exI [of _ "s1\<lparr>fs_mem := m\<rparr>"]) simp
qed


section \<open>Waking the task that syncs\<close>

text \<open>
  C39. The shell hands the work to \<^verbatim>\<open>sync_task\<close> by \<^verbatim>\<open>kill(2, SIGCONT)\<close> and \<^verbatim>\<open>pause()\<close>. When process 2 waits in its \<^verbatim>\<open>pause\<close>,
  the signal is sent, and it is ready to run by the time the scheduler, called by the shell's \<^verbatim>\<open>pause\<close>, chooses
  the next task.
\<close>

theorem sync_task_woken:
  assumes "find (\<lambda>i. t_pid (tstruct s (task s i)) = 2) (down_to 63) = Some i" "task s i \<noteq> 0" "task s i \<noteq> current s"
    and "suser s" "t_state (tstruct s (task s i)) = TASK_INTERRUPTIBLE"
    and "sa_handler (t_sigaction (tstruct s (task s i)) (SIGCONT - 1)) \<noteq> 1" "\<not> bit (t_blocked (tstruct s (task s i))) (SIGCONT - 1)"
  shows "\<exists>s'. sys_kill 2 (int SIGCONT) s = Some (0, s')
     \<and> t_state (tstruct (sched_signals (mod_cur (\<lambda>t. t\<lparr>t_state := TASK_INTERRUPTIBLE\<rparr>) s')) (task s i)) = TASK_RUNNING"
proof -
  let ?p = "task s i" and ?b = "SIGCONT - 1"
  let ?I = "\<lambda>t. t_state t \<in> {TASK_INTERRUPTIBLE, TASK_RUNNING} \<and> bit (t_signal t) ?b \<and> \<not> bit (t_blocked t) ?b"
  have i: "i \<in> {1..63}" using assms(1) nth_mem [of _ "down_to 63"] by (auto simp: find_Some_iff)
  define s1 where "s1 = mod_task ?p (post_signal SIGCONT) s"
  define s2 where "s2 = mod_cur (\<lambda>t. t\<lparr>t_state := TASK_INTERRUPTIBLE\<rparr>) s1"
  have "sys_kill 2 (int SIGCONT) s = Some (0, s1)"
    using assms(1,2,4) by (simp add: sys_kill_def kill_proc_def send_sig_def s1_def)
  moreover have "t_state (tstruct (sched_signals s2) ?p) = TASK_RUNNING"
  proof -
    have "tstruct s2 ?p = post_signal SIGCONT (tstruct s ?p)" using assms(3) by (simp add: s2_def s1_def mod_task_def)
    then have "?I (tstruct s2 ?p)"
      using assms(5-7) by (simp add: post_signal_def post_signal_bits Let_def bit_or_iff bit_and_iff bit_not_iff)
    then have I: "?I (tstruct (sched_signals s2) ?p)"
      unfolding sched_signals_def by (rule for_tasks_inv [rotated])
        (auto simp: sched_check_def Let_def bit_or_iff)
    then have "bit (deliverable (tstruct (sched_signals s2) ?p)) ?b"
      by (simp add: deliverable_def bit_simps)
    then have "deliverable (tstruct (sched_signals s2) ?p) \<noteq> 0" by auto
    moreover have "task s2 = task s" by (simp add: s2_def s1_def)
    ultimately show ?thesis using sched_signals_wakes [OF i, of s2] assms(2) I by auto
  qed
  ultimately show ?thesis by (auto simp: s2_def)
qed


text \<open>
  \<^verbatim>\<open>sync_task\<close> wakes process 3, the first shell. A shell that \<^verbatim>\<open>task_init\<close> starts after that one died has another
  number, and no task is woken: it stays in the \<^verbatim>\<open>pause\<close> that follows its \<^verbatim>\<open>mkdir\<close>.
\<close>

theorem sync_wakes_no_other_shell:
  assumes "call w im service.Pause [] c = Some (v, r, s)" "goes_on s"
    and "find (\<lambda>i. t_pid (tstruct s (task s i)) = 3) (down_to 63) = None"
  shows "\<exists>r'. sync_round w im c = does w im Sync [] (r', s)"
proof -
  have "sys_kill 3 (int SIGCONT) s = Some (- ESRCH, s)"
    using assms(3) by (simp add: sys_kill_def kill_proc_def)
  then have "\<exists>r'. user_call w (image.truncate im) service.Kill [3, of_nat SIGCONT] 0 r s
      = Some (Some (wrapper_result (of_int (- ESRCH)) 0, r'), s)"
    using user_call_serves [of w "image.truncate im" service.Kill "[3, of_nat SIGCONT]" r s "of_int (- ESRCH)" _ s 0] assms(2)
    by (simp add: serve_def reply_def load_args_def)
  then obtain r' where "does w im service.Kill [3, of_nat SIGCONT] (r, s) = Some (r', s)"
    using wrapper_errors(1) [of ESRCH 0] by (auto simp: does_def call_def)
  then have "sync_round w im c = does w im Sync [] (r', s)"
    using assms(1) by (simp add: sync_round_def does_def [of w im service.Pause] split: option.splits)
      (auto simp: bind_eq_Some_conv split: Option.bind_splits)
  then show ?thesis ..
qed


section \<open>Examples\<close>

definition blank_task_image :: task_image where
  "blank_task_image = image.extend (blank_image\<lparr>im_literal := lit_addr\<rparr>) (task_image.fields 0 0 0)"

definition waiting_line :: "string \<Rightarrow> tty_state" where
  "waiting_line x = (typed_tty [])\<lparr>tty_queues := (\<lambda>_. fold q_put (bytes_of x @ [10]) empty_queue), kmem := (\<lambda>_. 0),
     fs_mem := typed_line []\<rparr>"

theorem shell_runs_typed_line_witness:
  "\<exists>r' s'. shell_round quiet blank_task_image 0x8000 (user_frame, waiting_line ''  hd1  '')
       = perform_all quiet blank_task_image [shell_call.Print_hd_info 1, PROMPT] (r', s')
     \<and> q_items (tty_queues s' 2) = []"
proof -
  let ?line = "bytes_of ''  hd1  ''"
  have w: "words ?line = [bytes_of ''hd1'']"
    by (simp add: words.simps bytes_of_def blank_def of_char_def)
  have c: "command_calls 0x8000 (bytes_of ''hd1'') = [shell_call.Print_hd_info 1, PROMPT]" by code_simp
  have n: "10 \<notin> set ?line" "0 \<notin> set ?line" by code_simp+
  have lit: "im_literal blank_task_image = lit_addr"
    by (simp add: blank_task_image_def image.defs task_image.defs blank_image_def)
  have q: "q_ok (tty_queues (waiting_line ''  hd1  '') 2)" "q_items (tty_queues (waiting_line ''  hd1  '') 2) = ?line @ [10]"
    using typed_queue [of "?line @ [10]"] by (simp_all add: waiting_line_def bytes_of_def)
  have l: "unwords [bytes_of ''hd1''] = bytes_of ''hd1''" by (simp add: unwords_def)
  have free: "goes_on (waiting_line ''  hd1  '')" "secondary (tty_table (waiting_line ''  hd1  '') 0) = Some 2"
    "fg_console (waiting_line ''  hd1  '') = 0" "kmem (waiting_line ''  hd1  '') = (\<lambda>_. 0)"
    "fs_mem (waiting_line ''  hd1  '') = typed_line []"
    by (simp_all add: waiting_line_def goes_on_def blank_task_def raw_tty_def)
  have "\<exists>r' s'. shell_round quiet blank_task_image 0x8000 (user_frame, waiting_line ''  hd1  '')
      = perform_all quiet blank_task_image
          (if words ?line = [] then [PROMPT] else command_calls 0x8000 (unwords (words ?line))) (r', s')
    \<and> q_items (tty_queues s' 2) = [] \<and> tstruct s' = tstruct (waiting_line ''  hd1  '')
    \<and> current s' = current (waiting_line ''  hd1  '')"
    by (rule shell_runs_typed_line [where rest = "[]"])
      (use free q n lit typed_line_literals lit_addr_apart in \<open>simp_all add: verify_area_unmapped\<close>)
  then show ?thesis unfolding w l c by auto
qed

definition shell_and_sync :: sched where
  "shell_and_sync = blank_sched\<lparr>task := (\<lambda>i. if i = 0 then 0x10000 else if i = 1 then 0x30000 else if i = 2 then 0x20000 else 0),
     current := 0x30000,
     tstruct := (\<lambda>p. if p = 0x20000 then blank_task\<lparr>t_pid := 2, t_state := TASK_INTERRUPTIBLE\<rparr> else blank_task\<lparr>t_pid := 3\<rparr>)\<rparr>"

theorem sync_task_woken_witness:
  "\<exists>s'. sys_kill 2 18 shell_and_sync = Some (0, s')
     \<and> t_state (tstruct (sched_signals (mod_cur (\<lambda>t. t\<lparr>t_state := TASK_INTERRUPTIBLE\<rparr>) s')) 0x20000) = TASK_RUNNING"
proof -
  have "find (\<lambda>i. t_pid (tstruct shell_and_sync (task shell_and_sync i)) = 2) (down_to 63) = Some 2"
    by (simp add: shell_and_sync_def blank_task_def down_to_def upt_rec)
  from sync_task_woken [OF this] show ?thesis
    by (simp add: shell_and_sync_def blank_task_def suser_def)
qed

end
