(* ===== verification/Screen.thy ===== *)
theory Screen
  imports Tty_Queue Strings
begin

text \<open>
  What \<^verbatim>\<open>kernel/chr_drv/console.c\<close> promises: a console is a terminal of 25 lines with 80 cells, whatever part of
  the memory of the display its screen is in. \<open>screen\<close> is the ideal terminal, which scrolls by moving its lines;
  \<open>view\<close> reads it from the memory of the display. The routines of the driver, which scroll by moving the origin and
  copy only at the end of their window, do to the view what the ideal terminal does, and nothing outside of
  the window.
\<close>

section \<open>The ideal terminal\<close>

text \<open>A cell has two bytes, a character and its attribute. \<open>look\<close> is what stays: the cell for erased places, the
  attribute, the font table and the erase key.\<close>

record screen =
  sc_x :: nat
  sc_y :: nat
  sc_bytes :: "u8 list"

record look =
  lk_erase :: u16
  lk_attr :: u8
  lk_glyph :: "nat \<Rightarrow> u8"
  lk_key :: u8

definition cell :: "u16 \<Rightarrow> u8 list" where
  "cell v = [ucast v, ucast (drop_bit 8 v)]"

definition t_lf :: "look \<Rightarrow> screen \<Rightarrow> screen" where
  "t_lf lk sc =
     (if sc_y sc + 1 < 25 then sc\<lparr>sc_y := sc_y sc + 1\<rparr>
      else sc\<lparr>sc_bytes := drop 160 (sc_bytes sc) @ concat (replicate 80 (cell (lk_erase lk)))\<rparr>)"

definition t_cr :: "screen \<Rightarrow> screen" where
  "t_cr sc = sc\<lparr>sc_x := 0\<rparr>"

definition t_wrap :: "look \<Rightarrow> screen \<Rightarrow> screen" where
  "t_wrap lk sc = (if sc_x sc \<ge> 80 then t_lf lk (sc\<lparr>sc_x := sc_x sc - 80\<rparr>) else sc)"

definition t_ht :: "look \<Rightarrow> screen \<Rightarrow> screen" where
  "t_ht lk sc = t_wrap lk (sc\<lparr>sc_x := sc_x sc + (4 - sc_x sc mod 4)\<rparr>)"

definition set_cell :: "nat \<Rightarrow> u8 \<Rightarrow> u8 \<Rightarrow> screen \<Rightarrow> screen" where
  "set_cell x a b sc = (let p = 160 * sc_y sc + 2 * x in sc\<lparr>sc_bytes := (sc_bytes sc)[p := a, p + 1 := b]\<rparr>)"

definition t_put :: "look \<Rightarrow> u8 \<Rightarrow> screen \<Rightarrow> screen" where
  "t_put lk g sc = (let sc = t_wrap lk sc in (set_cell (sc_x sc) g (lk_attr lk) sc)\<lparr>sc_x := sc_x sc + 1\<rparr>)"

definition t_back :: "screen \<Rightarrow> screen" where
  "t_back sc = sc\<lparr>sc_x := sc_x sc - 1\<rparr>"

definition t_del :: "look \<Rightarrow> screen \<Rightarrow> screen" where
  "t_del lk sc =
     (if sc_x sc = 0 then sc
      else set_cell (sc_x sc - 1) (ucast (lk_erase lk)) (ucast (drop_bit 8 (lk_erase lk))) (t_back sc))"

definition t_char :: "look \<Rightarrow> u8 \<Rightarrow> screen \<Rightarrow> screen" where
  "t_char lk ch sc =
     (if 32 \<le> ch \<and> ch < 127 then t_put lk (lk_glyph lk (unat ch - 32)) sc
      else if ch = 27 then sc
      else if ch \<in> {10, 11, 12} then t_lf lk sc
      else if ch = 13 then t_cr sc
      else if ch = lk_key lk \<and> ch < 128 then t_del lk sc
      else if ch = 8 then t_back sc
      else if ch = 9 then t_ht lk sc
      else sc)"

section \<open>The screen in the memory of the display\<close>

definition geometry :: "'a tty_state_scheme \<Rightarrow> bool" where
  "geometry s \<longleftrightarrow> video_num_columns s = 80 \<and> video_size_row s = 160 \<and> video_num_lines s = 25"

text \<open>The screen is within the window, and the cursor is at column \<open>b\<close> at most.\<close>

definition console_ok :: "nat \<Rightarrow> console_struct \<Rightarrow> bool" where
  "console_ok b v \<longleftrightarrow> unat (vc_x v) \<le> b \<and> unat (vc_y v) < 25 \<and> vc_bottom v = 25
     \<and> unat (vc_video_mem_start v) \<le> unat (vc_origin v)
     \<and> unat (vc_origin v) + 4000 \<le> unat (vc_video_mem_end v) \<and> unat (vc_video_mem_end v) < 2 ^ 31
     \<and> vc_scr_end v = vc_origin v + 4000 \<and> vc_pos v = vc_origin v + 160 * vc_y v + 2 * vc_x v"

definition view :: "console_struct \<Rightarrow> bytes \<Rightarrow> screen" where
  "view v m = \<lparr>sc_x = unat (vc_x v), sc_y = unat (vc_y v),
     sc_bytes = map (\<lambda>k. m (vc_origin v + of_nat k)) [0..<4000]\<rparr>"

definition look_of :: "console_struct \<Rightarrow> u8 \<Rightarrow> look" where
  "look_of v k = \<lparr>lk_erase = vc_video_erase_char v, lk_attr = vc_attr v, lk_glyph = vc_translate v, lk_key = k\<rparr>"

definition inside :: "console_struct \<Rightarrow> u32 \<Rightarrow> bool" where
  "inside v a \<longleftrightarrow> vc_video_mem_start v \<le> a \<and> a < vc_video_mem_end v"

text \<open>\<open>shows_as c b f s s'\<close>: from \<open>s\<close> to \<open>s'\<close> only console \<open>c\<close> has changed, as \<open>f\<close> changes the ideal terminal.\<close>

definition shows_as :: "nat \<Rightarrow> nat \<Rightarrow> (screen \<Rightarrow> screen) \<Rightarrow> 'a tty_state_scheme \<Rightarrow> 'a tty_state_scheme \<Rightarrow> bool" where
  "shows_as c b f s s' \<longleftrightarrow> geometry s' \<and> console_ok b (vc_cons s' c)
     \<and> view (vc_cons s' c) (kmem s') = f (view (vc_cons s c) (kmem s))
     \<and> look_of (vc_cons s' c) = look_of (vc_cons s c) \<and> inside (vc_cons s' c) = inside (vc_cons s c)
     \<and> (\<forall>d. d \<noteq> c \<longrightarrow> vc_cons s' d = vc_cons s d) \<and> (\<forall>a. \<not> inside (vc_cons s c) a \<longrightarrow> kmem s' a = kmem s a)
     \<and> tty_table s' = tty_table s \<and> tty_queues s' = tty_queues s \<and> fg_console s' = fg_console s"

lemma shows_as_trans:
  "shows_as c b f s t \<Longrightarrow> shows_as c b' g t u \<Longrightarrow> shows_as c b' (\<lambda>x. g (f x)) s u"
  by (simp add: shows_as_def)

lemma shows_as_id: "geometry s \<Longrightarrow> console_ok b (vc_cons s c) \<Longrightarrow> shows_as c b (\<lambda>x. x) s s"
  by (simp add: shows_as_def)

section \<open>Words and bytes\<close>

lemma unat_plus: "unat a + unat b < 2 ^ 32 \<Longrightarrow> unat (a + b) = unat a + unat b" for a b :: u32
  by (simp add: unat_word_ariths)

lemma unat_minus: "unat b \<le> unat a \<Longrightarrow> unat (a - b) = unat a - unat b" for a b :: u32
  by (simp add: unat_sub word_le_nat_alt)

lemma unat_small: "k < 2 ^ 32 \<Longrightarrow> unat (of_nat k :: u32) = k"
  by (simp add: unat_of_nat)

lemma length_row [simp]: "length (concat (replicate n (cell v))) = 2 * n"
  by (induction n) (simp_all add: cell_def)

lemma nth_row: "k < 2 * n \<Longrightarrow> concat (replicate n (cell v)) ! k = (if even k then ucast v else ucast (drop_bit 8 v))"
proof (induction n arbitrary: k)
  case (Suc n)
  show ?case
  proof (cases "k < 2")
    case True
    then consider "k = 0" | "k = 1" by linarith
    then show ?thesis by cases (simp_all add: cell_def)
  next
    case False
    then obtain j where k: "k = Suc (Suc j)" by (metis add_2_eq_Suc le_Suc_ex linorder_not_less)
    with Suc show ?thesis by (simp add: cell_def)
  qed
qed simp

lemma stosw_apply:
  "2 * n < 2 ^ 32 \<Longrightarrow> stosw n v di m x
     = (if unat (x - di) < 2 * n then if even (unat (x - di)) then ucast v else ucast (drop_bit 8 v) else m x)"
proof (induction n arbitrary: di m)
  case (Suc n)
  then have IH: "stosw n v (di + 2) (st16 di v m) x
      = (if unat (x - (di + 2)) < 2 * n then if even (unat (x - (di + 2))) then ucast v else ucast (drop_bit 8 v)
         else st16 di v m x)" by simp
  show ?case
  proof (cases "x = di \<or> x = di + 1")
    case True
    have u: "unat (- 1 :: u32) = 2 ^ 32 - 1" "unat (- 2 :: u32) = 2 ^ 32 - 2"
      by (simp_all add: unsigned_minus_1_eq_mask mask_eq_exp_minus_1 unat_word_ariths)
    from True show ?thesis using IH u Suc.prems by (auto simp: st16_def)
  next
    case False
    then have "unat (x - di) = Suc (Suc (unat (x - (di + 2))))"
      using unat_distance_Suc [of x di] unat_distance_Suc [of x "di + 1"] by (simp add: add.assoc)
    then show ?thesis using IH False by (simp add: st16_def)
  qed
qed simp

section \<open>Moving and scrolling\<close>

lemma out_pos_simps [simp]:
  "vc_cons (out_pos r a s) = vc_cons s" "kmem (out_pos r a s) = kmem s" "geometry (out_pos r a s) = geometry s"
  "tty_table (out_pos r a s) = tty_table s" "tty_queues (out_pos r a s) = tty_queues s"
  "fg_console (out_pos r a s) = fg_console s"
  by (simp_all add: out_pos_def Let_def outb_def geometry_def)

lemma set_origin_simps [simp]:
  "vc_cons (set_origin c s) = vc_cons s" "kmem (set_origin c s) = kmem s" "geometry (set_origin c s) = geometry s"
  "tty_table (set_origin c s) = tty_table s" "tty_queues (set_origin c s) = tty_queues s"
  "fg_console (set_origin c s) = fg_console s"
  by (simp_all add: set_origin_def)

lemma set_cursor_simps [simp]:
  "vc_cons (set_cursor c s) = vc_cons s" "kmem (set_cursor c s) = kmem s" "geometry (set_cursor c s) = geometry s"
  "tty_table (set_cursor c s) = tty_table s" "tty_queues (set_cursor c s) = tty_queues s"
  "fg_console (set_cursor c s) = fg_console s"
  by (simp_all add: set_cursor_def)

lemma mod_vc_simps [simp]:
  "vc_cons (mod_vc c f s) = (vc_cons s)(c := f (vc_cons s c))" "kmem (mod_vc c f s) = kmem s"
  "geometry (mod_vc c f s) = geometry s" "tty_table (mod_vc c f s) = tty_table s"
  "tty_queues (mod_vc c f s) = tty_queues s" "fg_console (mod_vc c f s) = fg_console s"
  by (simp_all add: mod_vc_def geometry_def)

lemma kmem_update_simps [simp]:
  "vc_cons (s\<lparr>kmem := m\<rparr>) = vc_cons s" "geometry (s\<lparr>kmem := m\<rparr>) = geometry s"
  by (simp_all add: geometry_def)

text \<open>A move of the cursor changes no cell.\<close>

lemma move_shows:
  assumes "geometry s" "console_ok b v" "v = vc_cons s c" "unat x' \<le> b'" "unat y' < 25"
    and "p' = vc_origin v + 160 * y' + 2 * x'"
    and "s' = mod_vc c (\<lambda>_. v') s" "v' = v\<lparr>vc_pos := p', vc_x := x', vc_y := y'\<rparr>"
  shows "shows_as c b' (\<lambda>sc. sc\<lparr>sc_x := unat x', sc_y := unat y'\<rparr>) s s'"
  using assms by (auto simp: shows_as_def console_ok_def view_def look_of_def inside_def fun_eq_iff)

text \<open>The place of a byte of the screen.\<close>

lemma screen_inside:
  assumes "console_ok b v" "k < 4000"
  shows "inside v (vc_origin v + of_nat k)"
proof -
  have "unat (vc_origin v + of_nat k) = unat (vc_origin v) + k"
    using assms by (subst unat_plus) (simp_all add: console_ok_def unat_small)
  then show ?thesis using assms by (simp add: inside_def console_ok_def word_le_nat_alt word_less_nat_alt)
qed

lemma distance_inside:
  assumes "console_ok b v" "unat (a - (vc_origin v + of_nat j)) < n" "j + n \<le> 4000"
  shows "inside v a"
proof -
  define k where "k = unat (a - (vc_origin v + of_nat j))"
  have "a = vc_origin v + of_nat (j + k)" unfolding k_def by simp
  then show ?thesis using screen_inside [OF assms(1), of "j + k"] assms(2,3) by (simp add: k_def)
qed

text \<open>Scrolling: the last line becomes blank, and the screen begins one line later or, at the end of the window,
  is copied to the start \<open>t\<close> of the window.\<close>

lemma blank_line:
  assumes "k < 4000"
  shows "stosw 80 e (p + 3840) m (p + of_nat k)
    = (if k < 3840 then m (p + of_nat k) else concat (replicate 80 (cell e)) ! (k - 3840))"
proof -
  have "unat (p + of_nat k - (p + 3840)) = (if 3840 \<le> k then k - 3840 else k + 4294967296 - 3840)"
    using assms by (simp add: unat_sub_if' unat_small)
  then show ?thesis using assms by (auto simp: stosw_apply nth_row)
qed

lemma scroll_moved:
  "map (\<lambda>k. stosw 80 e (p + 4000) m (p + 160 + of_nat k)) [0..<4000]
    = drop 160 (map (\<lambda>k. m (p + of_nat k)) [0..<4000]) @ concat (replicate 80 (cell e))"
proof (rule nth_equalityI)
  fix k assume "k < length (map (\<lambda>k. stosw 80 e (p + 4000) m (p + 160 + of_nat k)) [0..<4000])"
  then have k: "k < 4000" by simp
  show "map (\<lambda>k. stosw 80 e (p + 4000) m (p + 160 + of_nat k)) [0..<4000] ! k
    = (drop 160 (map (\<lambda>k. m (p + of_nat k)) [0..<4000]) @ concat (replicate 80 (cell e))) ! k"
    using blank_line [OF k, of e "p + 160" m] k by (simp add: nth_append add.assoc)
qed simp

lemma scroll_copied:
  assumes "unat t \<le> unat p" "unat p + 4000 < 2 ^ 31"
  shows "map (\<lambda>k. stosw 80 e (t + 3840) (copy_bytes 3840 (p + 160) t m) (t + of_nat k)) [0..<4000]
    = drop 160 (map (\<lambda>k. m (p + of_nat k)) [0..<4000]) @ concat (replicate 80 (cell e))"
proof (rule nth_equalityI)
  fix k assume "k < length (map (\<lambda>k. stosw 80 e (t + 3840) (copy_bytes 3840 (p + 160) t m) (t + of_nat k)) [0..<4000])"
  then have k: "k < 4000" by simp
  have "unat (p + 160) = unat p + 160" using assms(2) by (subst unat_plus) simp_all
  then have "3840 \<le> unat (t - (p + 160))" using assms by (simp add: unat_sub_if')
  then have "copy_bytes 3840 (p + 160) t m (t + of_nat k) = m (p + of_nat (160 + k))" if "k < 3840"
    using copy_bytes_forward [of 3840 t "p + 160" m "t + of_nat k"] that by (simp add: unat_small add.assoc)
  then show "map (\<lambda>k. stosw 80 e (t + 3840) (copy_bytes 3840 (p + 160) t m) (t + of_nat k)) [0..<4000] ! k
    = (drop 160 (map (\<lambda>k. m (p + of_nat k)) [0..<4000]) @ concat (replicate 80 (cell e))) ! k"
    using blank_line [OF k, of e t "copy_bytes 3840 (p + 160) t m"] k by (simp add: nth_append)
qed simp

lemma stosw_inside:
  assumes "console_ok b v" "\<not> inside v a" "j + 160 \<le> 4000"
  shows "stosw 80 e (vc_origin v + of_nat j) m a = m a"
proof -
  have "\<not> unat (a - (vc_origin v + of_nat j)) < 160" using distance_inside [OF assms(1) _ assms(3), of a] assms(2) by blast
  then show ?thesis by (subst stosw_apply) simp_all
qed

lemma scrup_shows:
  assumes "geometry s" "console_ok b (vc_cons s c)" "vc_y (vc_cons s c) = 24"
  shows "shows_as c b (t_lf (look_of (vc_cons s c) k)) s (scrup c s)"
proof -
  define v where "v = vc_cons s c"
  define v1 where "v1 = v\<lparr>vc_origin := vc_origin v + 160, vc_pos := vc_pos v + 160, vc_scr_end := vc_scr_end v + 160\<rparr>"
  have ok: "console_ok b v" using assms(2) by (simp add: v_def)
  have lf: "t_lf (look_of v k) (view v m) = (view v m)\<lparr>sc_bytes := drop 160 (sc_bytes (view v m))
      @ concat (replicate 80 (cell (vc_video_erase_char v)))\<rparr>" for m
    using assms(3) by (simp add: t_lf_def view_def look_of_def v_def)
  have size: "unat (drop_bit 1 ((25 - 1) * 80 :: u32)) = 960" by (simp add: drop_bit_eq_div)
  show ?thesis
  proof (cases "vc_scr_end v1 > vc_video_mem_end v1")
    case True
    define v2 where "v2 = v1\<lparr>vc_scr_end := vc_scr_end v1 - (vc_origin v1 - vc_video_mem_start v1),
       vc_pos := vc_pos v1 - (vc_origin v1 - vc_video_mem_start v1), vc_origin := vc_video_mem_start v1\<rparr>"
    define m2 where "m2 = stosw 80 (vc_video_erase_char v) (vc_video_mem_start v + 3840)
       (copy_bytes 3840 (vc_origin v + 160) (vc_video_mem_start v) (kmem s))"
    have scr: "scrup c s = set_origin c (mod_vc c (\<lambda>_. v2) (s\<lparr>kmem := m2\<rparr>))"
      using True assms(1) size unfolding scrup_def geometry_def
      by (simp add: Let_def mod_vc_def v_def v1_def v2_def m2_def)
    have ok2: "console_ok b v2" using ok by (auto simp: v2_def v1_def console_ok_def)
    have same: "inside v2 = inside v" "look_of v2 = look_of v"
      by (simp_all add: v2_def v1_def inside_def look_of_def fun_eq_iff)
    have window: "unat (vc_video_mem_start v) \<le> unat (vc_origin v)" "unat (vc_origin v) + 4000 < 2 ^ 31"
      using ok by (simp_all add: console_ok_def)
    have outside: "m2 a = kmem s a" if "\<not> inside v a" for a
    proof -
      have o2: "vc_origin v2 = vc_video_mem_start v" by (simp add: v2_def v1_def)
      have "\<not> unat (a - vc_video_mem_start v) < 3840"
        using distance_inside [OF ok2, of a 0 3840] that o2 same(1) by auto
      moreover have "3840 \<le> unat (vc_video_mem_start v - (vc_origin v + 160))"
      proof -
        have "unat (vc_origin v + 160) = unat (vc_origin v) + 160" using window by (subst unat_plus) simp_all
        then show ?thesis using window by (simp add: unat_sub_if')
      qed
      ultimately have "copy_bytes 3840 (vc_origin v + 160) (vc_video_mem_start v) (kmem s) a = kmem s a"
        by (subst copy_bytes_forward) simp_all
      then show ?thesis using stosw_inside [OF ok2, of a 3840] that same(1) o2 by (simp add: m2_def)
    qed
    have "view v2 m2 = t_lf (look_of v k) (view v (kmem s))"
      using scroll_copied [OF window, of "vc_video_erase_char v" "kmem s"]
      unfolding lf by (simp add: view_def v2_def v1_def m2_def)
    then show ?thesis unfolding shows_as_def scr
      using assms(1) ok2 same outside by (simp add: v_def)
  next
    case False
    define m2 where "m2 = stosw 80 (vc_video_erase_char v) (vc_scr_end v) (kmem s)"
    have m2: "m2 = stosw 80 (vc_video_erase_char v) (vc_origin v + 4000) (kmem s)"
      using ok by (simp add: m2_def console_ok_def)
    have scr: "scrup c s = set_origin c ((mod_vc c (\<lambda>_. v1) s)\<lparr>kmem := m2\<rparr>)"
      using False assms(1) size unfolding scrup_def geometry_def
      by (simp add: Let_def mod_vc_def v_def v1_def m2_def)
    have ok1: "console_ok b v1"
    proof -
      have "unat (vc_origin v + 160) = unat (vc_origin v) + 160"
        using ok by (subst unat_plus) (simp_all add: console_ok_def)
      moreover have "unat (vc_origin v + 160 + 4000) = unat (vc_origin v + 160) + 4000"
        using ok calculation by (subst unat_plus) (simp_all add: console_ok_def)
      ultimately show ?thesis using ok False
        by (auto simp: v1_def console_ok_def word_less_nat_alt algebra_simps)
    qed
    have same: "inside v1 = inside v" "look_of v1 = look_of v"
      by (simp_all add: v1_def inside_def look_of_def fun_eq_iff)
    have outside: "m2 a = kmem s a" if "\<not> inside v a" for a
      using stosw_inside [OF ok1, of a 3840] that same(1) by (simp add: m2 v1_def add.assoc)
    have "view v1 m2 = t_lf (look_of v k) (view v (kmem s))"
      using scroll_moved [of "vc_video_erase_char v" "vc_origin v" "kmem s"]
      unfolding lf by (simp add: view_def v1_def m2)
    then show ?thesis unfolding shows_as_def scr
      using assms(1) ok1 same outside by (simp add: v_def)
  qed
qed


lemma lf_shows:
  assumes "geometry s" "console_ok b (vc_cons s c)"
  shows "shows_as c b (t_lf (look_of (vc_cons s c) k)) s (lf c s)"
proof -
  define v where "v = vc_cons s c"
  have ok: "console_ok b v" using assms(2) by (simp add: v_def)
  have y1: "unat (vc_y v + 1) = unat (vc_y v) + 1" using ok by (subst unat_plus) (simp_all add: console_ok_def)
  show ?thesis
  proof (cases "unat (vc_y v) + 1 < 25")
    case True
    then have "vc_y v + 1 < vc_bottom v" using ok y1 by (simp add: console_ok_def word_less_nat_alt)
    then have step: "lf c s = mod_vc c (\<lambda>_. v\<lparr>vc_y := vc_y v + 1, vc_pos := vc_pos v + 160\<rparr>) s"
      using assms(1) by (simp add: lf_def mod_vc_def v_def geometry_def)
    have "shows_as c b (\<lambda>sc. sc\<lparr>sc_x := unat (vc_x v), sc_y := unat (vc_y v + 1)\<rparr>) s (lf c s)"
    proof (rule move_shows [OF assms(1) ok v_def _ _ _ step])
      show "vc_pos v + 160 = vc_origin v + 160 * (vc_y v + 1) + 2 * vc_x v"
        using ok by (simp add: console_ok_def algebra_simps)
      show "v\<lparr>vc_y := vc_y v + 1, vc_pos := vc_pos v + 160\<rparr> = v\<lparr>vc_pos := vc_pos v + 160, vc_x := vc_x v, vc_y := vc_y v + 1\<rparr>"
        by (rule console_struct.equality) simp_all
    qed (use ok True y1 in \<open>simp_all add: console_ok_def\<close>)
    then show ?thesis using True y1 by (simp add: shows_as_def t_lf_def view_def v_def)
  next
    case False
    then have "unat (vc_y v) = 24" using ok by (simp add: console_ok_def)
    then have "vc_y v = of_nat 24" by (metis of_nat_unat ucast_id)
    moreover have "\<not> vc_y v + 1 < vc_bottom v" using False ok y1 by (simp add: console_ok_def word_less_nat_alt)
    ultimately show ?thesis using scrup_shows [OF assms, of k] by (simp add: lf_def v_def)
  qed
qed

lemma cr_shows:
  assumes "geometry s" "console_ok b (vc_cons s c)"
  shows "shows_as c 80 t_cr s (cr c s)"
proof -
  define v where "v = vc_cons s c"
  have ok: "console_ok b v" using assms(2) by (simp add: v_def)
  have "shows_as c 80 (\<lambda>sc. sc\<lparr>sc_x := unat (0 :: u32), sc_y := unat (vc_y v)\<rparr>) s (cr c s)"
  proof (rule move_shows [OF assms(1) ok v_def])
    show "vc_pos v - push_bit 1 (vc_x v) = vc_origin v + 160 * vc_y v + 2 * 0"
      using ok by (simp add: console_ok_def push_bit_eq_mult)
    show "cr c s = mod_vc c (\<lambda>_. v\<lparr>vc_pos := vc_pos v - push_bit 1 (vc_x v), vc_x := 0\<rparr>) s"
      by (simp add: cr_def mod_vc_def v_def)
    show "v\<lparr>vc_pos := vc_pos v - push_bit 1 (vc_x v), vc_x := 0\<rparr>
        = v\<lparr>vc_pos := vc_pos v - push_bit 1 (vc_x v), vc_x := 0, vc_y := vc_y v\<rparr>"
      by (rule console_struct.equality) simp_all
  qed (use ok in \<open>simp_all add: console_ok_def\<close>)
  then show ?thesis by (simp add: shows_as_def t_cr_def view_def v_def)
qed


lemma shows_as_look:
  assumes "shows_as c b f s s'"
  shows "look_of (vc_cons s' c) = look_of (vc_cons s c)" "geometry s'" "console_ok b (vc_cons s' c)"
  using assms by (simp_all add: shows_as_def)

text \<open>A cursor behind the end of its line, which \<^verbatim>\<open>ht\<close> may move to column 84, goes to the next line.\<close>

lemma wrap_shows:
  assumes "geometry s" "console_ok b (vc_cons s c)" "b < 160"
  shows "shows_as c 79 (t_wrap (look_of (vc_cons s c) k)) s (wrap_line c s)"
proof -
  define v where "v = vc_cons s c"
  have ok: "console_ok b v" using assms(2) by (simp add: v_def)
  show ?thesis
  proof (cases "80 \<le> unat (vc_x v)")
    case True
    define s1 where "s1 = mod_vc c (\<lambda>v. v\<lparr>vc_x := vc_x v - 80, vc_pos := vc_pos v - 160\<rparr>) s"
    have x: "unat (vc_x v - 80) = unat (vc_x v) - 80" using True by (subst unat_minus) simp_all
    have one: "shows_as c 79 (\<lambda>sc. sc\<lparr>sc_x := unat (vc_x v - 80), sc_y := unat (vc_y v)\<rparr>) s s1"
    proof (rule move_shows [OF assms(1) ok v_def])
      show "vc_pos v - 160 = vc_origin v + 160 * vc_y v + 2 * (vc_x v - 80)"
        using ok by (simp add: console_ok_def algebra_simps)
      show "s1 = mod_vc c (\<lambda>_. v\<lparr>vc_x := vc_x v - 80, vc_pos := vc_pos v - 160\<rparr>) s"
        by (simp add: s1_def mod_vc_def v_def)
      show "v\<lparr>vc_x := vc_x v - 80, vc_pos := vc_pos v - 160\<rparr>
          = v\<lparr>vc_pos := vc_pos v - 160, vc_x := vc_x v - 80, vc_y := vc_y v\<rparr>"
        by (rule console_struct.equality) simp_all
    qed (use ok x assms(3) in \<open>auto simp: console_ok_def\<close>)
    have "wrap_line c s = lf c s1"
      using assms(1) True by (simp add: wrap_line_def geometry_def s1_def v_def word_le_nat_alt)
    moreover have "shows_as c 79 (t_lf (look_of (vc_cons s1 c) k)) s1 (lf c s1)"
      by (rule lf_shows) (use shows_as_look [OF one] in simp_all)
    ultimately have "shows_as c 79 (\<lambda>sc. t_lf (look_of v k) (sc\<lparr>sc_x := unat (vc_x v - 80), sc_y := unat (vc_y v)\<rparr>)) s (wrap_line c s)"
      using shows_as_trans [OF one, of 79 "t_lf (look_of v k)"] shows_as_look(1) [OF one] by (simp add: v_def)
    then show ?thesis using True x by (simp add: shows_as_def t_wrap_def view_def v_def)
  next
    case False
    then have "wrap_line c s = s" using assms(1) by (simp add: wrap_line_def geometry_def v_def word_le_nat_alt)
    moreover have "console_ok 79 v" using ok False by (simp add: console_ok_def)
    ultimately show ?thesis using False assms(1) by (simp add: shows_as_def t_wrap_def view_def v_def)
  qed
qed

lemma ht_shows:
  assumes "geometry s" "console_ok 80 (vc_cons s c)"
  shows "shows_as c 79 (t_ht (look_of (vc_cons s c) k)) s (ht c s)"
proof -
  define v where "v = vc_cons s c"
  define tmp where "tmp = 4 - (vc_x v AND 3)"
  define s1 where "s1 = mod_vc c (\<lambda>v. v\<lparr>vc_x := vc_x v + tmp, vc_pos := vc_pos v + push_bit 1 tmp\<rparr>) s"
  have ok: "console_ok 80 v" using assms(2) by (simp add: v_def)
  have m: "unat (vc_x v AND 3) = unat (vc_x v) mod 4"
    using word_sum_low [of 2 "vc_x v" 0] by (simp add: mask_eq_exp_minus_1)
  have tmp: "unat tmp = 4 - unat (vc_x v) mod 4" using m unfolding tmp_def by (subst unat_minus) simp_all
  have x: "unat (vc_x v + tmp) = unat (vc_x v) + (4 - unat (vc_x v) mod 4)"
  proof -
    have "unat tmp \<le> 4" using tmp by simp
    then have "unat (vc_x v) + unat tmp < 2 ^ 32" using ok by (simp add: console_ok_def)
    then show ?thesis using unat_plus tmp by simp
  qed
  have one: "shows_as c 84 (\<lambda>sc. sc\<lparr>sc_x := unat (vc_x v + tmp), sc_y := unat (vc_y v)\<rparr>) s s1"
  proof (rule move_shows [OF assms(1) ok v_def])
    show "vc_pos v + push_bit 1 tmp = vc_origin v + 160 * vc_y v + 2 * (vc_x v + tmp)"
      using ok by (simp add: console_ok_def push_bit_eq_mult algebra_simps)
    show "s1 = mod_vc c (\<lambda>_. v\<lparr>vc_x := vc_x v + tmp, vc_pos := vc_pos v + push_bit 1 tmp\<rparr>) s"
      by (simp add: s1_def mod_vc_def v_def)
    show "v\<lparr>vc_x := vc_x v + tmp, vc_pos := vc_pos v + push_bit 1 tmp\<rparr>
        = v\<lparr>vc_pos := vc_pos v + push_bit 1 tmp, vc_x := vc_x v + tmp, vc_y := vc_y v\<rparr>"
      by (rule console_struct.equality) simp_all
  qed (use ok x in \<open>auto simp: console_ok_def\<close>)
  have "ht c s = wrap_line c s1" by (simp add: ht_def s1_def tmp_def v_def Let_def)
  moreover have "shows_as c 79 (t_wrap (look_of (vc_cons s1 c) k)) s1 (wrap_line c s1)"
    by (rule wrap_shows [where b = 84]) (use shows_as_look [OF one] in simp_all)
  ultimately have "shows_as c 79 (\<lambda>sc. t_wrap (look_of v k) (sc\<lparr>sc_x := unat (vc_x v + tmp), sc_y := unat (vc_y v)\<rparr>)) s (ht c s)"
    using shows_as_trans [OF one, of 79 "t_wrap (look_of v k)"] shows_as_look(1) [OF one] by (simp add: v_def)
  then show ?thesis using x by (simp add: shows_as_def t_ht_def view_def v_def)
qed


section \<open>Characters\<close>

text \<open>A cell of the screen is written.\<close>

lemma cell_shows:
  assumes "geometry s" "console_ok b v" "v = vc_cons s c" "unat x < 80"
    and "p = vc_origin v + 160 * vc_y v + 2 * x"
  shows "shows_as c b (set_cell (unat x) (ucast e) (ucast (drop_bit 8 e))) s (s\<lparr>kmem := st16 p e (kmem s)\<rparr>)"
proof -
  define q where "q = 160 * unat (vc_y v) + 2 * unat x"
  have y: "unat (vc_y v) < 25" using assms(2) by (simp add: console_ok_def)
  then have q: "q + 1 < 4000" using assms(4) by (simp add: q_def)
  have p: "p = vc_origin v + of_nat q" unfolding assms(5) q_def by simp
  have at: "vc_origin v + of_nat k = vc_origin v + of_nat j \<longleftrightarrow> k = j" if "k < 4000" "j < 4000" for k j
  proof -
    have "(of_nat k :: u32) = of_nat j \<longleftrightarrow> k = j" using that by (simp add: word_unat_eq_iff unat_small)
    then show ?thesis by simp
  qed
  have "map (\<lambda>k. st16 p e (kmem s) (vc_origin v + of_nat k)) [0..<4000]
      = (map (\<lambda>k. kmem s (vc_origin v + of_nat k)) [0..<4000])[q := ucast e, q + 1 := ucast (drop_bit 8 e)]"
  proof (rule nth_equalityI)
    fix k assume "k < length (map (\<lambda>k. st16 p e (kmem s) (vc_origin v + of_nat k)) [0..<4000])"
    then have k: "k < 4000" by simp
    have "p + 1 = vc_origin v + of_nat (q + 1)" by (simp add: p)
    then show "map (\<lambda>k. st16 p e (kmem s) (vc_origin v + of_nat k)) [0..<4000] ! k
      = (map (\<lambda>k. kmem s (vc_origin v + of_nat k)) [0..<4000])[q := ucast e, q + 1 := ucast (drop_bit 8 e)] ! k"
      using k q at [OF k, of q] at [OF k, of "q + 1"]
      by (simp add: st16_def p nth_list_update del: of_nat_add of_nat_Suc) 
  qed simp
  moreover have "st16 p e (kmem s) a = kmem s a" if "\<not> inside v a" for a
  proof -
    have "a \<noteq> vc_origin v + of_nat q" "a \<noteq> vc_origin v + of_nat (q + 1)"
      using that screen_inside [OF assms(2)] q by (metis add_lessD1)+
    moreover have "p + 1 = vc_origin v + of_nat (q + 1)" by (simp add: p)
    ultimately have "a \<noteq> p" "a \<noteq> p + 1" using p by metis+
    then show ?thesis by (simp add: st16_def)
  qed
  ultimately show ?thesis
    using assms(1-3) by (simp add: shows_as_def view_def set_cell_def q_def Let_def)
qed

lemma put_shows:
  assumes "geometry s" "console_ok 80 (vc_cons s c)"
  shows "shows_as c 80 (t_put (look_of (vc_cons s c) k) g) s (put_glyph c g (wrap_line c s))"
proof -
  define s1 where "s1 = wrap_line c s"
  define v where "v = vc_cons s1 c"
  define e :: u16 where "e = push_bit 8 (ucast (vc_attr v)) OR ucast g"
  define s2 where "s2 = s1\<lparr>kmem := st16 (vc_pos v) e (kmem s1)\<rparr>"
  have one: "shows_as c 79 (t_wrap (look_of (vc_cons s c) k)) s s1"
    unfolding s1_def by (rule wrap_shows [OF assms]) simp
  have ok: "geometry s1" "console_ok 79 v" using shows_as_look [OF one] by (simp_all add: v_def)
  have x: "unat (vc_x v) < 80" using ok(2) by (simp add: console_ok_def)
  have two: "shows_as c 79 (set_cell (unat (vc_x v)) (ucast e) (ucast (drop_bit 8 e))) s1 s2"
    unfolding s2_def by (rule cell_shows [OF ok v_def x]) (use ok(2) in \<open>simp add: console_ok_def\<close>)
  have e: "ucast e = g" "ucast (drop_bit 8 e) = vc_attr v"
    unfolding e_def by (simp_all add: bit_eq_iff bit_simps) (auto dest: bit_imp_le_length)
  define s3 where "s3 = put_glyph c g s1"
  have v2: "vc_cons s2 c = v" by (simp add: s2_def v_def)
  have three: "shows_as c 80 (\<lambda>sc. sc\<lparr>sc_x := unat (vc_x v + 1), sc_y := unat (vc_y v)\<rparr>) s2 s3"
  proof (rule move_shows [OF shows_as_look(2,3) [OF two] refl])
    show "vc_pos v + 2 = vc_origin (vc_cons s2 c) + 160 * vc_y v + 2 * (vc_x v + 1)"
      using ok(2) v2 by (simp add: console_ok_def algebra_simps)
    show "s3 = mod_vc c (\<lambda>_. v\<lparr>vc_pos := vc_pos v + 2, vc_x := vc_x v + 1\<rparr>) s2"
      by (simp add: s3_def put_glyph_def s2_def v_def e_def mod_vc_def Let_def)
    show "v\<lparr>vc_pos := vc_pos v + 2, vc_x := vc_x v + 1\<rparr>
        = (vc_cons s2 c)\<lparr>vc_pos := vc_pos v + 2, vc_x := vc_x v + 1, vc_y := vc_y v\<rparr>"
      unfolding v2 by (rule console_struct.equality) simp_all
    have "unat (vc_x v + 1) = unat (vc_x v) + 1" using x by (subst unat_plus) simp_all
    then show "unat (vc_x v + 1) \<le> 80" using x by simp
  qed (use ok in \<open>simp add: console_ok_def\<close>)
  define lk where "lk = look_of (vc_cons s c) k"
  define V where "V = t_wrap lk (view (vc_cons s c) (kmem s))"
  have "V = view v (kmem s1)" using one by (simp add: shows_as_def V_def lk_def v_def)
  then have V: "sc_x V = unat (vc_x v)" "sc_y V = unat (vc_y v)" by (simp_all add: view_def)
  have x1: "unat (vc_x v + 1) = sc_x V + 1" using x V(1) by (subst unat_plus) simp_all
  have "lk_attr lk = vc_attr v"
    using shows_as_look(1) [OF one] by (metis look_of_def look.select_convs(2) v_def lk_def)
  then have "t_put lk g (view (vc_cons s c) (kmem s)) = (set_cell (unat (vc_x v)) g (vc_attr v) V)
      \<lparr>sc_x := unat (vc_x v + 1), sc_y := unat (vc_y v)\<rparr>"
    unfolding x1 using V by (intro screen.equality) (simp_all add: t_put_def V_def set_cell_def Let_def)
  then show ?thesis
    using shows_as_trans [OF shows_as_trans [OF one two] three]
    by (simp add: shows_as_def s3_def [symmetric] s1_def [symmetric] e lk_def V_def)
qed


lemma back_shows:
  assumes "geometry s" "console_ok b (vc_cons s c)" "vc_x (vc_cons s c) \<noteq> 0" "b \<le> 80"
    and "s' = mod_vc c (\<lambda>_. v') s"
    and "v' = (vc_cons s c)\<lparr>vc_pos := vc_pos (vc_cons s c) - 2, vc_x := vc_x (vc_cons s c) - 1\<rparr>"
  shows "shows_as c 79 t_back s s'" "unat (vc_x v') = unat (vc_x (vc_cons s c)) - 1"
proof -
  define v where "v = vc_cons s c"
  have ok: "console_ok b v" using assms(2) by (simp add: v_def)
  have x: "unat (vc_x v - 1) = unat (vc_x v) - 1" using assms(3) by (simp add: v_def unat_minus_one)
  have "shows_as c 79 (\<lambda>sc. sc\<lparr>sc_x := unat (vc_x v - 1), sc_y := unat (vc_y v)\<rparr>) s s'"
  proof (rule move_shows [OF assms(1) ok v_def])
    show "vc_pos v - 2 = vc_origin v + 160 * vc_y v + 2 * (vc_x v - 1)"
      using ok by (simp add: console_ok_def algebra_simps)
    show "s' = mod_vc c (\<lambda>_. v') s" by (rule assms(5))
    show "v' = v\<lparr>vc_pos := vc_pos v - 2, vc_x := vc_x v - 1, vc_y := vc_y v\<rparr>"
      unfolding assms(6) v_def by (rule console_struct.equality) simp_all
  qed (use ok x assms(4) in \<open>auto simp: console_ok_def\<close>)
  then show "shows_as c 79 t_back s s'" using x by (simp add: shows_as_def t_back_def view_def v_def)
  show "unat (vc_x v') = unat (vc_x (vc_cons s c)) - 1" using x by (simp add: assms(6) v_def)
qed

lemma del_shows:
  assumes "geometry s" "console_ok 80 (vc_cons s c)"
  shows "shows_as c 80 (t_del (look_of (vc_cons s c) k)) s (del c s)"
proof (cases "vc_x (vc_cons s c) = 0")
  case True
  then show ?thesis using assms by (simp add: shows_as_def del_def t_del_def view_def)
next
  case False
  define v where "v = vc_cons s c"
  define v1 where "v1 = v\<lparr>vc_pos := vc_pos v - 2, vc_x := vc_x v - 1\<rparr>"
  define s1 where "s1 = mod_vc c (\<lambda>_. v1) s"
  have one: "shows_as c 79 t_back s s1" and x: "unat (vc_x v1) = unat (vc_x v) - 1"
    using back_shows [OF assms False, of s1 v1] by (simp_all add: s1_def v1_def v_def)
  have v1: "vc_cons s1 c = v1" by (simp add: s1_def)
  have "shows_as c 79 (set_cell (unat (vc_x v1)) (ucast (vc_video_erase_char v)) (ucast (drop_bit 8 (vc_video_erase_char v))))
      s1 (s1\<lparr>kmem := st16 (vc_pos v1) (vc_video_erase_char v) (kmem s1)\<rparr>)"
    by (rule cell_shows [OF shows_as_look(2,3) [OF one] refl, unfolded v1])
      (use shows_as_look(3) [OF one] v1 in \<open>simp_all add: console_ok_def\<close>)
  moreover have "del c s = s1\<lparr>kmem := st16 (vc_pos v1) (vc_video_erase_char v) (kmem s1)\<rparr>"
    using False by (simp add: del_def s1_def v1_def v_def mod_vc_def Let_def)
  ultimately have two: "shows_as c 79 (\<lambda>sc. set_cell (unat (vc_x v) - 1) (ucast (vc_video_erase_char v))
      (ucast (drop_bit 8 (vc_video_erase_char v))) (t_back sc)) s (del c s)"
    using shows_as_trans [OF one] x by simp
  have "unat (vc_x v) \<noteq> 0" using False by (simp add: v_def unat_eq_0)
  then show ?thesis using two
    by (auto simp: shows_as_def t_del_def view_def look_of_def v_def console_ok_def)
qed

definition erase_key :: "nat \<Rightarrow> 'a tty_state_scheme \<Rightarrow> u8" where
  "erase_key c s = c_cc (t_termios (tty_table s c)) 2"

lemma signed_byte:
  "sint ch > 31 \<and> sint ch < 127 \<longleftrightarrow> 32 \<le> ch \<and> ch < 127" "sint ch = uint key \<longleftrightarrow> ch = key \<and> ch < 128" for ch key :: u8
proof -
  have cut: "(x + 128) mod 256 - 128 = (if x < 128 then x else x - 256)" if "0 \<le> x" "x < 256" for x :: int
  proof (cases "x < 128")
    case False
    have "(x + 128) mod 256 = (x + 128 - 256) mod 256" by (rule minus_mod_self2 [symmetric])
    also have "\<dots> = x + 128 - 256" using False that by (intro mod_pos_pos_trivial) simp_all
    finally show ?thesis using False by simp
  qed (use that in simp)
  have "sint ch = (uint ch + 128) mod 256 - 128" using int_word_sint [of "uint ch", where 'a = 8] by simp
  moreover have "0 \<le> uint ch" "uint ch < 256" using uint_lt2p [of ch] by simp_all
  ultimately have s: "sint ch = (if uint ch < 128 then uint ch else uint ch - 256)" using cut by simp
  have u: "32 \<le> ch \<longleftrightarrow> 32 \<le> uint ch" "ch < 127 \<longleftrightarrow> uint ch < 127" "ch < 128 \<longleftrightarrow> uint ch < 128"
    by (simp_all add: word_le_def word_less_def)
  show "sint ch > 31 \<and> sint ch < 127 \<longleftrightarrow> 32 \<le> ch \<and> ch < 127" unfolding s u using \<open>uint ch < 256\<close> by auto
  have "(if a < 128 then a else a - 256) = b \<longleftrightarrow> a = b \<and> a < 128" if "a < 256" "0 \<le> b" for a b :: int
    using that by auto
  then show "sint ch = uint key \<longleftrightarrow> ch = key \<and> ch < 128"
    unfolding s u word_uint_eq_iff using \<open>uint ch < 256\<close> by simp
qed

text \<open>A character on the console is a character on the ideal terminal.\<close>

lemma shows_as_weaken: "shows_as c b f s s' \<Longrightarrow> b \<le> b' \<Longrightarrow> shows_as c b' f s s'"
  by (auto simp: shows_as_def console_ok_def)

lemma shows_as_at:
  "shows_as c b f s s' \<Longrightarrow> g (view (vc_cons s c) (kmem s)) = f (view (vc_cons s c) (kmem s)) \<Longrightarrow> shows_as c b g s s'"
  by (simp add: shows_as_def)

lemma con_char_shows:
  assumes "geometry s" "console_ok 80 (vc_cons s c)"
  shows "shows_as c 80 (t_char (look_of (vc_cons s c) (erase_key c s)) ch) s (con_char c ch s)"
proof -
  let ?lk = "look_of (vc_cons s c) (erase_key c s)"
  have glyph: "vc_translate (vc_cons (wrap_line c s) c) = lk_glyph ?lk"
  proof -
    have "look_of (vc_cons (wrap_line c s) c) = look_of (vc_cons s c)"
      by (rule shows_as_look(1) [OF wrap_shows [OF assms]]) simp
    then have "look_of (vc_cons (wrap_line c s) c) 0 = look_of (vc_cons s c) 0" by simp
    then show ?thesis by (simp add: look_of_def)
  qed
  have key: "lk_key ?lk = erase_key c s" by (simp add: look_of_def)
  consider "32 \<le> ch \<and> ch < 127" | "\<not> (32 \<le> ch \<and> ch < 127)" "ch = 8" "vc_x (vc_cons s c) \<noteq> 0" "\<not> (ch = erase_key c s \<and> ch < 128)"
    | "\<not> (32 \<le> ch \<and> ch < 127)" "ch \<noteq> 8 \<or> vc_x (vc_cons s c) = 0 \<or> ch = erase_key c s \<and> ch < 128" by blast
  then show ?thesis
  proof cases
    case 1
    then have "t_char ?lk ch = t_put ?lk (lk_glyph ?lk (unat ch - 32))" by (simp add: t_char_def fun_eq_iff)
    moreover have "con_char c ch s = put_glyph c (lk_glyph ?lk (unat ch - 32)) (wrap_line c s)"
      using 1 by (simp add: con_char_def signed_byte glyph Let_def)
    ultimately show ?thesis using put_shows [OF assms] by simp
  next
    case 2
    define v' where "v' = (vc_cons s c)\<lparr>vc_pos := vc_pos (vc_cons s c) - 2, vc_x := vc_x (vc_cons s c) - 1\<rparr>"
    have "shows_as c 79 t_back s (mod_vc c (\<lambda>_. v') s)"
      using back_shows(1) [OF assms 2(3), of "mod_vc c (\<lambda>_. v') s" v'] by (simp add: v'_def)
    moreover have "con_char c ch s = mod_vc c (\<lambda>_. v') s"
    proof -
      have "(vc_cons s c)\<lparr>vc_x := vc_x (vc_cons s c) - 1, vc_pos := vc_pos (vc_cons s c) - 2\<rparr> = v'"
        unfolding v'_def by (rule console_struct.equality) simp_all
      moreover have "erase_key c s \<noteq> 8" using 2(2,4) by auto
      then have "uint (erase_key c s) \<noteq> 8" by (simp add: word_uint_eq_iff)
      ultimately show ?thesis using 2 by (simp add: con_char_def erase_key_def mod_vc_def)
    qed
    ultimately have "shows_as c 80 t_back s (con_char c ch s)" by (simp add: shows_as_weaken)
    moreover have "t_char ?lk ch = t_back" using 2 key by (auto simp: t_char_def fun_eq_iff)
    ultimately show ?thesis by simp
  next
    case 3
    let ?V = "view (vc_cons s c) (kmem s)" and ?k = "erase_key c s"
    define P where "P \<longleftrightarrow> ch = ?k \<and> ch < 128"
    have printable: "\<not> (sint ch > 31 \<and> sint ch < 127)" using 3(1) signed_byte(1) by blast
    have con: "con_char c ch s = (if ch = 27 then s else if ch = 10 \<or> ch = 11 \<or> ch = 12 then lf c s
        else if ch = 13 then cr c s else if P then del c s
        else if ch = 8 then if vc_x (vc_cons s c) \<noteq> 0
          then mod_vc c (\<lambda>v. v\<lparr>vc_x := vc_x v - 1, vc_pos := vc_pos v - 2\<rparr>) s else s
        else if ch = 9 then ht c s else s)"
      unfolding con_char_def if_not_P [OF printable] P_def erase_key_def signed_byte(2) ..
    have tch: "t_char ?lk ch ?V = (if ch = 27 then ?V else if ch \<in> {10, 11, 12} then t_lf ?lk ?V
        else if ch = 13 then t_cr ?V else if P then t_del ?lk ?V else if ch = 8 then t_back ?V
        else if ch = 9 then t_ht ?lk ?V else ?V)"
      unfolding t_char_def if_not_P [OF 3(1)] key P_def ..
    consider "ch = 27" | "ch \<in> {10, 11, 12}" | "ch = 13" | "ch \<notin> {27, 10, 11, 12, 13}" "P"
      | "ch = 8" "\<not> P" | "ch = 9" "\<not> P" | "ch \<notin> {27, 10, 11, 12, 13, 8, 9}" "\<not> P" by blast
    then show ?thesis
    proof cases
      case 1
      have "con_char c ch s = s" "t_char ?lk ch ?V = ?V" unfolding con tch using 1 by auto
      then show ?thesis using shows_as_at [OF shows_as_id [OF assms]] by simp
    next
      case 2
      have "con_char c ch s = lf c s" "t_char ?lk ch ?V = t_lf ?lk ?V" unfolding con tch using 2 by auto
      then show ?thesis using shows_as_at [OF lf_shows [OF assms, of ?k]] by simp
    next
      case 3
      have "con_char c ch s = cr c s" "t_char ?lk ch ?V = t_cr ?V" unfolding con tch using 3 by auto
      then show ?thesis using shows_as_at [OF cr_shows [OF assms]] by simp
    next
      case 4
      have "con_char c ch s = del c s" "t_char ?lk ch ?V = t_del ?lk ?V" unfolding con tch using 4 by auto
      then show ?thesis using shows_as_at [OF del_shows [OF assms, of ?k]] by simp
    next
      case 5
      then have x: "vc_x (vc_cons s c) = 0" using 3(2) by (simp add: P_def)
      have same: "t_back ?V = ?V" using x by (simp add: t_back_def view_def)
      have "con_char c ch s = s" "t_char ?lk ch ?V = ?V" unfolding con tch using 5 x same by auto
      then show ?thesis using shows_as_at [OF shows_as_id [OF assms]] by simp
    next
      case 6
      have "con_char c ch s = ht c s" "t_char ?lk ch ?V = t_ht ?lk ?V" unfolding con tch using 6 by auto
      then show ?thesis using shows_as_at [OF shows_as_weaken [OF ht_shows [OF assms, of ?k], of 80]] by simp
    next
      case 7
      have "con_char c ch s = s" "t_char ?lk ch ?V = ?V" unfolding con tch using 7 by auto
      then show ?thesis using shows_as_at [OF shows_as_id [OF assms]] by simp
    qed
  qed
qed

section \<open>Writing to a console\<close>

lemma mod_queue_console [simp]:
  "vc_cons (mod_queue q f s) = vc_cons s" "kmem (mod_queue q f s) = kmem s" "geometry (mod_queue q f s) = geometry s"
  by (simp_all add: mod_queue_def geometry_def)

text \<open>\<open>only_console c s s'\<close>: nothing of the display has changed but the window of console \<open>c\<close>.\<close>

definition only_console :: "nat \<Rightarrow> 'a tty_state_scheme \<Rightarrow> 'a tty_state_scheme \<Rightarrow> bool" where
  "only_console c s s' \<longleftrightarrow> geometry s' \<and> console_ok 80 (vc_cons s' c)
     \<and> (\<forall>d. d \<noteq> c \<longrightarrow> vc_cons s' d = vc_cons s d) \<and> (\<forall>a. \<not> inside (vc_cons s c) a \<longrightarrow> kmem s' a = kmem s a)"

lemma con_loop_shows:
  assumes "geometry s" "console_ok 80 (vc_cons s c)" "tty_stopped (tty_table s c) = 0"
    and "q_ok (tty_queues s q)" "q_items (tty_queues s q) = cs"
  shows "only_console c s (con_loop c q (length cs) s)
    \<and> view (vc_cons (con_loop c q (length cs) s) c) (kmem (con_loop c q (length cs) s))
        = fold (t_char (look_of (vc_cons s c) (erase_key c s))) cs (view (vc_cons s c) (kmem s))
    \<and> q_ok (tty_queues (con_loop c q (length cs) s) q) \<and> q_items (tty_queues (con_loop c q (length cs) s) q) = []"
  using assms
proof (induction cs arbitrary: s)
  case Nil
  then show ?case by (simp add: only_console_def)
next
  case (Cons ch cs)
  let ?x = "tty_queues s q"
  note deq = ttyq.deq_items [OF Cons.prems(4)] ttyq.deq_ok [OF Cons.prems(4)]
  have ch: "fst (q_get ?x) = ch" "q_ok (snd (q_get ?x))" "q_items (snd (q_get ?x)) = cs" using deq Cons.prems(5) by simp_all
  define s1 where "s1 = mod_queue q (\<lambda>x. snd (q_get x)) s"
  define s2 where "s2 = con_char c ch s1"
  have one: "shows_as c 80 (t_char (look_of (vc_cons s c) (erase_key c s)) ch) s1 s2"
    unfolding s2_def using con_char_shows [of s1 c ch] Cons.prems(1,2) by (simp add: s1_def erase_key_def)
  have s2: "geometry s2" "console_ok 80 (vc_cons s2 c)" "look_of (vc_cons s2 c) = look_of (vc_cons s c)"
    "tty_table s2 = tty_table s" "tty_queues s2 q = snd (q_get ?x)" "inside (vc_cons s2 c) = inside (vc_cons s c)"
    "\<And>d. d \<noteq> c \<Longrightarrow> vc_cons s2 d = vc_cons s d" "\<And>a. \<not> inside (vc_cons s c) a \<Longrightarrow> kmem s2 a = kmem s a"
    "view (vc_cons s2 c) (kmem s2) = t_char (look_of (vc_cons s c) (erase_key c s)) ch (view (vc_cons s c) (kmem s))"
    using one by (simp_all add: shows_as_def s1_def)
  have step: "con_loop c q (length (ch # cs)) s = con_loop c q (length cs) s2"
    using Cons.prems(3) ch(1) by (simp add: GETCH_def s2_def s1_def)
  have "erase_key c s2 = erase_key c s" using s2(4) by (simp add: erase_key_def)
  then show ?case unfolding step
    using Cons.IH [OF s2(1,2)] Cons.prems(3) s2 ch(2,3) by (simp add: only_console_def)
qed

text \<open>
  C4. \<^verbatim>\<open>con_write\<close> implements a terminal of 25 lines with 80 cells: it takes all characters that wait in the write queue
  and leaves the screen as the ideal terminal would be after them, although the driver scrolls by moving the
  origin of the screen through its window of the display memory and copies only at the end of the window.
  It writes nowhere outside of the window, and so to no other console. (A terminal that is stopped leaves
  its characters in the queue.)
\<close>

theorem con_write_refines:
  assumes "c < MAX_CONSOLES" "geometry s" "console_ok 80 (vc_cons s c)"
    and "write_q (tty_table s c) = Some q" "q_ok (tty_queues s q)" "tty_stopped (tty_table s c) = 0"
  shows "\<exists>s'. con_write c s = Some s' \<and> only_console c s s' \<and> q_items (tty_queues s' q) = []
    \<and> view (vc_cons s' c) (kmem s')
        = fold (t_char (look_of (vc_cons s c) (erase_key c s))) (q_items (tty_queues s q)) (view (vc_cons s c) (kmem s))"
proof -
  have "con_write c s = Some (set_cursor c (con_loop c q (length (q_items (tty_queues s q))) s))"
    using assms(1,4) q_CHARS_items [OF assms(5)] by (simp add: con_write_def)
  then show ?thesis
    using con_loop_shows [OF assms(2,3,6,5) refl] by (simp add: only_console_def)
qed

section \<open>Messages of the kernel\<close>

definition t_print :: "look \<Rightarrow> u8 \<Rightarrow> screen \<Rightarrow> screen" where
  "t_print lk ch sc =
     (if ch = 10 then t_lf lk (t_cr sc) else if ch = 13 then t_cr sc else if ch = 9 then t_ht lk sc
      else t_put lk ch sc)"

definition print_char :: "nat \<Rightarrow> u8 \<Rightarrow> 'a tty_state_scheme \<Rightarrow> 'a tty_state_scheme" where
  "print_char c ch s = (if ch = 10 then lf c (cr c s) else if ch = 13 then cr c s else if ch = 9 then ht c s
     else put_glyph c ch (wrap_line c s))"

lemma print_char_shows:
  assumes "geometry s" "console_ok 80 (vc_cons s c)"
  shows "shows_as c 80 (t_print (look_of (vc_cons s c) k) ch) s (print_char c ch s)"
proof -
  have "shows_as c 80 (t_lf (look_of (vc_cons (cr c s) c) k)) (cr c s) (lf c (cr c s))"
    by (rule lf_shows) (use shows_as_look [OF cr_shows [OF assms]] in simp_all)
  then have "shows_as c 80 (\<lambda>sc. t_lf (look_of (vc_cons s c) k) (t_cr sc)) s (lf c (cr c s))"
    using shows_as_trans [OF cr_shows [OF assms], of 80 "t_lf (look_of (vc_cons s c) k)"] shows_as_look(1) [OF cr_shows [OF assms]]
    by simp
  then show ?thesis
    using cr_shows [OF assms] put_shows [OF assms, of k ch] shows_as_weaken [OF ht_shows [OF assms, of k], of 80]
    by (auto simp: t_print_def print_char_def shows_as_def)
qed

text \<open>
  C37. \<^verbatim>\<open>console_print\<close>, which shows the messages of \<^verbatim>\<open>printk\<close>, returns for every string that ends with a zero byte and
  lies outside of the window, and shows its characters on the ideal terminal of the console in the foreground.
\<close>

theorem console_print_shows:
  assumes "geometry s" "console_ok 80 (vc_cons s c)" "c = fg_console s"
    and "holds (kmem s) b (cs @ [0])" "0 \<notin> set cs" "\<forall>k\<le>length cs. \<not> inside (vc_cons s c) (b + of_nat k)"
  shows "\<exists>s'. console_print b s = Some s' \<and> only_console c s s'
    \<and> view (vc_cons s' c) (kmem s') = fold (t_print (look_of (vc_cons s c) 0)) cs (view (vc_cons s c) (kmem s))"
proof -
  have "\<exists>s'. console_print_loop c b s = Some s' \<and> only_console c s s'
    \<and> view (vc_cons s' c) (kmem s') = fold (t_print (look_of (vc_cons s c) 0)) cs (view (vc_cons s c) (kmem s))"
    using assms(1,2,4-6)
  proof (induction cs arbitrary: b s)
    case Nil
    then show ?case by (subst console_print_loop.simps) (simp add: holds_def rdb_def only_console_def)
  next
    case (Cons ch cs)
    define s1 where "s1 = print_char c ch s"
    have one: "shows_as c 80 (t_print (look_of (vc_cons s c) 0) ch) s s1"
      unfolding s1_def by (rule print_char_shows [OF Cons.prems(1,2)])
    have s1: "geometry s1" "console_ok 80 (vc_cons s1 c)" "look_of (vc_cons s1 c) = look_of (vc_cons s c)"
      "inside (vc_cons s1 c) = inside (vc_cons s c)" "\<And>d. d \<noteq> c \<Longrightarrow> vc_cons s1 d = vc_cons s d"
      "\<And>a. \<not> inside (vc_cons s c) a \<Longrightarrow> kmem s1 a = kmem s a"
      "view (vc_cons s1 c) (kmem s1) = t_print (look_of (vc_cons s c) 0) ch (view (vc_cons s c) (kmem s))"
      using one by (simp_all add: shows_as_def)
    have apart: "\<forall>k\<le>length cs. \<not> inside (vc_cons s c) (b + 1 + of_nat k)"
      using Cons.prems(5) by (metis Suc_le_mono add.assoc length_Cons of_nat_Suc)
    have "holds (kmem s1) (b + 1) (cs @ [0])"
      using Cons.prems(3) apart s1(6) by (auto simp: holds_def less_Suc_eq_le nth_Cons_Suc algebra_simps)
    then obtain s' where s': "console_print_loop c (b + 1) s1 = Some s'" "only_console c s1 s'"
      "view (vc_cons s' c) (kmem s') = fold (t_print (look_of (vc_cons s1 c) 0)) cs (view (vc_cons s1 c) (kmem s1))"
      using Cons.IH [of s1 "b + 1"] s1 Cons.prems(4) apart by auto
    have "kmem s b = ch" "ch \<noteq> 0" using Cons.prems(3,4) by (auto simp: holds_Cons)
    then have "console_print_loop c b s = Some s'"
      using s'(1) by (subst console_print_loop.simps) (simp add: rdb_def s1_def print_char_def)
    then show ?case using s' s1 by (simp add: only_console_def)
  qed
  then show ?thesis using assms(3) by (auto simp: console_print_def only_console_def)
qed


section \<open>The consoles at the start\<close>

definition placed :: "u32 \<Rightarrow> u32 \<Rightarrow> console_struct \<Rightarrow> console_struct" where
  "placed b e v = v\<lparr>vc_origin := b, vc_video_mem_start := b, vc_scr_end := b + 4000, vc_video_mem_end := e,
     vc_pos := b, vc_x := 0, vc_y := 0\<rparr>"

lemma con_init_loop_places:
  assumes "geometry s" "0 < j"
  shows "geometry (con_init_loop [j..<n] mem base trm s)
    \<and> NR_CONSOLES (con_init_loop [j..<n] mem base trm s) = NR_CONSOLES s
    \<and> vc_cons (con_init_loop [j..<n] mem base trm s) = (\<lambda>c. if j \<le> c \<and> c < n
        then placed (base + of_nat (Suc c - j) * mem) (trm + of_nat (Suc c - j) * mem) (vc_cons s 0) else vc_cons s c)"
  using assms
proof (induction "n - j" arbitrary: j base trm s)
  case (Suc m)
  then have e: "[j..<n] = j # [Suc j..<n]" by (simp add: upt_conv_Cons)
  define s1 where "s1 = mod_vc j (\<lambda>_. (vc_cons s 0)\<lparr>vc_origin := base + mem, vc_video_mem_start := base + mem,
      vc_scr_end := base + mem + video_num_lines s * video_size_row s, vc_video_mem_end := trm + mem\<rparr>) s"
  define s2 where "s2 = gotoxy j 0 0 s1"
  have g1: "geometry s1" "video_size_row s1 = 160" "video_num_lines s1 = 25" "NR_CONSOLES s1 = NR_CONSOLES s"
    using Suc.prems(1) by (simp_all add: s1_def geometry_def mod_vc_def)
  have s2: "geometry s2" "NR_CONSOLES s2 = NR_CONSOLES s" "vc_cons s2 = (vc_cons s)(j := placed (base + mem) (trm + mem) (vc_cons s 0))"
    using g1 Suc.prems(1) by (simp_all add: s2_def gotoxy_def placed_def s1_def geometry_def mod_vc_def)
  have step: "con_init_loop [j..<n] mem base trm s = con_init_loop [Suc j..<n] mem (base + mem) (trm + mem) s2"
    unfolding e by (simp add: s2_def s1_def Let_def)
  have "vc_cons s2 0 = vc_cons s 0" using s2(3) Suc.prems(2) by simp
  then show ?case unfolding step using Suc.hyps(1) [of "Suc j" s2 "base + mem" "trm + mem"] Suc.hyps(2) s2
    by (auto simp: fun_eq_iff Suc_diff_le algebra_simps)
qed (auto simp: fun_eq_iff)

lemma get_init_pos_simps:
  "fst (get_init_pos w s') = fst (get_init_pos w s)" if "n_in s' = n_in s" for s :: "'a sched_scheme" and s' :: "'a sched_scheme"
  using that by (simp add: get_init_pos_def inb_def outb_def)

lemma get_init_pos_frame [simp]:
  "geometry (snd (get_init_pos w s)) = geometry s" "NR_CONSOLES (snd (get_init_pos w s)) = NR_CONSOLES s"
  "vc_cons (snd (get_init_pos w s)) = vc_cons s" "kmem (snd (get_init_pos w s)) = kmem s"
  "video_size_row (snd (get_init_pos w s)) = video_size_row s" "video_num_lines (snd (get_init_pos w s)) = video_num_lines s"
  "video_mem_base (snd (get_init_pos w s)) = video_mem_base s"
  by (simp_all add: get_init_pos_def inb_def outb_def geometry_def)

lemma mod_vc_more [simp]: "NR_CONSOLES (mod_vc c f s) = NR_CONSOLES s" "NR_CONSOLES (out_pos r a s) = NR_CONSOLES s"
  by (simp_all add: mod_vc_def out_pos_def Let_def outb_def)

text \<open>The first console as \<^verbatim>\<open>con_init\<close> leaves it, with the cursor position \<open>tmp\<close> of the controller.\<close>

definition first_console :: "u16 \<Rightarrow> console_struct" where
  "first_console tmp = \<lparr>vc_video_erase_char = 0x0720, vc_attr = 7, vc_origin = 0xB8000, vc_scr_end = 0xB8000 + 4000,
     vc_pos = 0xB8000 + ucast tmp div 80 * 160 + push_bit 1 (ucast tmp mod 80), vc_x = ucast tmp mod 80, vc_y = ucast tmp div 80,
     vc_top = 0, vc_bottom = 25, vc_video_mem_start = 0xB8000, vc_video_mem_end = 0xB9000, vc_translate = translation_table\<rparr>"

lemma con_init_consoles:
  "geometry (con_init w s) \<and> NR_CONSOLES (con_init w s) = 8
    \<and> (\<forall>c<8. vc_cons (con_init w s) c = (let v = first_console (fst (get_init_pos w s)) in
        if c = 0 then v else placed (0xB8000 + of_nat c * 0x1000) (0xB9000 + of_nat c * 0x1000) v))"
proof -
  define s0 where "s0 = s\<lparr>fg_console := 0, video_num_columns := 80, video_mem_base := 0xB8000,
     video_mem_term := 0xC0000, video_size_row := 160, video_num_lines := 25, video_port_reg := 0x3d4, video_port_val := 0x3d5,
     NR_CONSOLES := 8, kmem := (kmem s)(0xB8104 := 0x45, 0xB8106 := 0x47, 0xB8108 := 0x41, 0xB810A := 0x63)\<rparr>"
  define s1 where "s1 = mod_vc 0 (\<lambda>_. first_console (fst (get_init_pos w s))) (snd (get_init_pos w s0))"
  have g0: "geometry s0" by (simp add: s0_def geometry_def)
  have n: "unat ((0xC0000 - 0xB8000 :: u32) div (25 * 160)) = 8" by simp
  have pos: "fst (get_init_pos w s0) = fst (get_init_pos w s)" by (rule get_init_pos_simps) (simp add: s0_def)
  have init: "con_init w s = update_screen (con_init_loop [1..<8] 0x1000 0xB8000 0xB9000 s1)"
    unfolding con_init_def s1_def first_console_def pos [symmetric]
    by (simp add: Let_def split_beta s0_def del: upt_Suc)
  have v0: "vc_cons s1 0 = first_console (fst (get_init_pos w s))" by (simp add: s1_def)
  have "geometry s1" "NR_CONSOLES s1 = 8" using g0 by (simp_all add: s1_def) (simp add: s0_def)
  then show ?thesis
    using con_init_loop_places [of s1 1 8 "0x1000" "0xB8000" "0xB9000"]
    unfolding init by (simp add: update_screen_def set_origin_def set_cursor_def v0 Let_def)
qed

lemma unat_ucast_up: "unat (ucast x :: u32) = unat x" for x :: u16
proof -
  have "unat x < 2 ^ 16" using unsigned_less [of x] by simp
  then show ?thesis by (simp add: unsigned_ucast_eq take_bit_nat_eq_self)
qed

lemma first_console_ok:
  assumes "tmp < 2000"
  shows "console_ok 80 (first_console tmp)"
proof -
  have u: "unat (ucast tmp :: u32) = unat tmp" by (rule unat_ucast_up)
  have y: "unat tmp div 80 < 25" using assms by (simp add: word_less_nat_alt)
  have x: "unat tmp mod 80 \<le> 80" using mod_less_divisor [of 80 "unat tmp"] by linarith
  show ?thesis using x y
    by (simp add: console_ok_def first_console_def unat_div unat_mod u push_bit_eq_mult mult.commute)
qed

lemma console_windows:
  assumes "c < 8"
  shows "unat (0xB8000 + of_nat c * 0x1000 :: u32) = 753664 + 4096 * c"
    "unat (0xB9000 + of_nat c * 0x1000 :: u32) = 753664 + 4096 * (c + 1)"
proof -
  have "(of_nat c * 0x1000 :: u32) = of_nat (c * 4096)" by simp
  moreover have "unat (of_nat (c * 4096) :: u32) = c * 4096" by (rule unat_small) (use assms in simp)
  ultimately have "unat (of_nat c * 0x1000 :: u32) = c * 4096" by argo
  then show "unat (0xB8000 + of_nat c * 0x1000 :: u32) = 753664 + 4096 * c"
    "unat (0xB9000 + of_nat c * 0x1000 :: u32) = 753664 + 4096 * (c + 1)"
    using assms by (subst unat_plus; simp)+
qed

text \<open>
  C38. \<^verbatim>\<open>con_init\<close> sets up eight consoles: when the display controller reports a cursor on the screen, every console has its
  screen in a window of its own and its cursor in the screen, as writing to it requires, and no two
  windows overlap.
\<close>

theorem con_init_separates:
  assumes "fst (get_init_pos w s) < 2000"
  shows "geometry (con_init w s) \<and> NR_CONSOLES (con_init w s) = 8
    \<and> (\<forall>c<8. console_ok 80 (vc_cons (con_init w s) c))
    \<and> (\<forall>c<8. \<forall>d<8. \<forall>a. inside (vc_cons (con_init w s) c) a \<and> inside (vc_cons (con_init w s) d) a \<longrightarrow> c = d)"
proof -
  let ?v = "\<lambda>c. vc_cons (con_init w s) c" and ?f = "first_console (fst (get_init_pos w s))"
  have v: "?v c = (if c = 0 then ?f else placed (0xB8000 + of_nat c * 0x1000) (0xB9000 + of_nat c * 0x1000) ?f)" if "c < 8" for c
    using con_init_consoles [of w s] that by (simp add: Let_def)
  have ok: "console_ok 80 (?v c)" if "c < 8" for c
  proof (cases "c = 0")
    case False
    then show ?thesis using v [OF that] console_windows [OF that] that
      by (simp add: console_ok_def placed_def first_console_def)
  qed (use v [OF that] first_console_ok [OF assms] in simp)
  have "inside (?v c) a \<longleftrightarrow> 753664 + 4096 * c \<le> unat a \<and> unat a < 753664 + 4096 * (c + 1)" if "c < 8" for c a
  proof (cases "c = 0")
    case False
    then show ?thesis using v [OF that] console_windows [OF that]
      by (simp add: inside_def placed_def word_le_nat_alt word_less_nat_alt)
  qed (use v [OF that] in \<open>simp add: inside_def first_console_def word_le_nat_alt word_less_nat_alt\<close>)
  then have "c = d" if "c < 8" "d < 8" "inside (?v c) a" "inside (?v d) a" for c d a
    using that by fastforce
  then show ?thesis using con_init_consoles [of w s] ok by blast
qed

theorem con_init_separates_witness:
  "console_ok 80 (vc_cons (con_init quiet (typed_tty [])) 7)"
  using con_init_separates [of quiet "typed_tty []"] by (simp add: get_init_pos_def inb_def outb_def quiet_def)

section \<open>Examples\<close>

text \<open>A screen with the cursor in the last cell, characters in the write queue and a message at \<open>0x100\<close>.\<close>

definition full_screen :: "u8 list \<Rightarrow> tty_state" where
  "full_screen cs = (typed_tty [])\<lparr>tty_queues := (\<lambda>_. fold q_put cs empty_queue), fg_console := 0, video_num_columns := 80,
     video_size_row := 160, video_num_lines := 25, kmem := (\<lambda>_. 0)(0x100 := 0x41), vc_cons := (\<lambda>_. first_console 1999)\<rparr>"

lemma full_screen_simps [simp]:
  "geometry (full_screen cs)" "vc_cons (full_screen cs) = (\<lambda>_. first_console 1999)"
  "tty_table (full_screen cs) = (\<lambda>_. raw_tty)" "kmem (full_screen cs) = (\<lambda>_. 0)(0x100 := 0x41)"
  "tty_queues (full_screen cs) = (\<lambda>_. fold q_put cs empty_queue)" "fg_console (full_screen cs) = 0"
  by (simp_all add: full_screen_def geometry_def)

lemma last_column: "sc_x (view (first_console 1999) m) = 79"
  by (simp add: view_def first_console_def)

theorem con_write_refines_witness:
  "\<exists>s'. con_write 0 (full_screen [65]) = Some s' \<and> sc_x (view (vc_cons s' 0) (kmem s')) = 80"
proof -
  have q: "q_ok (tty_queues (full_screen [65]) 1)" "q_items (tty_queues (full_screen [65]) 1) = [65]"
    using typed_queue [of "[65]"] by simp_all
  have "\<exists>s'. con_write 0 (full_screen [65]) = Some s' \<and> only_console 0 (full_screen [65]) s' \<and> q_items (tty_queues s' 1) = []
    \<and> view (vc_cons s' 0) (kmem s') = fold (t_char (look_of (vc_cons (full_screen [65]) 0) (erase_key 0 (full_screen [65]))))
        (q_items (tty_queues (full_screen [65]) 1)) (view (vc_cons (full_screen [65]) 0) (kmem (full_screen [65])))"
    by (rule con_write_refines) (use q first_console_ok [of 1999] in \<open>simp_all add: raw_tty_def\<close>)
  then show ?thesis unfolding q(2)
    using last_column by (auto simp: t_char_def t_put_def t_wrap_def set_cell_def Let_def simp del: full_screen_simps(5))
qed

theorem console_print_shows_witness:
  "\<exists>s'. console_print 0x100 (full_screen []) = Some s' \<and> sc_x (view (vc_cons s' 0) (kmem s')) = 80"
proof -
  have "\<exists>s'. console_print 0x100 (full_screen []) = Some s' \<and> only_console 0 (full_screen []) s'
    \<and> view (vc_cons s' 0) (kmem s') = fold (t_print (look_of (vc_cons (full_screen []) 0) 0)) [0x41]
        (view (vc_cons (full_screen []) 0) (kmem (full_screen [])))"
    by (rule console_print_shows)
      (use first_console_ok [of 1999] in \<open>auto simp: holds_def inside_def first_console_def less_Suc_eq le_Suc_eq\<close>)
  then show ?thesis using last_column by (auto simp: t_print_def t_put_def t_wrap_def set_cell_def Let_def)
qed

end
