(* ===== verification/Spec2Isabelle.thy ===== *)
theory Spec2Isabelle
  imports Buffer_Cache Pipe_Queue Select Malloc Boot Block_Alloc Allocator Tasks Screen
begin

text \<open>
  A model of the kernel in \<^verbatim>\<open>src/ver05\<close>, a Linux 0.12 that starts in protected mode from a hard disk, and of
  the shell that is linked into it. Every part that is written in C is translated; the theories follow the
  source files, from the machine up to the start of the kernel.

  \<^bold>\<open>The state.\<close> The global variables of the kernel are one record, which grows along the layers by record
  extension: \<open>sched\<close> (tasks, timers, descriptor tables, memory) \<open>\<subset> blk\<close> (buffer heads, requests) \<open>\<subset> hd\<close> (the
  drives) \<open>\<subset> mm\<close> (page map, swap) \<open>\<subset> files\<close> (inodes, open files) \<open>\<subset> sys\<close> (names, clocks) \<open>\<subset> cache\<close> (free list,
  hash table) \<open>\<subset> fs\<close> (super blocks) \<open>\<subset> tty_state\<close> (terminals, consoles). An operation is polymorphic in what
  lies above its layer, so that the lower parts are used by the higher ones unchanged. A pointer to a task is
  its address; pointers into the static tables of buffers, requests, inodes, files, super blocks and
  terminals are indices, with \<open>None\<close> for the null pointer where it may occur. \<open>kmem\<close> is the memory of the
  kernel by bytes (page tables, buffers, pages), \<open>fs_mem\<close> the memory of the current task, both by 32-bit
  addresses. Wait queues are the variables \<open>wq s q\<close>; a field \<^verbatim>\<open>i_wait\<close> of inode \<open>i\<close> is \<open>wq s (I_wait i)\<close>.

  \<^bold>\<open>Integers.\<close> Numbers with a width that matters are words (\<open>u8\<close>, \<open>u16\<close>, \<open>u32\<close>) with their wrap-around; a
  C \<^verbatim>\<open>int\<close> that only counts is an \<open>int\<close>, cut to 32 bits by \<open>s32\<close> where the code can overflow it.

  \<^bold>\<open>Control.\<close> An operation that may panic, read through a null pointer, leave an array or never return has
  an option as its result, and \<open>None\<close> stands for all of these. Errors the code returns are negative numbers, as in
  the code. A loop that may run for ever is a \<open>partial_function (option)\<close>; no fuel is used, so that a theorem
  that concludes \<open>Some\<close> proves that the loop ends. What is outside of an operation is its
  argument \<open>w\<close>, a \<open>world\<close> (theory \<open>Prelude\<close>): the bytes that the ports deliver, what other tasks and interrupts
  do to the state while the current task sleeps, and the routines behind function pointers. Theorems hold
  for every world, or name what they need of it.

  \<^bold>\<open>The machine and the processes.\<close>
  \<^item> \<open>Prelude\<close>: memory as bytes, the world, error numbers; the lemmas on words, lists and options that all
    theories share, and the collection \<open>kdefs\<close>.
  \<^item> \<open>Descriptors\<close> (\<^verbatim>\<open>lib/system.c\<close>, \<^verbatim>\<open>kernel/sched.c\<close>), \<open>Traps\<close> (\<^verbatim>\<open>kernel/traps.c\<close>): segments and gates. What is
    written into a descriptor is read back.
  \<^item> \<open>Sched\<close> (\<^verbatim>\<open>kernel/sched.c\<close>): \<^verbatim>\<open>schedule\<close> ends and chooses the best task; the sleepers of a queue are a chain
    that one \<^verbatim>\<open>wake_up\<close> wakes completely; \<^verbatim>\<open>add_timer\<close> makes a timer due at its tick, and the later ones late.
  \<^item> \<open>Signal\<close>, \<open>Fork\<close>, \<open>Exit\<close>, \<open>Sys\<close> (\<^verbatim>\<open>kernel/signal.c\<close>, \<^verbatim>\<open>fork.c\<close>, \<^verbatim>\<open>exit.c\<close>, \<^verbatim>\<open>sys.c\<close>): the process tree, which
    the code itself audits (\<^verbatim>\<open>audit_ptree\<close>), is kept by fork, release and the adoption of orphans; process
    numbers are found and unused; signals and user numbers stay within the rights of the caller.
  \<^item> \<open>System_Calls\<close> (\<^verbatim>\<open>kernel/sys_call.s\<close>, \<^verbatim>\<open>include/unistd.h\<close>, the wrappers of \<^verbatim>\<open>lib\<close>): the way of a system call from
    the program through the table and back, with \<^verbatim>\<open>errno\<close>, rescheduling and the delivery of signals.
  \<^item> \<open>Mktime\<close>, \<open>Ctype\<close>, \<open>Strings\<close>, \<open>Vsprintf\<close>, \<open>Malloc\<close> (\<^verbatim>\<open>kernel/mktime.c\<close>, \<^verbatim>\<open>kernel/vsprintf.c\<close>, \<^verbatim>\<open>lib\<close>): the library
    of the kernel, with the calendar, printed numbers and \<^verbatim>\<open>memmove\<close> compared with what they mean.

  \<^bold>\<open>Memory.\<close>
  \<^item> \<open>Swap\<close> (\<^verbatim>\<open>mm/swap.c\<close>): the map of the physical pages and the swap space; a page that is swapped out comes back.
  \<^item> \<open>Allocator\<close>: the contract of whatever hands out numbered things and takes them back, a locale interpreted on
    the pages of \<open>Swap\<close> and on the pages of the swap device; nothing is handed out twice.
  \<^item> \<open>Memory\<close>, \<open>Demand\<close> (\<^verbatim>\<open>mm/memory.c\<close>): page tables. Sharing raises the count of each page and write-protects
    it; writing copies; fork followed by exit restores the page map; \<^verbatim>\<open>write_verify\<close> makes a page writable.
  \<^item> \<open>Exec\<close> (\<^verbatim>\<open>fs/exec.c\<close>): the new address space, arguments and environment.

  \<^bold>\<open>Disks and files.\<close>
  \<^item> \<open>Blk\<close>, \<open>Hd\<close> (\<^verbatim>\<open>kernel/blk_drv\<close>): the queue of requests with its elevator, and the driver with its interrupts,
    retries and bounds.
  \<^item> \<open>Dll\<close>, \<open>Buffer\<close>, \<open>Buffer_Cache\<close> (\<^verbatim>\<open>fs/buffer.c\<close>): the hash chains and the ring of free buffers are segments of
    doubly linked lists (\<open>cache_ok\<close>). \<^verbatim>\<open>buffer_init\<close> makes them, \<^verbatim>\<open>getblk\<close> keeps them and never caches a block
    twice, however often it sleeps; the search agrees with a search of the whole table.
  \<^item> \<open>Super\<close>, \<open>Bitmap\<close>, \<open>Truncate\<close>, \<open>Inode\<close> (\<^verbatim>\<open>fs/super.c\<close>, \<^verbatim>\<open>bitmap.c\<close>, \<^verbatim>\<open>truncate.c\<close>, \<^verbatim>\<open>inode.c\<close>), and \<open>Block_Alloc\<close>, where
    the maps and the cache meet: \<^verbatim>\<open>new_block\<close> takes the first clear bit and \<^verbatim>\<open>free_block\<close> gives it back.
  \<^item> \<open>Namei\<close>, \<open>Directories\<close> (\<^verbatim>\<open>fs/namei.c\<close>): path names and the calls on directory entries.
  \<^item> \<open>Files\<close>, \<open>File_IO\<close>, \<open>File_Ops\<close>, \<open>File_Counts\<close>, \<open>Select\<close> (\<^verbatim>\<open>fs/open.c\<close>, \<^verbatim>\<open>read_write.c\<close>, \<^verbatim>\<open>fcntl.c\<close>, \<^verbatim>\<open>stat.c\<close>, \<^verbatim>\<open>select.c\<close>
    and the others): open files. The count of an open file is the number of descriptors that name it.

  \<^bold>\<open>Terminals and pipes.\<close>
  \<^item> \<open>Console\<close>, \<open>Tty\<close>, \<open>Tty_Ioctl\<close> (\<^verbatim>\<open>kernel/chr_drv\<close>), \<open>Pipe\<close> (\<^verbatim>\<open>fs/pipe.c\<close>). Both kinds of queue are rings of bytes:
    theory \<open>Ring\<close> has their laws as the locales \<open>ring\<close> and \<open>fifo\<close>, which \<open>Pipe_Queue\<close> and \<open>Tty_Queue\<close> interpret on
    the code's operations. What is written to a pipe is read from it, in order; a line that was typed is
    delivered by \<^verbatim>\<open>tty_read\<close>.
  \<^item> \<open>Screen\<close>: the ideal terminal that the console driver of \<open>Console\<close> implements in the memory of the display.

  \<^bold>\<open>Starting.\<close>
  \<^item> \<open>Setup\<close>, \<open>Reports\<close> (\<^verbatim>\<open>kernel/printk.c\<close>, \<^verbatim>\<open>sys02.c\<close>, and what the kernel prints), \<open>Shell\<close> (\<^verbatim>\<open>API/shell.c\<close>), and \<open>Boot\<close>
    (\<^verbatim>\<open>init/main.c\<close>), where the parts come together: after the initialisation the buffer cache, the file table,
    the process tree, the page map, the queues and the gates satisfy the invariants of their theories.
  \<^item> \<open>Tasks\<close> (\<^verbatim>\<open>init/main.c\<close>): task 0, \<^verbatim>\<open>task_init\<close>, \<^verbatim>\<open>sync_task\<close> and \<^verbatim>\<open>shell_task\<close>, which do nothing but system calls; as
    they never end, each is the set of the states at the head of its loop. A line that waits at the console is
    run as the command that its words make up, and the shell's signal makes \<^verbatim>\<open>sync_task\<close> ready to run.

  \<^bold>\<open>Left out.\<close> Assembly code (the entries of the other interrupts, the boot loader, the keyboard)
  appears by the addresses of its routines. The effects of reloading \<^verbatim>\<open>cr3\<close>, of the interrupt flag on the order
  of events, and of delay loops are not modelled: the order of events is what the world says. The build
  tool, the reset through the BIOS and declarations of functions without a body are not part of the model.
\<close>

end
